(* ===== verification/Prelude.thy ===== *)
theory Prelude
  imports Complex_Main "HOL-Library.Sublist" "HOL-Library.AList" "HOL-Library.Multiset"
begin

text \<open>
  Generic material the components share: the collections of facts the proofs refer to, row updates
  in a table, insertion under a unique key, BigInt division, rounding to six decimals as a
  \<open>DECIMAL(38,6)\<close> column does, and substring search.
\<close>

named_theorems io_defs \<comment> \<open>the combinators of the effect monad\<close>
named_theorems quiet_simps \<comment> \<open>what an await does when nothing interferes\<close>
named_theorems hoare_intros \<comment> \<open>rules of the rely logic\<close>
named_theorems evolve_intros \<comment> \<open>which database changes only append\<close>

section \<open>Tables\<close>

definition upd_where :: "('a \<Rightarrow> bool) \<Rightarrow> ('a \<Rightarrow> 'a) \<Rightarrow> 'a list \<Rightarrow> 'a list" where
  "upd_where P f xs = map (\<lambda>x. if P x then f x else x) xs"

lemma upd_where_simps [simp]:
  "upd_where P f [] = []"
  "upd_where P f (x # xs) = (if P x then f x else x) # upd_where P f xs"
  by (simp_all add: upd_where_def)

lemma length_upd_where [simp]: "length (upd_where P f xs) = length xs"
  by (simp add: upd_where_def)

lemma map_upd_where_same:
  assumes "\<And>x. g (f x) = g x"
  shows "map g (upd_where P f xs) = map g xs"
  by (simp add: upd_where_def assms)

lemma in_upd_whereE:
  assumes "y \<in> set (upd_where P f xs)"
  obtains x where "x \<in> set xs" "y = (if P x then f x else x)"
  using assms by (auto simp: upd_where_def)

lemma upd_where_id: "(\<And>x. x \<in> set xs \<Longrightarrow> \<not> P x) \<Longrightarrow> upd_where P f xs = xs"
  by (induction xs) auto

lemma find_SomeD: "find P xs = Some x \<Longrightarrow> x \<in> set xs \<and> P x"
  by (auto simp: find_Some_iff)

lemma find_None_all: "find P xs = None \<longleftrightarrow> (\<forall>x \<in> set xs. \<not> P x)"
  by (auto simp: find_None_iff)

lemma find_key_unique:
  assumes "distinct (map k xs)" "x \<in> set xs"
  shows "find (\<lambda>y. k y = k x) xs = Some x"
  using assms by (induction xs) (auto simp: image_iff)

lemma filter_key_unique:
  assumes "distinct (map k xs)" "x \<in> set xs"
  shows "filter (\<lambda>y. k y = k x) xs = [x]"
  using assms by (induction xs) (auto simp: image_iff filter_empty_conv)

lemma find_upd_where_key:
  assumes "\<And>x. k (f x) = k x"
  shows "find (\<lambda>y. k y = i) (upd_where (\<lambda>y. k y = i) f xs) = map_option f (find (\<lambda>y. k y = i) xs)"
  using assms by (induction xs) auto

lemma find_upd_where_other:
  assumes "\<And>x. k (f x) = k x" "i \<noteq> j"
  shows "find (\<lambda>y. k y = i) (upd_where (\<lambda>y. k y = j) f xs) = find (\<lambda>y. k y = i) xs"
  using assms by (induction xs) auto

lemma find_append: "find P (xs @ ys) = (case find P xs of None \<Rightarrow> find P ys | Some x \<Rightarrow> Some x)"
  by (induction xs) auto

lemma filter_upd_where_frame:
  assumes "\<And>x. Q x \<Longrightarrow> Q (f x) \<and> g (f x) = g x" "\<And>x. P x \<Longrightarrow> \<not> Q x \<Longrightarrow> \<not> Q (f x)"
  shows "map g (filter Q (upd_where P f xs)) = map g (filter Q xs)"
  using assms by (induction xs) auto

lemma sum_list_filter_cons:
  "sum_list (map f (filter P (x # xs))) = (if P x then f x else 0) + sum_list (map f (filter P xs))"
  for f :: "'a \<Rightarrow> rat"
  by simp

section \<open>Numbers\<close>

text \<open>BigInt division truncates towards zero.\<close>

definition big_div :: "int \<Rightarrow> int \<Rightarrow> int" where
  "big_div a b = sgn a * sgn b * (\<bar>a\<bar> div \<bar>b\<bar>)"

lemma big_div_nonneg: "0 \<le> a \<Longrightarrow> 0 < b \<Longrightarrow> big_div a b = a div b"
  by (cases "a = 0") (simp_all add: big_div_def sgn_if)

text \<open>The value a \<open>DECIMAL(38,6)\<close> column holds: half away from zero at the sixth decimal.\<close>

definition dec6 :: "rat \<Rightarrow> rat" where
  "dec6 x = sgn x * (of_int \<lfloor>\<bar>x\<bar> * 1000000 + 1 / 2\<rfloor> / 1000000)"

definition micro :: "rat \<Rightarrow> bool" where
  "micro x \<longleftrightarrow> (\<exists>n::int. x = of_int n / 1000000)"

lemma floor_half: "\<lfloor>of_int n + 1 / 2 :: rat\<rfloor> = n"
  by (rule floor_unique) auto

lemma dec6_micro: "dec6 (of_int n / 1000000) = of_int n / 1000000"
proof -
  have abs: "\<bar>of_int n / 1000000 :: rat\<bar> * 1000000 = of_int \<bar>n\<bar>" by simp
  show ?thesis
    unfolding dec6_def abs floor_half by (cases "n = 0") (auto simp: sgn_if)
qed

lemma dec6_fix: "micro x \<Longrightarrow> dec6 x = x"
  by (auto simp only: micro_def dec6_micro)

lemma micro_of_int [simp]: "micro (of_int n / 1000000)"
  by (auto simp: micro_def)

lemma micro_0 [simp]: "micro 0"
  unfolding micro_def by (rule exI [of _ 0]) simp

lemma micro_dec6 [simp]: "micro (dec6 x)"
proof -
  have "dec6 x = of_int ((if x = 0 then 0 else if 0 < x then 1 else -1)
      * \<lfloor>\<bar>x\<bar> * 1000000 + 1 / 2\<rfloor>) / 1000000"
    by (simp add: dec6_def sgn_if)
  then show ?thesis unfolding micro_def by blast
qed

lemma dec6_idem [simp]: "dec6 (dec6 x) = dec6 x"
  by (simp add: dec6_fix)

lemma micro_add [simp, intro]:
  assumes "micro x" "micro y"
  shows "micro (x + y)"
proof -
  from assms obtain m n :: int where "x = of_int m / 1000000" "y = of_int n / 1000000"
    by (auto simp: micro_def)
  then have "x + y = of_int (m + n) / 1000000" by (simp add: add_divide_distrib)
  then show ?thesis unfolding micro_def by blast
qed

lemma micro_uminus [simp, intro]:
  assumes "micro x"
  shows "micro (- x)"
proof -
  from assms obtain m :: int where "x = of_int m / 1000000" by (auto simp: micro_def)
  then have "- x = of_int (- m) / 1000000" by simp
  then show ?thesis unfolding micro_def by blast
qed

lemma micro_diff [simp, intro]: "micro x \<Longrightarrow> micro y \<Longrightarrow> micro (x - y)"
  using micro_add [of x "- y"] by simp

lemma micro_sum_list: "(\<And>x. x \<in> set xs \<Longrightarrow> micro (f x)) \<Longrightarrow> micro (sum_list (map f xs))"
  by (induction xs) auto

text \<open>Two multiples of the smallest unit that differ by less than it are equal.\<close>

lemma micro_small_zero:
  assumes "micro x" "\<bar>x\<bar> < 1 / 1000000"
  shows "x = 0"
proof -
  from assms(1) obtain n :: int where n: "x = of_int n / 1000000" by (auto simp: micro_def)
  with assms(2) have "of_int \<bar>n\<bar> < (1::rat)" by simp
  then have "n = 0" by (simp only: of_int_less_1_iff)
  with n show ?thesis by simp
qed

section \<open>Substring search\<close>

fun starts_with :: "'a list \<Rightarrow> 'a list \<Rightarrow> bool" where
  "starts_with [] _ = True"
| "starts_with (_ # _) [] = False"
| "starts_with (x # xs) (y # ys) = (x = y \<and> starts_with xs ys)"

fun js_includes :: "'a list \<Rightarrow> 'a list \<Rightarrow> bool" where
  "js_includes [] pat = (pat = [])"
| "js_includes (x # xs) pat = (starts_with pat (x # xs) \<or> js_includes xs pat)"

lemma starts_with_prefix: "starts_with xs ys \<longleftrightarrow> prefix xs ys"
  by (induction xs ys rule: starts_with.induct) auto

lemma includes_sublist: "js_includes xs pat \<longleftrightarrow> sublist pat xs"
  by (induction xs) (auto simp: starts_with_prefix sublist_Cons_right)

lemma includes_mid: "js_includes (a @ pat @ b) pat"
  by (simp add: includes_sublist)

end
