(* ===== verification/Schema.thy ===== *)
theory Schema
  imports Prelude
begin

text \<open>
  The data model: the enums and tables of \<open>prisma/schema.prisma\<close>. Money is a \<open>rat\<close> (the value of a
  \<open>Prisma.Decimal\<close>), nullable columns are options, times are milliseconds. The surrogate keys of
  the ledger, audit and reconciliation tables, which no code reads, are left out.
\<close>

section \<open>Enums\<close>

datatype settlement_status =
    RECEIVED
  | REJECTED_COMPLIANCE
  | COMPLIANCE_APPROVED
  | SUBMITTED
  | CONFIRMED
  | FINAL
  | FAILED

datatype ledger_account = OPERATOR | SETTLED_OUT | GENESIS

datatype ledger_direction = DEBIT | CREDIT

datatype reconciliation_status = MATCHED | MISMATCH

text \<open>\<open>Object.values(SettlementStatus)\<close>, in the order of the enum.\<close>

definition status_values :: "settlement_status list" where
  "status_values = [RECEIVED, REJECTED_COMPLIANCE, COMPLIANCE_APPROVED, SUBMITTED, CONFIRMED,
     FINAL, FAILED]"

lemma status_values_all [simp]: "s \<in> set status_values"
  by (cases s) (simp_all add: status_values_def)

lemma distinct_status_values [simp]: "distinct status_values"
  by (simp add: status_values_def)

text \<open>The status lifecycle runs along the order of the enum.\<close>

primrec status_rank :: "settlement_status \<Rightarrow> nat" where
  "status_rank RECEIVED = 0"
| "status_rank REJECTED_COMPLIANCE = 1"
| "status_rank COMPLIANCE_APPROVED = 2"
| "status_rank SUBMITTED = 3"
| "status_rank CONFIRMED = 4"
| "status_rank FINAL = 5"
| "status_rank FAILED = 6"

lemma status_rank_inj: "status_rank a = status_rank b \<Longrightarrow> a = b"
  by (cases a; cases b) simp_all

instantiation settlement_status :: linorder
begin

definition less_eq_settlement_status :: "settlement_status \<Rightarrow> settlement_status \<Rightarrow> bool" where
  "a \<le> b \<longleftrightarrow> status_rank a \<le> status_rank b"

definition less_settlement_status :: "settlement_status \<Rightarrow> settlement_status \<Rightarrow> bool" where
  "a < b \<longleftrightarrow> status_rank a < status_rank b"

instance
  by standard (auto simp: less_eq_settlement_status_def less_settlement_status_def
      intro: status_rank_inj)

end

definition terminal_status :: "settlement_status \<Rightarrow> bool" where
  "terminal_status s \<longleftrightarrow> s \<in> {REJECTED_COMPLIANCE, FINAL, FAILED}"

section \<open>Tables\<close>

record settlement =
  sid :: string
  instructionId :: string
  toAddress :: string
  amount :: rat
  status :: settlement_status
  txHash :: "string option"
  nonce :: "nat option"
  failureReason :: "string option"
  retryCount :: nat
  confirmedBlockHash :: "string option"
  confirmedBlockNumber :: "int option"
  createdAt :: int
  updatedAt :: int

record ledger_entry =
  le_settlementId :: string
  le_account :: ledger_account
  le_direction :: ledger_direction
  le_amount :: rat
  le_createdAt :: int

record status_transition =
  st_settlementId :: string
  fromStatus :: settlement_status
  toStatus :: settlement_status
  st_txHash :: "string option"
  st_createdAt :: int

record reconciliation_run =
  ledgerBalance :: rat
  chainBalance :: rat
  pendingAmount :: rat
  diff :: rat
  rr_status :: reconciliation_status
  rr_createdAt :: int

record event_payload =
  p_settlementId :: string
  p_instructionId :: string
  p_status :: settlement_status
  p_amount :: string
  p_toAddress :: string
  p_txHash :: "string option"

record outbox_event =
  ob_id :: string
  ob_settlementId :: string
  ob_type :: string
  ob_payload :: event_payload
  ob_createdAt :: int
  ob_publishedAt :: "int option"

record database =
  settlements :: "settlement list"
  ledgerEntries :: "ledger_entry list"
  statusTransitions :: "status_transition list"
  reconciliationRuns :: "reconciliation_run list"
  outboxEvents :: "outbox_event list"

definition empty_db :: database where
  "empty_db = \<lparr>settlements = [], ledgerEntries = [], statusTransitions = [],
     reconciliationRuns = [], outboxEvents = []\<rparr>"

text \<open>Row access by primary key (\<open>findUnique\<close>).\<close>

definition row :: "database \<Rightarrow> string \<Rightarrow> settlement option" where
  "row d i = find (\<lambda>r. sid r = i) (settlements d)"

lemma row_SomeD: "row d i = Some r \<Longrightarrow> r \<in> set (settlements d) \<and> sid r = i"
  by (auto simp: row_def dest: find_SomeD)

lemma row_unique:
  "distinct (map sid (settlements d)) \<Longrightarrow> r \<in> set (settlements d) \<Longrightarrow> row d (sid r) = Some r"
  by (simp add: row_def find_key_unique)

end
