(* ===== verification/Erc20.thy ===== *)
theory Erc20
  imports Prelude "HOL-Library.Word"
begin

text \<open>
  The settlement token: the part of \<open>IERC20\<close> that the escrow and the service call
  (\<open>contracts/contracts/DvPEscrow.sol\<close>, \<open>src/dvp/dvp-escrow.abi.ts\<close>) as an interface with its laws, and
  the repository's own token, \<open>contracts/contracts/MockERC20.sol\<close>, which satisfies them. Amounts are
  \<open>uint256\<close> with the checked arithmetic of Solidity 0.8; a call that reverts leaves no change.
\<close>

type_synonym uint256 = "256 word"
type_synonym uint64 = "64 word"

datatype sol_revert =
    Require string
  | Panic
  | NotSettler
  | BadState
  | DeadlinePassed
  | DeadlineNotReached
  | ZeroAmount
  | TransferFailed

text \<open>The calls a holder makes: the caller first, the state last, the boolean answer in the result.\<close>

record 'tok erc20_ops =
  op_transfer :: "string \<Rightarrow> string \<Rightarrow> uint256 \<Rightarrow> 'tok \<Rightarrow> sol_revert + bool \<times> 'tok"
  op_transferFrom :: "string \<Rightarrow> string \<Rightarrow> string \<Rightarrow> uint256 \<Rightarrow> 'tok \<Rightarrow> sol_revert + bool \<times> 'tok"
  op_approve :: "string \<Rightarrow> string \<Rightarrow> uint256 \<Rightarrow> 'tok \<Rightarrow> sol_revert + bool \<times> 'tok"
  op_allowance :: "'tok \<Rightarrow> string \<Rightarrow> string \<Rightarrow> uint256"
  op_balanceOf :: "'tok \<Rightarrow> string \<Rightarrow> uint256"

definition moved :: "string \<Rightarrow> string \<Rightarrow> nat \<Rightarrow> (string \<Rightarrow> nat) \<Rightarrow> string \<Rightarrow> nat" where
  "moved frm to n b = (if frm = to then b else b(frm := b frm - n, to := b to + n))"

section \<open>The interface\<close>

locale erc20 =
  fixes ops :: "'tok erc20_ops" and good :: "'tok \<Rightarrow> bool"
  assumes transfer_law: "good t \<Longrightarrow> op_transfer ops s to n t = Inr (ok, t') \<Longrightarrow> good t' \<and>
      (\<lambda>a p. op_allowance ops t' a p) = (\<lambda>a p. op_allowance ops t a p) \<and>
      (if ok then unat n \<le> unat (op_balanceOf ops t s) \<and>
         (\<lambda>a. unat (op_balanceOf ops t' a)) = moved s to (unat n) (\<lambda>a. unat (op_balanceOf ops t a))
       else op_balanceOf ops t' = op_balanceOf ops t)"
    and transferFrom_law: "good t \<Longrightarrow> op_transferFrom ops s frm to n t = Inr (ok, t') \<Longrightarrow> good t' \<and>
      unat n \<le> unat (op_allowance ops t frm s) \<and>
      (\<forall>a p. op_allowance ops t' a p \<le> op_allowance ops t a p) \<and>
      (if ok then unat n \<le> unat (op_balanceOf ops t frm) \<and>
         (\<lambda>a. unat (op_balanceOf ops t' a)) = moved frm to (unat n) (\<lambda>a. unat (op_balanceOf ops t a))
       else op_balanceOf ops t' = op_balanceOf ops t)"
    and approve_law: "good t \<Longrightarrow> op_approve ops s sp n t = Inr (ok, t') \<Longrightarrow> good t' \<and>
      op_balanceOf ops t' = op_balanceOf ops t \<and>
      (\<forall>a p. a \<noteq> s \<longrightarrow> op_allowance ops t' a p = op_allowance ops t a p)"
begin

text \<open>Who does not let others spend, and does not call, cannot lose tokens.\<close>

lemma transfer_keeps:
  assumes "good t" "op_transfer ops s to n t = Inr (ok, t')" "a \<noteq> s"
  shows "unat (op_balanceOf ops t a) \<le> unat (op_balanceOf ops t' a)"
proof -
  from transfer_law [OF assms(1,2)] have "unat (op_balanceOf ops t' a) =
      (if ok then moved s to (unat n) (\<lambda>a. unat (op_balanceOf ops t a)) a else unat (op_balanceOf ops t a))"
    by (metis (mono_tags, lifting))
  with assms(3) show ?thesis by (simp add: moved_def)
qed

lemma transferFrom_keeps:
  assumes "good t" "op_transferFrom ops s frm to n t = Inr (ok, t')" "op_allowance ops t a s = 0"
  shows "unat (op_balanceOf ops t a) \<le> unat (op_balanceOf ops t' a)"
proof -
  from transferFrom_law [OF assms(1,2)] have n: "unat n \<le> unat (op_allowance ops t frm s)"
    and b: "unat (op_balanceOf ops t' a) =
      (if ok then moved frm to (unat n) (\<lambda>a. unat (op_balanceOf ops t a)) a else unat (op_balanceOf ops t a))"
    by (metis (mono_tags, lifting))+
  with assms(3) show ?thesis by (cases "frm = a") (simp_all add: moved_def)
qed

end

section \<open>The repository's token\<close>

record mock_erc20 =
  balanceOf_map :: "string \<Rightarrow> uint256"
  allowance_map :: "string \<Rightarrow> string \<Rightarrow> uint256"
  totalSupply :: uint256

definition checked_add :: "uint256 \<Rightarrow> uint256 \<Rightarrow> sol_revert + uint256" where
  "checked_add a b = (if unat a + unat b < 2 ^ 256 then Inr (a + b) else Inl Panic)"

definition mock_mint :: "string \<Rightarrow> uint256 \<Rightarrow> mock_erc20 \<Rightarrow> sol_revert + mock_erc20" where
  "mock_mint to n t = (case checked_add (balanceOf_map t to) n of
     Inl x \<Rightarrow> Inl x
   | Inr b \<Rightarrow> (case checked_add (totalSupply t) n of
       Inl x \<Rightarrow> Inl x
     | Inr s \<Rightarrow> Inr (t\<lparr>balanceOf_map := (balanceOf_map t)(to := b), totalSupply := s\<rparr>)))"

definition mock_approve :: "string \<Rightarrow> string \<Rightarrow> uint256 \<Rightarrow> mock_erc20 \<Rightarrow> sol_revert + bool \<times> mock_erc20" where
  "mock_approve sender spender n t = Inr (True, t\<lparr>allowance_map :=
     (allowance_map t)(sender := (allowance_map t sender)(spender := n))\<rparr>)"

text \<open>\<open>_transfer\<close>: the sender's balance is lowered before the recipient's is raised.\<close>

definition mock_move :: "string \<Rightarrow> string \<Rightarrow> uint256 \<Rightarrow> mock_erc20 \<Rightarrow> sol_revert + mock_erc20" where
  "mock_move frm to n t =
     (if balanceOf_map t frm < n then Inl (Require ''balance'')
      else let b = (balanceOf_map t)(frm := balanceOf_map t frm - n) in
        (case checked_add (b to) n of
           Inl x \<Rightarrow> Inl x
         | Inr c \<Rightarrow> Inr (t\<lparr>balanceOf_map := b(to := c)\<rparr>)))"

definition mock_transfer :: "string \<Rightarrow> string \<Rightarrow> uint256 \<Rightarrow> mock_erc20 \<Rightarrow> sol_revert + bool \<times> mock_erc20" where
  "mock_transfer sender to n t = (case mock_move sender to n t of Inl x \<Rightarrow> Inl x | Inr t' \<Rightarrow> Inr (True, t'))"

definition mock_transferFrom :: "string \<Rightarrow> string \<Rightarrow> string \<Rightarrow> uint256 \<Rightarrow> mock_erc20
    \<Rightarrow> sol_revert + bool \<times> mock_erc20" where
  "mock_transferFrom sender frm to n t = (let a = allowance_map t frm sender in
     if a < n then Inl (Require ''allowance'')
     else let t1 = (if a \<noteq> - 1 then t\<lparr>allowance_map :=
            (allowance_map t)(frm := (allowance_map t frm)(sender := a - n))\<rparr> else t) in
       (case mock_move frm to n t1 of Inl x \<Rightarrow> Inl x | Inr t' \<Rightarrow> Inr (True, t')))"

definition mock_ops :: "mock_erc20 erc20_ops" where
  "mock_ops = \<lparr>op_transfer = mock_transfer, op_transferFrom = mock_transferFrom,
     op_approve = mock_approve, op_allowance = allowance_map, op_balanceOf = balanceOf_map\<rparr>"

lemma mock_ops_sel [simp]:
  "op_transfer mock_ops = mock_transfer" "op_transferFrom mock_ops = mock_transferFrom"
  "op_approve mock_ops = mock_approve" "op_allowance mock_ops = allowance_map"
  "op_balanceOf mock_ops = balanceOf_map"
  by (simp_all add: mock_ops_def)

lemma checked_add_Inr: "checked_add a b = Inr c \<Longrightarrow> unat c = unat a + unat b"
  by (auto simp: checked_add_def unat_word_ariths split: if_splits)

lemma unat_word_sub: "b \<le> a \<Longrightarrow> unat (a - b :: 'a :: len word) = unat a - unat b"
  by (rule unat_sub)

lemma mock_move_Inr:
  assumes "mock_move frm to n t = Inr t'"
  shows "n \<le> balanceOf_map t frm \<and> allowance_map t' = allowance_map t \<and>
    (\<lambda>a. unat (balanceOf_map t' a)) = moved frm to (unat n) (\<lambda>a. unat (balanceOf_map t a))"
proof -
  from assms have n: "n \<le> balanceOf_map t frm"
    by (auto simp: mock_move_def Let_def split: if_splits)
  with assms obtain c where c: "checked_add (((balanceOf_map t)(frm := balanceOf_map t frm - n)) to) n = Inr c"
    and t': "t' = t\<lparr>balanceOf_map := (balanceOf_map t)(frm := balanceOf_map t frm - n, to := c)\<rparr>"
    by (auto simp: mock_move_def Let_def split: if_splits sum.splits)
  have le: "unat n \<le> unat (balanceOf_map t frm)" using n by (simp add: word_le_nat_alt)
  have "unat c = (if frm = to then unat (balanceOf_map t frm) else unat (balanceOf_map t to) + unat n)"
    using checked_add_Inr [OF c] le unat_word_sub [OF n] by (cases "frm = to") auto
  with n le show ?thesis
    by (auto simp: t' moved_def fun_eq_iff unat_word_sub [OF n])
qed

interpretation mock: erc20 mock_ops "\<lambda>t. True"
proof
  fix t s to n ok t'
  assume "op_transfer mock_ops s to n t = Inr (ok, t')"
  then have ok: "ok" and m: "mock_move s to n t = Inr t'"
    by (auto simp: mock_transfer_def split: sum.splits)
  show "True \<and> (\<lambda>a p. op_allowance mock_ops t' a p) = (\<lambda>a p. op_allowance mock_ops t a p) \<and>
      (if ok then unat n \<le> unat (op_balanceOf mock_ops t s) \<and>
         (\<lambda>a. unat (op_balanceOf mock_ops t' a)) = moved s to (unat n) (\<lambda>a. unat (op_balanceOf mock_ops t a))
       else op_balanceOf mock_ops t' = op_balanceOf mock_ops t)"
    using mock_move_Inr [OF m] ok by (simp add: word_le_nat_alt)
next
  fix t s frm to n ok t'
  assume "op_transferFrom mock_ops s frm to n t = Inr (ok, t')"
  then obtain t1 where n: "n \<le> allowance_map t frm s" and ok: "ok" and m: "mock_move frm to n t1 = Inr t'"
    and t1: "t1 = (if allowance_map t frm s \<noteq> - 1 then t\<lparr>allowance_map :=
            (allowance_map t)(frm := (allowance_map t frm)(s := allowance_map t frm s - n))\<rparr> else t)"
    by (auto simp: mock_transferFrom_def Let_def split: sum.splits if_splits)
  have b: "balanceOf_map t1 = balanceOf_map t" by (simp add: t1)
  have "allowance_map t frm s - n \<le> allowance_map t frm s" using n by (rule word_sub_le)
  then have "\<forall>a p. allowance_map t1 a p \<le> allowance_map t a p" by (simp add: t1)
  with mock_move_Inr [OF m] ok n show "True \<and> unat n \<le> unat (op_allowance mock_ops t frm s) \<and>
      (\<forall>a p. op_allowance mock_ops t' a p \<le> op_allowance mock_ops t a p) \<and>
      (if ok then unat n \<le> unat (op_balanceOf mock_ops t frm) \<and>
         (\<lambda>a. unat (op_balanceOf mock_ops t' a)) = moved frm to (unat n) (\<lambda>a. unat (op_balanceOf mock_ops t a))
       else op_balanceOf mock_ops t' = op_balanceOf mock_ops t)"
    by (simp add: b word_le_nat_alt)
next
  fix t s sp n ok t'
  assume "op_approve mock_ops s sp n t = Inr (ok, t')"
  then show "True \<and> op_balanceOf mock_ops t' = op_balanceOf mock_ops t \<and>
      (\<forall>a p. a \<noteq> s \<longrightarrow> op_allowance mock_ops t' a p = op_allowance mock_ops t a p)"
    by (auto simp: mock_approve_def)
qed

end
