(* ===== verification/Escrow.thy ===== *)
theory Escrow
  imports Erc20
begin

text \<open>
  The contract \<open>DvPEscrow\<close> (\<open>contracts/contracts/DvPEscrow.sol\<close>). Its storage is the mapping of deals (the
  zero deal where nothing was funded), its events a list, and it holds a token state, which it reaches
  through the interface of \<open>Erc20\<close>. A call is a function on this state that reverts or changes it.
  The token is assumed not to call back into the escrow.
\<close>

datatype deal_state = NoDeal | Funded | Released | Refunded

record deal =
  depositor :: string
  beneficiary :: string
  deal_amount :: uint256
  deadline :: uint64
  deal_state :: deal_state

definition zero_deal :: deal where
  "zero_deal = \<lparr>depositor = [], beneficiary = [], deal_amount = 0, deadline = 0, deal_state = NoDeal\<rparr>"

datatype escrow_event =
    FundedEv string string string uint256 uint64
  | ReleasedEv string string uint256
  | RefundedEv string string uint256

fun ev_deal :: "escrow_event \<Rightarrow> string" where
  "ev_deal (FundedEv i dep ben n dl) = i"
| "ev_deal (ReleasedEv i ben n) = i"
| "ev_deal (RefundedEv i dep n) = i"

record 'tok evm =
  tok :: 'tok
  deals :: "string \<Rightarrow> deal"
  events :: "escrow_event list"

text \<open>The immutable values: \<open>address(this)\<close> and the settler.\<close>

record escrow_site =
  self :: string
  settler :: string

type_synonym 'tok call_result = "sol_revert + 'tok evm"

text \<open>Blocks have a \<open>uint256\<close> time; a deadline is widened for the comparison.\<close>

definition time_of :: "uint64 \<Rightarrow> uint256" where
  "time_of dl = ucast dl"

section \<open>The functions of the contract\<close>

definition pay :: "'tok erc20_ops \<Rightarrow> escrow_site \<Rightarrow> string \<Rightarrow> uint256 \<Rightarrow> escrow_event
    \<Rightarrow> 'tok evm \<Rightarrow> 'tok call_result" where
  "pay ops c to n ev s = (case op_transfer ops (self c) to n (tok s) of
     Inl x \<Rightarrow> Inl x
   | Inr (ok, t) \<Rightarrow> if \<not> ok then Inl TransferFailed else Inr (s\<lparr>tok := t, events := events s @ [ev]\<rparr>))"

definition fund :: "'tok erc20_ops \<Rightarrow> escrow_site \<Rightarrow> string \<Rightarrow> uint256 \<Rightarrow> string \<Rightarrow> string \<Rightarrow> uint256
    \<Rightarrow> uint64 \<Rightarrow> 'tok evm \<Rightarrow> 'tok call_result" where
  "fund ops c sender now i ben n dl s =
     (if n = 0 then Inl ZeroAmount
      else if time_of dl \<le> now then Inl DeadlinePassed
      else if deal_state (deals s i) \<noteq> NoDeal then Inl BadState
      else let s1 = s\<lparr>deals := (deals s)(i := \<lparr>depositor = sender, beneficiary = ben,
                 deal_amount = n, deadline = dl, deal_state = Funded\<rparr>)\<rparr> in
        (case op_transferFrom ops (self c) sender (self c) n (tok s1) of
           Inl x \<Rightarrow> Inl x
         | Inr (ok, t) \<Rightarrow> if \<not> ok then Inl TransferFailed
             else Inr (s1\<lparr>tok := t, events := events s1 @ [FundedEv i sender ben n dl]\<rparr>)))"

definition set_state :: "string \<Rightarrow> deal_state \<Rightarrow> 'tok evm \<Rightarrow> 'tok evm" where
  "set_state i st s = s\<lparr>deals := (deals s)(i := (deals s i)\<lparr>deal_state := st\<rparr>)\<rparr>"

definition release :: "'tok erc20_ops \<Rightarrow> escrow_site \<Rightarrow> string \<Rightarrow> uint256 \<Rightarrow> string \<Rightarrow> 'tok evm
    \<Rightarrow> 'tok call_result" where
  "release ops c sender now i s = (let d = deals s i in
     if sender \<noteq> settler c then Inl NotSettler
     else if deal_state d \<noteq> Funded then Inl BadState
     else if time_of (deadline d) < now then Inl DeadlinePassed
     else pay ops c (beneficiary d) (deal_amount d) (ReleasedEv i (beneficiary d) (deal_amount d))
            (set_state i Released s))"

definition refund :: "'tok erc20_ops \<Rightarrow> escrow_site \<Rightarrow> string \<Rightarrow> uint256 \<Rightarrow> string \<Rightarrow> 'tok evm
    \<Rightarrow> 'tok call_result" where
  "refund ops c sender now i s = (let d = deals s i in
     if deal_state d \<noteq> Funded then Inl BadState
     else if now \<le> time_of (deadline d) then Inl DeadlineNotReached
     else pay ops c (depositor d) (deal_amount d) (RefundedEv i (depositor d) (deal_amount d))
            (set_state i Refunded s))"

definition cancel :: "'tok erc20_ops \<Rightarrow> escrow_site \<Rightarrow> string \<Rightarrow> uint256 \<Rightarrow> string \<Rightarrow> 'tok evm
    \<Rightarrow> 'tok call_result" where
  "cancel ops c sender now i s = (let d = deals s i in
     if sender \<noteq> settler c then Inl NotSettler
     else if deal_state d \<noteq> Funded then Inl BadState
     else pay ops c (depositor d) (deal_amount d) (RefundedEv i (depositor d) (deal_amount d))
            (set_state i Refunded s))"

definition escrow_getDeal :: "string \<Rightarrow> 'tok evm \<Rightarrow> deal" where
  "escrow_getDeal i s = deals s i"

section \<open>Transactions\<close>

text \<open>The calls an account can send: to the escrow, or to the token.\<close>

datatype evm_call =
    Fund string string uint256 uint64
  | Release string
  | Refund string
  | Cancel string
  | Approve string uint256
  | Transfer string uint256
  | TransferFrom string string uint256

definition token_call :: "sol_revert + bool \<times> 'tok \<Rightarrow> 'tok evm \<Rightarrow> 'tok call_result" where
  "token_call r s = (case r of Inl x \<Rightarrow> Inl x | Inr (ok, t) \<Rightarrow> Inr (s\<lparr>tok := t\<rparr>))"

fun exec :: "'tok erc20_ops \<Rightarrow> escrow_site \<Rightarrow> string \<Rightarrow> uint256 \<Rightarrow> evm_call \<Rightarrow> 'tok evm \<Rightarrow> 'tok call_result" where
  "exec ops c sender now (Fund i ben n dl) s = fund ops c sender now i ben n dl s"
| "exec ops c sender now (Release i) s = release ops c sender now i s"
| "exec ops c sender now (Refund i) s = refund ops c sender now i s"
| "exec ops c sender now (Cancel i) s = cancel ops c sender now i s"
| "exec ops c sender now (Approve sp n) s = token_call (op_approve ops sender sp n (tok s)) s"
| "exec ops c sender now (Transfer to n) s = token_call (op_transfer ops sender to n (tok s)) s"
| "exec ops c sender now (TransferFrom frm to n) s =
     token_call (op_transferFrom ops sender frm to n (tok s)) s"

text \<open>
  The states of a deployed escrow: it starts without deals and without allowances of its own, and changes
  by the calls of accounts other than itself, at any times. A call that reverts changes nothing.
\<close>

inductive evm_run :: "'tok erc20_ops \<Rightarrow> escrow_site \<Rightarrow> ('tok \<Rightarrow> bool) \<Rightarrow> 'tok evm \<Rightarrow> bool"
  for ops c good where
  deployed: "good t \<Longrightarrow> (\<And>p. op_allowance ops t (self c) p = 0) \<Longrightarrow>
    evm_run ops c good \<lparr>tok = t, deals = (\<lambda>_. zero_deal), events = []\<rparr>"
| call: "evm_run ops c good s \<Longrightarrow> sender \<noteq> self c \<Longrightarrow> exec ops c sender now k s = Inr s' \<Longrightarrow>
    evm_run ops c good s'"

inductive_cases evm_runE: "evm_run ops c good s"

section \<open>The invariant\<close>

definition funded :: "'tok evm \<Rightarrow> string set" where
  "funded s = {i. deal_state (deals s i) = Funded}"

definition locked :: "'tok evm \<Rightarrow> nat" where
  "locked s = (\<Sum>i \<in> funded s. unat (deal_amount (deals s i)))"

text \<open>The events of a deal are exactly its history: funding, then one payment, to the party it is due to.\<close>

definition deal_history :: "string \<Rightarrow> deal \<Rightarrow> escrow_event list" where
  "deal_history i d = (let f = FundedEv i (depositor d) (beneficiary d) (deal_amount d) (deadline d) in
     case deal_state d of
       NoDeal \<Rightarrow> []
     | Funded \<Rightarrow> [f]
     | Released \<Rightarrow> [f, ReleasedEv i (beneficiary d) (deal_amount d)]
     | Refunded \<Rightarrow> [f, RefundedEv i (depositor d) (deal_amount d)])"

definition escrow_inv :: "'tok erc20_ops \<Rightarrow> escrow_site \<Rightarrow> ('tok \<Rightarrow> bool) \<Rightarrow> 'tok evm \<Rightarrow> bool" where
  "escrow_inv ops c good s \<longleftrightarrow> good (tok s) \<and> finite (funded s) \<and>
     locked s \<le> unat (op_balanceOf ops (tok s) (self c)) \<and>
     (\<forall>p. op_allowance ops (tok s) (self c) p = 0) \<and>
     (\<forall>i. filter (\<lambda>ev. ev_deal ev = i) (events s) = deal_history i (deals s i))"

lemma funded_set_state: "st \<noteq> Funded \<Longrightarrow> funded (set_state i st s) = funded s - {i}"
  by (auto simp: funded_def set_state_def)

lemma locked_set_state:
  assumes "finite (funded s)" "deal_state (deals s i) = Funded" "st \<noteq> Funded"
  shows "locked s = locked (set_state i st s) + unat (deal_amount (deals s i))"
proof -
  have "i \<in> funded s" using assms(2) by (simp add: funded_def)
  moreover have "(\<Sum>j \<in> funded s - {i}. unat (deal_amount (deals (set_state i st s) j))) =
      (\<Sum>j \<in> funded s - {i}. unat (deal_amount (deals s j)))"
    by (rule sum.cong) (auto simp: set_state_def)
  ultimately show ?thesis
    by (simp add: locked_def funded_set_state [OF assms(3)] sum.remove [OF assms(1)])
qed

lemma locked_token [simp]: "locked (s\<lparr>tok := t\<rparr>) = locked s" "funded (s\<lparr>tok := t\<rparr>) = funded s"
  "locked (s\<lparr>tok := t, events := es\<rparr>) = locked s" "funded (s\<lparr>tok := t, events := es\<rparr>) = funded s"
  by (simp_all add: locked_def funded_def)

context erc20 begin

text \<open>A payment out of the escrow.\<close>

lemma pay_inv:
  assumes inv: "escrow_inv ops c good s" and st: "deal_state (deals s i) = Funded" "st \<noteq> Funded"
    and p: "pay ops c to (deal_amount (deals s i)) ev (set_state i st s) = Inr s'"
    and ev: "deal_history i ((deals s i)\<lparr>deal_state := st\<rparr>) = deal_history i (deals s i) @ [ev]" "ev_deal ev = i"
  shows "escrow_inv ops c good s'"
proof -
  let ?n = "deal_amount (deals s i)" and ?s1 = "set_state i st s"
  from p obtain t where t: "op_transfer ops (self c) to ?n (tok s) = Inr (True, t)"
    and s': "s' = ?s1\<lparr>tok := t, events := events s @ [ev]\<rparr>"
    by (auto simp: pay_def set_state_def split: sum.splits if_splits)
  have good: "good (tok s)" and fin: "finite (funded s)" and sol: "locked s \<le> unat (op_balanceOf ops (tok s) (self c))"
    and al: "\<forall>p. op_allowance ops (tok s) (self c) p = 0"
    and hist: "\<forall>j. filter (\<lambda>ev. ev_deal ev = j) (events s) = deal_history j (deals s j)"
    using inv by (simp_all add: escrow_inv_def)
  from transfer_law [OF good t] have g': "good t" and al': "op_allowance ops t = op_allowance ops (tok s)"
    and b: "(\<lambda>a. unat (op_balanceOf ops t a)) = moved (self c) to (unat ?n) (\<lambda>a. unat (op_balanceOf ops (tok s) a))"
    by simp_all
  have "unat (op_balanceOf ops (tok s) (self c)) \<le> unat (op_balanceOf ops t (self c)) + unat ?n"
    using fun_cong [OF b, of "self c"] by (simp add: moved_def split: if_splits)
  with sol locked_set_state [OF fin st] have "locked ?s1 \<le> unat (op_balanceOf ops t (self c))" by simp
  moreover have "finite (funded ?s1)" using fin by (simp add: funded_set_state [OF st(2)])
  moreover have "filter (\<lambda>ev. ev_deal ev = j) (events s') = deal_history j (deals s' j)" for j
    using hist ev by (auto simp: s' set_state_def)
  ultimately show ?thesis using g' al al' by (simp add: escrow_inv_def s')
qed

lemma release_inv:
  "escrow_inv ops c good s \<Longrightarrow> release ops c sender now i s = Inr s' \<Longrightarrow> escrow_inv ops c good s'"
  by (auto simp: release_def Let_def deal_history_def split: if_splits elim!: pay_inv [rotated 3])

lemma refund_inv:
  "escrow_inv ops c good s \<Longrightarrow> refund ops c sender now i s = Inr s' \<Longrightarrow> escrow_inv ops c good s'"
  by (auto simp: refund_def Let_def deal_history_def split: if_splits elim!: pay_inv [rotated 3])

lemma cancel_inv:
  "escrow_inv ops c good s \<Longrightarrow> cancel ops c sender now i s = Inr s' \<Longrightarrow> escrow_inv ops c good s'"
  by (auto simp: cancel_def Let_def deal_history_def split: if_splits elim!: pay_inv [rotated 3])

lemma fund_inv:
  assumes inv: "escrow_inv ops c good s" and f: "fund ops c sender now i ben n dl s = Inr s'" and "sender \<noteq> self c"
  shows "escrow_inv ops c good s'"
proof -
  let ?d = "\<lparr>depositor = sender, beneficiary = ben, deal_amount = n, deadline = dl, deal_state = Funded\<rparr>"
  have new: "deal_state (deals s i) = NoDeal" using f by (auto simp: fund_def Let_def split: if_splits)
  with f obtain t where t: "op_transferFrom ops (self c) sender (self c) n (tok s) = Inr (True, t)"
    and s': "s' = s\<lparr>tok := t, deals := (deals s)(i := ?d), events := events s @ [FundedEv i sender ben n dl]\<rparr>"
    by (auto simp: fund_def Let_def split: if_splits sum.splits)
  have good: "good (tok s)" and fin: "finite (funded s)" and sol: "locked s \<le> unat (op_balanceOf ops (tok s) (self c))"
    and al: "\<forall>p. op_allowance ops (tok s) (self c) p = 0"
    and hist: "\<forall>j. filter (\<lambda>ev. ev_deal ev = j) (events s) = deal_history j (deals s j)"
    using inv by (simp_all add: escrow_inv_def)
  from transferFrom_law [OF good t] have g': "good t"
    and al': "\<forall>a p. op_allowance ops t a p \<le> op_allowance ops (tok s) a p"
    and b: "(\<lambda>a. unat (op_balanceOf ops t a)) =
        moved sender (self c) (unat n) (\<lambda>a. unat (op_balanceOf ops (tok s) a))" by simp_all
  have bal: "unat (op_balanceOf ops t (self c)) = unat (op_balanceOf ops (tok s) (self c)) + unat n"
    using fun_cong [OF b, of "self c"] assms(3) by (simp add: moved_def)
  have fs: "funded s' = insert i (funded s)" and i: "i \<notin> funded s" using new by (auto simp: s' funded_def)
  have "(\<Sum>j \<in> funded s. unat (deal_amount (deals s' j))) = locked s"
    unfolding locked_def using i by (intro sum.cong) (auto simp: s')
  then have "locked s' = locked s + unat n" using fin i by (simp add: locked_def fs) (simp add: s')
  with sol bal have "locked s' \<le> unat (op_balanceOf ops (tok s') (self c))" by (simp add: s')
  moreover have "op_allowance ops t (self c) p = 0" for p using al al' by (metis word_le_0_iff)
  moreover have "filter (\<lambda>ev. ev_deal ev = j) (events s') = deal_history j (deals s' j)" for j
    using hist new by (auto simp: s' deal_history_def)
  ultimately show ?thesis using g' fin by (simp add: escrow_inv_def fs) (simp add: s')
qed

text \<open>Calls of the token by other accounts.\<close>

lemma token_inv:
  assumes inv: "escrow_inv ops c good s" and "sender \<noteq> self c"
    and k: "r \<in> {op_approve ops sender a n (tok s), op_transfer ops sender a n (tok s),
      op_transferFrom ops sender b a n (tok s)}" and s': "token_call r s = Inr s'"
  shows "escrow_inv ops c good s'"
proof -
  from s' obtain ok t where r: "r = Inr (ok, t)" and s': "s' = s\<lparr>tok := t\<rparr>"
    by (auto simp: token_call_def split: sum.splits)
  have good: "good (tok s)" and sol: "locked s \<le> unat (op_balanceOf ops (tok s) (self c))"
    and al: "\<forall>p. op_allowance ops (tok s) (self c) p = 0"
    using inv by (simp_all add: escrow_inv_def)
  from k consider (approve) "op_approve ops sender a n (tok s) = Inr (ok, t)"
    | (transfer) "op_transfer ops sender a n (tok s) = Inr (ok, t)"
    | (spend) "op_transferFrom ops sender b a n (tok s) = Inr (ok, t)" using r by auto
  then have "good t \<and> (\<forall>p. op_allowance ops t (self c) p = 0) \<and>
      unat (op_balanceOf ops (tok s) (self c)) \<le> unat (op_balanceOf ops t (self c))"
  proof cases
    case approve
    from approve_law [OF good this] assms(2) al show ?thesis by simp
  next
    case transfer
    have "op_allowance ops t = op_allowance ops (tok s)" "good t" using transfer_law [OF good transfer] by simp_all
    with al transfer_keeps [OF good transfer, of "self c"] assms(2) show ?thesis by simp
  next
    case spend
    have "op_allowance ops t (self c) p \<le> 0" "good t" for p
      using transferFrom_law [OF good spend] al by (metis, simp)
    with transferFrom_keeps [OF good spend, of "self c"] al show ?thesis by (simp add: word_le_0_iff)
  qed
  with inv sol show ?thesis by (simp add: escrow_inv_def s')
qed

lemma exec_inv:
  "escrow_inv ops c good s \<Longrightarrow> sender \<noteq> self c \<Longrightarrow> exec ops c sender now k s = Inr s' \<Longrightarrow> escrow_inv ops c good s'"
  by (cases k) (auto intro: fund_inv release_inv refund_inv cancel_inv token_inv)

lemma evm_run_inv: "evm_run ops c good s \<Longrightarrow> escrow_inv ops c good s"
proof (induction rule: evm_run.induct)
  case (deployed t)
  have "funded \<lparr>tok = t, deals = \<lambda>_. zero_deal, events = []\<rparr> = {}" by (simp add: funded_def zero_deal_def)
  with deployed show ?case by (simp add: escrow_inv_def locked_def deal_history_def zero_deal_def)
qed (rule exec_inv)

end

end
