(* ===== verification/Io.thy ===== *)
theory Io
  imports Schema Escrow
begin

text \<open>
  The effects of the service's handlers. A handler is a function from an environment and the world
  (database, process memory, metrics) to a result or an exception and the new world. The
  environment holds what the process does not control, as a function of the number of awaits the
  handler has made: the answers of the RPC node, database outages, crashes, the clock, generated
  keys, and what the other tasks of the event loop do while this one waits. Third-party functions
  (ethers, decimal.js) are the parameters collected in \<open>lib\<close>.
\<close>

section \<open>Exceptions\<close>

text \<open>
  \<open>Thrown\<close> is any error object with its \<open>code\<close> (when that is a string) and its message;
  \<open>PrismaKnown\<close> a \<open>PrismaClientKnownRequestError\<close>; \<open>HttpExn\<close> a NestJS HTTP exception with its
  status, error name and message. \<open>Crash\<close> is the death of the process at an await: no handler
  of the code sees it.
\<close>

datatype exn =
    Thrown "string option" string
  | PrismaKnown string string
  | HttpExn int string string
  | Crash

definition P2002 :: exn where
  "P2002 = PrismaKnown ''P2002'' ''Unique constraint failed''"

definition P2003 :: exn where
  "P2003 = PrismaKnown ''P2003'' ''Foreign key constraint violated''"

definition P2025 :: exn where
  "P2025 = PrismaKnown ''P2025'' ''Record to update not found''"

section \<open>The RPC node\<close>

text \<open>
  Beside the calls of the rail proper, the node serves the escrow: the time of the latest block, the
  time of the block a call runs in, and whether it refuses a read, a transaction or a wait.
\<close>

record receipt =
  rc_status :: int
  rc_blockHash :: string
  rc_blockNumber :: int
  rc_gasUsed :: int
  rc_gasPrice :: int

record tx_info =
  ti_nonce :: nat
  ti_gasLimit :: "int option"
  ti_maxFeePerGas :: "int option"
  ti_maxPriorityFeePerGas :: "int option"

record fee_data =
  fd_maxFeePerGas :: "int option"
  fd_maxPriorityFeePerGas :: "int option"

text \<open>A call of \<open>transfer(to, units, overrides)\<close> on the USDC contract.\<close>

record tx_request =
  rq_to :: string
  rq_units :: int
  rq_nonce :: nat
  rq_gasLimit :: int
  rq_maxFeePerGas :: int
  rq_maxPriorityFeePerGas :: int

record rpc =
  getTransactionReceipt :: "string \<Rightarrow> exn + receipt option"
  getTransaction :: "string \<Rightarrow> exn + tx_info option"
  getTransactionCount :: "exn + nat" \<comment> \<open>of the operator, at \<open>pending\<close>\<close>
  getBlockNumber :: "exn + int"
  getFeeData :: "exn + fee_data"
  balanceOf :: "exn + int" \<comment> \<open>of the operator\<close>
  rpc_estimateGas :: "string \<Rightarrow> int \<Rightarrow> exn + int"
  rpc_transfer :: "tx_request \<Rightarrow> exn + string"
  getBlockTime :: "exn + int option"
  rpc_decimals :: "exn + nat" \<comment> \<open>of the USDC contract\<close>
  blockTime :: uint256
  ethCall :: "exn option"
  sendTx :: "string \<Rightarrow> evm_call \<Rightarrow> nat \<Rightarrow> exn + string"
  waitTx :: "exn option"

text \<open>A transaction an account has sent to the escrow or the token; the outcome once it is mined.\<close>

record pending_tx =
  pt_hash :: string
  pt_from :: string
  pt_nonce :: nat
  pt_call :: evm_call
  pt_ok :: "bool option"

section \<open>Parameters\<close>

record lib =
  dround :: "rat \<Rightarrow> rat" \<comment> \<open>rounding of a \<open>Decimal\<close> result to the library's precision\<close>
  newDecimal :: "string \<Rightarrow> rat option" \<comment> \<open>\<open>new Prisma.Decimal(s)\<close>; None when it throws\<close>
  decToString :: "rat \<Rightarrow> string" \<comment> \<open>\<open>Decimal.toString\<close>\<close>
  parseUnits :: "string \<Rightarrow> nat \<Rightarrow> exn + int"
  formatUnits :: "int \<Rightarrow> nat \<Rightarrow> string"
  getAddress :: "string \<Rightarrow> string option" \<comment> \<open>ethers \<open>getAddress\<close>; None when it throws\<close>
  keccakUtf8 :: "string \<Rightarrow> string" \<comment> \<open>\<open>keccak256(toUtf8Bytes(s))\<close>\<close>

record config =
  confirmationsConfirmed :: int
  confirmationsFinal :: int
  stuckTxSeconds :: int
  maxRetries :: nat
  dvpEscrowAddress :: "string option"

section \<open>The world\<close>

record inflight_tx =
  if_settlementId :: string
  if_nonce :: nat
  if_gasLimit :: int
  if_maxFeePerGas :: int
  if_maxPriorityFeePerGas :: int
  if_lastSubmittedAt :: int
  if_attempts :: nat

datatype spawned_task = RunWorker | ProcessByTxHash string

record metrics =
  m_broadcasts :: nat
  m_gasWei :: int
  m_reconRuns :: "reconciliation_status \<Rightarrow> nat"
  m_reconMismatches :: nat
  m_reorgs :: nat
  m_queueDepth :: nat
  m_settlementsByStatus :: "settlement_status \<Rightarrow> nat"

text \<open>
  The process: the relayer's queue, in-flight map (a JavaScript \<open>Map\<close>, an association list in
  insertion order), local nonce and flags, the guards of the periodic tasks, the chain service's
  decimals and operator address. \<open>broadcastLog\<close> records every \<open>transfer\<close> call with the hash when it was accepted,
  \<open>sleeps\<close> the back-off delays, \<open>published\<close> the events given to the broker: traces of the
  process's outputs that properties refer to and no code reads. \<open>evm\<close> and \<open>pool\<close> are not the process's:
  the escrow and its token on the chain, and the transactions sent to them. \<open>tick\<close> counts the awaits.
\<close>

record world =
  db :: database
  queue :: "string list"
  inflight :: "(string \<times> inflight_tx) list"
  localNonce :: nat
  workerRunning :: bool
  draining :: bool
  sweepRunning :: bool
  polling :: bool
  relayRunning :: bool
  decimals :: nat
  operatorAddress :: string
  metrics :: metrics
  spawned :: "spawned_task list"
  broadcastLog :: "(tx_request \<times> string option) list"
  sleeps :: "int list"
  published :: "outbox_event list"
  evm :: "mock_erc20 evm"
  pool :: "pending_tx list"
  tick :: nat

record env =
  lib :: lib
  cfg :: config
  rpc :: "nat \<Rightarrow> rpc"
  now :: "nat \<Rightarrow> int"
  uuid :: "nat \<Rightarrow> string"
  dbErr :: "nat \<Rightarrow> exn option" \<comment> \<open>the database refuses the call\<close>
  crash :: "nat \<Rightarrow> bool"
  others :: "nat \<Rightarrow> world \<Rightarrow> world" \<comment> \<open>the other tasks, while this one awaits\<close>
  scan :: "settlement list \<Rightarrow> settlement list" \<comment> \<open>the order of an unordered query\<close>
  usdc :: "mock_erc20 erc20_ops" \<comment> \<open>the token contract\<close>
  escrowSettler :: string \<comment> \<open>the settler the escrow was deployed with\<close>

section \<open>Combinators\<close>

type_synonym 'a io = "env \<Rightarrow> world \<Rightarrow> (exn + 'a) \<times> world"

definition ret :: "'a \<Rightarrow> 'a io" where [io_defs]:
  "ret x = (\<lambda>e w. (Inr x, w))"

definition throw :: "exn \<Rightarrow> 'a io" where [io_defs]:
  "throw x = (\<lambda>e w. (Inl x, w))"

definition await :: "'a io \<Rightarrow> ('a \<Rightarrow> 'b io) \<Rightarrow> 'b io" where [io_defs]:
  "await m k = (\<lambda>e w. case m e w of (Inl x, w') \<Rightarrow> (Inl x, w') | (Inr a, w') \<Rightarrow> k a e w')"

definition andThen :: "'a io \<Rightarrow> 'b io \<Rightarrow> 'b io" where [io_defs]:
  "andThen m k = await m (\<lambda>_. k)"

definition tryCatch :: "'a io \<Rightarrow> (exn \<Rightarrow> 'a io) \<Rightarrow> 'a io" where [io_defs]:
  "tryCatch m h = (\<lambda>e w. case m e w of
     (Inl x, w') \<Rightarrow> (if x = Crash then (Inl Crash, w') else h x e w')
   | (Inr a, w') \<Rightarrow> (Inr a, w'))"

text \<open>\<open>finally\<close> with a synchronous block.\<close>

definition tryFinally :: "'a io \<Rightarrow> (world \<Rightarrow> world) \<Rightarrow> 'a io" where [io_defs]:
  "tryFinally m f = (\<lambda>e w. case m e w of
     (Inl x, w') \<Rightarrow> (if x = Crash then (Inl Crash, w') else (Inl x, f w'))
   | (Inr a, w') \<Rightarrow> (Inr a, f w'))"

definition gets :: "(env \<Rightarrow> world \<Rightarrow> 'a) \<Rightarrow> 'a io" where [io_defs]:
  "gets f = (\<lambda>e w. (Inr (f e w), w))"

text \<open>A synchronous change of the process's memory.\<close>

definition modify :: "(world \<Rightarrow> world) \<Rightarrow> unit io" where [io_defs]:
  "modify f = (\<lambda>e w. (Inr (), f w))"

definition lift_result :: "exn + 'a \<Rightarrow> 'a io" where [io_defs]:
  "lift_result r = (\<lambda>e w. (r, w))"

fun for_each :: "'a list \<Rightarrow> ('a \<Rightarrow> unit io) \<Rightarrow> unit io" where
  "for_each [] body = ret ()"
| "for_each (x # xs) body = andThen (body x) (for_each xs body)"

text \<open>Control returns to the event loop: the process may die, or other tasks run.\<close>

definition yield :: "unit io" where
  "yield = (\<lambda>e w. if crash e (tick w) then (Inl Crash, w)
     else (Inr (), (others e (tick w) w)\<lparr>tick := Suc (tick w)\<rparr>))"

text \<open>A call of the RPC node.\<close>

definition rpc_call :: "(rpc \<Rightarrow> exn + 'a) \<Rightarrow> 'a io" where
  "rpc_call f = andThen yield (await (\<lambda>e w. (f (rpc e (tick w)), w))
     (\<lambda>x. andThen yield (ret x)))"

text \<open>
  One database query or \<open>$transaction\<close>: it is refused, or runs atomically at one moment between
  the call and its answer; a transaction that throws leaves the database as it was.
\<close>

type_synonym 'a tx = "database \<Rightarrow> exn + ('a \<times> database)"

definition run_tx :: "(env \<Rightarrow> nat \<Rightarrow> 'a tx) \<Rightarrow> 'a io" where
  "run_tx f = (\<lambda>e w. case dbErr e (tick w) of
     Some x \<Rightarrow> (Inl x, w)
   | None \<Rightarrow> (case f e (tick w) (db w) of
       Inl x \<Rightarrow> (Inl x, w)
     | Inr (a, d) \<Rightarrow> (Inr a, w\<lparr>db := d\<rparr>)))"

definition db_tx :: "(env \<Rightarrow> nat \<Rightarrow> 'a tx) \<Rightarrow> 'a io" where
  "db_tx f = andThen yield (await (run_tx f) (\<lambda>x. andThen yield (ret x)))"

definition db_read :: "(env \<Rightarrow> database \<Rightarrow> 'a) \<Rightarrow> 'a io" where
  "db_read f = db_tx (\<lambda>e n d. Inr (f e d, d))"

section \<open>Evaluation\<close>

lemma run_simps:
  "ret x e w = (Inr x, w)"
  "throw y e w = (Inl y, w)"
  "await m k e w = (case m e w of (Inl z, w') \<Rightarrow> (Inl z, w') | (Inr a, w') \<Rightarrow> k a e w')"
  "andThen m n e w = (case m e w of (Inl z, w') \<Rightarrow> (Inl z, w') | (Inr a, w') \<Rightarrow> n e w')"
  "tryCatch n h e w = (case n e w of
     (Inl z, w') \<Rightarrow> (if z = Crash then (Inl Crash, w') else h z e w') | (Inr a, w') \<Rightarrow> (Inr a, w'))"
  "gets f e w = (Inr (f e w), w)"
  "modify g e w = (Inr (), g w)"
  by (simp_all add: io_defs)

section \<open>Runs without interference\<close>

definition quiet :: "env \<Rightarrow> bool" where
  "quiet e \<longleftrightarrow> (\<forall>n w. others e n w = w) \<and> (\<forall>n. dbErr e n = None) \<and> (\<forall>n. \<not> crash e n)"

lemma quiet_yield [quiet_simps]: "quiet e \<Longrightarrow> yield e w = (Inr (), w\<lparr>tick := Suc (tick w)\<rparr>)"
  by (simp add: yield_def quiet_def)

lemma quiet_rpc_call [quiet_simps]:
  "quiet e \<Longrightarrow> rpc_call f e w = (case f (rpc e (Suc (tick w))) of
     Inl x \<Rightarrow> (Inl x, w\<lparr>tick := Suc (tick w)\<rparr>)
   | Inr a \<Rightarrow> (Inr a, w\<lparr>tick := Suc (Suc (tick w))\<rparr>))"
  by (simp add: rpc_call_def quiet_yield io_defs split: sum.split)

lemma quiet_db_tx [quiet_simps]:
  "quiet e \<Longrightarrow> db_tx f e w = (case f e (Suc (tick w)) (db w) of
     Inl x \<Rightarrow> (Inl x, w\<lparr>tick := Suc (tick w)\<rparr>)
   | Inr (a, d) \<Rightarrow> (Inr a, w\<lparr>db := d, tick := Suc (Suc (tick w))\<rparr>))"
  by (simp add: db_tx_def quiet_yield io_defs run_tx_def split: sum.split prod.split)
     (auto simp: quiet_def)

lemma quiet_db_read [quiet_simps]:
  "quiet e \<Longrightarrow> db_read f e w = (Inr (f e (db w)), w\<lparr>tick := Suc (Suc (tick w))\<rparr>)"
  by (simp add: db_read_def quiet_db_tx)

end
