(* ===== verification/SettlementState.thy ===== *)
theory SettlementState
  imports Io
begin

text \<open>
  \<open>SettlementStateService\<close> (\<open>src/settlement-state/settlement-state.service.ts\<close>): the settlement
  repository. Each operation is the atomic database step it performs, as a function on the
  database, and the effectful call of it. The lemmas say what each step does on every branch.
\<close>

section \<open>Constants and options\<close>

definition IN_FLIGHT_STATUSES :: "settlement_status list" where
  "IN_FLIGHT_STATUSES = [RECEIVED, COMPLIANCE_APPROVED, SUBMITTED, CONFIRMED]"

definition PENDING_STATUSES :: "settlement_status list" where
  "PENDING_STATUSES = [SUBMITTED, CONFIRMED]"

fun OUTBOX_EVENT_TYPES :: "settlement_status \<Rightarrow> string option" where
  "OUTBOX_EVENT_TYPES SUBMITTED = Some ''settlement.submitted''"
| "OUTBOX_EVENT_TYPES CONFIRMED = Some ''settlement.confirmed''"
| "OUTBOX_EVENT_TYPES FINAL = Some ''settlement.final''"
| "OUTBOX_EVENT_TYPES FAILED = Some ''settlement.failed''"
| "OUTBOX_EVENT_TYPES _ = None"

definition GENESIS_INSTRUCTION_ID :: string where
  "GENESIS_INSTRUCTION_ID = ''__genesis_opening_balance__''"

text \<open>
  \<open>TransitionOptions\<close>: an absent field is None; a nullable field that is present holds an option.
\<close>

record transition_options =
  o_txHash :: "string option option"
  o_nonce :: "nat option option"
  o_failureReason :: "string option option"
  o_retryCount :: "nat option"
  o_confirmedBlockHash :: "string option option"
  o_confirmedBlockNumber :: "int option option"
  expectedFrom :: "settlement_status list option"

definition no_opts :: transition_options where
  "no_opts = \<lparr>o_txHash = None, o_nonce = None, o_failureReason = None, o_retryCount = None,
     o_confirmedBlockHash = None, o_confirmedBlockNumber = None, expectedFrom = None\<rparr>"

section \<open>create\<close>

definition create_tx :: "int \<Rightarrow> string \<Rightarrow> string \<Rightarrow> string \<Rightarrow> rat \<Rightarrow> settlement_status option
    \<Rightarrow> settlement tx" where
  "create_tx t newId instr to amt st d =
     (if (\<exists>r \<in> set (settlements d). sid r = newId \<or> instructionId r = instr) then Inl P2002
      else (let r = \<lparr>sid = newId, instructionId = instr, toAddress = to, amount = dec6 amt,
              status = (case st of None \<Rightarrow> RECEIVED | Some s \<Rightarrow> s), txHash = None, nonce = None,
              failureReason = None, retryCount = 0, confirmedBlockHash = None,
              confirmedBlockNumber = None, createdAt = t, updatedAt = t\<rparr>
            in Inr (r, d\<lparr>settlements := settlements d @ [r]\<rparr>)))"

definition state_create :: "string \<Rightarrow> string \<Rightarrow> rat \<Rightarrow> settlement_status option \<Rightarrow> settlement io" where
  "state_create instr to amt st = db_tx (\<lambda>e n. create_tx (now e n) (uuid e n) instr to amt st)"

section \<open>Queries\<close>

definition by_instruction :: "database \<Rightarrow> string \<Rightarrow> settlement option" where
  "by_instruction d i = find (\<lambda>r. instructionId r = i) (settlements d)"

definition by_statuses :: "database \<Rightarrow> settlement_status list \<Rightarrow> settlement list" where
  "by_statuses d sts = filter (\<lambda>r. status r \<in> set sts) (settlements d)"

definition findById :: "string \<Rightarrow> settlement option io" where
  "findById i = db_read (\<lambda>e d. row d i)"

definition findByInstructionId :: "string \<Rightarrow> settlement option io" where
  "findByInstructionId i = db_read (\<lambda>e d. by_instruction d i)"

definition findByTxHash :: "string \<Rightarrow> settlement option io" where
  "findByTxHash h = db_read (\<lambda>e d.
     (case scan e (filter (\<lambda>r. txHash r = Some h) (settlements d)) of [] \<Rightarrow> None | r # _ \<Rightarrow> Some r))"

definition findByStatuses :: "settlement_status list \<Rightarrow> settlement list io" where
  "findByStatuses sts = db_read (\<lambda>e d. scan e (by_statuses d sts))"

definition transitions_of :: "database \<Rightarrow> string \<Rightarrow> status_transition list" where
  "transitions_of d i = filter (\<lambda>t. st_settlementId t = i) (statusTransitions d)"

definition state_getTransitions :: "string \<Rightarrow> status_transition list io" where
  "state_getTransitions i = db_read (\<lambda>e d. sort_key st_createdAt (transitions_of d i))"

definition listRecent :: "settlement list io" where
  "listRecent = db_read (\<lambda>e d. sort_key (\<lambda>r. - createdAt r)
     (filter (\<lambda>r. instructionId r \<noteq> ''__genesis_opening_balance__'') (settlements d)))"

text \<open>The database's \<open>_sum\<close> is null when no row matches.\<close>

definition sum_of :: "rat list \<Rightarrow> rat option" where
  "sum_of xs = (if xs = [] then None else Some (sum_list xs))"

definition sum_in :: "database \<Rightarrow> settlement_status list \<Rightarrow> rat" where
  "sum_in d sts = (case sum_of (map amount (by_statuses d sts)) of None \<Rightarrow> 0 | Some a \<Rightarrow> a)"

definition sumByStatuses :: "settlement_status list \<Rightarrow> rat io" where
  "sumByStatuses sts = db_read (\<lambda>e d. sum_in d sts)"

definition counts :: "database \<Rightarrow> settlement_status \<Rightarrow> nat option" where
  "counts d s = (let n = length (filter (\<lambda>r. status r = s \<and>
       instructionId r \<noteq> ''__genesis_opening_balance__'') (settlements d))
     in if n = 0 then None else Some n)"

definition countByStatus :: "(settlement_status \<Rightarrow> nat option) io" where
  "countByStatus = db_read (\<lambda>e d. counts d)"

section \<open>transition\<close>

definition apply_opts :: "int \<Rightarrow> settlement_status \<Rightarrow> transition_options \<Rightarrow> settlement \<Rightarrow> settlement" where
  "apply_opts t to opts r = r\<lparr>
     status := to,
     txHash := (case o_txHash opts of None \<Rightarrow> txHash r | Some v \<Rightarrow> v),
     nonce := (case o_nonce opts of None \<Rightarrow> nonce r | Some v \<Rightarrow> v),
     failureReason := (case o_failureReason opts of None \<Rightarrow> failureReason r | Some v \<Rightarrow> v),
     retryCount := (case o_retryCount opts of None \<Rightarrow> retryCount r | Some v \<Rightarrow> v),
     confirmedBlockHash :=
       (case o_confirmedBlockHash opts of None \<Rightarrow> confirmedBlockHash r | Some v \<Rightarrow> v),
     confirmedBlockNumber :=
       (case o_confirmedBlockNumber opts of None \<Rightarrow> confirmedBlockNumber r | Some v \<Rightarrow> v),
     updatedAt := t\<rparr>"

definition payload_of :: "(rat \<Rightarrow> string) \<Rightarrow> settlement_status \<Rightarrow> settlement \<Rightarrow> event_payload" where
  "payload_of str to r = \<lparr>p_settlementId = sid r, p_instructionId = instructionId r, p_status = to,
     p_amount = str (amount r), p_toAddress = toAddress r, p_txHash = txHash r\<rparr>"

text \<open>
  The three writes of the transaction: the row, the audit row, and the outbox row of a status
  that has an event type (whose key must be new).
\<close>

definition write_transition :: "(rat \<Rightarrow> string) \<Rightarrow> int \<Rightarrow> string \<Rightarrow> settlement_status
    \<Rightarrow> transition_options \<Rightarrow> settlement \<Rightarrow> database \<Rightarrow> database" where
  "write_transition str t evId to opts cur d =
     (let nxt = apply_opts t to opts cur in
      d\<lparr>settlements := upd_where (\<lambda>r. sid r = sid cur) (apply_opts t to opts) (settlements d),
        statusTransitions := statusTransitions d @
          [\<lparr>st_settlementId = sid cur, fromStatus = status cur, toStatus = to,
            st_txHash = (case o_txHash opts of Some (Some h) \<Rightarrow> Some h | _ \<Rightarrow> txHash cur),
            st_createdAt = t\<rparr>],
        outboxEvents := outboxEvents d @ (case OUTBOX_EVENT_TYPES to of None \<Rightarrow> [] | Some ty \<Rightarrow>
          [\<lparr>ob_id = evId, ob_settlementId = sid cur, ob_type = ty,
            ob_payload = payload_of str to nxt, ob_createdAt = t, ob_publishedAt = None\<rparr>])\<rparr>)"

definition transition_tx :: "(rat \<Rightarrow> string) \<Rightarrow> int \<Rightarrow> string \<Rightarrow> string \<Rightarrow> settlement_status
    \<Rightarrow> transition_options \<Rightarrow> settlement option tx" where
  "transition_tx str t evId i to opts d =
     (case row d i of
        None \<Rightarrow> Inl (Thrown None (''Settlement '' @ i @ '' not found for transition''))
      | Some current \<Rightarrow>
          (if (case expectedFrom opts of None \<Rightarrow> False | Some from \<Rightarrow> status current \<notin> set from)
           then Inr (None, d)
           else if OUTBOX_EVENT_TYPES to \<noteq> None \<and> evId \<in> set (map ob_id (outboxEvents d))
           then Inl P2002
           else Inr (Some (apply_opts t to opts current),
                     write_transition str t evId to opts current d)))"

definition transition :: "string \<Rightarrow> settlement_status \<Rightarrow> transition_options
    \<Rightarrow> settlement option io" where
  "transition i to opts =
     db_tx (\<lambda>e n. transition_tx (decToString (lib e)) (now e n) (uuid e n) i to opts)"

section \<open>recordResend\<close>

definition resend_tx :: "int \<Rightarrow> string \<Rightarrow> string \<Rightarrow> nat \<Rightarrow> settlement tx" where
  "resend_tx t i h n d =
     (case row d i of
        None \<Rightarrow> Inl P2025
      | Some cur \<Rightarrow>
          (let f = (\<lambda>r. r\<lparr>txHash := Some h, retryCount := n, updatedAt := t\<rparr>) in
           Inr (f cur, d\<lparr>settlements := upd_where (\<lambda>r. sid r = i) f (settlements d)\<rparr>)))"

definition recordResend :: "string \<Rightarrow> string \<Rightarrow> nat \<Rightarrow> settlement io" where
  "recordResend i h n = db_tx (\<lambda>e k. resend_tx (now e k) i h n)"

section \<open>Facts about the steps\<close>

lemma apply_opts_simps [simp]:
  "sid (apply_opts t to opts r) = sid r"
  "instructionId (apply_opts t to opts r) = instructionId r"
  "toAddress (apply_opts t to opts r) = toAddress r"
  "amount (apply_opts t to opts r) = amount r"
  "status (apply_opts t to opts r) = to"
  "createdAt (apply_opts t to opts r) = createdAt r"
  by (simp_all add: apply_opts_def)

lemma sum_in_sum_list: "sum_in d sts = sum_list (map amount (by_statuses d sts))"
  by (simp add: sum_in_def sum_of_def)

lemma transition_tx_cases:
  assumes "transition_tx str t ev i to opts d = Inr (res, d')"
  obtains (guarded) cur fs where "row d i = Some cur" "expectedFrom opts = Some fs"
      "status cur \<notin> set fs" "res = None" "d' = d"
  | (moved) cur where "row d i = Some cur"
      "\<And>fs. expectedFrom opts = Some fs \<Longrightarrow> status cur \<in> set fs"
      "OUTBOX_EVENT_TYPES to \<noteq> None \<Longrightarrow> ev \<notin> set (map ob_id (outboxEvents d))"
      "res = Some (apply_opts t to opts cur)" "d' = write_transition str t ev to opts cur d"
proof (cases "row d i")
  case None
  with assms show thesis by (simp add: transition_tx_def)
next
  case (Some cur)
  show thesis
  proof (cases "\<exists>fs. expectedFrom opts = Some fs \<and> status cur \<notin> set fs")
    case True
    then obtain fs where fs: "expectedFrom opts = Some fs" "status cur \<notin> set fs" by blast
    with assms Some have "res = None" "d' = d" by (simp_all add: transition_tx_def)
    with Some fs show thesis by (rule guarded)
  next
    case False
    then have ok: "\<not> (case expectedFrom opts of None \<Rightarrow> False | Some fs \<Rightarrow> status cur \<notin> set fs)"
      by (auto split: option.split)
    with assms Some have "\<not> (OUTBOX_EVENT_TYPES to \<noteq> None \<and> ev \<in> set (map ob_id (outboxEvents d)))"
      by (auto simp: transition_tx_def simp del: set_map)
    with assms Some ok False moved show thesis by (auto simp: transition_tx_def simp del: set_map)
  qed
qed

lemma transition_tx_ok:
  assumes "row d i = Some cur" "\<And>fs. expectedFrom opts = Some fs \<Longrightarrow> status cur \<in> set fs"
    and "OUTBOX_EVENT_TYPES to \<noteq> None \<Longrightarrow> ev \<notin> set (map ob_id (outboxEvents d))"
  shows "transition_tx str t ev i to opts d =
    Inr (Some (apply_opts t to opts cur), write_transition str t ev to opts cur d)"
  using assms by (auto simp: transition_tx_def split: option.splits)

lemma transition_tx_guarded:
  assumes "row d i = Some cur" "expectedFrom opts = Some fs" "status cur \<notin> set fs"
  shows "transition_tx str t ev i to opts d = Inr (None, d)"
  using assms by (simp add: transition_tx_def)

lemma no_opts_sel [simp]:
  "o_txHash no_opts = None" "o_nonce no_opts = None" "o_failureReason no_opts = None"
  "o_retryCount no_opts = None" "o_confirmedBlockHash no_opts = None"
  "o_confirmedBlockNumber no_opts = None" "expectedFrom no_opts = None"
  by (simp_all add: no_opts_def)

lemma resend_tx_cases:
  assumes "resend_tx t i h n d = Inr (r, d')"
  obtains cur where "row d i = Some cur"
      "r = cur\<lparr>txHash := Some h, retryCount := n, updatedAt := t\<rparr>"
      "d' = d\<lparr>settlements := upd_where (\<lambda>r. sid r = i)
         (\<lambda>r. r\<lparr>txHash := Some h, retryCount := n, updatedAt := t\<rparr>) (settlements d)\<rparr>"
  using assms by (auto simp: resend_tx_def Let_def split: option.splits)

lemma create_tx_cases:
  assumes "create_tx t new instr to amt st d = Inr (r, d')"
  obtains "d' = d\<lparr>settlements := settlements d @ [r]\<rparr>" "sid r = new" "instructionId r = instr"
      "toAddress r = to" "amount r = dec6 amt" "status r = (case st of None \<Rightarrow> RECEIVED | Some s \<Rightarrow> s)"
      "new \<notin> sid ` set (settlements d)" "instr \<notin> instructionId ` set (settlements d)"
proof -
  from assms have "\<not> (\<exists>r \<in> set (settlements d). sid r = new \<or> instructionId r = instr)"
    by (auto simp: create_tx_def split: if_splits)
  then have "new \<notin> sid ` set (settlements d)" "instr \<notin> instructionId ` set (settlements d)" by auto
  with assms that show thesis by (auto simp: create_tx_def Let_def split: if_splits)
qed

text \<open>Reads after a write, as the handlers see them.\<close>

lemma row_write_transition [simp]:
  "row (write_transition str t ev to opts cur d) i =
     (if i = sid cur then map_option (apply_opts t to opts) (row d i) else row d i)"
  by (simp add: write_transition_def row_def Let_def find_upd_where_key find_upd_where_other)

lemma ledger_write_transition [simp]:
  "ledgerEntries (write_transition str t ev to opts cur d) = ledgerEntries d"
  by (simp add: write_transition_def Let_def)

lemma row_create:
  assumes "create_tx t new instr to amt st d = Inr (r, d')"
  shows "row d' i = (if i = new then Some r else row d i)"
  using assms
proof (cases rule: create_tx_cases)
  case 1
  then have "find (\<lambda>r. sid r = new) (settlements d) = None" unfolding find_None_all by blast
  with 1 show ?thesis by (auto simp: row_def find_append split: option.split)
qed

end
