(* ===== verification/Chain.thy ===== *)
theory Chain
  imports Io
begin

text \<open>
  \<open>ChainService\<close> (\<open>src/chain/chain.service.ts\<close>): the amounts at the boundary with the chain, the
  reads of the node the other services use, and the reconnection delay of the event socket.
  \<open>parseUnits\<close>, \<open>formatUnits\<close> and the \<open>Decimal\<close> constructor are parameters; \<open>units_ok\<close> is what
  the code relies on of them.
\<close>

section \<open>Amounts\<close>

definition newDecimal_io :: "string \<Rightarrow> rat io" where
  "newDecimal_io s = (\<lambda>e w. case newDecimal (lib e) s of
     None \<Rightarrow> (Inl (Thrown None (''[DecimalError] Invalid argument: '' @ s)), w)
   | Some a \<Rightarrow> (Inr a, w))"

definition toBaseUnits :: "rat \<Rightarrow> int io" where
  "toBaseUnits a = (\<lambda>e w. (parseUnits (lib e) (decToString (lib e) a) (decimals w), w))"

definition fromBaseUnits :: "int \<Rightarrow> rat io" where
  "fromBaseUnits units = await (gets (\<lambda>e w. formatUnits (lib e) units (decimals w))) newDecimal_io"

section \<open>Reads\<close>

definition getCurrentBlock :: "int io" where
  "getCurrentBlock = rpc_call getBlockNumber"

definition getChainBalance :: "rat io" where
  "getChainBalance = await (rpc_call balanceOf) (\<lambda>raw.
     await (gets (\<lambda>e w. formatUnits (lib e) raw (decimals w))) newDecimal_io)"

section \<open>Boot\<close>

text \<open>
  \<open>onModuleInit\<close>: the decimals of the token, which stay at their default when the node does not answer. The
  operator address is the signer's; the first connection of the event socket is \<open>wss_init\<close> of \<open>Wss\<close>.
\<close>

definition chain_onModuleInit :: "unit io" where
  "chain_onModuleInit = tryCatch (await (rpc_call rpc_decimals) (\<lambda>n. modify (\<lambda>w. w\<lparr>decimals := n\<rparr>)))
     (\<lambda>err. ret ())"

lemma quiet_chain_init:
  assumes "quiet e" "\<And>k. rpc_decimals (rpc e k) = r" "r \<noteq> Inl Crash"
  shows "\<exists>k. chain_onModuleInit e w = (Inr (), w\<lparr>decimals := (case r of Inr n \<Rightarrow> n | Inl _ \<Rightarrow> decimals w), tick := k\<rparr>)"
proof (cases r)
  case (Inl x)
  with assms show ?thesis
    by (intro exI [of _ "Suc (tick w)"]) (simp add: chain_onModuleInit_def run_simps quiet_rpc_call [OF assms(1)])
next
  case (Inr n)
  with assms show ?thesis
    by (intro exI [of _ "Suc (Suc (tick w))"]) (simp add: chain_onModuleInit_def run_simps quiet_rpc_call [OF assms(1)])
qed

section \<open>Reconnection\<close>

text \<open>The delay before the \<open>n\<close>th reconnection attempt, counted from 1.\<close>

definition reconnect_delay :: "nat \<Rightarrow> int" where
  "reconnect_delay n = min (1000 * 2 ^ (n - 1)) 30000"

lemma reconnect_delay_bounds: "1000 \<le> reconnect_delay n \<and> reconnect_delay n \<le> 30000"
  by (simp add: reconnect_delay_def)

lemma reconnect_delay_mono: "m \<le> n \<Longrightarrow> reconnect_delay m \<le> reconnect_delay n"
proof -
  assume "m \<le> n"
  then have "(2::int) ^ (m - 1) \<le> 2 ^ (n - 1)" by (simp add: power_increasing)
  then show ?thesis by (simp add: reconnect_delay_def min_le_iff_disj)
qed

section \<open>What the code relies on\<close>

text \<open>
  The documented meaning of the parameters: \<open>formatUnits\<close> makes the decimal numeral of the base units, which
  \<open>new Decimal\<close> reads exactly; \<open>Decimal.toString\<close> makes a plain numeral of a value below 10^21 with at most
  six decimals (others may come out in exponent notation), of which \<open>parseUnits\<close> gives the base units.
\<close>

definition units_ok :: "lib \<Rightarrow> bool" where
  "units_ok l \<longleftrightarrow>
     (\<forall>n k. newDecimal l (formatUnits l n k) = Some (of_int n / 10 ^ k)) \<and>
     (\<forall>n k. k \<le> 6 \<longrightarrow> \<bar>n\<bar> < 10 ^ (21 + k) \<longrightarrow> parseUnits l (decToString l (of_int n / 10 ^ k)) k = Inr n)"

text \<open>
  \<open>Decimal\<close> arithmetic is exact on results of at most 20 significant digits; for six decimals that
  is below one hundred trillion.
\<close>

definition dround_ok :: "lib \<Rightarrow> bool" where
  "dround_ok l \<longleftrightarrow> (\<forall>x. micro x \<longrightarrow> \<bar>x\<bar> < 100000000000000 \<longrightarrow> dround l x = x)"

end
