(* ===== verification/Ledger.thy ===== *)
theory Ledger
  imports SettlementState Chain
begin

text \<open>
  \<open>LedgerService\<close> (\<open>src/ledger/ledger.service.ts\<close>): the append-only double-entry ledger. Each
  transaction is a function on the database; the lemmas show what booking, the opening snapshot and
  the balance queries do, and the well-formedness of the ledger every transaction keeps.
\<close>

section \<open>Writing entries\<close>

text \<open>\<open>@@unique([settlementId, account])\<close> and the foreign key of \<open>LedgerEntry\<close>.\<close>

definition insert_entry :: "ledger_entry \<Rightarrow> unit tx" where
  "insert_entry l d =
     (if (\<exists>m \<in> set (ledgerEntries d). le_settlementId m = le_settlementId l
            \<and> le_account m = le_account l) then Inl P2002
      else if row d (le_settlementId l) = None then Inl P2003
      else Inr ((), d\<lparr>ledgerEntries := ledgerEntries d @ [l\<lparr>le_amount := dec6 (le_amount l)\<rparr>]\<rparr>))"

definition book_tx :: "int \<Rightarrow> string \<Rightarrow> rat \<Rightarrow> unit tx" where
  "book_tx t i value d =
     (case insert_entry \<lparr>le_settlementId = i, le_account = OPERATOR, le_direction = DEBIT,
             le_amount = value, le_createdAt = t\<rparr> d of
        Inl x \<Rightarrow> Inl x
      | Inr (_, d1) \<Rightarrow>
          insert_entry \<lparr>le_settlementId = i, le_account = SETTLED_OUT, le_direction = CREDIT,
             le_amount = value, le_createdAt = t\<rparr> d1)"

fun isUniqueViolation :: "exn \<Rightarrow> bool" where
  "isUniqueViolation (PrismaKnown c m) = (c = ''P2002'')"
| "isUniqueViolation _ = False"

definition recordSettlementFinalized :: "string \<Rightarrow> rat \<Rightarrow> bool io" where
  "recordSettlementFinalized i value =
     tryCatch (andThen (db_tx (\<lambda>e n. book_tx (now e n) i value)) (ret True))
       (\<lambda>err. if isUniqueViolation err then ret False else throw err)"

section \<open>The opening snapshot\<close>

definition genesis_entry :: "database \<Rightarrow> ledger_entry option" where
  "genesis_entry d = find (\<lambda>l. le_account l = GENESIS) (ledgerEntries d)"

text \<open>The upsert keeps an existing row of the reserved instruction id as it is.\<close>

definition upsert_genesis :: "int \<Rightarrow> string \<Rightarrow> string \<Rightarrow> rat \<Rightarrow> settlement tx" where
  "upsert_genesis t newId operator opening d =
     (case by_instruction d GENESIS_INSTRUCTION_ID of
        Some r \<Rightarrow> Inr (r, d)
      | None \<Rightarrow> create_tx t newId GENESIS_INSTRUCTION_ID operator opening (Some FINAL) d)"

definition snapshot_tx :: "int \<Rightarrow> string \<Rightarrow> string \<Rightarrow> rat \<Rightarrow> unit tx" where
  "snapshot_tx t newId operator opening d =
     (case genesis_entry d of
        Some _ \<Rightarrow> Inr ((), d)
      | None \<Rightarrow> (case upsert_genesis t newId operator opening d of
          Inl x \<Rightarrow> Inl x
        | Inr (genesis, d1) \<Rightarrow>
            insert_entry \<lparr>le_settlementId = sid genesis, le_account = GENESIS,
              le_direction = CREDIT, le_amount = opening, le_createdAt = t\<rparr> d1))"

definition ensureOpeningSnapshot :: "unit io" where
  "ensureOpeningSnapshot = await (db_read (\<lambda>e d. genesis_entry d)) (\<lambda>existing.
     if existing \<noteq> None then ret ()
     else await getChainBalance (\<lambda>opening.
       await (gets (\<lambda>e w. operatorAddress w)) (\<lambda>operator.
         db_tx (\<lambda>e n. snapshot_tx (now e n) (uuid e n) operator opening))))"

section \<open>Balances\<close>

definition opening_of :: "database \<Rightarrow> rat" where
  "opening_of d = (case genesis_entry d of None \<Rightarrow> 0 | Some l \<Rightarrow> le_amount l)"

definition sum_entries :: "database \<Rightarrow> ledger_account \<Rightarrow> ledger_direction \<Rightarrow> rat option" where
  "sum_entries d acc dir = sum_of (map le_amount
     (filter (\<lambda>l. le_account l = acc \<and> le_direction l = dir) (ledgerEntries d)))"

definition or_zero :: "rat option \<Rightarrow> rat" where
  "or_zero x = (case x of None \<Rightarrow> 0 | Some a \<Rightarrow> a)"

definition getOpeningBalance :: "rat io" where
  "getOpeningBalance = db_read (\<lambda>e d. opening_of d)"

definition getOperatorBalance :: "rat io" where
  "getOperatorBalance = await getOpeningBalance (\<lambda>opening.
     await (db_read (\<lambda>e d. sum_entries d OPERATOR CREDIT)) (\<lambda>credits.
     await (db_read (\<lambda>e d. sum_entries d OPERATOR DEBIT)) (\<lambda>debits.
       gets (\<lambda>e w. dround (lib e) (dround (lib e) (opening + or_zero credits) - or_zero debits)))))"

section \<open>The shape of the ledger\<close>

definition bookings :: "ledger_account \<Rightarrow> database \<Rightarrow> (string \<times> rat) list" where
  "bookings acc d =
     map (\<lambda>l. (le_settlementId l, le_amount l)) (filter (\<lambda>l. le_account l = acc) (ledgerEntries d))"

definition booked :: "database \<Rightarrow> string \<Rightarrow> bool" where
  "booked d i \<longleftrightarrow> i \<in> fst ` set (bookings OPERATOR d)"

text \<open>
  Double entry: every debit of OPERATOR has its credit of SETTLED_OUT, in the same order, with the
  same settlement and amount; a settlement is booked at most once; there is at most one opening row;
  each account is posted in its own direction only.
\<close>

definition ledger_wf :: "database \<Rightarrow> bool" where
  "ledger_wf d \<longleftrightarrow>
     bookings OPERATOR d = bookings SETTLED_OUT d \<and>
     distinct (map fst (bookings OPERATOR d)) \<and>
     length (bookings GENESIS d) \<le> 1 \<and>
     (\<forall>l \<in> set (ledgerEntries d).
        le_direction l = (if le_account l = OPERATOR then DEBIT else CREDIT) \<and> micro (le_amount l))"

definition operator_balance :: "database \<Rightarrow> rat" where
  "operator_balance d = opening_of d - sum_list (map snd (bookings OPERATOR d))"

lemma bookings_append:
  "bookings acc (d\<lparr>ledgerEntries := ledgerEntries d @ ls\<rparr>) =
     bookings acc d @ map (\<lambda>l. (le_settlementId l, le_amount l)) (filter (\<lambda>l. le_account l = acc) ls)"
  by (simp add: bookings_def)

lemma bookings_cong: "ledgerEntries d = ledgerEntries d' \<Longrightarrow> bookings acc d = bookings acc d'"
  by (simp add: bookings_def)

lemma in_bookings: "x \<in> fst ` set (bookings acc d) \<longleftrightarrow>
    (\<exists>l \<in> set (ledgerEntries d). le_settlementId l = x \<and> le_account l = acc)"
  by (auto simp: bookings_def image_iff)

lemma insert_entry_eq:
  "insert_entry l d =
     (if le_settlementId l \<in> fst ` set (bookings (le_account l) d) then Inl P2002
      else if row d (le_settlementId l) = None then Inl P2003
      else Inr ((), d\<lparr>ledgerEntries := ledgerEntries d @ [l\<lparr>le_amount := dec6 (le_amount l)\<rparr>]\<rparr>))"
  by (simp add: insert_entry_def in_bookings)

lemma row_ledger [simp]: "row (d\<lparr>ledgerEntries := ls\<rparr>) i = row d i"
  by (simp add: row_def)

text \<open>Booking on every branch.\<close>

definition booking_pair :: "int \<Rightarrow> string \<Rightarrow> rat \<Rightarrow> ledger_entry list" where
  "booking_pair t i a =
     [\<lparr>le_settlementId = i, le_account = OPERATOR, le_direction = DEBIT, le_amount = dec6 a, le_createdAt = t\<rparr>,
      \<lparr>le_settlementId = i, le_account = SETTLED_OUT, le_direction = CREDIT, le_amount = dec6 a, le_createdAt = t\<rparr>]"

lemma book_tx_eq:
  assumes "bookings OPERATOR d = bookings SETTLED_OUT d"
  shows "book_tx t i a d =
     (if booked d i then Inl P2002 else if row d i = None then Inl P2003
      else Inr ((), d\<lparr>ledgerEntries := ledgerEntries d @ booking_pair t i a\<rparr>))"
  using assms
  by (auto simp: book_tx_def insert_entry_eq booked_def booking_pair_def bookings_append)

lemma bookings_pair:
  "bookings acc (d\<lparr>ledgerEntries := ledgerEntries d @ booking_pair t i a\<rparr>) =
     bookings acc d @ (if acc = GENESIS then [] else [(i, dec6 a)])"
  by (cases acc) (simp_all add: bookings_append booking_pair_def)

lemma book_tx_ledger_wf:
  assumes "ledger_wf d" "book_tx t i a d = Inr (u, d')"
  shows "ledger_wf d'"
proof -
  from assms have "\<not> booked d i" and d': "d' = d\<lparr>ledgerEntries := ledgerEntries d @ booking_pair t i a\<rparr>"
    by (auto simp: ledger_wf_def book_tx_eq split: if_splits)
  with assms(1) show ?thesis
    unfolding ledger_wf_def d' bookings_pair
    by (auto simp: booked_def booking_pair_def)
qed

lemma ledger_wf_cong: "ledgerEntries d = ledgerEntries d' \<Longrightarrow> ledger_wf d = ledger_wf d'"
  by (simp add: ledger_wf_def bookings_cong [of d d'])

lemma genesis_entry_None: "genesis_entry d = None \<longleftrightarrow> bookings GENESIS d = []"
  by (auto simp: genesis_entry_def bookings_def find_None_all filter_empty_conv)

lemma upsert_genesis_ledger:
  "upsert_genesis t newId oper opening d = Inr (r, d1) \<Longrightarrow> ledgerEntries d1 = ledgerEntries d"
  by (auto simp: upsert_genesis_def split: option.splits elim: create_tx_cases)

lemma snapshot_ledger_wf:
  assumes "ledger_wf d" "snapshot_tx t newId oper opening d = Inr (u, d')"
  shows "ledger_wf d'"
proof (cases "genesis_entry d")
  case (Some l)
  with assms show ?thesis by (simp add: snapshot_tx_def)
next
  case None
  with assms(2) obtain r d1 where up: "upsert_genesis t newId oper opening d = Inr (r, d1)"
    and d': "d' = d1\<lparr>ledgerEntries := ledgerEntries d1 @ [\<lparr>le_settlementId = sid r,
       le_account = GENESIS, le_direction = CREDIT, le_amount = dec6 opening, le_createdAt = t\<rparr>]\<rparr>"
    by (auto simp: snapshot_tx_def insert_entry_eq split: option.splits sum.splits if_splits)
  from up have eq: "ledgerEntries d1 = ledgerEntries d" by (rule upsert_genesis_ledger)
  then have b: "\<And>acc. bookings acc d1 = bookings acc d" by (rule bookings_cong)
  from None have "bookings GENESIS d = []" by (simp add: genesis_entry_None)
  with assms(1) show ?thesis unfolding ledger_wf_def d' bookings_append b by (auto simp: eq)
qed

section \<open>The operator's balance\<close>

lemma operator_credit_none: "ledger_wf d \<Longrightarrow> sum_entries d OPERATOR CREDIT = None"
  by (auto simp: ledger_wf_def sum_entries_def sum_of_def filter_empty_conv)

lemma operator_debit_sum:
  assumes "ledger_wf d"
  shows "or_zero (sum_entries d OPERATOR DEBIT) = sum_list (map snd (bookings OPERATOR d))"
proof -
  have "filter (\<lambda>l. le_account l = OPERATOR \<and> le_direction l = DEBIT) (ledgerEntries d)
      = filter (\<lambda>l. le_account l = OPERATOR) (ledgerEntries d)"
    using assms by (intro filter_cong) (auto simp: ledger_wf_def)
  then show ?thesis
    by (simp add: or_zero_def sum_entries_def sum_of_def bookings_def comp_def filter_empty_conv)
qed

end
