(* ===== verification/Rely.thy ===== *)
theory Rely
  imports Ledger
begin

text \<open>
  A rely-guarantee logic for handlers. \<open>evolve\<close> says that tables only grow and that a settlement's
  identity (key, instruction, recipient, amount, creation) never changes. \<open>guar I P m\<close>: started
  where \<open>I\<close> holds and \<open>P\<close> is known, under any interference at its awaits that keeps \<open>I\<close> and
  evolves the database, with any outages and any crash, the handler keeps \<open>I\<close> and evolves the database.
  Because the environment may end a handler at each await, a guarantee holds at each await of the
  handler, so the handlers keep \<open>I\<close> together in every interleaving of their segments.
\<close>

section \<open>Append-only change\<close>

definition skey :: "settlement \<Rightarrow> string \<times> string \<times> string \<times> rat \<times> int" where
  "skey r = (sid r, instructionId r, toAddress r, amount r, createdAt r)"

definition okey :: "outbox_event \<Rightarrow> string \<times> string \<times> string \<times> event_payload \<times> int" where
  "okey o1 = (ob_id o1, ob_settlementId o1, ob_type o1, ob_payload o1, ob_createdAt o1)"

definition evolve :: "database \<Rightarrow> database \<Rightarrow> bool" where
  "evolve d d' \<longleftrightarrow>
     prefix (map skey (settlements d)) (map skey (settlements d')) \<and>
     prefix (ledgerEntries d) (ledgerEntries d') \<and>
     prefix (statusTransitions d) (statusTransitions d') \<and>
     prefix (reconciliationRuns d) (reconciliationRuns d') \<and>
     prefix (map okey (outboxEvents d)) (map okey (outboxEvents d'))"

lemma evolve_refl [simp]: "evolve d d"
  by (simp add: evolve_def)

lemma evolve_trans [trans]: "evolve a b \<Longrightarrow> evolve b c \<Longrightarrow> evolve a c"
  by (auto simp: evolve_def intro: prefix_order.trans)

lemma skey_apply_opts [simp]: "skey (apply_opts t to opts r) = skey r"
  by (simp add: skey_def)

lemma evolve_transition [evolve_intros]:
  "transition_tx str t ev i to opts d = Inr (r, d') \<Longrightarrow> evolve d d'"
  by (erule transition_tx_cases)
     (auto simp: evolve_def write_transition_def Let_def map_upd_where_same)

lemma evolve_resend [evolve_intros]: "resend_tx t i h n d = Inr (r, d') \<Longrightarrow> evolve d d'"
proof (erule resend_tx_cases)
  have k: "\<And>r. skey (r\<lparr>txHash := Some h, retryCount := n, updatedAt := t\<rparr>) = skey r"
    by (simp add: skey_def)
  fix cur
  assume "d' = d\<lparr>settlements := upd_where (\<lambda>r. sid r = i)
         (\<lambda>r. r\<lparr>txHash := Some h, retryCount := n, updatedAt := t\<rparr>) (settlements d)\<rparr>"
  then show "evolve d d'" by (simp add: evolve_def map_upd_where_same [of skey, OF k])
qed

lemma evolve_create [evolve_intros]: "create_tx t new instr to a st d = Inr (r, d') \<Longrightarrow> evolve d d'"
  by (erule create_tx_cases) (simp add: evolve_def)

lemma evolve_insert_entry: "insert_entry l d = Inr (u, d') \<Longrightarrow> evolve d d'"
  by (auto simp: insert_entry_def evolve_def split: if_splits)

lemma evolve_book [evolve_intros]: "book_tx t i a d = Inr (u, d') \<Longrightarrow> evolve d d'"
  by (auto simp: book_tx_def split: sum.splits prod.splits dest!: evolve_insert_entry
      intro: evolve_trans)

lemma evolve_upsert: "upsert_genesis t new oper opening d = Inr (r, d') \<Longrightarrow> evolve d d'"
  by (auto simp: upsert_genesis_def split: option.splits dest: evolve_create)

lemma evolve_snapshot [evolve_intros]: "snapshot_tx t new oper opening d = Inr (u, d') \<Longrightarrow> evolve d d'"
  by (auto simp: snapshot_tx_def split: option.splits sum.splits prod.splits
      dest!: evolve_upsert evolve_insert_entry intro: evolve_trans)

section \<open>Facts that last\<close>

text \<open>
  What a handler has read stays true while it waits if every evolution keeps it: that a settlement is
  known with its identity, is booked, was approved by compliance, or goes to an allowed address.
\<close>

definition stable :: "(database \<Rightarrow> bool) \<Rightarrow> bool" where
  "stable P \<longleftrightarrow> (\<forall>d d'. P d \<longrightarrow> evolve d d' \<longrightarrow> P d')"

definition known :: "settlement \<Rightarrow> database \<Rightarrow> bool" where
  "known s d \<longleftrightarrow> skey s \<in> skey ` set (settlements d)"

lemma prefix_set: "prefix xs ys \<Longrightarrow> set xs \<subseteq> set ys"
  by (auto simp: prefix_def)

lemma stable_True [simp, intro]: "stable (\<lambda>_. True)"
  by (simp add: stable_def)

lemma stable_conj [intro]: "stable P \<Longrightarrow> stable Q \<Longrightarrow> stable (\<lambda>d. P d \<and> Q d)"
  by (auto simp: stable_def)

lemma stable_imp [intro]: "(A \<Longrightarrow> stable P) \<Longrightarrow> stable (\<lambda>d. A \<longrightarrow> P d)"
  by (auto simp: stable_def)

lemma stable_all [intro]: "(\<And>x. stable (P x)) \<Longrightarrow> stable (\<lambda>d. \<forall>x. P x d)"
  by (fastforce simp: stable_def)

lemma stable_ball [intro]: "(\<And>x. x \<in> A \<Longrightarrow> stable (P x)) \<Longrightarrow> stable (\<lambda>d. \<forall>x \<in> A. P x d)"
  by (fastforce simp: stable_def)

lemma stable_known [simp, intro]: "stable (known s)"
proof -
  have "known s d'" if "known s d" "evolve d d'" for d d'
  proof -
    from that(2) have "prefix (map skey (settlements d)) (map skey (settlements d'))"
      by (simp add: evolve_def)
    from prefix_set [OF this] that(1) show ?thesis by (auto simp: known_def)
  qed
  then show ?thesis by (auto simp: stable_def)
qed

lemma booked_evolve: "booked d i \<Longrightarrow> evolve d d' \<Longrightarrow> booked d' i"
  unfolding booked_def in_bookings evolve_def by (auto dest: prefix_set)

lemma stable_booked [simp, intro]: "stable (\<lambda>d. booked d i)"
  by (auto simp: stable_def intro: booked_evolve)

definition cleared :: "database \<Rightarrow> string \<Rightarrow> bool" where
  "cleared d i \<longleftrightarrow> (\<exists>t \<in> set (statusTransitions d). st_settlementId t = i \<and> toStatus t = COMPLIANCE_APPROVED)"

lemma cleared_evolve: "cleared d i \<Longrightarrow> evolve d d' \<Longrightarrow> cleared d' i"
  unfolding cleared_def evolve_def by (auto dest: prefix_set)

lemma stable_cleared [simp, intro]: "stable (\<lambda>d. cleared d i)"
  by (auto simp: stable_def intro: cleared_evolve)

definition sent_to :: "(string \<Rightarrow> bool) \<Rightarrow> database \<Rightarrow> string \<Rightarrow> bool" where
  "sent_to allowed d i \<longleftrightarrow> (\<exists>r \<in> set (settlements d). sid r = i \<and> allowed (toAddress r))"

lemma known_evolve: "known s d \<Longrightarrow> evolve d d' \<Longrightarrow> known s d'"
  using stable_known [of s] by (auto simp: stable_def)

lemma known_sent_to: "known s d \<Longrightarrow> allowed (toAddress s) \<Longrightarrow> sent_to allowed d (sid s)"
  by (auto simp: known_def sent_to_def skey_def)

lemma sent_to_evolve: "sent_to allowed d i \<Longrightarrow> evolve d d' \<Longrightarrow> sent_to allowed d' i"
proof -
  assume "sent_to allowed d i" and ev: "evolve d d'"
  then obtain r where r: "r \<in> set (settlements d)" "sid r = i" "allowed (toAddress r)"
    by (auto simp: sent_to_def)
  then have "known r d" by (simp add: known_def)
  from known_evolve [OF this ev] r(2,3) known_sent_to show ?thesis by blast
qed

lemma stable_read [simp, intro]:
  "stable (\<lambda>d. known s d \<and> cleared d i)"
  "stable (\<lambda>d. known s d \<and> cleared d i \<and> booked d j)"
  "stable (\<lambda>d. \<forall>s \<in> set rows. known s d \<and> cleared d (sid s))"
  by (intro stable_conj stable_ball stable_known stable_cleared stable_booked)+

lemma known_row: "row d i = Some s \<Longrightarrow> known s d"
  by (auto simp: known_def dest: row_SomeD)

section \<open>Guarantees\<close>

text \<open>
  An invariant is of the database, of the transfer calls the process has made, and of the decimals it takes
  the token to have. With \<open>payable I a u\<close> it admits a further call of \<open>u\<close> units for any settlement of
  amount \<open>a\<close> that compliance approved.
\<close>

type_synonym sender_state = "(tx_request \<times> string option) list \<times> nat"
type_synonym invariant = "database \<Rightarrow> sender_state \<Rightarrow> bool"

abbreviation sending :: "world \<Rightarrow> sender_state" where
  "sending w \<equiv> (broadcastLog w, decimals w)"

abbreviation db_only :: "(database \<Rightarrow> bool) \<Rightarrow> invariant" where
  "db_only J \<equiv> (\<lambda>d l. J d)"

definition payable :: "invariant \<Rightarrow> rat \<Rightarrow> int \<Rightarrow> bool" where
  "payable I a u \<longleftrightarrow> (\<forall>d l k s rq x. I d (l, k) \<longrightarrow> known s d \<longrightarrow> cleared d (sid s) \<longrightarrow> amount s = a \<longrightarrow>
     rq_to rq = toAddress s \<longrightarrow> rq_units rq = u \<longrightarrow> I d (l @ [(rq, x)], k))"

text \<open>An invariant that does not look at the calls or the decimals admits any of them.\<close>

definition indifferent :: "invariant \<Rightarrow> bool" where
  "indifferent I \<longleftrightarrow> (\<forall>a u. payable I a u) \<and> (\<forall>d l k k'. I d (l, k) \<longrightarrow> I d (l, k'))"

lemma payable_db_only [simp]: "payable (db_only J) a u"
  by (simp add: payable_def)

lemma indifferent_db_only [simp]: "indifferent (db_only J)"
  by (simp add: indifferent_def)

text \<open>What a call needs before it is made: it pays a settlement that compliance approved.\<close>

definition due :: "invariant \<Rightarrow> string \<Rightarrow> int \<Rightarrow> database \<Rightarrow> bool" where
  "due I to u d \<longleftrightarrow> (\<exists>s. known s d \<and> cleared d (sid s) \<and> to = toAddress s \<and> payable I (amount s) u)"

text \<open>
  Admissible environments: interference keeps the invariant and evolves the database, an unordered
  query returns rows that match, an outage is never reported as a violated unique constraint, and
  the invariant admits the base units that the library makes of an amount and the decimals the node tells.
\<close>

definition env_ok :: "invariant \<Rightarrow> env \<Rightarrow> bool" where
  "env_ok I e \<longleftrightarrow>
     (\<forall>n w. I (db w) (sending w) \<longrightarrow> I (db (others e n w)) (sending (others e n w)) \<and> evolve (db w) (db (others e n w))) \<and>
     (\<forall>xs. set (scan e xs) \<subseteq> set xs) \<and>
     (\<forall>n x. dbErr e n = Some x \<longrightarrow> \<not> isUniqueViolation x) \<and>
     (\<forall>d l k a u. I d (l, k) \<longrightarrow> parseUnits (lib e) (decToString (lib e) a) k = Inr u \<longrightarrow> payable I a u) \<and>
     (\<forall>d l k n k'. I d (l, k) \<longrightarrow> rpc_decimals (rpc e n) = Inr k' \<longrightarrow> I d (l, k'))"

definition hoare :: "invariant \<Rightarrow> (database \<Rightarrow> bool) \<Rightarrow> 'a io
    \<Rightarrow> ('a \<Rightarrow> database \<Rightarrow> bool) \<Rightarrow> bool" where
  "hoare I P m Q \<longleftrightarrow> (\<forall>e w. env_ok I e \<longrightarrow> I (db w) (sending w) \<longrightarrow> P (db w) \<longrightarrow>
     I (db (snd (m e w))) (sending (snd (m e w))) \<and> evolve (db w) (db (snd (m e w))) \<and>
     (\<forall>x. fst (m e w) = Inr x \<longrightarrow> Q x (db (snd (m e w)))))"

definition guar :: "invariant \<Rightarrow> (database \<Rightarrow> bool) \<Rightarrow> 'a io \<Rightarrow> bool" where
  "guar I P m = hoare I P m (\<lambda>_ _. True)"

lemma hoareI:
  assumes "\<And>e (w::world). env_ok I e \<Longrightarrow> I (db w) (sending w) \<Longrightarrow> P (db w) \<Longrightarrow>
    I (db (snd (m e w))) (sending (snd (m e w))) \<and> evolve (db w) (db (snd (m e w))) \<and>
    (\<forall>x. fst (m e w) = Inr x \<longrightarrow> Q x (db (snd (m e w))))"
  shows "hoare I P m Q"
  using assms by (simp add: hoare_def)

lemma guarD:
  assumes "guar I P m" "env_ok I e" "I (db w) (sending w)" "P (db w)"
  shows "I (db (snd (m e w))) (sending (snd (m e w)))" "evolve (db w) (db (snd (m e w)))"
  using assms by (auto simp: guar_def hoare_def)

lemma guar_weaken: "hoare I P m Q \<Longrightarrow> guar I P m"
  by (auto simp: guar_def hoare_def)

lemma guar_pre: "guar I P m \<Longrightarrow> (\<And>d. P' d \<Longrightarrow> P d) \<Longrightarrow> guar I P' m"
  by (auto simp: guar_def hoare_def)

lemma hoare_post: "hoare I P m Q \<Longrightarrow> (\<And>x d. Q x d \<Longrightarrow> Q' x d) \<Longrightarrow> hoare I P m Q'"
  by (auto simp: hoare_def)

lemma guar_known_value: "guar I P (f c) \<Longrightarrow> guar I (\<lambda>d. P d \<and> x = c) (f x)"
  by (cases "x = c") (auto simp: guar_def hoare_def)

lemma hoare_await:
  assumes m: "hoare I P m R" and k: "\<And>x. hoare I (\<lambda>d. P d \<and> R x d) (k x) Q" and st: "stable P"
  shows "hoare I P (await m k) Q"
proof (rule hoareI)
  fix e and w :: world
  assume ok: "env_ok I e" and i: "I (db w) (sending w)" and p: "P (db w)"
  obtain r w1 where r: "m e w = (r, w1)" by force
  from m ok i p r have i1: "I (db w1) (sending w1)" and ev: "evolve (db w) (db w1)"
    and R: "\<And>x. r = Inr x \<Longrightarrow> R x (db w1)"
    unfolding hoare_def by (metis fst_conv snd_conv)+
  show "I (db (snd (await m k e w))) (sending (snd (await m k e w))) \<and> evolve (db w) (db (snd (await m k e w))) \<and>
    (\<forall>x. fst (await m k e w) = Inr x \<longrightarrow> Q x (db (snd (await m k e w))))"
  proof (cases r)
    case (Inl x)
    with r i1 ev show ?thesis by (simp add: io_defs)
  next
    case (Inr x)
    from st p ev have "P (db w1)" by (auto simp: stable_def)
    with k [of x] ok i1 R [OF Inr]
    have *: "I (db (snd (k x e w1))) (sending (snd (k x e w1)))" "evolve (db w1) (db (snd (k x e w1)))"
      "\<forall>y. fst (k x e w1) = Inr y \<longrightarrow> Q y (db (snd (k x e w1)))"
      unfolding hoare_def by auto
    moreover have "await m k e w = k x e w1" using r Inr by (simp add: io_defs)
    ultimately show ?thesis using ev by (auto intro: evolve_trans)
  qed
qed

lemma guar_await [hoare_intros]:
  "stable P \<Longrightarrow> guar I P m \<Longrightarrow> (\<And>x. guar I P (k x)) \<Longrightarrow> guar I P (await m k)"
  unfolding guar_def by (rule hoare_await [where R = "\<lambda>_ _. True"]) simp_all

text \<open>When what is known of the result matters to the continuation.\<close>

lemma guar_await_dep:
  "stable P \<Longrightarrow> hoare I P m R \<Longrightarrow> (\<And>x. guar I (\<lambda>d. P d \<and> R x d) (k x)) \<Longrightarrow> guar I P (await m k)"
  unfolding guar_def by (rule hoare_await)

lemma guar_andThen [hoare_intros]:
  "stable P \<Longrightarrow> guar I P m \<Longrightarrow> guar I P k \<Longrightarrow> guar I P (andThen m k)"
  unfolding andThen_def by (rule guar_await)

lemma hoare_ret: "(\<And>d. P d \<Longrightarrow> Q x d) \<Longrightarrow> hoare I P (ret x) Q"
  by (simp add: hoare_def io_defs)

lemma guar_ret [hoare_intros]: "guar I P (ret x)"
  by (simp add: guar_def hoare_def io_defs)

lemma hoare_throw: "hoare I P (throw x) Q"
  by (simp add: hoare_def io_defs)

lemma guar_throw [hoare_intros]: "guar I P (throw x)"
  by (simp add: guar_def hoare_def io_defs)

lemma guar_gets [hoare_intros]: "guar I P (gets f)"
  by (simp add: guar_def hoare_def io_defs)

lemma guar_modify [hoare_intros]: "(\<And>w. db (f w) = db w \<and> sending (f w) = sending w) \<Longrightarrow> guar I P (modify f)"
  by (simp add: guar_def hoare_def io_defs)

lemma guar_pure: "(\<And>e w. db (snd (m e w)) = db w \<and> sending (snd (m e w)) = sending w) \<Longrightarrow> guar I P m"
  by (simp add: guar_def hoare_def)

lemma hoare_tryCatch:
  assumes m: "hoare I P m Q" and h: "\<And>x. hoare I P (h x) Q" and st: "stable P"
  shows "hoare I P (tryCatch m h) Q"
proof (rule hoareI)
  fix e and w :: world
  assume ok: "env_ok I e" and i: "I (db w) (sending w)" and p: "P (db w)"
  obtain r w1 where r: "m e w = (r, w1)" by force
  from m ok i p r have i1: "I (db w1) (sending w1)" and ev: "evolve (db w) (db w1)"
    and Q: "\<And>x. r = Inr x \<Longrightarrow> Q x (db w1)"
    unfolding hoare_def by (metis fst_conv snd_conv)+
  show "I (db (snd (tryCatch m h e w))) (sending (snd (tryCatch m h e w))) \<and> evolve (db w) (db (snd (tryCatch m h e w))) \<and>
    (\<forall>x. fst (tryCatch m h e w) = Inr x \<longrightarrow> Q x (db (snd (tryCatch m h e w))))"
  proof (cases r)
    case (Inr x)
    with r i1 ev Q show ?thesis by (simp add: io_defs)
  next
    case (Inl x)
    from st p ev have "P (db w1)" by (auto simp: stable_def)
    with h [of x] ok i1 have *: "I (db (snd (h x e w1))) (sending (snd (h x e w1)))" "evolve (db w1) (db (snd (h x e w1)))"
      "\<forall>y. fst (h x e w1) = Inr y \<longrightarrow> Q y (db (snd (h x e w1)))"
      unfolding hoare_def by auto
    with Inl r i1 ev show ?thesis by (auto simp: io_defs intro: evolve_trans)
  qed
qed

lemma guar_tryCatch [hoare_intros]:
  "stable P \<Longrightarrow> guar I P m \<Longrightarrow> (\<And>x. guar I P (h x)) \<Longrightarrow> guar I P (tryCatch m h)"
  unfolding guar_def by (rule hoare_tryCatch)

lemma guar_tryFinally [hoare_intros]:
  assumes "guar I P m" "\<And>w. db (f w) = db w \<and> sending (f w) = sending w"
  shows "guar I P (tryFinally m f)"
proof -
  have "db (snd (tryFinally m f e w)) = db (snd (m e w)) \<and>
      sending (snd (tryFinally m f e w)) = sending (snd (m e w))" for e w
    using assms(2) by (auto simp: io_defs split: prod.split sum.split)
  with assms(1) show ?thesis by (simp add: guar_def hoare_def)
qed

lemma guar_if [hoare_intros]:
  "(b \<Longrightarrow> guar I P m) \<Longrightarrow> (\<not> b \<Longrightarrow> guar I P k) \<Longrightarrow> guar I P (if b then m else k)"
  by simp

lemma guar_option [hoare_intros]:
  "(x = None \<Longrightarrow> guar I P a) \<Longrightarrow> (\<And>y. x = Some y \<Longrightarrow> guar I P (b y)) \<Longrightarrow>
   guar I P (case x of None \<Rightarrow> a | Some y \<Rightarrow> b y)"
  by (cases x) simp_all

lemma guar_list [hoare_intros]:
  "(xs = [] \<Longrightarrow> guar I P a) \<Longrightarrow> (\<And>y ys. xs = y # ys \<Longrightarrow> guar I P (b y ys)) \<Longrightarrow>
   guar I P (case xs of [] \<Rightarrow> a | y # ys \<Rightarrow> b y ys)"
  by (cases xs) simp_all

lemma guar_sum [hoare_intros]:
  "(\<And>y. x = Inl y \<Longrightarrow> guar I P (a y)) \<Longrightarrow> (\<And>y. x = Inr y \<Longrightarrow> guar I P (b y)) \<Longrightarrow>
   guar I P (case x of Inl y \<Rightarrow> a y | Inr y \<Rightarrow> b y)"
  by (cases x) simp_all

lemma guar_prod [hoare_intros]:
  "(\<And>y z. x = (y, z) \<Longrightarrow> guar I P (f y z)) \<Longrightarrow> guar I P (case x of (y, z) \<Rightarrow> f y z)"
  by (cases x) simp_all

lemma guar_let [hoare_intros]: "guar I P (f x) \<Longrightarrow> guar I P (let y = x in f y)"
  by simp

lemma guar_for_each [hoare_intros]:
  "stable P \<Longrightarrow> (\<And>x. x \<in> set xs \<Longrightarrow> guar I P (body x)) \<Longrightarrow> guar I P (for_each xs body)"
  by (induction xs) (auto intro: guar_ret guar_andThen)

lemma guar_yield [hoare_intros]: "guar I P yield"
  by (auto simp: guar_def hoare_def yield_def env_ok_def)

lemma guar_rpc_call [hoare_intros]:
  assumes "stable P"
  shows "guar I P (rpc_call f)"
  unfolding rpc_call_def using assms
  by (intro hoare_intros) (auto intro: guar_pure)

text \<open>
  A transaction may rely on \<open>I\<close> and on what is known when it runs; what it establishes must last
  until its answer arrives.
\<close>

lemma hoare_db_tx:
  assumes st: "stable P" and stQ: "\<And>a. stable (Q a)"
    and step: "\<And>e n d l a d'. env_ok I e \<Longrightarrow> I d l \<Longrightarrow> P d \<Longrightarrow> f e n d = Inr (a, d') \<Longrightarrow>
      I d' l \<and> evolve d d' \<and> Q a d'"
  shows "hoare I P (db_tx f) Q"
proof -
  have run: "hoare I P (run_tx f) Q"
  proof (rule hoareI)
    fix e and w :: world
    assume "env_ok I e" "I (db w) (sending w)" "P (db w)"
    with step [of e "db w" "sending w" "tick w"]
    show "I (db (snd (run_tx f e w))) (sending (snd (run_tx f e w))) \<and> evolve (db w) (db (snd (run_tx f e w))) \<and>
      (\<forall>x. fst (run_tx f e w) = Inr x \<longrightarrow> Q x (db (snd (run_tx f e w))))"
      by (auto simp: run_tx_def split: option.split sum.split prod.split)
  qed
  have resume: "hoare I (\<lambda>d. P d \<and> Q x d) (andThen yield (ret x)) Q" for x
    unfolding andThen_def
    by (rule hoare_await [where R = "\<lambda>_ _. True"])
       (use st stQ in \<open>auto intro!: hoare_ret guar_yield [unfolded guar_def] stable_conj\<close>)
  show ?thesis
    unfolding db_tx_def andThen_def [of yield "await _ _"]
    by (rule hoare_await [where R = "\<lambda>_ _. True"])
       (use st run resume in \<open>auto intro!: hoare_await [where R = Q] guar_yield [unfolded guar_def]\<close>)
qed

lemma guar_db_tx:
  assumes "stable P"
    and "\<And>e n d l a d'. env_ok I e \<Longrightarrow> I d l \<Longrightarrow> P d \<Longrightarrow> f e n d = Inr (a, d') \<Longrightarrow> I d' l \<and> evolve d d'"
  shows "guar I P (db_tx f)"
  unfolding guar_def by (rule hoare_db_tx) (use assms in auto)

lemma hoare_db_read:
  assumes "stable P" "\<And>a. stable (Q a)"
    and "\<And>e d l. env_ok I e \<Longrightarrow> I d l \<Longrightarrow> P d \<Longrightarrow> Q (f e d) d"
  shows "hoare I P (db_read f) Q"
  unfolding db_read_def by (rule hoare_db_tx) (use assms in auto)

lemma guar_db_read [hoare_intros]: "stable P \<Longrightarrow> guar I P (db_read f)"
  unfolding guar_def by (rule hoare_db_read) auto

lemma stable_const [simp, intro]: "stable (\<lambda>d. c)"
  by (simp add: stable_def)

text \<open>What a failed transaction tells: the database refused it, or the step itself threw.\<close>

lemma db_tx_exn:
  assumes ok: "env_ok I e" and i: "I (db w) (sending w)"
    and x: "fst (db_tx f e w) = Inl x" "x \<noteq> Crash"
  shows "(\<exists>n. dbErr e n = Some x) \<or> (\<exists>n d l. I d l \<and> evolve (db w) d \<and> f e n d = Inl x \<and> db (snd (db_tx f e w)) = d)"
proof (cases "crash e (tick w)")
  case True
  with x show ?thesis by (simp add: db_tx_def io_defs yield_def)
next
  case False
  let ?w1 = "(others e (tick w) w)\<lparr>tick := Suc (tick w)\<rparr>"
  from ok i have w1: "I (db ?w1) (sending ?w1)" "evolve (db w) (db ?w1)" by (auto simp: env_ok_def)
  from False have eq: "db_tx f e w = await (run_tx f) (\<lambda>x. andThen yield (ret x)) e ?w1"
    by (simp add: db_tx_def andThen_def [of yield "await _ _"]) (simp add: io_defs yield_def)
  show ?thesis
  proof (cases "dbErr e (tick ?w1)")
    case (Some y)
    with x eq show ?thesis by (auto simp: io_defs run_tx_def)
  next
    case None
    with x eq w1 show ?thesis
      by (auto simp: io_defs run_tx_def yield_def split: sum.splits prod.splits if_splits)
  qed
qed

end
