(* ===== verification/TxError.thy ===== *)
theory TxError
  imports Io
begin

text \<open>
  \<open>src/relayer/tx-error.ts\<close>: a failed send becomes a retry policy. Messages are matched after
  lower-casing (of the ASCII letters), by substring, in the order of the code.
\<close>

record tx_error_class =
  retryable :: bool
  resyncNonce :: bool
  reason :: string

fun readCode :: "exn \<Rightarrow> string option" where
  "readCode (Thrown c m) = c"
| "readCode (PrismaKnown c m) = Some c"
| "readCode (HttpExn s n m) = None"
| "readCode Crash = None"

fun readMessage :: "exn \<Rightarrow> string" where
  "readMessage (Thrown c m) = m"
| "readMessage (PrismaKnown c m) = m"
| "readMessage (HttpExn s n m) = m"
| "readMessage Crash = []"

definition lower_char :: "char \<Rightarrow> char" where
  "lower_char c = (let n = (of_char c :: nat) in if 65 \<le> n \<and> n \<le> 90 then char_of (n + 32) else c)"

definition toLowerCase :: "string \<Rightarrow> string" where
  "toLowerCase s = map lower_char s"

definition nonce_desync :: "string option \<Rightarrow> string \<Rightarrow> bool" where
  "nonce_desync code message \<longleftrightarrow>
     code = Some ''NONCE_EXPIRED'' \<or> code = Some ''REPLACEMENT_UNDERPRICED'' \<or>
     js_includes message ''nonce too low'' \<or> js_includes message ''already known'' \<or>
     js_includes message ''replacement transaction underpriced''"

definition transient :: "string option \<Rightarrow> string \<Rightarrow> bool" where
  "transient code message \<longleftrightarrow>
     code = Some ''NETWORK_ERROR'' \<or> code = Some ''TIMEOUT'' \<or> code = Some ''SERVER_ERROR'' \<or>
     js_includes message ''timeout'' \<or> js_includes message ''econnreset'' \<or>
     js_includes message ''socket hang up'' \<or> js_includes message ''rate limit'' \<or>
     js_includes message ''429''"

definition underpriced :: "string \<Rightarrow> bool" where
  "underpriced message \<longleftrightarrow>
     js_includes message ''underpriced'' \<or> js_includes message ''fee too low'' \<or>
     js_includes message ''max fee per gas less than block base fee''"

definition out_of_funds :: "string option \<Rightarrow> string \<Rightarrow> bool" where
  "out_of_funds code message \<longleftrightarrow>
     code = Some ''INSUFFICIENT_FUNDS'' \<or> js_includes message ''insufficient funds''"

definition reverted :: "string option \<Rightarrow> string \<Rightarrow> bool" where
  "reverted code message \<longleftrightarrow>
     code = Some ''CALL_EXCEPTION'' \<or> js_includes message ''execution reverted'' \<or>
     js_includes message ''transfer amount exceeds balance''"

definition classifyTxError :: "exn \<Rightarrow> tx_error_class" where
  "classifyTxError err =
     (let code = readCode err; message = toLowerCase (readMessage err) in
      if nonce_desync code message then
        \<lparr>retryable = True, resyncNonce = True,
         reason = (case code of None \<Rightarrow> ''NONCE_DESYNC'' | Some c \<Rightarrow> c)\<rparr>
      else if transient code message then
        \<lparr>retryable = True, resyncNonce = False,
         reason = (case code of None \<Rightarrow> ''TRANSIENT'' | Some c \<Rightarrow> c)\<rparr>
      else if underpriced message then
        \<lparr>retryable = True, resyncNonce = False, reason = ''UNDERPRICED''\<rparr>
      else if out_of_funds code message then
        \<lparr>retryable = False, resyncNonce = False, reason = ''INSUFFICIENT_FUNDS''\<rparr>
      else if reverted code message then
        \<lparr>retryable = False, resyncNonce = False, reason = ''REVERTED''\<rparr>
      else
        \<lparr>retryable = True, resyncNonce = False,
         reason = (case code of None \<Rightarrow> ''UNKNOWN'' | Some c \<Rightarrow> c)\<rparr>)"

section \<open>Facts\<close>

lemma resync_retryable: "resyncNonce (classifyTxError err) \<Longrightarrow> retryable (classifyTxError err)"
  by (simp add: classifyTxError_def Let_def split: if_splits)

lemma resync_iff:
  "resyncNonce (classifyTxError err) \<longleftrightarrow>
     nonce_desync (readCode err) (toLowerCase (readMessage err))"
  by (simp add: classifyTxError_def Let_def)

lemma lower_char_idem [simp]: "lower_char (lower_char c) = lower_char c"
proof -
  have "(of_char c :: nat) + 32 < 256 \<and> 90 < (of_char c :: nat) + 32"
    if "65 \<le> (of_char c :: nat)" "(of_char c :: nat) \<le> 90" using that by simp
  then show ?thesis by (auto simp: lower_char_def Let_def)
qed

lemma toLowerCase_idem [simp]: "toLowerCase (toLowerCase s) = toLowerCase s"
  by (simp add: toLowerCase_def)

text \<open>
  A send is given up at once exactly when the error names a lack of funds or a revert and carries
  none of the marks that make it a nonce, infrastructure or fee problem.
\<close>

lemma permanent_iff:
  "\<not> retryable (classifyTxError err) \<longleftrightarrow>
     (let code = readCode err; message = toLowerCase (readMessage err) in
        (out_of_funds code message \<or> reverted code message) \<and>
        \<not> nonce_desync code message \<and> \<not> transient code message \<and> \<not> underpriced message)"
  by (auto simp: classifyTxError_def Let_def)

lemma permanent_reason:
  "\<not> retryable (classifyTxError err) \<Longrightarrow>
     reason (classifyTxError err) \<in> {''INSUFFICIENT_FUNDS'', ''REVERTED''}"
  by (auto simp: classifyTxError_def Let_def split: if_splits)

end
