(* ===== verification/Relayer.thy ===== *)
theory Relayer
  imports SettlementState Chain TxError
begin

text \<open>
  \<open>RelayerService\<close> (\<open>src/relayer/relayer.service.ts\<close>) and \<open>StuckTxWatcher\<close>: the FIFO worker with its
  nonce discipline and retries, the sweep that resends stuck transactions, and restart recovery.
  A \<open>void this.runWorker()\<close> is recorded in \<open>spawned\<close> and runs as a task of its own. The send loop
  ends because its retry count grows up to \<open>maxRetries\<close>; the worker's loop over a queue that other
  tasks extend takes fuel.
\<close>

section \<open>Fees and delays\<close>

record fees =
  maxFeePerGas :: int
  maxPriorityFeePerGas :: int

definition FALLBACK_GAS_LIMIT :: int where
  "FALLBACK_GAS_LIMIT = 120000"

definition bumpFees :: "fees \<Rightarrow> fees" where
  "bumpFees f = \<lparr>maxFeePerGas = big_div (maxFeePerGas f * 125) 100,
     maxPriorityFeePerGas = big_div (maxPriorityFeePerGas f * 125) 100\<rparr>"

definition backoffMs :: "nat \<Rightarrow> int" where
  "backoffMs attempt = min (1000 * 2 ^ attempt) 8000"

definition sleep :: "int \<Rightarrow> unit io" where
  "sleep ms = andThen (modify (\<lambda>w. w\<lparr>sleeps := sleeps w @ [ms]\<rparr>)) yield"

section \<open>Queue\<close>

definition updateQueueDepth :: "world \<Rightarrow> world" where
  "updateQueueDepth w = w\<lparr>metrics := (metrics w)\<lparr>m_queueDepth := length (queue w) + length (inflight w)\<rparr>\<rparr>"

definition enqueueId :: "string \<Rightarrow> unit io" where
  "enqueueId i = modify (\<lambda>w. if draining w then w
     else (updateQueueDepth (w\<lparr>queue := queue w @ [i]\<rparr>))\<lparr>spawned := spawned w @ [RunWorker]\<rparr>)"

definition enqueue :: "settlement \<Rightarrow> unit io" where
  "enqueue s = enqueueId (sid s)"

definition relayer_onModuleDestroy :: "unit io" where
  "relayer_onModuleDestroy = modify (\<lambda>w. w\<lparr>draining := True\<rparr>)"

section \<open>Low-level helpers\<close>

text \<open>The mutex: wait for the turn, then run.\<close>

definition runExclusive :: "'a io \<Rightarrow> 'a io" where
  "runExclusive fn = andThen yield fn"

definition usdc_transfer :: "tx_request \<Rightarrow> string io" where
  "usdc_transfer rq = andThen yield (await (\<lambda>e w. case rpc_transfer (rpc e (tick w)) rq of
       Inl x \<Rightarrow> (Inl x, w\<lparr>broadcastLog := broadcastLog w @ [(rq, None)]\<rparr>)
     | Inr h \<Rightarrow> (Inr h, w\<lparr>broadcastLog := broadcastLog w @ [(rq, Some h)]\<rparr>))
     (\<lambda>h. andThen yield (ret h)))"

definition request_of :: "string \<Rightarrow> int \<Rightarrow> nat \<Rightarrow> int \<Rightarrow> fees \<Rightarrow> tx_request" where
  "request_of to units n gasLimit f = \<lparr>rq_to = to, rq_units = units, rq_nonce = n,
     rq_gasLimit = gasLimit, rq_maxFeePerGas = maxFeePerGas f,
     rq_maxPriorityFeePerGas = maxPriorityFeePerGas f\<rparr>"

definition broadcast :: "string \<Rightarrow> int \<Rightarrow> nat \<Rightarrow> int \<Rightarrow> fees \<Rightarrow> string io" where
  "broadcast to units n gasLimit f = runExclusive (
     await (usdc_transfer (request_of to units n gasLimit f)) (\<lambda>h.
       andThen (modify (\<lambda>w. w\<lparr>metrics := (metrics w)\<lparr>m_broadcasts := Suc (m_broadcasts (metrics w))\<rparr>\<rparr>))
         (ret h)))"

definition estimateGas :: "string \<Rightarrow> int \<Rightarrow> int io" where
  "estimateGas to units = tryCatch
     (await (rpc_call (\<lambda>r. rpc_estimateGas r to units)) (\<lambda>est. ret (big_div (est * 120) 100)))
     (\<lambda>_. ret FALLBACK_GAS_LIMIT)"

definition one_gwei :: "int io" where
  "one_gwei = (\<lambda>e w. (parseUnits (lib e) ''1'' 9, w))"

definition buildFees :: "fees io" where
  "buildFees = await (rpc_call getFeeData) (\<lambda>fd.
     await (case fd_maxPriorityFeePerGas fd of Some p \<Rightarrow> ret p | None \<Rightarrow> one_gwei) (\<lambda>p.
       ret \<lparr>maxFeePerGas = (case fd_maxFeePerGas fd of Some m \<Rightarrow> m | None \<Rightarrow> p * 2),
         maxPriorityFeePerGas = p\<rparr>))"

text \<open>A fee of zero is falsy: such a transaction counts as having none.\<close>

definition feesFromTx :: "string \<Rightarrow> fees option io" where
  "feesFromTx h = await (rpc_call (\<lambda>r. getTransaction r h)) (\<lambda>tx.
     ret (case tx of None \<Rightarrow> None
       | Some t \<Rightarrow> (case (ti_maxFeePerGas t, ti_maxPriorityFeePerGas t) of
           (Some m, Some p) \<Rightarrow> (if m \<noteq> 0 \<and> p \<noteq> 0
              then Some \<lparr>maxFeePerGas = m, maxPriorityFeePerGas = p\<rparr> else None)
         | _ \<Rightarrow> None)))"

definition forget :: "string \<Rightarrow> world \<Rightarrow> world" where
  "forget i w = w\<lparr>inflight := AList.delete i (inflight w)\<rparr>"

definition track :: "string \<Rightarrow> nat \<Rightarrow> int \<Rightarrow> fees \<Rightarrow> nat \<Rightarrow> unit io" where
  "track i n gasLimit f attempts = await (gets (\<lambda>e w. now e (tick w))) (\<lambda>t.
     modify (\<lambda>w. w\<lparr>inflight := AList.update i
       \<lparr>if_settlementId = i, if_nonce = n, if_gasLimit = gasLimit,
        if_maxFeePerGas = maxFeePerGas f, if_maxPriorityFeePerGas = maxPriorityFeePerGas f,
        if_lastSubmittedAt = t, if_attempts = attempts\<rparr> (inflight w)\<rparr>))"

definition fail :: "string \<Rightarrow> string \<Rightarrow> nat \<Rightarrow> unit io" where
  "fail i why n = andThen (modify (forget i))
     (await (transition i FAILED (no_opts\<lparr>o_failureReason := Some (Some why), o_retryCount := Some n\<rparr>))
       (\<lambda>_. ret ()))"

section \<open>One job\<close>

text \<open>The \<open>try\<close> block of the send loop.\<close>

definition send_once :: "settlement \<Rightarrow> bool \<Rightarrow> int \<Rightarrow> int \<Rightarrow> nat \<Rightarrow> fees \<Rightarrow> nat \<Rightarrow> unit io" where
  "send_once s isResume units gasLimit n f retries =
     await (broadcast (toAddress s) units n gasLimit f) (\<lambda>h.
     andThen (modify (\<lambda>w. if \<not> isResume \<and> n = localNonce w
                       then w\<lparr>localNonce := localNonce w + 1\<rparr> else w)) (
     andThen (track (sid s) n gasLimit f retries) (
     await (transition (sid s) SUBMITTED (no_opts\<lparr>o_txHash := Some (Some h),
              o_nonce := Some (Some n), o_retryCount := Some retries\<rparr>)) (\<lambda>_. ret ()))))"

text \<open>The nonce for the next attempt, refetched when the error says ours is wrong.\<close>

definition resync :: "bool \<Rightarrow> bool \<Rightarrow> nat \<Rightarrow> nat io" where
  "resync needed isResume n =
     (if \<not> needed then ret n
      else await (rpc_call getTransactionCount) (\<lambda>fresh.
        if isResume then ret n
        else andThen (modify (\<lambda>w. w\<lparr>localNonce := fresh\<rparr>)) (ret fresh)))"

function sendLoop :: "settlement \<Rightarrow> bool \<Rightarrow> int \<Rightarrow> int \<Rightarrow> nat \<Rightarrow> nat \<Rightarrow> nat \<Rightarrow> fees \<Rightarrow> nat \<Rightarrow> unit io" where
  "sendLoop s isResume units gasLimit maxR attempt n f retries =
     tryCatch (send_once s isResume units gasLimit n f retries) (\<lambda>err.
       let cls = classifyTxError err in
       if \<not> retryable cls then fail (sid s) (reason cls) retries
       else if maxR < retries + 1
       then fail (sid s) (''MAX_RETRIES_EXCEEDED:'' @ reason cls) (retries + 1)
       else await (resync (resyncNonce cls) isResume n) (\<lambda>n'.
         let f' = (if reason cls = ''UNDERPRICED'' then bumpFees f else f) in
         andThen (sleep (backoffMs attempt))
           (sendLoop s isResume units gasLimit maxR (attempt + 1) n' f' (retries + 1))))"
  by pat_completeness auto
termination
  by (relation "measure (\<lambda>(s, isResume, units, gasLimit, maxR, attempt, n, f, retries).
        Suc maxR - retries)") auto

declare sendLoop.simps [simp del]

definition is_resume :: "settlement \<Rightarrow> bool" where
  "is_resume s \<longleftrightarrow> status s = SUBMITTED \<and> nonce s \<noteq> None"

definition processJob :: "string \<Rightarrow> unit io" where
  "processJob i = await (findById i) (\<lambda>found. case found of
     None \<Rightarrow> ret ()
   | Some s \<Rightarrow>
       if status s \<noteq> COMPLIANCE_APPROVED \<and> status s \<noteq> SUBMITTED then ret ()
       else await (gets (\<lambda>e w. case (is_resume s, nonce s) of (True, Some n) \<Rightarrow> n | _ \<Rightarrow> localNonce w))
         (\<lambda>n. await (toBaseUnits (amount s)) (\<lambda>units.
              await (estimateGas (toAddress s) units) (\<lambda>gasLimit.
              await buildFees (\<lambda>f.
              await (gets (\<lambda>e w. maxRetries (cfg e))) (\<lambda>maxR.
                sendLoop s (is_resume s) units gasLimit maxR 0 n f (retryCount s)))))))"

section \<open>The worker\<close>

text \<open>
  \<open>while (queue.length > 0 && !draining)\<close>. The result tells whether the loop ended by its
  condition; with one unit of fuel more than the jobs it meets it always does.
\<close>

fun workerLoop :: "nat \<Rightarrow> bool io" where
  "workerLoop 0 = ret False"
| "workerLoop (Suc fuel) = await (gets (\<lambda>e w. if draining w then [] else queue w)) (\<lambda>q. case q of
     [] \<Rightarrow> ret True
   | i # rest \<Rightarrow>
       andThen (modify (\<lambda>w. w\<lparr>queue := rest\<rparr>)) (
       andThen (tryCatch (processJob i) (\<lambda>err. ret ())) (
       andThen (modify updateQueueDepth) (workerLoop fuel))))"

definition runWorker :: "nat \<Rightarrow> bool io" where
  "runWorker fuel = await (gets (\<lambda>e w. workerRunning w)) (\<lambda>running.
     if running then ret True
     else andThen (modify (\<lambda>w. w\<lparr>workerRunning := True\<rparr>))
       (tryFinally (workerLoop fuel) (\<lambda>w. w\<lparr>workerRunning := False\<rparr>)))"

section \<open>The stuck-transaction sweep\<close>

definition bumpAndResend :: "settlement \<Rightarrow> string \<Rightarrow> nat \<Rightarrow> inflight_tx option \<Rightarrow> unit io" where
  "bumpAndResend s h n info =
     await (case info of
         Some t \<Rightarrow> ret \<lparr>maxFeePerGas = if_maxFeePerGas t, maxPriorityFeePerGas = if_maxPriorityFeePerGas t\<rparr>
       | None \<Rightarrow> await (feesFromTx h) (\<lambda>found. case found of Some f \<Rightarrow> ret f | None \<Rightarrow> buildFees))
     (\<lambda>prevFees. let f = bumpFees prevFees in
     await (case info of Some t \<Rightarrow> ret (if_gasLimit t)
       | None \<Rightarrow> await (toBaseUnits (amount s)) (\<lambda>units. estimateGas (toAddress s) units))
     (\<lambda>gasLimit. let newRetry = retryCount s + 1 in
     tryCatch
       (await (toBaseUnits (amount s)) (\<lambda>units.
        await (broadcast (toAddress s) units n gasLimit f) (\<lambda>h'.
        andThen (track (sid s) n gasLimit f newRetry)
          (await (recordResend (sid s) h' newRetry) (\<lambda>_. ret ())))))
       (\<lambda>err. let cls = classifyTxError err in
          if resyncNonce cls then ret ()
          else if \<not> retryable cls then fail (sid s) (''RESEND_'' @ reason cls) newRetry
          else ret ())))"

definition sweep_one :: "int \<Rightarrow> settlement \<Rightarrow> unit io" where
  "sweep_one thresholdMs s = (case (txHash s, nonce s) of
     (Some h, Some n) \<Rightarrow> if h = [] then ret () else
       await (rpc_call (\<lambda>r. getTransactionReceipt r h)) (\<lambda>rcpt. case rcpt of
         Some _ \<Rightarrow> modify (forget (sid s))
       | None \<Rightarrow>
           await (gets (\<lambda>e w. (map_of (inflight w) (sid s), now e (tick w), maxRetries (cfg e))))
           (\<lambda>(info, t, maxR).
             let lastAt = (case info of Some x \<Rightarrow> if_lastSubmittedAt x | None \<Rightarrow> updatedAt s) in
             if t - lastAt < thresholdMs then ret ()
             else if maxR \<le> retryCount s
             then andThen (fail (sid s) ''STUCK_MAX_RETRIES'' (retryCount s)) (modify (forget (sid s)))
             else bumpAndResend s h n info))
   | _ \<Rightarrow> ret ())"

definition sweepStuckTransactions :: "unit io" where
  "sweepStuckTransactions = await (gets (\<lambda>e w. draining w)) (\<lambda>stop.
     if stop then ret ()
     else await (findByStatuses [SUBMITTED]) (\<lambda>submitted.
       await (gets (\<lambda>e w. stuckTxSeconds (cfg e) * 1000)) (\<lambda>thresholdMs.
         for_each submitted (sweep_one thresholdMs))))"

text \<open>\<open>StuckTxWatcher.sweep\<close> never overlaps sweeps and survives a failed one.\<close>

definition watcher_sweep :: "unit io" where
  "watcher_sweep = await (gets (\<lambda>e w. sweepRunning w)) (\<lambda>running.
     if running then ret ()
     else andThen (modify (\<lambda>w. w\<lparr>sweepRunning := True\<rparr>))
       (tryFinally (tryCatch sweepStuckTransactions (\<lambda>err. ret ()))
         (\<lambda>w. w\<lparr>sweepRunning := False\<rparr>)))"

section \<open>Restart recovery\<close>

definition recover_one :: "settlement \<Rightarrow> unit io" where
  "recover_one s = (case txHash s of
     None \<Rightarrow> enqueueId (sid s)
   | Some h \<Rightarrow> if h = [] then enqueueId (sid s) else
       await (rpc_call (\<lambda>r. getTransactionReceipt r h)) (\<lambda>rcpt. case rcpt of
         Some r \<Rightarrow> if rc_status r = 0 then fail (sid s) ''REVERTED_ON_RECOVERY'' (retryCount s) else ret ()
       | None \<Rightarrow> await (rpc_call (\<lambda>r. getTransaction r h)) (\<lambda>tx. case tx of
           Some t \<Rightarrow> track (sid s) (case nonce s of Some n \<Rightarrow> n | None \<Rightarrow> ti_nonce t)
             (case ti_gasLimit t of Some g \<Rightarrow> g | None \<Rightarrow> FALLBACK_GAS_LIMIT)
             \<lparr>maxFeePerGas = (case ti_maxFeePerGas t of Some m \<Rightarrow> m | None \<Rightarrow> 0),
              maxPriorityFeePerGas = (case ti_maxPriorityFeePerGas t of Some p \<Rightarrow> p | None \<Rightarrow> 0)\<rparr>
             (retryCount s)
         | None \<Rightarrow> enqueueId (sid s))))"

definition recoverInFlight :: "unit io" where
  "recoverInFlight = await (findByStatuses [SUBMITTED]) (\<lambda>submitted.
     for_each submitted recover_one)"

definition relayer_onApplicationBootstrap :: "unit io" where
  "relayer_onApplicationBootstrap = await (rpc_call getTransactionCount) (\<lambda>n.
     andThen (modify (\<lambda>w. w\<lparr>localNonce := n\<rparr>)) recoverInFlight)"

end
