(* ===== verification/Compliance.thy ===== *)
theory Compliance
  imports Io
begin

text \<open>
  Compliance screening: the interface \<open>IComplianceProvider\<close>
  (\<open>src/compliance/compliance.interface.ts\<close>) as a locale, and the blocklist provider
  (\<open>src/compliance/compliance.service.ts\<close>) that implements it.
\<close>

record compliance_result =
  approved :: bool
  c_reason :: "string option"

text \<open>
  A provider answers every address, and never approves one it blocks. A rejection may come
  without a reason.
\<close>

locale compliance_provider =
  fixes check :: "string \<Rightarrow> compliance_result"
    and blocked :: "string \<Rightarrow> bool"
  assumes blocked_rejected: "blocked a \<Longrightarrow> \<not> approved (check a)"
    and clear_approved: "\<not> blocked a \<Longrightarrow> approved (check a)"
begin

lemma approved_iff: "approved (check a) \<longleftrightarrow> \<not> blocked a"
  using blocked_rejected clear_approved by blast

end

section \<open>The blocklist provider\<close>

definition blocklist :: "lib \<Rightarrow> string option set" where
  "blocklist l = set (map (getAddress l)
     [''0x000000000000000000000000000000000000dead'',
      ''0x0000000000000000000000000000000000000bad''])"

definition compliance_check :: "lib \<Rightarrow> string \<Rightarrow> compliance_result" where
  "compliance_check l toAddr =
     (case getAddress l toAddr of
        None \<Rightarrow> \<lparr>approved = False, c_reason = Some ''INVALID_ADDRESS''\<rparr>
      | Some normalized \<Rightarrow>
          (if Some normalized \<in> blocklist l
           then \<lparr>approved = False, c_reason = Some ''ADDRESS_BLOCKLISTED''\<rparr>
           else \<lparr>approved = True, c_reason = None\<rparr>))"

definition screened_out :: "lib \<Rightarrow> string \<Rightarrow> bool" where
  "screened_out l a \<longleftrightarrow> getAddress l a = None \<or> getAddress l a \<in> blocklist l"

interpretation mock_compliance: compliance_provider "compliance_check l" "screened_out l" for l
  by unfold_locales (auto simp: compliance_check_def screened_out_def split: option.splits)

text \<open>
  The spelling of an address does not matter. Two spellings that ethers normalises alike get the
  same answer.
\<close>

lemma check_normalised:
  "getAddress l a = getAddress l b \<Longrightarrow> compliance_check l a = compliance_check l b"
  by (simp add: compliance_check_def)

end
