(* ===== verification/Settlements.thy ===== *)
theory Settlements
  imports Ledger Relayer Compliance
begin

text \<open>
  \<open>SettlementsService\<close> (\<open>src/settlements/settlements.service.ts\<close>): the submission path and the
  queries of the REST API, and the status code of \<open>SettlementsController.create\<close>. The compliance
  provider is injected, so \<open>create\<close> takes it as an argument.
\<close>

record create_dto =
  d_instructionId :: string
  d_toAddress :: string
  d_amount :: string

record create_result =
  cr_settlement :: settlement
  cr_created :: bool

definition availableBalance :: "rat io" where
  "availableBalance = await getOperatorBalance (\<lambda>operatorBalance.
     await (sumByStatuses IN_FLIGHT_STATUSES) (\<lambda>inFlight.
       gets (\<lambda>e w. dround (lib e) (operatorBalance - inFlight))))"

definition insufficient :: "lib \<Rightarrow> rat \<Rightarrow> rat \<Rightarrow> exn" where
  "insufficient l a avail = HttpExn 422 ''InsufficientBalance''
     (''amount '' @ decToString l a @ '' exceeds available balance '' @ decToString l avail)"

text \<open>The insert of \<open>create\<close>: a lost race for the instruction id is an idempotent hit.\<close>

definition insert_received :: "create_dto \<Rightarrow> rat \<Rightarrow> (settlement + settlement) io" where
  "insert_received dto a = tryCatch
     (await (state_create (d_instructionId dto) (d_toAddress dto) a (Some RECEIVED)) (\<lambda>s. ret (Inr s)))
     (\<lambda>err. if isUniqueViolation err
        then await (findByInstructionId (d_instructionId dto)) (\<lambda>raced. case raced of
            Some s \<Rightarrow> ret (Inl s) | None \<Rightarrow> throw err)
        else throw err)"

definition screen :: "(string \<Rightarrow> compliance_result) \<Rightarrow> create_dto \<Rightarrow> settlement \<Rightarrow> create_result io" where
  "screen provider dto s =
     await (andThen yield (ret (provider (d_toAddress dto)))) (\<lambda>result.
       if \<not> approved result then
         await (transition (sid s) REJECTED_COMPLIANCE (no_opts\<lparr>o_failureReason :=
             Some (Some (case c_reason result of None \<Rightarrow> ''COMPLIANCE_REJECTED'' | Some why \<Rightarrow> why))\<rparr>))
         (\<lambda>rejected. ret \<lparr>cr_settlement = (case rejected of None \<Rightarrow> s | Some r \<Rightarrow> r), cr_created = True\<rparr>)
       else
         await (transition (sid s) COMPLIANCE_APPROVED no_opts) (\<lambda>appr.
           let ready = (case appr of None \<Rightarrow> s | Some r \<Rightarrow> r) in
           andThen (enqueue ready) (ret \<lparr>cr_settlement = ready, cr_created = True\<rparr>)))"

definition create :: "(string \<Rightarrow> compliance_result) \<Rightarrow> create_dto \<Rightarrow> create_result io" where
  "create provider dto = await (findByInstructionId (d_instructionId dto)) (\<lambda>existing. case existing of
     Some s \<Rightarrow> ret \<lparr>cr_settlement = s, cr_created = False\<rparr>
   | None \<Rightarrow>
       await (newDecimal_io (d_amount dto)) (\<lambda>a.
       await availableBalance (\<lambda>available.
         if available < a
         then await (gets (\<lambda>e w. insufficient (lib e) a available)) throw
         else await (insert_received dto a) (\<lambda>inserted. case inserted of
             Inl raced \<Rightarrow> ret \<lparr>cr_settlement = raced, cr_created = False\<rparr>
           | Inr s \<Rightarrow> screen provider dto s))))"

text \<open>The controller answers 201 for a new settlement, 200 for an idempotent hit.\<close>

definition create_status :: "create_result \<Rightarrow> int" where
  "create_status r = (if cr_created r then 201 else 200)"

section \<open>Queries\<close>

definition getById :: "string \<Rightarrow> settlement io" where
  "getById i = await (findById i) (\<lambda>found. case found of
     None \<Rightarrow> throw (HttpExn 404 ''Not Found'' (''Settlement '' @ i @ '' not found''))
   | Some s \<Rightarrow> ret s)"

definition getTransitions :: "string \<Rightarrow> status_transition list io" where
  "getTransitions i = andThen (await (getById i) (\<lambda>_. ret ())) (state_getTransitions i)"

record balance_view =
  bv_operatorBalance :: string
  bv_inFlightAmount :: string
  bv_availableBalance :: string

definition balanceView :: "balance_view io" where
  "balanceView = await getOperatorBalance (\<lambda>operatorBalance.
     await (sumByStatuses IN_FLIGHT_STATUSES) (\<lambda>inFlight.
       gets (\<lambda>e w. \<lparr>bv_operatorBalance = decToString (lib e) operatorBalance,
         bv_inFlightAmount = decToString (lib e) inFlight,
         bv_availableBalance = decToString (lib e) (dround (lib e) (operatorBalance - inFlight))\<rparr>)))"

end
