(* ===== verification/ChainListener.thy ===== *)
theory ChainListener
  imports Ledger
begin

text \<open>
  \<open>ChainListenerService\<close> (\<open>src/chain-listener/chain-listener.service.ts\<close>): settlements advance by
  the depth of their receipts, a reorg takes CONFIRMED back, and finality books the ledger before
  the status. A Transfer event is recorded in \<open>spawned\<close> and processed by a task of its own.
\<close>

definition handleReorg :: "settlement \<Rightarrow> unit io" where
  "handleReorg s = andThen
     (modify (\<lambda>w. w\<lparr>metrics := (metrics w)\<lparr>m_reorgs := Suc (m_reorgs (metrics w))\<rparr>\<rparr>))
     (await (transition (sid s) SUBMITTED (no_opts\<lparr>expectedFrom := Some [CONFIRMED],
        o_confirmedBlockHash := Some None, o_confirmedBlockNumber := Some None\<rparr>)) (\<lambda>_. ret ()))"

definition finalize :: "settlement \<Rightarrow> receipt \<Rightarrow> unit io" where
  "finalize s rcpt = await (recordSettlementFinalized (sid s) (amount s)) (\<lambda>_.
     await (transition (sid s) FINAL (no_opts\<lparr>o_txHash := Some (txHash s),
        expectedFrom := Some [SUBMITTED, CONFIRMED]\<rparr>)) (\<lambda>moved.
       if moved = None then ret ()
       else modify (\<lambda>w. w\<lparr>metrics := (metrics w)\<lparr>m_gasWei :=
              m_gasWei (metrics w) + rc_gasUsed rcpt * rc_gasPrice rcpt\<rparr>\<rparr>)))"

definition processReceipt :: "settlement \<Rightarrow> int \<Rightarrow> unit io" where
  "processReceipt s currentBlock = (case txHash s of
     None \<Rightarrow> ret ()
   | Some h \<Rightarrow> if h = [] then ret () else
       await (rpc_call (\<lambda>r. getTransactionReceipt r h)) (\<lambda>rcpt. case rcpt of
         None \<Rightarrow> (case confirmedBlockHash s of
             Some b \<Rightarrow> if b = [] then ret () else handleReorg s
           | None \<Rightarrow> ret ())
       | Some r \<Rightarrow>
           if rc_status r = 0 then
             await (transition (sid s) FAILED (no_opts\<lparr>o_failureReason := Some (Some ''REVERTED_ONCHAIN''),
                expectedFrom := Some [SUBMITTED, CONFIRMED]\<rparr>)) (\<lambda>_. ret ())
           else if (case confirmedBlockHash s of Some b \<Rightarrow> b \<noteq> [] \<and> b \<noteq> rc_blockHash r | None \<Rightarrow> False)
           then handleReorg s
           else await (gets (\<lambda>e w. cfg e)) (\<lambda>c.
             let confirmations = currentBlock - rc_blockNumber r + 1 in
             if confirmationsFinal c \<le> confirmations then finalize s r
             else if confirmationsConfirmed c \<le> confirmations \<and> status s = SUBMITTED then
               await (transition (sid s) CONFIRMED (no_opts\<lparr>o_txHash := Some (txHash s),
                  expectedFrom := Some [SUBMITTED],
                  o_confirmedBlockHash := Some (Some (rc_blockHash r)),
                  o_confirmedBlockNumber := Some (Some (rc_blockNumber r))\<rparr>)) (\<lambda>_. ret ())
             else ret ())))"

definition pollConfirmations :: "unit io" where
  "pollConfirmations = await (gets (\<lambda>e w. polling w)) (\<lambda>busy.
     if busy then ret ()
     else andThen (modify (\<lambda>w. w\<lparr>polling := True\<rparr>))
       (tryFinally
         (tryCatch
           (await (findByStatuses [SUBMITTED, CONFIRMED]) (\<lambda>open_rows.
              if open_rows = [] then ret ()
              else await getCurrentBlock (\<lambda>currentBlock.
                for_each open_rows (\<lambda>s. processReceipt s currentBlock))))
           (\<lambda>err. ret ()))
         (\<lambda>w. w\<lparr>polling := False\<rparr>)))"

definition processByTxHash :: "string \<Rightarrow> unit io" where
  "processByTxHash h = await (findByTxHash h) (\<lambda>found. case found of
     None \<Rightarrow> ret ()
   | Some s \<Rightarrow>
       if status s \<noteq> SUBMITTED \<and> status s \<noteq> CONFIRMED then ret ()
       else await getCurrentBlock (\<lambda>currentBlock. processReceipt s currentBlock))"

text \<open>The handler of a Transfer event: the transaction hash of its log, when it has one.\<close>

definition onTransfer :: "string option \<Rightarrow> unit io" where
  "onTransfer h = (case h of
     None \<Rightarrow> ret ()
   | Some x \<Rightarrow> if x = [] then ret ()
       else modify (\<lambda>w. w\<lparr>spawned := spawned w @ [ProcessByTxHash x]\<rparr>))"

end
