(* ===== verification/Reconciliation.thy ===== *)
theory Reconciliation
  imports Ledger
begin

text \<open>
  \<open>ReconciliationService\<close> (\<open>src/reconciliation/reconciliation.service.ts\<close>): the independent check of
  the ledger against the chain. The three reads of \<open>run\<close> are concurrent in the code and only read;
  the model makes them one after the other.
\<close>

definition EPSILON :: rat where
  "EPSILON = 1 / 1000000"

fun sum_mined :: "settlement list \<Rightarrow> rat \<Rightarrow> rat io" where
  "sum_mined [] acc = ret acc"
| "sum_mined (s # ss) acc = (case txHash s of
     None \<Rightarrow> sum_mined ss acc
   | Some h \<Rightarrow> if h = [] then sum_mined ss acc else
       await (rpc_call (\<lambda>r. getTransactionReceipt r h)) (\<lambda>rcpt.
       await (gets (\<lambda>e w. case rcpt of
           Some r \<Rightarrow> if rc_status r = 1 then dround (lib e) (acc + amount s) else acc
         | None \<Rightarrow> acc)) (sum_mined ss)))"

definition computeMinedPending :: "rat io" where
  "computeMinedPending = await (findByStatuses PENDING_STATUSES) (\<lambda>inflight_rows.
     sum_mined inflight_rows 0)"

definition insert_run :: "reconciliation_run \<Rightarrow> reconciliation_run tx" where
  "insert_run r d = (let r' = r\<lparr>ledgerBalance := dec6 (ledgerBalance r),
       chainBalance := dec6 (chainBalance r), pendingAmount := dec6 (pendingAmount r),
       diff := dec6 (diff r)\<rparr>
     in Inr (r', d\<lparr>reconciliationRuns := reconciliationRuns d @ [r']\<rparr>))"

definition count_run :: "bool \<Rightarrow> world \<Rightarrow> world" where
  "count_run matched w = (let m = metrics w; st = (if matched then MATCHED else MISMATCH) in
     w\<lparr>metrics := m\<lparr>m_reconRuns := (m_reconRuns m)(st := Suc (m_reconRuns m st)),
       m_reconMismatches := (if matched then m_reconMismatches m else Suc (m_reconMismatches m))\<rparr>\<rparr>)"

definition reconcile :: "reconciliation_run io" where
  "reconcile = await getOperatorBalance (\<lambda>ledgerB.
     await getChainBalance (\<lambda>chainB.
     await computeMinedPending (\<lambda>pendingA.
     await (gets (\<lambda>e w. dround (lib e) (dround (lib e) (ledgerB - pendingA) - chainB))) (\<lambda>dif.
       let matched = (\<bar>dif\<bar> < EPSILON) in
       await (db_tx (\<lambda>e n. insert_run \<lparr>ledgerBalance = ledgerB, chainBalance = chainB,
           pendingAmount = pendingA, diff = dif,
           rr_status = (if matched then MATCHED else MISMATCH), rr_createdAt = now e n\<rparr>)) (\<lambda>saved.
         andThen (modify (count_run matched)) (ret saved))))))"

end
