(* ===== verification/Outbox.thy ===== *)
theory Outbox
  imports SettlementState
begin

text \<open>
  \<open>OutboxRelay\<close> (\<open>src/outbox/outbox.relay.ts\<close>): unpublished rows go to the broker, oldest first, at
  most fifty a tick, each marked after it was published; the batch stops at the first failure.
  The publisher is the interface \<open>IEventPublisher\<close>, an argument that may fail on an event;
  \<open>published\<close> records what it accepted.
\<close>

definition batch :: "database \<Rightarrow> outbox_event list" where
  "batch d = take 50 (sort_key ob_createdAt (filter (\<lambda>o1. ob_publishedAt o1 = None) (outboxEvents d)))"

definition publish :: "(nat \<Rightarrow> outbox_event \<Rightarrow> exn option) \<Rightarrow> outbox_event \<Rightarrow> unit io" where
  "publish broker ev = andThen yield (andThen (\<lambda>e w. case broker (tick w) ev of
       Some x \<Rightarrow> (Inl x, w)
     | None \<Rightarrow> (Inr (), w\<lparr>published := published w @ [ev]\<rparr>)) yield)"

definition mark_tx :: "int \<Rightarrow> string \<Rightarrow> unit tx" where
  "mark_tx t i d = (if i \<in> set (map ob_id (outboxEvents d))
     then Inr ((), d\<lparr>outboxEvents :=
        upd_where (\<lambda>o1. ob_id o1 = i) (\<lambda>o1. o1\<lparr>ob_publishedAt := Some t\<rparr>) (outboxEvents d)\<rparr>)
     else Inl P2025)"

definition relay_row :: "(nat \<Rightarrow> outbox_event \<Rightarrow> exn option) \<Rightarrow> outbox_event \<Rightarrow> unit io" where
  "relay_row broker ev = andThen (publish broker ev) (db_tx (\<lambda>e n. mark_tx (now e n) (ob_id ev)))"

definition relay :: "(nat \<Rightarrow> outbox_event \<Rightarrow> exn option) \<Rightarrow> unit io" where
  "relay broker = await (gets (\<lambda>e w. relayRunning w)) (\<lambda>running.
     if running then ret ()
     else andThen (modify (\<lambda>w. w\<lparr>relayRunning := True\<rparr>))
       (tryFinally
         (tryCatch (await (db_read (\<lambda>e d. batch d)) (\<lambda>rows. for_each rows (relay_row broker)))
           (\<lambda>err. ret ()))
         (\<lambda>w. w\<lparr>relayRunning := False\<rparr>)))"

section \<open>The publishers\<close>

text \<open>
  What the relay can be bound to (\<open>src/outbox/log.publisher.ts\<close>, \<open>src/outbox/redis-stream.publisher.ts\<close>)
  and the choice between them (\<open>src/outbox/outbox.module.ts\<close>). The broker's \<open>XADD\<close>, which may
  refuse an entry, \<open>toISOString\<close> and \<open>JSON.stringify\<close> are parameters.
\<close>

definition log_publish :: "nat \<Rightarrow> outbox_event \<Rightarrow> exn option" where
  "log_publish n ev = None"

definition STREAM :: string where
  "STREAM = ''settlement-events''"

definition xadd_args :: "(int \<Rightarrow> string) \<Rightarrow> (event_payload \<Rightarrow> string) \<Rightarrow> outbox_event \<Rightarrow> string list" where
  "xadd_args isoString toJson ev = [STREAM, ''*'', ''eventId'', ob_id ev, ''type'', ob_type ev,
     ''settlementId'', ob_settlementId ev, ''createdAt'', isoString (ob_createdAt ev), ''payload'', toJson (ob_payload ev)]"

definition redis_publish :: "(nat \<Rightarrow> string list \<Rightarrow> exn option) \<Rightarrow> (int \<Rightarrow> string) \<Rightarrow> (event_payload \<Rightarrow> string)
    \<Rightarrow> nat \<Rightarrow> outbox_event \<Rightarrow> exn option" where
  "redis_publish xadd isoString toJson n ev = xadd n (xadd_args isoString toJson ev)"

text \<open>The factory of \<open>EVENT_PUBLISHER\<close>: an empty URL counts as none.\<close>

definition event_publisher :: "string option \<Rightarrow> (nat \<Rightarrow> string list \<Rightarrow> exn option) \<Rightarrow> (int \<Rightarrow> string)
    \<Rightarrow> (event_payload \<Rightarrow> string) \<Rightarrow> nat \<Rightarrow> outbox_event \<Rightarrow> exn option" where
  "event_publisher url xadd isoString toJson = (case url of
     Some (c # cs) \<Rightarrow> redis_publish xadd isoString toJson
   | _ \<Rightarrow> log_publish)"

lemma no_broker [simp]: "event_publisher None xadd isoString toJson = (\<lambda>n ev. None)"
  by (simp add: event_publisher_def log_publish_def fun_eq_iff)

end
