(* ===== verification/Protocol.thy ===== *)
theory Protocol
  imports Rely Settlements ChainListener Reconciliation Outbox
begin

text \<open>
  The contract between the database layer and the services, as a locale: an invariant of the
  database that each atomic step of the services keeps, where the step that makes a settlement
  FINAL may rely on the settlement being booked, and every step beyond compliance screening on the
  settlement having been approved. Inside it every handler of the services is shown to
  keep the invariant and to change the database by appending only, under any interference.
\<close>

definition known_amount :: "database \<Rightarrow> string \<Rightarrow> rat \<Rightarrow> bool" where
  "known_amount d i a \<longleftrightarrow> (\<exists>r \<in> set (settlements d). sid r = i \<and> amount r = a)"

lemma known_known_amount: "known s d \<Longrightarrow> known_amount d (sid s) (amount s)"
  by (auto simp: known_def known_amount_def skey_def)

section \<open>Handlers that write nothing\<close>

lemma guar_track: "stable P \<Longrightarrow> guar I P (track i n g f k)"
  unfolding track_def by (intro hoare_intros) auto

lemma guar_newDecimal: "guar I P (newDecimal_io s)"
  by (rule guar_pure) (simp add: newDecimal_io_def split: option.split)

lemma guar_toBaseUnits: "guar I P (toBaseUnits a)"
  by (rule guar_pure) (simp add: toBaseUnits_def)

text \<open>A transfer call must be due.\<close>

lemma guar_usdc_transfer:
  assumes st: "stable P" and due: "\<And>d. P d \<Longrightarrow> due I (rq_to rq) (rq_units rq) d"
  shows "guar I P (usdc_transfer rq)"
proof -
  have log: "I d (l @ [(rq, x)], k)" if "I d (l, k)" "P d" for d l k x
    using due [OF that(2)] that(1) unfolding due_def payable_def by blast
  then have "guar I P (\<lambda>e w. case rpc_transfer (rpc e (tick w)) rq of
       Inl x \<Rightarrow> (Inl x, w\<lparr>broadcastLog := broadcastLog w @ [(rq, None)]\<rparr>)
     | Inr h \<Rightarrow> (Inr h, w\<lparr>broadcastLog := broadcastLog w @ [(rq, Some h)]\<rparr>))"
    by (auto simp: guar_def hoare_def split: sum.split)
  with st show ?thesis unfolding usdc_transfer_def by (intro hoare_intros)
qed

lemma guar_broadcast: "stable P \<Longrightarrow> (\<And>d. P d \<Longrightarrow> due I to units d) \<Longrightarrow> guar I P (broadcast to units n g f)"
  unfolding broadcast_def runExclusive_def
  by (intro hoare_intros guar_usdc_transfer) (auto simp: request_of_def)

lemma hoare_toBaseUnits: "stable P \<Longrightarrow> hoare I P (toBaseUnits a) (\<lambda>u d. payable I a u)"
  by (auto simp: hoare_def toBaseUnits_def env_ok_def)

lemma guar_estimateGas: "stable P \<Longrightarrow> guar I P (estimateGas to units)"
  unfolding estimateGas_def by (intro hoare_intros)

lemma guar_one_gwei: "guar I P one_gwei"
  by (rule guar_pure) (simp add: one_gwei_def)

lemma guar_buildFees: "stable P \<Longrightarrow> guar I P buildFees"
  unfolding buildFees_def by (intro hoare_intros guar_one_gwei)

lemma guar_feesFromTx: "stable P \<Longrightarrow> guar I P (feesFromTx h)"
  unfolding feesFromTx_def by (intro hoare_intros)

lemma guar_enqueueId: "guar I P (enqueueId i)"
  unfolding enqueueId_def by (intro hoare_intros) (auto simp: updateQueueDepth_def)

lemma guar_resync: "stable P \<Longrightarrow> guar I P (resync needed isResume n)"
  unfolding resync_def by (intro hoare_intros) auto

lemma guar_sleep: "stable P \<Longrightarrow> guar I P (sleep ms)"
  unfolding sleep_def by (intro hoare_intros) auto

lemma guar_onTransfer: "guar I P (onTransfer h)"
  unfolding onTransfer_def by (intro hoare_intros) auto

lemma guar_operatorBalance: "stable P \<Longrightarrow> guar I P getOperatorBalance"
  unfolding getOperatorBalance_def getOpeningBalance_def by (intro hoare_intros)

lemma guar_availableBalance: "stable P \<Longrightarrow> guar I P availableBalance"
  unfolding availableBalance_def sumByStatuses_def by (intro hoare_intros guar_operatorBalance)

lemma guar_chainBalance: "stable P \<Longrightarrow> guar I P getChainBalance"
  unfolding getChainBalance_def by (intro hoare_intros guar_newDecimal)

lemma guar_sum_mined: "stable P \<Longrightarrow> guar I P (sum_mined ss acc)"
proof (induction ss arbitrary: acc)
  case (Cons s ss)
  then show ?case by (auto intro!: hoare_intros)
qed (auto intro: hoare_intros)

section \<open>The contract\<close>

locale db_protocol =
  fixes I :: invariant
    and allowed :: "string \<Rightarrow> bool"
  assumes I_ledger: "I d l \<Longrightarrow> ledger_wf d"
    and I_create: "I d l \<Longrightarrow> create_tx t new instr addr a (Some RECEIVED) d = Inr (r, d') \<Longrightarrow> I d' l"
    and I_transition: "I d l \<Longrightarrow> transition_tx str t ev i target opts d = Inr (res, d') \<Longrightarrow>
      (target = FINAL \<Longrightarrow> booked d i) \<Longrightarrow>
      target = COMPLIANCE_APPROVED \<or> target = REJECTED_COMPLIANCE \<or> cleared d i \<Longrightarrow>
      (target = COMPLIANCE_APPROVED \<Longrightarrow> sent_to allowed d i) \<Longrightarrow> I d' l"
    and I_cleared: "I d l \<Longrightarrow> r \<in> set (settlements d) \<Longrightarrow>
      status r = COMPLIANCE_APPROVED \<or> status r = SUBMITTED \<or> status r = CONFIRMED \<Longrightarrow>
      cleared d (sid r)"
    and I_resend: "I d l \<Longrightarrow> resend_tx t i h n d = Inr (r, d') \<Longrightarrow> I d' l"
    and I_book: "I d l \<Longrightarrow> book_tx t i a d = Inr (u, d') \<Longrightarrow> known_amount d i a \<Longrightarrow>
      cleared d i \<Longrightarrow> I d' l"
    and I_snapshot: "I d l \<Longrightarrow> snapshot_tx t new oper a d = Inr (u, d') \<Longrightarrow> I d' l"
    and I_mark: "I d l \<Longrightarrow> mark_tx t i d = Inr (u, d') \<Longrightarrow> I d' l"
    and I_run: "I d l \<Longrightarrow> insert_run rr d = Inr (rr1, d') \<Longrightarrow> I d' l"
    and I_restart: "I d l \<Longrightarrow> I d ([], 6)"
begin

lemma ledger_shape: "I d l \<Longrightarrow> bookings OPERATOR d = bookings SETTLED_OUT d"
  using I_ledger [of d l] by (simp add: ledger_wf_def)

end

section \<open>Steps of the periodic jobs\<close>

lemma evolve_run [evolve_intros]: "insert_run rr d = Inr (saved, d') \<Longrightarrow> evolve d d'"
  by (auto simp: insert_run_def Let_def evolve_def)

lemma evolve_mark [evolve_intros]: "mark_tx t i d = Inr (u, d') \<Longrightarrow> evolve d d'"
proof -
  have k: "\<And>o1 t. okey (o1\<lparr>ob_publishedAt := t\<rparr>) = okey o1" by (simp add: okey_def)
  assume "mark_tx t i d = Inr (u, d')"
  then show "evolve d d'"
    by (auto simp: mark_tx_def evolve_def map_upd_where_same [of okey, OF k] split: if_splits)
qed

section \<open>What a handler reads\<close>

definition under_way :: "settlement \<Rightarrow> bool" where
  "under_way s \<longleftrightarrow> status s = COMPLIANCE_APPROVED \<or> status s = SUBMITTED \<or> status s = CONFIRMED"

context db_protocol begin

lemma read_cleared: "I d l \<Longrightarrow> s \<in> set (settlements d) \<Longrightarrow> under_way s \<Longrightarrow> cleared d (sid s)"
  by (auto simp: under_way_def intro: I_cleared)

lemma hoare_findById:
  "hoare I (\<lambda>_. True) (findById i)
    (\<lambda>found d. \<forall>s. found = Some s \<longrightarrow> known s d \<and> (under_way s \<longrightarrow> cleared d (sid s)))"
  unfolding findById_def
proof (rule hoare_db_read)
  fix e and d :: database and l
  assume "I d l"
  then show "\<forall>s. row d i = Some s \<longrightarrow> known s d \<and> (under_way s \<longrightarrow> cleared d (sid s))"
    by (auto dest: row_SomeD known_row intro: read_cleared)
next
  fix x :: "settlement option"
  show "stable (\<lambda>d. \<forall>s. x = Some s \<longrightarrow> known s d \<and> (under_way s \<longrightarrow> cleared d (sid s)))"
    by (auto simp: stable_def intro: cleared_evolve known_evolve)
qed simp

lemma hoare_findByStatuses:
  assumes "set sts \<subseteq> {COMPLIANCE_APPROVED, SUBMITTED, CONFIRMED}"
  shows "hoare I (\<lambda>_. True) (findByStatuses sts)
    (\<lambda>rows d. \<forall>s \<in> set rows. known s d \<and> cleared d (sid s))"
  unfolding findByStatuses_def
proof (rule hoare_db_read)
  fix e and d :: database and l
  assume ok: "env_ok I e" and i: "I d l"
  from ok have "set (scan e (by_statuses d sts)) \<subseteq> set (by_statuses d sts)" by (simp only: env_ok_def)
  with assms i show "\<forall>s \<in> set (scan e (by_statuses d sts)). known s d \<and> cleared d (sid s)"
    by (fastforce simp: by_statuses_def known_def under_way_def intro: read_cleared)
qed auto

lemma hoare_findByTxHash:
  "hoare I (\<lambda>_. True) (findByTxHash h)
    (\<lambda>found d. \<forall>s. found = Some s \<longrightarrow> known s d \<and> (under_way s \<longrightarrow> cleared d (sid s)))"
  unfolding findByTxHash_def
proof (rule hoare_db_read)
  fix e and d :: database and l
  assume ok: "env_ok I e" and i: "I d l"
  let ?xs = "filter (\<lambda>r. txHash r = Some h) (settlements d)"
  from ok have "set (scan e ?xs) \<subseteq> set ?xs" by (simp only: env_ok_def)
  then have "set (scan e ?xs) \<subseteq> set (settlements d)" by auto
  with i show "\<forall>s. (case scan e ?xs of [] \<Rightarrow> None | r # x \<Rightarrow> Some r) = Some s \<longrightarrow>
      known s d \<and> (under_way s \<longrightarrow> cleared d (sid s))"
    by (auto simp: known_def split: list.split intro: read_cleared)
qed (intro stable_True stable_all stable_imp stable_conj stable_known stable_cleared)+

end

section \<open>The relayer\<close>

context db_protocol begin

lemma guar_transition:
  assumes "stable P" "to = FINAL \<Longrightarrow> \<forall>d. P d \<longrightarrow> booked d i"
    and "to = COMPLIANCE_APPROVED \<or> to = REJECTED_COMPLIANCE \<or> (\<forall>d. P d \<longrightarrow> cleared d i)"
    and "to = COMPLIANCE_APPROVED \<Longrightarrow> \<forall>d. P d \<longrightarrow> sent_to allowed d i"
  shows "guar I P (transition i to opts)"
  unfolding transition_def using assms
  by (intro guar_db_tx) (auto intro: I_transition evolve_transition)

lemma guar_recordResend: "stable P \<Longrightarrow> guar I P (recordResend i h n)"
  unfolding recordResend_def by (intro guar_db_tx) (auto intro: I_resend evolve_resend)

lemma guar_fail: "stable P \<Longrightarrow> (\<And>d. P d \<Longrightarrow> cleared d i) \<Longrightarrow> guar I P (fail i why n)"
  unfolding fail_def by (intro hoare_intros guar_transition) (auto simp: forget_def)

lemmas guar_relayer_parts = guar_fail guar_track guar_toBaseUnits guar_broadcast guar_estimateGas
  guar_buildFees guar_feesFromTx guar_enqueueId guar_recordResend guar_newDecimal

lemma guar_send_once: "stable P \<Longrightarrow> (\<And>d. P d \<Longrightarrow> cleared d (sid s) \<and> due I (toAddress s) units d) \<Longrightarrow>
    guar I P (send_once s isResume units g n f k)"
  unfolding send_once_def
  by (intro hoare_intros guar_relayer_parts guar_transition) auto

lemma guar_sendLoop:
  "stable P \<Longrightarrow> (\<And>d. P d \<Longrightarrow> cleared d (sid s) \<and> due I (toAddress s) units d) \<Longrightarrow>
   guar I P (sendLoop s isResume units g maxR attempt n f retries)"
proof (induction "Suc maxR - retries" arbitrary: attempt n f retries rule: less_induct)
  case less
  have ih: "guar I P (sendLoop s isResume units g maxR (attempt + 1) n' f' (retries + 1))"
    if "\<not> maxR < retries + 1" for n' f' using that less by auto
  show ?case
    by (subst sendLoop.simps)
       (use less.prems ih in \<open>auto simp: Let_def intro!: hoare_intros guar_send_once
          guar_relayer_parts guar_resync guar_sleep\<close>)
qed

lemma guar_processJob: "guar I (\<lambda>_. True) (processJob i)"
  unfolding processJob_def
proof (rule guar_await_dep [OF _ hoare_findById])
  fix x :: "settlement option"
  show "guar I (\<lambda>d. True \<and> (\<forall>s. x = Some s \<longrightarrow> known s d \<and> (under_way s \<longrightarrow> cleared d (sid s))))
    (case x of None \<Rightarrow> ret () | Some s \<Rightarrow>
      if status s \<noteq> COMPLIANCE_APPROVED \<and> status s \<noteq> SUBMITTED then ret ()
      else await (gets (\<lambda>e w. case (is_resume s, nonce s) of (True, Some n) \<Rightarrow> n | _ \<Rightarrow> localNonce w))
        (\<lambda>n. await (toBaseUnits (amount s)) (\<lambda>units. await (estimateGas (toAddress s) units)
          (\<lambda>gasLimit. await buildFees (\<lambda>f. await (gets (\<lambda>e w. maxRetries (cfg e)))
            (\<lambda>maxR. sendLoop s (is_resume s) units gasLimit maxR 0 n f (retryCount s)))))))"
  proof (cases x)
    case (Some s)
    let ?P = "\<lambda>d. known s d \<and> cleared d (sid s)"
    have "guar I (\<lambda>d. ?P d \<and> payable I (amount s) units) (await (estimateGas (toAddress s) units)
          (\<lambda>gasLimit. await buildFees (\<lambda>f. await (gets (\<lambda>e w. maxRetries (cfg e)))
            (\<lambda>maxR. sendLoop s (is_resume s) units gasLimit maxR 0 n f (retryCount s)))))" for units n
      by (intro hoare_intros guar_estimateGas guar_buildFees guar_sendLoop)
         (auto simp: due_def intro!: stable_conj)
    then have "guar I ?P (await (toBaseUnits (amount s)) (\<lambda>units. await (estimateGas (toAddress s) units)
          (\<lambda>gasLimit. await buildFees (\<lambda>f. await (gets (\<lambda>e w. maxRetries (cfg e)))
            (\<lambda>maxR. sendLoop s (is_resume s) units gasLimit maxR 0 n f (retryCount s))))))" for n
      by (intro guar_await_dep [OF _ hoare_toBaseUnits]) auto
    then have "guar I ?P (await (gets (\<lambda>e w. case (is_resume s, nonce s) of
        (True, Some n) \<Rightarrow> n | _ \<Rightarrow> localNonce w))
        (\<lambda>n. await (toBaseUnits (amount s)) (\<lambda>units. await (estimateGas (toAddress s) units)
          (\<lambda>gasLimit. await buildFees (\<lambda>f. await (gets (\<lambda>e w. maxRetries (cfg e)))
            (\<lambda>maxR. sendLoop s (is_resume s) units gasLimit maxR 0 n f (retryCount s)))))))"
      by (rule guar_await [OF _ guar_gets, rotated]) simp
    with Some show ?thesis
      by (auto simp: under_way_def intro!: guar_ret elim!: guar_pre)
  qed (simp add: guar_ret)
qed simp

lemma guar_workerLoop: "guar I (\<lambda>_. True) (workerLoop fuel)"
  by (induction fuel) (auto intro!: hoare_intros guar_processJob simp: updateQueueDepth_def)

lemma guar_runWorker: "guar I (\<lambda>_. True) (runWorker fuel)"
  unfolding runWorker_def by (intro hoare_intros guar_workerLoop) auto

lemma guar_bumpAndResend: "guar I (\<lambda>d. known s d \<and> cleared d (sid s)) (bumpAndResend s h n info)"
proof -
  let ?P = "\<lambda>d. known s d \<and> cleared d (sid s)"
  have "guar I (\<lambda>d. ?P d \<and> payable I (amount s) u) (await (broadcast (toAddress s) u n g f) k)"
    if "\<And>h. guar I ?P (k h)" for u g f k
    by (intro guar_await guar_broadcast guar_pre [OF that]) (auto simp: due_def intro!: stable_conj)
  then have "guar I ?P (await (toBaseUnits (amount s)) (\<lambda>u. await (broadcast (toAddress s) u n g f) k))"
    if "\<And>h. guar I ?P (k h)" for g f k
    using that by (intro guar_await_dep [OF _ hoare_toBaseUnits]) auto
  note send = this
  show ?thesis
    unfolding bumpAndResend_def Let_def by (intro send hoare_intros guar_relayer_parts) auto
qed

lemma guar_sweep_one: "guar I (\<lambda>d. known s d \<and> cleared d (sid s)) (sweep_one th s)"
  unfolding sweep_one_def Let_def
  by (intro hoare_intros guar_relayer_parts guar_bumpAndResend) (auto simp: forget_def)

text \<open>A loop over the rows of a status query.\<close>

lemma guar_rows:
  assumes "set sts \<subseteq> {COMPLIANCE_APPROVED, SUBMITTED, CONFIRMED}"
    and "\<And>rows. guar I (\<lambda>d. \<forall>s \<in> set rows. known s d \<and> cleared d (sid s)) (k rows)"
  shows "guar I (\<lambda>_. True) (await (findByStatuses sts) k)"
  by (rule guar_await_dep [OF _ hoare_findByStatuses [OF assms(1)]]) (simp_all add: assms(2))

lemma guar_sweep: "guar I (\<lambda>_. True) sweepStuckTransactions"
  unfolding sweepStuckTransactions_def
  by (intro guar_rows hoare_intros) (auto intro: guar_pre [OF guar_sweep_one])

lemma guar_watcher: "guar I (\<lambda>_. True) watcher_sweep"
  unfolding watcher_sweep_def by (intro hoare_intros guar_sweep) auto

lemma guar_recover_one: "guar I (\<lambda>d. cleared d (sid s)) (recover_one s)"
  unfolding recover_one_def by (intro hoare_intros guar_relayer_parts) auto

lemma guar_recoverInFlight: "guar I (\<lambda>_. True) recoverInFlight"
  unfolding recoverInFlight_def
  by (intro guar_rows guar_for_each) (auto intro: guar_pre [OF guar_recover_one])

lemma guar_bootstrap: "guar I (\<lambda>_. True) relayer_onApplicationBootstrap"
  unfolding relayer_onApplicationBootstrap_def
  by (intro hoare_intros guar_recoverInFlight) auto

end

section \<open>The listener, the submission path and the periodic jobs\<close>

context db_protocol begin

text \<open>Booking a known settlement ends, when it answers at all, with the settlement booked.\<close>

lemma hoare_book:
  "hoare I (\<lambda>d. known s d \<and> cleared d (sid s)) (recordSettlementFinalized (sid s) (amount s)) (\<lambda>_ d. booked d (sid s))"
proof (rule hoareI)
  fix e and w :: world
  assume ok: "env_ok I e" and i: "I (db w) (sending w)" and k: "known s (db w) \<and> cleared (db w) (sid s)"
  let ?m = "db_tx (\<lambda>e n. book_tx (now e n) (sid s) (amount s))"
  have tx: "hoare I (\<lambda>d. known s d \<and> cleared d (sid s)) ?m (\<lambda>_ d. booked d (sid s))"
  proof (rule hoare_db_tx)
    fix e n d l u d'
    assume *: "I d l" "known s d \<and> cleared d (sid s)" "book_tx (now e n) (sid s) (amount s) d = Inr (u, d')"
    then have "booked d' (sid s)"
      using I_ledger [of d l] by (auto simp: ledger_wf_def book_tx_eq booked_def bookings_pair split: if_splits)
    with * show "I d' l \<and> evolve d d' \<and> booked d' (sid s)"
      by (auto intro: I_book evolve_book known_known_amount)
  qed auto
  obtain r w1 where r: "?m e w = (r, w1)" by force
  from tx ok i k r have w1: "I (db w1) (sending w1)" "evolve (db w) (db w1)"
    "\<And>u. r = Inr u \<Longrightarrow> booked (db w1) (sid s)"
    unfolding hoare_def by (metis fst_conv snd_conv)+
  have dup: "booked (db w1) (sid s)" if x: "r = Inl x" "isUniqueViolation x" for x
  proof -
    from x have "x \<noteq> Crash" by auto
    with db_tx_exn [OF ok i, where f = "\<lambda>e n. book_tx (now e n) (sid s) (amount s)" and x = x] r x(1)
    have "(\<exists>n. dbErr e n = Some x) \<or>
      (\<exists>n d l. I d l \<and> book_tx (now e n) (sid s) (amount s) d = Inl x \<and> db w1 = d)" by auto
    moreover from ok x(2) have "\<not> (\<exists>n. dbErr e n = Some x)" by (auto simp: env_ok_def)
    ultimately obtain n d l where "I d l" "book_tx (now e n) (sid s) (amount s) d = Inl x" "db w1 = d"
      by blast
    with x(2) show ?thesis
      using I_ledger [of d l] by (auto simp: ledger_wf_def book_tx_eq P2003_def split: if_splits)
  qed
  show "I (db (snd (recordSettlementFinalized (sid s) (amount s) e w))) (sending (snd (recordSettlementFinalized (sid s) (amount s) e w))) \<and>
    evolve (db w) (db (snd (recordSettlementFinalized (sid s) (amount s) e w))) \<and>
    (\<forall>x. fst (recordSettlementFinalized (sid s) (amount s) e w) = Inr x \<longrightarrow>
      booked (db (snd (recordSettlementFinalized (sid s) (amount s) e w))) (sid s))"
    using r w1 dup by (cases r) (auto simp: recordSettlementFinalized_def io_defs)
qed

lemma guar_finalize: "guar I (\<lambda>d. known s d \<and> cleared d (sid s)) (finalize s rcpt)"
  unfolding finalize_def
  by (rule guar_await_dep [OF _ hoare_book])
     (auto intro!: hoare_intros guar_transition)

lemma guar_handleReorg: "stable P \<Longrightarrow> (\<And>d. P d \<Longrightarrow> cleared d (sid s)) \<Longrightarrow> guar I P (handleReorg s)"
  unfolding handleReorg_def by (intro hoare_intros guar_transition) auto

lemma guar_processReceipt: "guar I (\<lambda>d. known s d \<and> cleared d (sid s)) (processReceipt s b)"
  unfolding processReceipt_def Let_def
  by (intro hoare_intros guar_handleReorg guar_finalize guar_transition) auto

lemma guar_poll: "guar I (\<lambda>_. True) pollConfirmations"
proof -
  have "guar I (\<lambda>_. True) (await (findByStatuses [SUBMITTED, CONFIRMED]) (\<lambda>rows.
      if rows = [] then ret ()
      else await getCurrentBlock (\<lambda>b. for_each rows (\<lambda>s. processReceipt s b))))"
    by (rule guar_rows)
       (auto simp: getCurrentBlock_def intro!: hoare_intros guar_pre [OF guar_processReceipt])
  note body = this
  show ?thesis
    unfolding pollConfirmations_def
    by (rule body stable_True guar_ret guar_gets guar_modify guar_if guar_tryFinally guar_tryCatch
        guar_andThen guar_await | simp)+
qed

lemma guar_processByTxHash: "guar I (\<lambda>_. True) (processByTxHash h)"
  unfolding processByTxHash_def
proof (rule guar_await_dep [OF _ hoare_findByTxHash])
  fix x :: "settlement option"
  show "guar I (\<lambda>d. True \<and> (\<forall>s. x = Some s \<longrightarrow> known s d \<and> (under_way s \<longrightarrow> cleared d (sid s))))
     (case x of None \<Rightarrow> ret ()
      | Some s \<Rightarrow> if status s \<noteq> SUBMITTED \<and> status s \<noteq> CONFIRMED then ret ()
         else await getCurrentBlock (processReceipt s))"
  proof (cases x)
    case (Some s)
    have "guar I (\<lambda>d. known s d \<and> cleared d (sid s)) (await getCurrentBlock (processReceipt s))"
      by (auto simp: getCurrentBlock_def intro!: hoare_intros guar_processReceipt)
    with Some show ?thesis by (auto simp: under_way_def intro!: guar_ret elim!: guar_pre)
  qed (simp add: guar_ret)
qed simp

lemma hoare_state_create:
  "hoare I (\<lambda>_. True) (state_create i a x (Some RECEIVED)) (\<lambda>s d. known s d \<and> toAddress s = a)"
  unfolding state_create_def
proof (rule hoare_db_tx)
  fix e n d l s d'
  assume i: "I d l" and tx: "create_tx (now e n) (uuid e n) i a x (Some RECEIVED) d = Inr (s, d')"
  from tx have "known s d' \<and> toAddress s = a"
    by (rule create_tx_cases) (simp add: known_def)
  with i tx show "I d' l \<and> evolve d d' \<and> known s d' \<and> toAddress s = a"
    by (auto intro: I_create evolve_create)
qed (auto simp: stable_def intro: known_evolve)

lemma hoare_insert:
  "hoare I (\<lambda>_. True) (insert_received dto a)
    (\<lambda>x d. \<forall>s. x = Inr s \<longrightarrow> known s d \<and> toAddress s = d_toAddress dto)"
  unfolding insert_received_def
proof (rule hoare_tryCatch)
  show "hoare I (\<lambda>_. True) (await (state_create (d_instructionId dto) (d_toAddress dto) a (Some RECEIVED))
      (\<lambda>s. ret (Inr s))) (\<lambda>x d. \<forall>s. x = Inr s \<longrightarrow> known s d \<and> toAddress s = d_toAddress dto)"
    by (rule hoare_await [OF hoare_state_create hoare_ret]) auto
  fix err
  have "hoare I (\<lambda>_. True) (if isUniqueViolation err
      then await (findByInstructionId (d_instructionId dto)) (\<lambda>raced. case raced of
        Some s \<Rightarrow> ret (Inl s) | None \<Rightarrow> throw err)
      else throw err) (\<lambda>x d. \<forall>s. x \<noteq> Inr s)"
    unfolding findByInstructionId_def
    by (auto intro!: hoare_await [OF hoare_db_read [where Q = "\<lambda>_ _. True"]] hoare_ret
        split: option.split simp: hoare_throw)
  then show "hoare I (\<lambda>_. True) (if isUniqueViolation err
      then await (findByInstructionId (d_instructionId dto)) (\<lambda>raced. case raced of
        Some s \<Rightarrow> ret (Inl s) | None \<Rightarrow> throw err)
      else throw err) (\<lambda>x d. \<forall>s. x = Inr s \<longrightarrow> known s d \<and> toAddress s = d_toAddress dto)"
    by (rule hoare_post) simp
qed simp

text \<open>A submission screened by a provider that approves allowed addresses only.\<close>

lemma guar_screen:
  assumes "\<And>a. approved (provider a) \<Longrightarrow> allowed a"
  shows "guar I (\<lambda>d. known s d \<and> toAddress s = d_toAddress dto) (screen provider dto s)"
proof -
  have st: "stable (\<lambda>d. known s d \<and> toAddress s = d_toAddress dto)"
    by (auto simp: stable_def intro: known_evolve)
  have rejected: "guar I P (transition i REJECTED_COMPLIANCE opts)" if "stable P" for P i opts
    using that by (intro guar_transition) auto
  have approve: "guar I (\<lambda>d. known s d \<and> toAddress s = d_toAddress dto)
      (transition (sid s) COMPLIANCE_APPROVED no_opts)" if "approved (provider (d_toAddress dto))"
    using assms [OF that] st by (intro guar_transition) (auto intro: known_sent_to)
  have answer: "hoare I (\<lambda>d. known s d \<and> toAddress s = d_toAddress dto)
      (andThen yield (ret (provider (d_toAddress dto)))) (\<lambda>x d. x = provider (d_toAddress dto))"
    unfolding andThen_def
    by (rule hoare_await [OF guar_yield [unfolded guar_def] hoare_ret st]) simp
  show ?thesis
    unfolding screen_def enqueue_def Let_def
    by (rule guar_await_dep [OF st answer], rule guar_known_value)
       (auto intro!: hoare_intros guar_enqueueId rejected st approve)
qed

lemma guar_create:
  assumes "\<And>a. approved (provider a) \<Longrightarrow> allowed a"
  shows "guar I (\<lambda>_. True) (create provider dto)"
proof -
  have tail: "guar I (\<lambda>_. True) (await (insert_received dto a) (\<lambda>inserted. case inserted of
      Inl raced \<Rightarrow> ret \<lparr>cr_settlement = raced, cr_created = False\<rparr>
    | Inr s \<Rightarrow> screen provider dto s))" for a
  proof (rule guar_await_dep [OF _ hoare_insert])
    fix x
    show "guar I (\<lambda>d. True \<and> (\<forall>s. x = Inr s \<longrightarrow> known s d \<and> toAddress s = d_toAddress dto))
      (case x of Inl raced \<Rightarrow> ret \<lparr>cr_settlement = raced, cr_created = False\<rparr>
        | Inr s \<Rightarrow> screen provider dto s)"
      using assms by (cases x) (auto intro!: guar_ret guar_screen)
  qed simp
  show ?thesis
    unfolding create_def findByInstructionId_def
    by (intro hoare_intros guar_newDecimal guar_availableBalance tail) auto
qed

lemma guar_snapshot: "guar I (\<lambda>_. True) ensureOpeningSnapshot"
  unfolding ensureOpeningSnapshot_def
  by (intro hoare_intros guar_chainBalance guar_db_tx) (auto intro: I_snapshot evolve_snapshot)

lemma guar_reconcile: "guar I (\<lambda>_. True) reconcile"
  unfolding reconcile_def computeMinedPending_def findByStatuses_def Let_def
  by (intro hoare_intros guar_operatorBalance guar_chainBalance guar_sum_mined guar_db_tx)
     (auto intro: I_run evolve_run simp: count_run_def Let_def)

lemma guar_relay: "guar I (\<lambda>_. True) (relay broker)"
proof -
  have "guar I (\<lambda>_. True) (db_tx (\<lambda>e n. mark_tx (now e n) i))" for i
    by (intro guar_db_tx) (auto intro: I_mark evolve_mark)
  moreover have "guar I (\<lambda>_. True) (publish broker ev)" for ev
    unfolding publish_def by (intro hoare_intros guar_pure) (auto split: option.split)
  ultimately have "guar I (\<lambda>_. True) (relay_row broker ev)" for ev
    unfolding relay_row_def by (intro guar_andThen) auto
  then show ?thesis
    unfolding relay_def by (intro hoare_intros) auto
qed

end

end
