(* ===== verification/Invariants.thy ===== *)
theory Invariants
  imports Protocol
begin

text \<open>
  The invariant of the database that the services keep together: unique keys, a well-formed ledger
  whose bookings are of known settlements at their amount, FINAL only after booking, nothing beyond
  screening that compliance did not approve, an audit trail that replays to the current status, and an outbox that mirrors the trail. It satisfies the
  contract of \<open>Protocol\<close>, so every handler keeps it under any interference.
\<close>

section \<open>The parts\<close>

definition uniq_ok :: "database \<Rightarrow> bool" where
  "uniq_ok d \<longleftrightarrow> distinct (map sid (settlements d)) \<and> distinct (map instructionId (settlements d)) \<and>
     distinct (map ob_id (outboxEvents d))"

definition amounts_ok :: "database \<Rightarrow> bool" where
  "amounts_ok d \<longleftrightarrow> (\<forall>r \<in> set (settlements d). micro (amount r))"

definition bookings_ok :: "database \<Rightarrow> bool" where
  "bookings_ok d \<longleftrightarrow> (\<forall>(i, a) \<in> set (bookings OPERATOR d). known_amount d i a)"

definition final_ok :: "database \<Rightarrow> bool" where
  "final_ok d \<longleftrightarrow> (\<forall>r \<in> set (settlements d). status r = FINAL \<longrightarrow>
     instructionId r = GENESIS_INSTRUCTION_ID \<or> booked d (sid r))"

fun replay :: "settlement_status \<Rightarrow> status_transition list \<Rightarrow> settlement_status option" where
  "replay s [] = Some s"
| "replay s (t # ts) = (if fromStatus t = s then replay (toStatus t) ts else None)"

text \<open>A settlement starts as RECEIVED, the opening row as FINAL.\<close>

definition trail_ok :: "database \<Rightarrow> settlement \<Rightarrow> bool" where
  "trail_ok d r \<longleftrightarrow> replay RECEIVED (transitions_of d (sid r)) = Some (status r) \<or>
     instructionId r = GENESIS_INSTRUCTION_ID \<and>
       replay FINAL (transitions_of d (sid r)) = Some (status r)"

definition audit_ok :: "database \<Rightarrow> bool" where
  "audit_ok d \<longleftrightarrow> (\<forall>r \<in> set (settlements d). trail_ok d r) \<and>
     st_settlementId ` set (statusTransitions d) \<subseteq> sid ` set (settlements d)"

definition emitted :: "status_transition list \<Rightarrow> (string \<times> string) list" where
  "emitted ts = concat (map (\<lambda>t. case OUTBOX_EVENT_TYPES (toStatus t) of
     None \<Rightarrow> [] | Some ty \<Rightarrow> [(st_settlementId t, ty)]) ts)"

definition outbox_ok :: "database \<Rightarrow> bool" where
  "outbox_ok d \<longleftrightarrow>
     map (\<lambda>o1. (ob_settlementId o1, ob_type o1)) (outboxEvents d) = emitted (statusTransitions d)"

text \<open>Beyond screening, and in the ledger, only what compliance approved.\<close>

definition screened_ok :: "database \<Rightarrow> bool" where
  "screened_ok d \<longleftrightarrow> (\<forall>r \<in> set (settlements d). status r \<noteq> RECEIVED \<longrightarrow> status r \<noteq> REJECTED_COMPLIANCE \<longrightarrow>
     \<not> (status r = FINAL \<and> instructionId r = GENESIS_INSTRUCTION_ID) \<longrightarrow> cleared d (sid r)) \<and>
   (\<forall>i. booked d i \<longrightarrow> cleared d i)"

definition db_inv :: "database \<Rightarrow> bool" where
  "db_inv d \<longleftrightarrow> uniq_ok d \<and> amounts_ok d \<and> ledger_wf d \<and> bookings_ok d \<and> final_ok d \<and>
     audit_ok d \<and> outbox_ok d \<and> screened_ok d"

lemmas db_inv_defs = uniq_ok_def amounts_ok_def bookings_ok_def final_ok_def audit_ok_def outbox_ok_def
  screened_ok_def

lemma db_inv_empty: "db_inv empty_db"
  by (simp add: db_inv_def db_inv_defs empty_db_def ledger_wf_def booked_def bookings_def emitted_def)

section \<open>Congruences\<close>

lemma known_amount_evolve: "known_amount d i a \<Longrightarrow> evolve d d' \<Longrightarrow> known_amount d' i a"
proof -
  assume "known_amount d i a" "evolve d d'"
  then obtain r where r: "r \<in> set (settlements d)" "sid r = i" "amount r = a"
    and sub: "skey ` set (settlements d) \<subseteq> skey ` set (settlements d')"
    using prefix_set by (fastforce simp: known_amount_def evolve_def)
  from r(1) sub obtain r' where "r' \<in> set (settlements d')" "skey r' = skey r" by force
  with r show ?thesis by (auto simp: known_amount_def skey_def)
qed

lemma bookings_ok_evolve:
  "bookings_ok d \<Longrightarrow> evolve d d' \<Longrightarrow> ledgerEntries d' = ledgerEntries d \<Longrightarrow> bookings_ok d'"
  by (auto simp: bookings_ok_def bookings_cong [of d' d] intro: known_amount_evolve)

lemma booked_cong: "ledgerEntries d' = ledgerEntries d \<Longrightarrow> booked d' i = booked d i"
  by (simp add: booked_def bookings_cong [of d' d])

lemma cleared_cong: "statusTransitions d' = statusTransitions d \<Longrightarrow> cleared d' i = cleared d i"
  by (simp add: cleared_def)

lemma replay_snoc: "replay s (ts @ [t]) =
    (case replay s ts of None \<Rightarrow> None | Some u \<Rightarrow> if fromStatus t = u then Some (toStatus t) else None)"
  by (induction ts arbitrary: s) auto

lemma transitions_of_cong:
  "statusTransitions d' = statusTransitions d \<Longrightarrow> transitions_of d' i = transitions_of d i"
  by (simp add: transitions_of_def)

lemma emitted_append: "emitted (xs @ ys) = emitted xs @ emitted ys"
  by (simp add: emitted_def)

section \<open>Transition\<close>

lemma settlements_write_transition:
  "settlements (write_transition str t ev to opts cur d) =
     upd_where (\<lambda>r. sid r = sid cur) (apply_opts t to opts) (settlements d)"
  by (simp add: write_transition_def Let_def)

lemma write_uniq:
  assumes "uniq_ok d" "OUTBOX_EVENT_TYPES to \<noteq> None \<Longrightarrow> ev \<notin> set (map ob_id (outboxEvents d))"
  shows "uniq_ok (write_transition str t ev to opts cur d)"
  using assms
  by (auto simp: uniq_ok_def write_transition_def Let_def map_upd_where_same split: option.splits)

lemma write_final:
  assumes "final_ok d" "to = FINAL \<Longrightarrow> booked d (sid cur)"
  shows "final_ok (write_transition str t ev to opts cur d)"
proof -
  have b: "booked (write_transition str t ev to opts cur d) i = booked d i" for i
    by (rule booked_cong) simp
  show ?thesis
    unfolding final_ok_def settlements_write_transition b
    using assms by (auto simp: final_ok_def elim!: in_upd_whereE split: if_splits)
qed

lemma write_audit:
  assumes u: "uniq_ok d" and a: "audit_ok d" and cur: "row d i = Some cur"
  shows "audit_ok (write_transition str t ev to opts cur d)"
proof -
  let ?d' = "write_transition str t ev to opts cur d"
  let ?t = "\<lparr>st_settlementId = sid cur, fromStatus = status cur, toStatus = to,
      st_txHash = (case o_txHash opts of Some (Some h) \<Rightarrow> Some h | _ \<Rightarrow> txHash cur), st_createdAt = t\<rparr>"
  have ts: "statusTransitions ?d' = statusTransitions d @ [?t]"
    by (simp add: write_transition_def Let_def)
  then have tr: "transitions_of ?d' j = transitions_of d j @ (if j = sid cur then [?t] else [])" for j
    by (simp add: transitions_of_def)
  from cur have c: "cur \<in> set (settlements d)" by (auto dest: row_SomeD)
  have "trail_ok ?d' r'" if "r' \<in> set (settlements ?d')" for r'
  proof -
    from that obtain r where r: "r \<in> set (settlements d)"
      "r' = (if sid r = sid cur then apply_opts t to opts r else r)"
      unfolding settlements_write_transition by (rule in_upd_whereE)
    show ?thesis
    proof (cases "sid r = sid cur")
      case True
      with u r c have "r = cur" by (auto simp: uniq_ok_def distinct_map inj_on_def)
      with a c r True show ?thesis
        by (auto simp: audit_ok_def trail_ok_def tr replay_snoc dest!: bspec)
    next
      case False
      with a r show ?thesis by (auto simp: audit_ok_def trail_ok_def tr dest!: bspec)
    qed
  qed
  moreover have "sid ` set (settlements ?d') = sid ` set (settlements d)"
    by (metis settlements_write_transition apply_opts_simps(1) list.set_map map_upd_where_same)
  ultimately show ?thesis using a c by (auto simp: audit_ok_def ts)
qed

lemma write_screened:
  assumes "screened_ok d"
    and "to = COMPLIANCE_APPROVED \<or> to = REJECTED_COMPLIANCE \<or> cleared d (sid cur)"
  shows "screened_ok (write_transition str t ev to opts cur d)"
proof -
  let ?d' = "write_transition str t ev to opts cur d"
  have b: "booked ?d' i = booked d i" for i by (rule booked_cong) simp
  have c: "cleared ?d' i \<longleftrightarrow> cleared d i \<or> i = sid cur \<and> to = COMPLIANCE_APPROVED" for i
    by (auto simp: cleared_def write_transition_def Let_def)
  show ?thesis
    using assms unfolding screened_ok_def settlements_write_transition b c
    by (auto elim!: in_upd_whereE split: if_splits)
qed

lemma write_outbox:
  "outbox_ok d \<Longrightarrow> outbox_ok (write_transition str t ev to opts cur d)"
  by (simp add: outbox_ok_def write_transition_def Let_def emitted_append)
     (simp add: emitted_def split: option.split)

lemma inv_transition:
  assumes inv: "db_inv d" and tx: "transition_tx str t ev i to opts d = Inr (res, d')"
    and bk: "to = FINAL \<Longrightarrow> booked d i"
    and cl: "to = COMPLIANCE_APPROVED \<or> to = REJECTED_COMPLIANCE \<or> cleared d i"
  shows "db_inv d'"
  using tx
proof (cases rule: transition_tx_cases)
  case guarded
  with inv show ?thesis by simp
next
  case (moved cur)
  from moved(1) have i: "sid cur = i" by (auto dest: row_SomeD)
  have l: "ledgerEntries d' = ledgerEntries d" by (simp add: moved(5))
  have "amounts_ok d'"
    using inv by (auto simp: db_inv_def amounts_ok_def moved(5) settlements_write_transition
        elim!: in_upd_whereE)
  moreover have "uniq_ok d'" using inv moved(3) by (auto simp: db_inv_def moved(5) intro!: write_uniq)
  moreover have "final_ok d'" using inv bk i by (auto simp: db_inv_def moved(5) intro!: write_final)
  moreover have "audit_ok d'" using inv moved(1) by (auto simp: db_inv_def moved(5) intro!: write_audit)
  moreover have "outbox_ok d'" using inv by (auto simp: db_inv_def moved(5) intro!: write_outbox)
  moreover have "screened_ok d'"
    using inv cl i by (auto simp: db_inv_def moved(5) intro!: write_screened)
  moreover have "bookings_ok d'"
    using inv tx l by (auto simp: db_inv_def intro: bookings_ok_evolve evolve_transition)
  ultimately show ?thesis using inv l ledger_wf_cong [of d' d] by (simp add: db_inv_def)
qed

section \<open>The other steps\<close>

lemma inv_create:
  assumes inv: "db_inv d" and tx: "create_tx t new instr addr a (Some st) d = Inr (r, d')"
    and st: "st = RECEIVED \<or> st = FINAL \<and> instr = GENESIS_INSTRUCTION_ID"
  shows "db_inv d'"
  using tx
proof (cases rule: create_tx_cases)
  case 1
  have l: "ledgerEntries d' = ledgerEntries d" and rows: "settlements d' = settlements d @ [r]"
    and trs: "statusTransitions d' = statusTransitions d" by (simp_all add: 1(1))
  have tr: "transitions_of d' j = transitions_of d j" for j
    using trs by (rule transitions_of_cong)
  have fresh: "transitions_of d new = []"
    using inv 1(7) by (auto simp: db_inv_def audit_ok_def transitions_of_def filter_empty_conv)
  have "audit_ok d'"
    using inv fresh st 1(2-6) by (auto simp: db_inv_def audit_ok_def trail_ok_def tr rows trs)
  moreover have "uniq_ok d'" using inv 1 by (auto simp: db_inv_def uniq_ok_def)
  moreover have "amounts_ok d'" using inv 1 by (auto simp: db_inv_def amounts_ok_def)
  moreover have "final_ok d'"
    using inv st 1(2,3,6) by (auto simp: db_inv_def final_ok_def rows booked_cong [OF l])
  moreover have "outbox_ok d'" using inv by (simp add: db_inv_def outbox_ok_def 1(1))
  moreover have "screened_ok d'"
    using inv st 1(2,3,6)
    by (auto simp: db_inv_def screened_ok_def rows cleared_cong [OF trs] booked_cong [OF l])
  moreover have "bookings_ok d'"
    using inv tx l by (auto simp: db_inv_def intro: bookings_ok_evolve evolve_create)
  ultimately show ?thesis using inv l ledger_wf_cong [of d' d] by (simp add: db_inv_def)
qed

lemma inv_resend:
  assumes inv: "db_inv d" and tx: "resend_tx t i h n d = Inr (r, d')"
  shows "db_inv d'"
  using tx
proof (cases rule: resend_tx_cases)
  case (1 cur)
  let ?f = "\<lambda>r. r\<lparr>txHash := Some h, retryCount := n, updatedAt := t\<rparr>"
  have l: "ledgerEntries d' = ledgerEntries d" by (simp add: 1(3))
  have tr: "transitions_of d' j = transitions_of d j" for j
    by (rule transitions_of_cong) (simp add: 1(3))
  have keys: "map sid (settlements d') = map sid (settlements d)"
    "map instructionId (settlements d') = map instructionId (settlements d)"
    unfolding 1(3) by (simp_all add: map_upd_where_same [of _ ?f])
  then have sids: "sid ` set (settlements d') = sid ` set (settlements d)" by (metis list.set_map)
  have rows: "\<exists>r \<in> set (settlements d). sid r' = sid r \<and> status r' = status r \<and> amount r' = amount r
      \<and> instructionId r' = instructionId r" if "r' \<in> set (settlements d')" for r'
    using that unfolding 1(3) by (auto elim!: in_upd_whereE)
  have "uniq_ok d'" using inv keys by (simp add: db_inv_def uniq_ok_def 1(3))
  moreover have "amounts_ok d'" using inv rows by (fastforce simp: db_inv_def amounts_ok_def)
  moreover have "final_ok d'"
    using inv rows by (fastforce simp: db_inv_def final_ok_def booked_cong [OF l])
  moreover have "audit_ok d'"
    using inv rows sids unfolding db_inv_def audit_ok_def trail_ok_def tr
    by (fastforce simp: 1(3) simp del: upd_where_simps)
  moreover have "outbox_ok d'" using inv by (simp add: db_inv_def outbox_ok_def 1(3))
  moreover have "screened_ok d'"
  proof -
    have c: "cleared d' j = cleared d j" for j by (rule cleared_cong) (simp add: 1(3))
    from inv have s: "screened_ok d" by (simp add: db_inv_def)
    show ?thesis
      using s rows unfolding screened_ok_def c booked_cong [OF l] by metis
  qed
  moreover have "bookings_ok d'"
    using inv tx l by (auto simp: db_inv_def intro: bookings_ok_evolve evolve_resend)
  ultimately show ?thesis using inv l ledger_wf_cong [of d' d] by (simp add: db_inv_def)
qed

text \<open>Steps that touch the ledger, the runs or the publication marks only.\<close>

lemma inv_frame:
  assumes inv: "db_inv d" and same: "settlements d' = settlements d"
      "statusTransitions d' = statusTransitions d"
      "map okey (outboxEvents d') = map okey (outboxEvents d)"
    and led: "ledger_wf d'" "bookings_ok d'" "\<And>i. booked d i \<Longrightarrow> booked d' i"
      "\<And>i. booked d' i \<Longrightarrow> booked d i \<or> cleared d i"
  shows "db_inv d'"
proof -
  have "map fst (map okey (outboxEvents d')) = map fst (map okey (outboxEvents d))"
    by (simp only: same(3))
  then have ids: "map ob_id (outboxEvents d') = map ob_id (outboxEvents d)"
    by (simp add: okey_def comp_def)
  have "map (\<lambda>(a, b, c, _). (b, c)) (map okey (outboxEvents d'))
      = map (\<lambda>(a, b, c, _). (b, c)) (map okey (outboxEvents d))" by (simp only: same(3))
  then have types: "map (\<lambda>o1. (ob_settlementId o1, ob_type o1)) (outboxEvents d')
      = map (\<lambda>o1. (ob_settlementId o1, ob_type o1)) (outboxEvents d)"
    by (simp add: okey_def comp_def)
  have tr: "transitions_of d' j = transitions_of d j" for j
    by (rule transitions_of_cong) (rule same(2))
  have "uniq_ok d'" "amounts_ok d'" "audit_ok d'" "outbox_ok d'"
    using inv by (simp_all add: db_inv_def uniq_ok_def amounts_ok_def audit_ok_def outbox_ok_def
        trail_ok_def ids types tr same(1,2))
  moreover have "final_ok d'" using inv led(3) by (auto simp: db_inv_def final_ok_def same(1))
  moreover have "screened_ok d'"
    using inv led(4) by (auto simp: db_inv_def screened_ok_def same(1) cleared_cong [OF same(2)])
  ultimately show ?thesis using led(1,2) by (simp add: db_inv_def)
qed

lemma inv_book:
  assumes inv: "db_inv d" and tx: "book_tx t i a d = Inr (u, d')" and k: "known_amount d i a"
    and cl: "cleared d i"
  shows "db_inv d'"
proof -
  from inv have wf: "ledger_wf d" by (simp add: db_inv_def)
  with tx have d': "d' = d\<lparr>ledgerEntries := ledgerEntries d @ booking_pair t i a\<rparr>"
    by (auto simp: ledger_wf_def book_tx_eq split: if_splits)
  from inv k have "dec6 a = a"
    by (auto simp: db_inv_def amounts_ok_def known_amount_def intro!: dec6_fix)
  then have b: "bookings OPERATOR d' = bookings OPERATOR d @ [(i, a)]"
    by (simp add: d' bookings_pair)
  have "known_amount d' = known_amount d" by (auto simp: fun_eq_iff known_amount_def d')
  with inv b k have "bookings_ok d'" by (auto simp: db_inv_def bookings_ok_def)
  moreover have "booked d' j" if "booked d j" for j using that by (auto simp: booked_def b)
  moreover have "booked d j \<or> cleared d j" if "booked d' j" for j
    using that cl by (auto simp: booked_def b)
  ultimately show ?thesis using book_tx_ledger_wf [OF wf tx]
    by (intro inv_frame [OF inv]) (simp_all add: d')
qed

lemma inv_genesis_entry:
  assumes inv: "db_inv d" and tx: "insert_entry \<lparr>le_settlementId = i, le_account = GENESIS,
      le_direction = CREDIT, le_amount = a, le_createdAt = t\<rparr> d = Inr (u, d')"
    and none: "bookings GENESIS d = []"
  shows "db_inv d'"
proof -
  from tx have d': "d' = d\<lparr>ledgerEntries := ledgerEntries d @ [\<lparr>le_settlementId = i, le_account = GENESIS,
      le_direction = CREDIT, le_amount = dec6 a, le_createdAt = t\<rparr>]\<rparr>"
    by (auto simp: insert_entry_eq split: if_splits)
  then have b: "bookings OPERATOR d' = bookings OPERATOR d" by (simp add: bookings_append)
  have "known_amount d' = known_amount d" by (auto simp: fun_eq_iff known_amount_def d')
  with inv b have "bookings_ok d'" by (auto simp: db_inv_def bookings_ok_def)
  moreover have "ledger_wf d'"
    using inv none unfolding db_inv_def ledger_wf_def d' bookings_append by auto
  ultimately show ?thesis using b
    by (intro inv_frame [OF inv]) (simp_all add: d' booked_def)
qed

lemma inv_snapshot:
  assumes inv: "db_inv d" and tx: "snapshot_tx t new oper a d = Inr (u, d')"
  shows "db_inv d'"
proof (cases "genesis_entry d")
  case (Some l)
  with assms show ?thesis by (simp add: snapshot_tx_def)
next
  case None
  with tx obtain r d1 where up: "upsert_genesis t new oper a d = Inr (r, d1)"
    and ins: "insert_entry \<lparr>le_settlementId = sid r, le_account = GENESIS,
      le_direction = CREDIT, le_amount = a, le_createdAt = t\<rparr> d1 = Inr (u, d')"
    by (auto simp: snapshot_tx_def split: option.splits sum.splits)
  from up inv have "db_inv d1"
    by (auto simp: upsert_genesis_def split: option.splits intro: inv_create)
  moreover from None upsert_genesis_ledger [OF up] have "bookings GENESIS d1 = []"
    by (simp add: genesis_entry_None bookings_cong [of d1 d])
  ultimately show ?thesis using inv_genesis_entry [OF _ ins] by blast
qed

lemma inv_frame_ledger:
  assumes inv: "db_inv d" and l: "ledgerEntries d' = ledgerEntries d"
    and same: "settlements d' = settlements d" "statusTransitions d' = statusTransitions d"
      "map okey (outboxEvents d') = map okey (outboxEvents d)"
  shows "db_inv d'"
proof -
  have "known_amount d' = known_amount d" by (simp add: fun_eq_iff known_amount_def same(1))
  with inv have "bookings_ok d'" by (simp add: db_inv_def bookings_ok_def bookings_cong [OF l])
  with inv show ?thesis
    by (intro inv_frame [OF inv same]) (simp_all add: db_inv_def ledger_wf_cong [OF l] booked_cong [OF l])
qed

lemma inv_mark:
  assumes inv: "db_inv d" and tx: "mark_tx t i d = Inr (u, d')"
  shows "db_inv d'"
proof -
  have k: "\<And>o1. okey (o1\<lparr>ob_publishedAt := Some t\<rparr>) = okey o1" by (simp add: okey_def)
  from tx have d': "d' = d\<lparr>outboxEvents := upd_where (\<lambda>o1. ob_id o1 = i)
      (\<lambda>o1. o1\<lparr>ob_publishedAt := Some t\<rparr>) (outboxEvents d)\<rparr>"
    by (auto simp: mark_tx_def split: if_splits)
  then have l: "ledgerEntries d' = ledgerEntries d" by simp
  have same: "settlements d' = settlements d" "statusTransitions d' = statusTransitions d"
    "map okey (outboxEvents d') = map okey (outboxEvents d)"
    by (simp_all add: d' map_upd_where_same [of okey, OF k])
  show ?thesis by (rule inv_frame_ledger [OF inv l same])
qed

lemma inv_run:
  assumes inv: "db_inv d" and tx: "insert_run rr d = Inr (rr1, d')"
  shows "db_inv d'"
proof -
  from tx have "ledgerEntries d' = ledgerEntries d" "settlements d' = settlements d"
    "statusTransitions d' = statusTransitions d" "outboxEvents d' = outboxEvents d"
    by (auto simp: insert_run_def Let_def)
  then show ?thesis by (intro inv_frame_ledger [OF inv]) simp_all
qed

section \<open>The services keep the invariant\<close>

lemma inv_ledger: "db_inv d \<Longrightarrow> ledger_wf d"
  by (simp add: db_inv_def)

text \<open>
  With a set of allowed addresses, the invariant also says that whatever compliance approved goes to
  one of them.
\<close>

definition db_inv_for :: "(string \<Rightarrow> bool) \<Rightarrow> database \<Rightarrow> bool" where
  "db_inv_for allowed d \<longleftrightarrow> db_inv d \<and> (\<forall>i. cleared d i \<longrightarrow> sent_to allowed d i)"

lemma db_inv_for_all: "db_inv d \<Longrightarrow> db_inv_for (\<lambda>_. True) d"
  by (fastforce simp: db_inv_for_def db_inv_def audit_ok_def cleared_def sent_to_def)

lemma for_step:
  assumes "db_inv_for allowed d" "db_inv d'" "evolve d d'" "statusTransitions d' = statusTransitions d"
  shows "db_inv_for allowed d'"
  using assms sent_to_evolve [OF _ assms(3)] by (simp add: db_inv_for_def cleared_cong [OF assms(4)])

lemma for_transition:
  assumes inv: "db_inv_for allowed d" and tx: "transition_tx str t ev i to opts d = Inr (res, d')"
    and inv': "db_inv d'" and ok: "to = COMPLIANCE_APPROVED \<Longrightarrow> sent_to allowed d i"
  shows "db_inv_for allowed d'"
proof -
  have ev: "evolve d d'" using tx by (rule evolve_transition)
  have "cleared d j \<or> (j = i \<and> to = COMPLIANCE_APPROVED)" if "cleared d' j" for j
    using tx
  proof (cases rule: transition_tx_cases)
    case guarded
    with that show ?thesis by simp
  next
    case (moved cur)
    from moved(1) have "sid cur = i" by (auto dest: row_SomeD)
    with that moved(5) show ?thesis by (auto simp: cleared_def write_transition_def Let_def)
  qed
  with inv inv' ok ev show ?thesis by (auto simp: db_inv_for_def intro: sent_to_evolve)
qed

lemma trail_same:
  "create_tx t new instr to a st d = Inr (r, d') \<Longrightarrow> statusTransitions d' = statusTransitions d"
  "resend_tx t i h n d = Inr (r, d') \<Longrightarrow> statusTransitions d' = statusTransitions d"
  by (auto elim: create_tx_cases resend_tx_cases)

lemma trail_same_ledger:
  "insert_entry l d = Inr (u, d') \<Longrightarrow> statusTransitions d' = statusTransitions d"
  "book_tx t i a d = Inr (u, d') \<Longrightarrow> statusTransitions d' = statusTransitions d"
  "snapshot_tx t new oper a d = Inr (u, d') \<Longrightarrow> statusTransitions d' = statusTransitions d"
proof -
  show e: "insert_entry l d = Inr (u, d') \<Longrightarrow> statusTransitions d' = statusTransitions d" for l u d d'
    by (auto simp: insert_entry_def split: if_splits)
  show "book_tx t i a d = Inr (u, d') \<Longrightarrow> statusTransitions d' = statusTransitions d"
    by (auto simp: book_tx_def split: sum.splits prod.splits dest!: e)
  show "snapshot_tx t new oper a d = Inr (u, d') \<Longrightarrow> statusTransitions d' = statusTransitions d"
    by (auto simp: snapshot_tx_def upsert_genesis_def split: option.splits sum.splits prod.splits
        dest!: e trail_same(1))
qed

interpretation rail: db_protocol "db_only (db_inv_for allowed)" allowed for allowed
proof (unfold_locales, goal_cases)
  case (1 d l)
  then show ?case by (simp add: db_inv_for_def inv_ledger)
next
  case (2 d l t new instr addr a r d')
  have "db_inv d'" using 2 by (auto simp: db_inv_for_def intro: inv_create)
  then show ?case by (rule for_step [OF 2(1) _ evolve_create [OF 2(2)] trail_same(1) [OF 2(2)]])
next
  case (3 d l str t ev i target opts res d')
  have "db_inv d'" using 3(1,3,4) by (intro inv_transition [OF _ 3(2)]) (auto simp: db_inv_for_def)
  then show ?case by (rule for_transition [OF 3(1,2)]) (rule 3(5))
next
  case 4
  then show ?case by (auto simp: db_inv_for_def db_inv_def screened_ok_def)
next
  case (5 d l t i h n r d')
  have "db_inv d'" using 5 by (auto simp: db_inv_for_def intro: inv_resend)
  then show ?case by (rule for_step [OF 5(1) _ evolve_resend [OF 5(2)] trail_same(2) [OF 5(2)]])
next
  case (6 d l t i a u d')
  have "db_inv d'" using 6 by (auto simp: db_inv_for_def intro: inv_book)
  then show ?case by (rule for_step [OF 6(1) _ evolve_book [OF 6(2)] trail_same_ledger(2) [OF 6(2)]])
next
  case (7 d l t new oper a u d')
  have "db_inv d'" using 7 by (auto simp: db_inv_for_def intro: inv_snapshot)
  then show ?case by (rule for_step [OF 7(1) _ evolve_snapshot [OF 7(2)] trail_same_ledger(3) [OF 7(2)]])
next
  case (8 d l t i u d')
  have "db_inv d'" using 8 by (auto simp: db_inv_for_def intro: inv_mark)
  then show ?case
    by (rule for_step [OF 8(1) _ evolve_mark [OF 8(2)]]) (use 8(2) in \<open>auto simp: mark_tx_def split: if_splits\<close>)
next
  case (9 d l rr rr1 d')
  have "db_inv d'" using 9 by (auto simp: db_inv_for_def intro: inv_run)
  then show ?case
    by (rule for_step [OF 9(1) _ evolve_run [OF 9(2)]]) (use 9(2) in \<open>auto simp: insert_run_def Let_def\<close>)
qed simp_all

section \<open>The calls are backed\<close>

text \<open>
  Each transfer call the process has made is of a settlement that compliance approved, to its recipient, over
  its amount in units of the sixth decimal. The laws hold for this invariant as well: a settlement
  keeps its recipient and its amount and stays approved.
\<close>

definition backs :: "lib \<Rightarrow> database \<Rightarrow> tx_request \<Rightarrow> bool" where
  "backs lb d rq \<longleftrightarrow> (\<exists>s. known s d \<and> cleared d (sid s) \<and> rq_to rq = toAddress s \<and>
     parseUnits lb (decToString lb (amount s)) 6 = Inr (rq_units rq))"

definition backed :: "lib \<Rightarrow> database \<Rightarrow> sender_state \<Rightarrow> bool" where
  "backed lb d z \<longleftrightarrow> snd z = 6 \<and> (\<forall>p \<in> set (fst z). backs lb d (fst p))"

lemma backs_evolve: "backs lb d rq \<Longrightarrow> evolve d d' \<Longrightarrow> backs lb d' rq"
  unfolding backs_def by (blast intro: known_evolve cleared_evolve)

lemma backed_evolve: "backed lb d z \<Longrightarrow> evolve d d' \<Longrightarrow> backed lb d' z"
  by (auto simp: backed_def intro: backs_evolve)

lemma paid_step:
  "db_inv_for allowed d \<and> backed lb d z \<Longrightarrow> db_inv_for allowed d' \<Longrightarrow> evolve d d' \<Longrightarrow>
   db_inv_for allowed d' \<and> backed lb d' z"
  by (blast intro: backed_evolve)

interpretation paid: db_protocol "\<lambda>d z. db_inv_for allowed d \<and> backed lb d z" allowed for allowed lb
proof (unfold_locales, goal_cases)
  case (1 d)
  then show ?case using rail.I_ledger [of allowed d] by simp
next
  case 2
  then show ?case by (intro paid_step [OF 2(1)] rail.I_create [OF _ 2(2)] evolve_create [OF 2(2)]) simp
next
  case 3
  then show ?case by (intro paid_step [OF 3(1)] rail.I_transition [OF _ 3(2)] evolve_transition [OF 3(2)]) auto
next
  case 4
  then show ?case using rail.I_cleared by auto
next
  case 5
  then show ?case by (intro paid_step [OF 5(1)] rail.I_resend [OF _ 5(2)] evolve_resend [OF 5(2)]) simp
next
  case 6
  then show ?case by (intro paid_step [OF 6(1)] rail.I_book [OF _ 6(2-)] evolve_book [OF 6(2)]) simp
next
  case 7
  then show ?case by (intro paid_step [OF 7(1)] rail.I_snapshot [OF _ 7(2)] evolve_snapshot [OF 7(2)]) simp
next
  case 8
  then show ?case by (intro paid_step [OF 8(1)] rail.I_mark [OF _ 8(2)] evolve_mark [OF 8(2)]) simp
next
  case 9
  then show ?case by (intro paid_step [OF 9(1)] rail.I_run [OF _ 9(2)] evolve_run [OF 9(2)]) simp
qed (simp add: backed_def)

lemma backed_payable:
  "db_inv_for allowed d \<and> backed lb d (l, k) \<Longrightarrow> parseUnits lb (decToString lb a) k = Inr u \<Longrightarrow>
   payable (\<lambda>d z. db_inv_for allowed d \<and> backed lb d z) a u"
  unfolding payable_def by (fastforce simp: backed_def backs_def)

end
