(* ===== verification/Dvp.thy ===== *)
theory Dvp
  imports Chain "HOL-Library.Log_Nat"
begin

text \<open>
  \<open>DvpService\<close> (\<open>src/dvp/dvp.service.ts\<close>): funding, releasing and reading the deals of the escrow
  contract. The operator's account is the depositor and the settler. A transaction is estimated, which
  fails if the call would revert, sent with the pending nonce of the account, and mined some time before
  its \<open>wait(1)\<close> returns: then the call runs on the state the chain has by that time.
\<close>

section \<open>Calls and transactions\<close>

definition call_exception :: exn where
  "call_exception = Thrown (Some ''CALL_EXCEPTION'') ''execution reverted''"

text \<open>The escrow that \<open>escrow()\<close> talks to.\<close>

definition site_at :: "string \<Rightarrow> env \<Rightarrow> escrow_site" where
  "site_at addr e = \<lparr>self = addr, settler = escrowSettler e\<rparr>"

definition eth_call :: "(env \<Rightarrow> mock_erc20 evm \<Rightarrow> 'a) \<Rightarrow> 'a io" where
  "eth_call f = andThen yield (await (\<lambda>e w. case ethCall (rpc e (tick w)) of
       Some x \<Rightarrow> (Inl x, w)
     | None \<Rightarrow> (Inr (f e (evm w)), w)) (\<lambda>a. andThen yield (ret a)))"

definition exec_now :: "string \<Rightarrow> string \<Rightarrow> evm_call \<Rightarrow> env \<Rightarrow> world \<Rightarrow> sol_revert + mock_erc20 evm" where
  "exec_now addr sender k e w = exec (usdc e) (site_at addr e) sender (blockTime (rpc e (tick w))) k (evm w)"

definition estimate :: "string \<Rightarrow> string \<Rightarrow> evm_call \<Rightarrow> unit io" where
  "estimate addr sender k = andThen yield (await (\<lambda>e w. case ethCall (rpc e (tick w)) of
       Some x \<Rightarrow> (Inl x, w)
     | None \<Rightarrow> (case exec_now addr sender k e w of
         Inl _ \<Rightarrow> (Inl call_exception, w)
       | Inr _ \<Rightarrow> (Inr (), w))) (\<lambda>_. yield))"

text \<open>An ethers contract call that changes state: the promise resolves when the node has the transaction.\<close>

definition send_call :: "string \<Rightarrow> evm_call \<Rightarrow> string io" where
  "send_call addr k = await (gets (\<lambda>e w. operatorAddress w)) (\<lambda>sender.
     await (rpc_call getTransactionCount) (\<lambda>n.
     andThen (estimate addr sender k) (
     andThen yield (await (\<lambda>e w. case sendTx (rpc e (tick w)) sender k n of
         Inl x \<Rightarrow> (Inl x, w)
       | Inr h \<Rightarrow> (Inr h, w\<lparr>pool := pool w @ [\<lparr>pt_hash = h, pt_from = sender, pt_nonce = n,
                  pt_call = k, pt_ok = None\<rparr>]\<rparr>))
       (\<lambda>h. andThen yield (ret h))))))"

definition mined_as :: "bool \<Rightarrow> string \<Rightarrow> pending_tx list \<Rightarrow> pending_tx list" where
  "mined_as ok h = upd_where (\<lambda>p. pt_hash p = h) (\<lambda>p. p\<lparr>pt_ok := Some ok\<rparr>)"

text \<open>\<open>tx.wait(1)\<close>: a transaction that another with its nonce has pushed out is reported as replaced.\<close>

definition wait1 :: "string \<Rightarrow> string \<Rightarrow> unit io" where
  "wait1 addr h = andThen yield (\<lambda>e w. case waitTx (rpc e (tick w)) of
     Some x \<Rightarrow> (Inl x, w)
   | None \<Rightarrow> (case find (\<lambda>p. pt_hash p = h) (pool w) of
       None \<Rightarrow> (Inl (Thrown (Some ''TRANSACTION_REPLACED'') ''transaction was replaced''), w)
     | Some p \<Rightarrow> (case pt_ok p of
         Some True \<Rightarrow> (Inr (), w)
       | Some False \<Rightarrow> (Inl call_exception, w)
       | None \<Rightarrow> (case exec_now addr (pt_from p) (pt_call p) e w of
           Inl _ \<Rightarrow> (Inl call_exception, w\<lparr>pool := mined_as False h (pool w)\<rparr>)
         | Inr c \<Rightarrow> (Inr (), w\<lparr>evm := c, pool := mined_as True h (pool w)\<rparr>)))))"

text \<open>The ABI coder refuses numbers outside the type.\<close>

definition encode :: "int \<Rightarrow> 'a :: len word io" where
  "encode x = (if 0 \<le> x \<and> x < 2 ^ LENGTH('a) then ret (word_of_int x)
     else throw (Thrown (Some ''INVALID_ARGUMENT'') ''value out-of-bounds''))"

section \<open>The service\<close>

record dvp_dto =
  dv_instructionId :: string
  dv_beneficiary :: string
  dv_amount :: string
  dv_deadlineSeconds :: "int option"

record dvp_funded =
  df_instructionId :: string
  df_dealId :: string
  df_beneficiary :: string
  df_amount :: string
  df_deadline :: int
  df_status :: string
  df_approveTx :: "string option"
  df_fundTx :: string

record dvp_released =
  dr_instructionId :: string
  dr_dealId :: string
  dr_status :: string
  dr_releaseTx :: string

record dvp_view =
  dw_instructionId :: string
  dw_dealId :: string
  dw_depositor :: string
  dw_beneficiary :: string
  dw_amount :: string
  dw_deadline :: int
  dw_state :: string

definition escrowAddress :: "string io" where
  "escrowAddress = await (gets (\<lambda>e w. dvpEscrowAddress (cfg e))) (\<lambda>addr. case addr of
     Some (c # cs) \<Rightarrow> ret (c # cs)
   | _ \<Rightarrow> throw (HttpExn 503 ''Service Unavailable'' ''DvP escrow not configured (DVP_ESCROW_ADDRESS unset)''))"

definition dealId :: "string \<Rightarrow> string io" where
  "dealId instr = gets (\<lambda>e w. keccakUtf8 (lib e) instr)"

definition base_time :: "int option \<Rightarrow> int io" where
  "base_time latest = gets (\<lambda>e w. case latest of Some t \<Rightarrow> t | None \<Rightarrow> now e (tick w) div 1000)"

definition approve_if_needed :: "string \<Rightarrow> string \<Rightarrow> int \<Rightarrow> string option io" where
  "approve_if_needed addr operator units =
     await (eth_call (\<lambda>e s. op_allowance (usdc e) (tok s) operator addr)) (\<lambda>allowance.
       if uint allowance < units
       then await (encode units) (\<lambda>n. await (send_call addr (Approve addr n)) (\<lambda>h.
              andThen (wait1 addr h) (ret (Some h))))
       else ret None)"

definition dvp_fund :: "dvp_dto \<Rightarrow> dvp_funded io" where
  "dvp_fund dto = await escrowAddress (\<lambda>addr.
     await (gets (\<lambda>e w. operatorAddress w)) (\<lambda>operator.
     await (dealId (dv_instructionId dto)) (\<lambda>i.
     await (\<lambda>e w. (parseUnits (lib e) (dv_amount dto) (decimals w), w)) (\<lambda>units.
     await (rpc_call getBlockTime) (\<lambda>latest.
     await (base_time latest) (\<lambda>baseTime.
     let dl = baseTime + (case dv_deadlineSeconds dto of None \<Rightarrow> 3600 | Some s \<Rightarrow> s) in
     await (approve_if_needed addr operator units) (\<lambda>approveTx.
     await (encode units) (\<lambda>n.
     await (encode dl) (\<lambda>t.
     await (send_call addr (Fund i (dv_beneficiary dto) n t)) (\<lambda>h.
     andThen (wait1 addr h)
       (ret \<lparr>df_instructionId = dv_instructionId dto, df_dealId = i, df_beneficiary = dv_beneficiary dto,
          df_amount = dv_amount dto, df_deadline = dl, df_status = ''Funded'',
          df_approveTx = approveTx, df_fundTx = h\<rparr>)))))))))))"

definition dvp_release :: "string \<Rightarrow> dvp_released io" where
  "dvp_release instr = await escrowAddress (\<lambda>addr.
     await (dealId instr) (\<lambda>i.
     await (send_call addr (Release i)) (\<lambda>h.
     andThen (wait1 addr h)
       (ret \<lparr>dr_instructionId = instr, dr_dealId = i, dr_status = ''Released'', dr_releaseTx = h\<rparr>))))"

text \<open>\<open>DVP_STATE[Number(d.state)]\<close>.\<close>

definition DVP_STATE :: "deal_state \<Rightarrow> string" where
  "DVP_STATE st = (case st of NoDeal \<Rightarrow> ''None'' | Funded \<Rightarrow> ''Funded''
     | Released \<Rightarrow> ''Released'' | Refunded \<Rightarrow> ''Refunded'')"

text \<open>\<open>Number\<close> of a bigint: 53 bits, rounded to the nearest, ties to even.\<close>

definition js_number :: "int \<Rightarrow> int" where
  "js_number n = (if \<bar>n\<bar> < 2 ^ 53 then n else
     let s = 2 ^ nat (bitlen \<bar>n\<bar> - 53); q = \<bar>n\<bar> div s; r = \<bar>n\<bar> mod s in
     sgn n * ((if 2 * r < s \<or> 2 * r = s \<and> even q then q else q + 1) * s))"

definition dvp_getDeal :: "string \<Rightarrow> dvp_view io" where
  "dvp_getDeal instr = await escrowAddress (\<lambda>addr.
     await (dealId instr) (\<lambda>i.
     await (eth_call (\<lambda>e s. escrow_getDeal i s)) (\<lambda>d.
     await (fromBaseUnits (uint (deal_amount d))) (\<lambda>a.
       gets (\<lambda>e w. \<lparr>dw_instructionId = instr, dw_dealId = i, dw_depositor = depositor d,
         dw_beneficiary = beneficiary d, dw_amount = decToString (lib e) a,
         dw_deadline = js_number (uint (deadline d)), dw_state = DVP_STATE (deal_state d)\<rparr>)))))"

section \<open>Evaluation\<close>

lemma quiet_eth_call [quiet_simps]:
  "quiet e \<Longrightarrow> eth_call f e w = (case ethCall (rpc e (Suc (tick w))) of
     Some x \<Rightarrow> (Inl x, w\<lparr>tick := Suc (tick w)\<rparr>)
   | None \<Rightarrow> (Inr (f e (evm w)), w\<lparr>tick := Suc (Suc (tick w))\<rparr>))"
  by (simp add: eth_call_def run_simps quiet_yield split: option.split)

lemma site_at_sel [simp]: "self (site_at addr e) = addr" "settler (site_at addr e) = escrowSettler e"
  by (simp_all add: site_at_def)

text \<open>A chain that serves every request, mines at once and has one block time.\<close>

definition chain_up :: "env \<Rightarrow> uint256 \<Rightarrow> bool" where
  "chain_up e bt \<longleftrightarrow> quiet e \<and> (\<forall>k. ethCall (rpc e k) = None \<and> waitTx (rpc e k) = None \<and> blockTime (rpc e k) = bt \<and>
     (\<exists>n. getTransactionCount (rpc e k) = Inr n))"

lemma find_last_new: "k x = h \<Longrightarrow> h \<notin> set (map k xs) \<Longrightarrow> find (\<lambda>y. k y = h) (xs @ [x]) = Some x"
  by (induction xs) auto

lemma mined_as_new:
  "h \<notin> set (map pt_hash ps) \<Longrightarrow> pt_hash p = h \<Longrightarrow> mined_as ok h (ps @ [p]) = ps @ [p\<lparr>pt_ok := Some ok\<rparr>]"
  by (induction ps) (auto simp: mined_as_def)

lemma send_and_wait:
  assumes up: "chain_up e bt" and sent: "\<And>k n. \<exists>h. sendTx (rpc e k) (operatorAddress w) c n = Inr h \<and>
        h \<notin> set (map pt_hash (pool w))"
    and ex: "exec (usdc e) (site_at addr e) (operatorAddress w) bt c (evm w) = Inr m"
  shows "\<exists>h p k. await (send_call addr c) (\<lambda>h. andThen (wait1 addr h) (ret (f h))) e w =
    (Inr (f h), w\<lparr>evm := m, pool := pool w @ [p], tick := k\<rparr>) \<and>
     pt_hash p = h \<and> pt_from p = operatorAddress w \<and> pt_call p = c \<and> pt_ok p = Some True \<and>
     (\<exists>j. sendTx (rpc e j) (operatorAddress w) c (pt_nonce p) = Inr h)"
proof -
  let ?t1 = "Suc (tick w)"
  from up obtain n where n: "getTransactionCount (rpc e ?t1) = Inr n" by (auto simp: chain_up_def)
  let ?t2 = "Suc (Suc (Suc (Suc (Suc (tick w)))))"
  obtain h where h: "sendTx (rpc e ?t2) (operatorAddress w) c n = Inr h" and new: "h \<notin> set (map pt_hash (pool w))"
    using sent by blast
  let ?p = "\<lparr>pt_hash = h, pt_from = operatorAddress w, pt_nonce = n, pt_call = c, pt_ok = None\<rparr>"
  have q: "quiet e" and b: "\<And>k. ethCall (rpc e k) = None" "\<And>k. waitTx (rpc e k) = None" "\<And>k. blockTime (rpc e k) = bt"
    using up by (auto simp: chain_up_def)
  have s: "send_call addr c e w = (Inr h, w\<lparr>pool := pool w @ [?p], tick := Suc ?t2\<rparr>)"
    using n h ex by (simp add: send_call_def estimate_def exec_now_def run_simps quiet_rpc_call [OF q] quiet_yield [OF q] b)
  have "find (\<lambda>p. pt_hash p = h) (pool w @ [?p]) = Some ?p"
    by (rule find_last_new) (use new in \<open>simp_all\<close>)
  moreover have "mined_as True h (pool w @ [?p]) = pool w @ [?p\<lparr>pt_ok := Some True\<rparr>]"
    by (rule mined_as_new) (use new in \<open>simp_all\<close>)
  ultimately have "wait1 addr h e (w\<lparr>pool := pool w @ [?p], tick := Suc ?t2\<rparr>) =
      (Inr (), w\<lparr>evm := m, pool := pool w @ [?p\<lparr>pt_ok := Some True\<rparr>], tick := Suc (Suc ?t2)\<rparr>)"
    using ex by (simp add: wait1_def exec_now_def run_simps quiet_yield [OF q] b)
  with s h show ?thesis
    by (intro exI [of _ h] exI [of _ "?p\<lparr>pt_ok := Some True\<rparr>"] exI [of _ "Suc (Suc ?t2)"])
       (auto simp: run_simps)
qed

end
