(* ===== verification/Validation.thy ===== *)
theory Validation
  imports Settlements Dvp
begin

text \<open>
  What a request must look like: the validators of \<open>src/settlements/validators\<close> and the decorators of
  \<open>CreateSettlementDto\<close> and \<open>CreateDvpDto\<close>, as the global \<open>ValidationPipe\<close> of \<open>src/main.ts\<close> applies them:
  a body with a property that the class does not have is refused (\<open>forbidNonWhitelisted\<close>), as is one whose
  property fails a rule. A body is the list of its properties.
\<close>

section \<open>Values\<close>

datatype json = JString string | JInt int | JNull | JOther

definition is_digit :: "char \<Rightarrow> bool" where
  "is_digit c \<longleftrightarrow> c \<in> set ''0123456789''"

text \<open>The pattern \<open>^\d+(\.\d{1,n})?$\<close>.\<close>

definition matches_decimal :: "nat \<Rightarrow> string \<Rightarrow> bool" where
  "matches_decimal n s \<longleftrightarrow> takeWhile is_digit s \<noteq> [] \<and> (case dropWhile is_digit s of
     [] \<Rightarrow> True
   | c # fs \<Rightarrow> c = CHR ''.'' \<and> fs \<noteq> [] \<and> length fs \<le> n \<and> list_all is_digit fs)"

definition isPositiveDecimal :: "lib \<Rightarrow> nat \<Rightarrow> json \<Rightarrow> bool" where
  "isPositiveDecimal l maxDecimals v = (case v of
     JString s \<Rightarrow> matches_decimal maxDecimals s \<and>
       (case newDecimal l s of Some a \<Rightarrow> 0 < a | None \<Rightarrow> False)
   | _ \<Rightarrow> False)"

definition isChecksummedAddress :: "lib \<Rightarrow> json \<Rightarrow> bool" where
  "isChecksummedAddress l v = (case v of
     JString s \<Rightarrow> getAddress l s = Some s
   | _ \<Rightarrow> False)"

text \<open>\<open>@IsString() @IsNotEmpty() @MaxLength(64)\<close>.\<close>

definition isInstructionId :: "json \<Rightarrow> bool" where
  "isInstructionId v = (case v of JString s \<Rightarrow> s \<noteq> [] \<and> length s \<le> 64 | _ \<Rightarrow> False)"

text \<open>\<open>@IsOptional() @IsInt() @Min(60) @Max(2_592_000)\<close>; an absent property or null is accepted.\<close>

definition isDeadlineSeconds :: "json option \<Rightarrow> bool" where
  "isDeadlineSeconds v = (case v of None \<Rightarrow> True | Some JNull \<Rightarrow> True | Some (JInt n) \<Rightarrow> 60 \<le> n \<and> n \<le> 2592000 | _ \<Rightarrow> False)"

section \<open>Bodies\<close>

type_synonym body = "(string \<times> json) list"

definition holds_at :: "body \<Rightarrow> string \<Rightarrow> (json \<Rightarrow> bool) \<Rightarrow> bool" where
  "holds_at b k rule = (case map_of b k of Some v \<Rightarrow> rule v | None \<Rightarrow> False)"

definition str_at :: "body \<Rightarrow> string \<Rightarrow> string" where
  "str_at b k = (case map_of b k of Some (JString s) \<Rightarrow> s | _ \<Rightarrow> [])"

definition validate_create :: "lib \<Rightarrow> body \<Rightarrow> create_dto option" where
  "validate_create l b =
     (if set (map fst b) \<subseteq> {''instructionId'', ''toAddress'', ''amount''} \<and>
         holds_at b ''instructionId'' isInstructionId \<and>
         holds_at b ''toAddress'' (isChecksummedAddress l) \<and>
         holds_at b ''amount'' (isPositiveDecimal l 6)
      then Some \<lparr>d_instructionId = str_at b ''instructionId'', d_toAddress = str_at b ''toAddress'',
             d_amount = str_at b ''amount''\<rparr>
      else None)"

definition validate_dvp :: "lib \<Rightarrow> body \<Rightarrow> dvp_dto option" where
  "validate_dvp l b =
     (if set (map fst b) \<subseteq> {''instructionId'', ''beneficiary'', ''amount'', ''deadlineSeconds''} \<and>
         holds_at b ''instructionId'' isInstructionId \<and>
         holds_at b ''beneficiary'' (isChecksummedAddress l) \<and>
         holds_at b ''amount'' (isPositiveDecimal l 6) \<and>
         isDeadlineSeconds (map_of b ''deadlineSeconds'')
      then Some \<lparr>dv_instructionId = str_at b ''instructionId'', dv_beneficiary = str_at b ''beneficiary'',
             dv_amount = str_at b ''amount'',
             dv_deadlineSeconds = (case map_of b ''deadlineSeconds'' of Some (JInt n) \<Rightarrow> Some n | _ \<Rightarrow> None)\<rparr>
      else None)"

section \<open>The amounts that pass\<close>

text \<open>The reference: a numeral of digits, with or without a fraction of one to \<open>n\<close> digits.\<close>

definition numeral_text :: "string \<Rightarrow> string \<Rightarrow> string" where
  "numeral_text ds fs = ds @ (if fs = [] then [] else CHR ''.'' # fs)"

definition digits :: "string \<Rightarrow> bool" where
  "digits s \<longleftrightarrow> list_all is_digit s"

lemma dot_no_digit [simp]: "\<not> is_digit CHR ''.''"
  by (simp add: is_digit_def)

lemma takeWhile_digits: "digits ds \<Longrightarrow> takeWhile is_digit (ds @ CHR ''.'' # fs) = ds"
  "digits ds \<Longrightarrow> dropWhile is_digit (ds @ CHR ''.'' # fs) = CHR ''.'' # fs"
  "digits ds \<Longrightarrow> takeWhile is_digit ds = ds" "digits ds \<Longrightarrow> dropWhile is_digit ds = []"
  by (induction ds) (auto simp: digits_def)

lemma matches_decimal_iff:
  "matches_decimal n s \<longleftrightarrow> (\<exists>ds fs. s = numeral_text ds fs \<and> ds \<noteq> [] \<and> digits ds \<and> digits fs \<and> length fs \<le> n)"
proof
  assume m: "matches_decimal n s"
  let ?ds = "takeWhile is_digit s" and ?r = "dropWhile is_digit s"
  have ds: "?ds \<noteq> []" "digits ?ds" using m set_takeWhileD [of _ is_digit s]
    by (auto simp: matches_decimal_def digits_def list_all_iff)
  have s: "s = ?ds @ ?r" by simp
  show "\<exists>ds fs. s = numeral_text ds fs \<and> ds \<noteq> [] \<and> digits ds \<and> digits fs \<and> length fs \<le> n"
  proof (cases ?r)
    case Nil
    with s ds show ?thesis by (intro exI [of _ ?ds] exI [of _ "[]"]) (simp add: numeral_text_def digits_def)
  next
    case (Cons c fs)
    with m have "c = CHR ''.''" "fs \<noteq> []" "digits fs" "length fs \<le> n"
      by (simp_all add: matches_decimal_def digits_def)
    with s Cons ds show ?thesis by (intro exI [of _ ?ds] exI [of _ fs]) (simp add: numeral_text_def)
  qed
next
  assume "\<exists>ds fs. s = numeral_text ds fs \<and> ds \<noteq> [] \<and> digits ds \<and> digits fs \<and> length fs \<le> n"
  then obtain ds fs where "s = numeral_text ds fs" "ds \<noteq> []" "digits ds" "digits fs" "length fs \<le> n" by blast
  then show "matches_decimal n s"
    by (cases fs) (simp_all add: matches_decimal_def numeral_text_def takeWhile_digits, simp add: digits_def)
qed

text \<open>The number a numeral denotes.\<close>

definition digit_val :: "char \<Rightarrow> nat" where
  "digit_val c = of_char c - 48"

definition digits_val :: "string \<Rightarrow> nat" where
  "digits_val s = foldl (\<lambda>n c. 10 * n + digit_val c) 0 s"

definition decimal_val :: "string \<Rightarrow> string \<Rightarrow> rat" where
  "decimal_val ds fs = of_nat (digits_val ds) + of_nat (digits_val fs) / 10 ^ length fs"

text \<open>The documented meaning of \<open>new Decimal(s)\<close> on a numeral.\<close>

definition parses_numerals :: "lib \<Rightarrow> bool" where
  "parses_numerals l \<longleftrightarrow> (\<forall>ds fs. ds \<noteq> [] \<longrightarrow> digits ds \<longrightarrow> digits fs \<longrightarrow>
     newDecimal l (numeral_text ds fs) = Some (decimal_val ds fs))"

lemma decimal_val_micro:
  assumes "length fs \<le> 6"
  shows "\<exists>k :: nat. decimal_val ds fs = of_nat k / 1000000"
proof -
  obtain j where j: "length fs + j = 6" using assms by (metis le_add_diff_inverse)
  have "(10 :: rat) ^ length fs * 10 ^ j = 1000000" by (simp flip: power_add add: j)
  then have "decimal_val ds fs = of_nat (digits_val ds * 1000000 + digits_val fs * 10 ^ j) / 1000000"
    by (simp add: decimal_val_def field_simps)
  then show ?thesis by blast
qed

end
