(* ===== verification/Http.thy ===== *)
theory Http
  imports Validation Reconciliation
begin

text \<open>
  The HTTP surface: the exception filter (\<open>src/common/http-exception.filter.ts\<close>), the presenter
  (\<open>src/settlements/settlement.presenter.ts\<close>) and the controllers, which validate, call their service,
  and answer with a status and a body. Rate limiting is the framework's.
\<close>

section \<open>The exception filter\<close>

text \<open>
  A thrown value is an \<open>HttpException\<close> or anything else. The response of an \<open>HttpException\<close> is a string,
  or an object that may have a message (a string or a list of them) and an error.
\<close>

datatype err_message = One string | Many "string list"

datatype http_response = RespString string | RespObject "err_message option" "string option"

record http_exception =
  he_name :: string
  he_status :: int
  he_message :: string
  he_response :: http_response

datatype thrown_value = Http http_exception | NoHttp exn

record error_body =
  statusCode :: int
  error :: string
  message :: err_message

text \<open>\<open>name.replace(/Exception$/, '')\<close>.\<close>

definition strip_exception :: "string \<Rightarrow> string" where
  "strip_exception s = (let n = length s - length ''Exception'' in
     if suffix ''Exception'' s then take n s else s)"

definition filter_catch :: "thrown_value \<Rightarrow> error_body" where
  "filter_catch v = (let
       (st, er, msg) = (case v of
          NoHttp _ \<Rightarrow> (500, ''Internal Server Error'', One ''Internal server error'')
        | Http x \<Rightarrow> (case he_response x of
            RespString s \<Rightarrow> (he_status x, strip_exception (he_name x), One s)
          | RespObject m er \<Rightarrow> (he_status x,
              (case er of Some s \<Rightarrow> s | None \<Rightarrow> strip_exception (he_name x)),
              (case m of Some s \<Rightarrow> s | None \<Rightarrow> One (he_message x)))))
     in if 500 \<le> st
        then \<lparr>statusCode = st, error = ''Internal Server Error'', message = One ''Internal server error''\<rparr>
        else \<lparr>statusCode = st, error = er, message = msg\<rparr>)"

text \<open>
  The exceptions the services throw: an \<open>HttpExn\<close> carries an object with both fields (\<open>NotFoundException\<close>
  and \<open>ServiceUnavailableException\<close> build it from their message).
\<close>

definition thrown_of :: "exn \<Rightarrow> thrown_value" where
  "thrown_of x = (case x of
     HttpExn st er msg \<Rightarrow> Http \<lparr>he_name = ''HttpException'', he_status = st, he_message = msg,
       he_response = RespObject (Some (One msg)) (Some er)\<rparr>
   | _ \<Rightarrow> NoHttp x)"

text \<open>What the \<open>ValidationPipe\<close> throws, with the messages of the rules that failed.\<close>

definition bad_request :: "string list \<Rightarrow> thrown_value" where
  "bad_request msgs = Http \<lparr>he_name = ''BadRequestException'', he_status = 400,
     he_message = ''Bad Request Exception'', he_response = RespObject (Some (Many msgs)) (Some ''Bad Request'')\<rparr>"

section \<open>The presenter\<close>

record settlement_response =
  sr_id :: string
  sr_instructionId :: string
  sr_toAddress :: string
  sr_amount :: string
  sr_status :: settlement_status
  sr_txHash :: "string option"
  sr_nonce :: "nat option"
  sr_failureReason :: "string option"
  sr_retryCount :: nat
  sr_confirmations :: "int option"
  sr_createdAt :: int
  sr_updatedAt :: int

definition IN_FLIGHT :: "settlement_status set" where
  "IN_FLIGHT = {SUBMITTED, CONFIRMED}"

definition needs_confirmations :: "settlement \<Rightarrow> bool" where
  "needs_confirmations s \<longleftrightarrow> status s \<in> IN_FLIGHT \<and> (case txHash s of None \<Rightarrow> False | Some h \<Rightarrow> h \<noteq> [])"

text \<open>The map of confirmations, filled one receipt after the other where the code asks for all at once.\<close>

fun confirm_all :: "int \<Rightarrow> settlement list \<Rightarrow> (string \<times> int) list \<Rightarrow> (string \<times> int) list io" where
  "confirm_all currentBlock [] m = ret m"
| "confirm_all currentBlock (s # ss) m =
     await (rpc_call (\<lambda>r. getTransactionReceipt r (case txHash s of Some h \<Rightarrow> h | None \<Rightarrow> []))) (\<lambda>rcpt.
       confirm_all currentBlock ss (AList.update (sid s)
         (case rcpt of Some r \<Rightarrow> currentBlock - rc_blockNumber r + 1 | None \<Rightarrow> 0) m))"

definition shape :: "(rat \<Rightarrow> string) \<Rightarrow> (string \<times> int) list \<Rightarrow> settlement \<Rightarrow> settlement_response" where
  "shape str m s = \<lparr>sr_id = sid s, sr_instructionId = instructionId s, sr_toAddress = toAddress s,
     sr_amount = str (amount s), sr_status = status s, sr_txHash = txHash s, sr_nonce = nonce s,
     sr_failureReason = failureReason s, sr_retryCount = retryCount s,
     sr_confirmations = (if status s \<in> IN_FLIGHT
       then Some (case map_of m (sid s) of Some n \<Rightarrow> n | None \<Rightarrow> 0) else None),
     sr_createdAt = createdAt s, sr_updatedAt = updatedAt s\<rparr>"

definition presentMany :: "settlement list \<Rightarrow> settlement_response list io" where
  "presentMany ss = (let needs = filter needs_confirmations ss in
     await (if needs = [] then ret [] else await getCurrentBlock (\<lambda>b. confirm_all b needs []))
       (\<lambda>m. gets (\<lambda>e w. map (shape (decToString (lib e)) m) ss)))"

definition present :: "settlement \<Rightarrow> settlement_response io" where
  "present s = await (presentMany [s]) (\<lambda>one. ret (hd one))"

section \<open>The controllers\<close>

datatype 'a answer = Answer int 'a | Failure error_body

text \<open>A handler behind the filter. Only the death of the process leaves a request unanswered.\<close>

definition serve :: "'a io \<Rightarrow> ('a \<Rightarrow> int) \<Rightarrow> env \<Rightarrow> world \<Rightarrow> 'a answer option \<times> world" where
  "serve m st e w = (case m e w of
     (Inr a, w') \<Rightarrow> (Some (Answer (st a) a), w')
   | (Inl x, w') \<Rightarrow> (if x = Crash then None else Some (Failure (filter_catch (thrown_of x))), w'))"

definition post_settlements :: "(string \<Rightarrow> compliance_result) \<Rightarrow> (body \<Rightarrow> string list) \<Rightarrow> body
    \<Rightarrow> env \<Rightarrow> world \<Rightarrow> settlement_response answer option \<times> world" where
  "post_settlements provider msgs b e w = (case validate_create (lib e) b of
     None \<Rightarrow> (Some (Failure (filter_catch (bad_request (msgs b)))), w)
   | Some dto \<Rightarrow>
       (case serve (await (create provider dto) (\<lambda>r. await (present (cr_settlement r)) (\<lambda>p. ret (r, p))))
              (\<lambda>(r, p). create_status r) e w of
          (Some (Answer st (r, p)), w') \<Rightarrow> (Some (Answer st p), w')
        | (Some (Failure f), w') \<Rightarrow> (Some (Failure f), w')
        | (None, w') \<Rightarrow> (None, w')))"

definition list_settlements :: "settlement_response list io" where
  "list_settlements = await listRecent presentMany"

definition get_settlement :: "string \<Rightarrow> settlement_response io" where
  "get_settlement i = await (getById i) present"

definition get_transitions :: "string \<Rightarrow> status_transition list io" where
  "get_transitions i = getTransitions i"

definition get_balance :: "balance_view io" where
  "get_balance = balanceView"

definition get_reconciliation :: "reconciliation_run io" where
  "get_reconciliation = reconcile"

definition post_dvp :: "(body \<Rightarrow> string list) \<Rightarrow> body \<Rightarrow> env \<Rightarrow> world \<Rightarrow> dvp_funded answer option \<times> world" where
  "post_dvp msgs b e w = (case validate_dvp (lib e) b of
     None \<Rightarrow> (Some (Failure (filter_catch (bad_request (msgs b)))), w)
   | Some dto \<Rightarrow> serve (dvp_fund dto) (\<lambda>_. 201) e w)"

definition post_dvp_release :: "string \<Rightarrow> dvp_released io" where
  "post_dvp_release i = dvp_release i"

definition get_dvp :: "string \<Rightarrow> dvp_view io" where
  "get_dvp i = dvp_getDeal i"

end
