(* ===== verification/Observability.thy ===== *)
theory Observability
  imports SettlementState Chain
begin

text \<open>
  The collector of gauges (\<open>src/observability/metrics.collector.ts\<close>) and the health probes
  (\<open>src/health/health.controller.ts\<close>).
\<close>

section \<open>The metrics collector\<close>

definition set_gauges :: "(settlement_status \<Rightarrow> nat option) \<Rightarrow> world \<Rightarrow> world" where
  "set_gauges cs w = w\<lparr>metrics := (metrics w)\<lparr>m_settlementsByStatus :=
     fold (\<lambda>st m. m(st := (case cs st of Some n \<Rightarrow> n | None \<Rightarrow> 0))) status_values
       (m_settlementsByStatus (metrics w))\<rparr>\<rparr>"

definition collector_refresh :: "unit io" where
  "collector_refresh = tryCatch (await countByStatus (\<lambda>cs. modify (set_gauges cs))) (\<lambda>err. ret ())"

lemma gauges_all: "m_settlementsByStatus (metrics (set_gauges cs w)) st =
    (case cs st of Some n \<Rightarrow> n | None \<Rightarrow> 0)"
  by (cases st) (simp_all add: set_gauges_def status_values_def)

section \<open>Health\<close>

text \<open>
  \<open>Promise.race\<close> with a timer: \<open>late\<close> tells whether the timer wins. The probe then goes on with the
  rejection, whatever the promise does later.
\<close>

definition withTimeout :: "(nat \<Rightarrow> bool) \<Rightarrow> 'a io \<Rightarrow> 'a io" where
  "withTimeout late p = (\<lambda>e w. if late (tick w) then andThen yield (throw (Thrown None ''timeout'')) e w else p e w)"

definition reachable :: "'a io \<Rightarrow> bool io" where
  "reachable p = tryCatch (andThen p (ret True)) (\<lambda>err. ret False)"

definition checkDb :: "(nat \<Rightarrow> bool) \<Rightarrow> bool io" where
  "checkDb late = reachable (withTimeout late (db_read (\<lambda>e d. (1 :: int))))"

definition checkRpc :: "(nat \<Rightarrow> bool) \<Rightarrow> bool io" where
  "checkRpc late = reachable (withTimeout late (rpc_call getBlockNumber))"

record health_report =
  hr_code :: int
  hr_status :: string
  hr_db :: bool
  hr_rpc :: bool

text \<open>The two checks run at once in the code; here one after the other.\<close>

definition health_ready :: "(nat \<Rightarrow> bool) \<Rightarrow> health_report io" where
  "health_ready late = await (checkDb late) (\<lambda>dbOk. await (checkRpc late) (\<lambda>rpcOk.
     let ok = dbOk \<and> rpcOk in
     ret \<lparr>hr_code = (if ok then 200 else 503), hr_status = (if ok then ''ok'' else ''degraded''),
       hr_db = dbOk, hr_rpc = rpcOk\<rparr>))"

definition health_live :: "string io" where
  "health_live = ret ''ok''"

end
