(* ===== verification/Surface.thy ===== *)
theory Surface
  imports Protocol Http Observability
begin

text \<open>
  The handlers that only read the database or do not touch it, the HTTP queries, the DvP service, the
  metrics collector and the probes, keep every invariant of it.
\<close>

lemma guar_any: "(\<And>e w. db (snd (m e w)) = db w \<and> sending (snd (m e w)) = sending w) \<Longrightarrow> guar I (\<lambda>_. True) m"
  by (rule guar_pure)

lemma guar_eth_call: "guar I (\<lambda>_. True) (eth_call f)"
  unfolding eth_call_def by (intro hoare_intros guar_any) (auto split: option.split)

lemma guar_estimate: "guar I (\<lambda>_. True) (estimate addr sender k)"
  unfolding estimate_def by (intro hoare_intros guar_any) (auto split: option.split sum.split)

lemma guar_send_call: "guar I (\<lambda>_. True) (send_call addr k)"
  unfolding send_call_def by (intro hoare_intros guar_any guar_estimate) (auto split: sum.split)

lemma guar_wait1: "guar I (\<lambda>_. True) (wait1 addr h)"
  unfolding wait1_def by (intro hoare_intros guar_any) (auto split: option.split sum.split bool.split)

lemma guar_encode: "guar I (\<lambda>_. True) (encode x)"
  unfolding encode_def by (intro hoare_intros)

lemma guar_escrowAddress: "guar I (\<lambda>_. True) escrowAddress"
  unfolding escrowAddress_def by (intro hoare_intros) (auto split: option.split list.split intro: hoare_intros)

lemma guar_approve: "guar I (\<lambda>_. True) (approve_if_needed addr oper units)"
  unfolding approve_if_needed_def
  by (intro hoare_intros guar_eth_call guar_encode guar_send_call guar_wait1) auto

lemma guar_dvp_fund: "guar I (\<lambda>_. True) (dvp_fund dto)"
  unfolding dvp_fund_def Let_def dealId_def base_time_def
  by (intro hoare_intros guar_escrowAddress guar_approve guar_encode guar_send_call guar_wait1 guar_any) auto

lemma guar_dvp_release: "guar I (\<lambda>_. True) (dvp_release i)"
  unfolding dvp_release_def dealId_def
  by (intro hoare_intros guar_escrowAddress guar_send_call guar_wait1) auto

lemma guar_dvp_getDeal: "guar I (\<lambda>_. True) (dvp_getDeal i)"
  unfolding dvp_getDeal_def dealId_def fromBaseUnits_def
  by (intro hoare_intros guar_escrowAddress guar_eth_call guar_newDecimal) auto

lemma guar_confirm_all: "guar I (\<lambda>_. True) (confirm_all b ss m)"
  by (induction ss arbitrary: m) (auto intro!: hoare_intros)

lemma guar_presentMany: "guar I (\<lambda>_. True) (presentMany ss)"
  unfolding presentMany_def Let_def getCurrentBlock_def
  by (intro hoare_intros guar_confirm_all) (auto intro!: hoare_intros guar_confirm_all)

lemma guar_present: "guar I (\<lambda>_. True) (present s)"
  unfolding present_def by (intro hoare_intros guar_presentMany) auto

lemma guar_list_settlements: "guar I (\<lambda>_. True) list_settlements"
  unfolding list_settlements_def listRecent_def by (intro hoare_intros guar_presentMany) auto

lemma guar_getById: "guar I (\<lambda>_. True) (getById i)"
  unfolding getById_def findById_def by (intro hoare_intros) (auto split: option.split intro: hoare_intros)

lemma guar_get: "guar I (\<lambda>_. True) (get_settlement i)"
  unfolding get_settlement_def by (intro hoare_intros guar_getById guar_present) auto

lemma guar_get_transitions: "guar I (\<lambda>_. True) (get_transitions i)"
  unfolding get_transitions_def getTransitions_def state_getTransitions_def
  by (intro hoare_intros guar_getById) auto

lemma guar_get_balance: "guar I (\<lambda>_. True) get_balance"
  unfolding get_balance_def balanceView_def sumByStatuses_def
  by (intro hoare_intros guar_operatorBalance) auto

lemma guar_collector: "guar I (\<lambda>_. True) collector_refresh"
  unfolding collector_refresh_def countByStatus_def
  by (intro hoare_intros) (auto simp: set_gauges_def)

lemma guar_reachable: "guar I (\<lambda>_. True) p \<Longrightarrow> guar I (\<lambda>_. True) (reachable p)"
  unfolding reachable_def by (intro hoare_intros stable_True) auto

lemma guar_withTimeout:
  fixes p :: "'a io"
  assumes "guar I (\<lambda>_. True) p"
  shows "guar I (\<lambda>_. True) (withTimeout late p)"
proof -
  have "guar I (\<lambda>_. True) (andThen yield (throw x) :: 'a io)" for x by (intro hoare_intros) simp
  with assms show ?thesis by (auto simp: withTimeout_def guar_def hoare_def)
qed

lemma guar_health: "guar I (\<lambda>_. True) (health_ready late)"
  unfolding health_ready_def checkDb_def checkRpc_def Let_def
  by (intro hoare_intros guar_reachable guar_withTimeout stable_True)

lemma rpc_call_answer: "fst (rpc_call f e w) = Inr x \<Longrightarrow> \<exists>n. f (rpc e n) = Inr x"
  by (auto simp: rpc_call_def io_defs split: prod.splits sum.splits)

text \<open>The one handler that sets the decimals.\<close>

lemma guar_chain_init: "guar I (\<lambda>_. True) chain_onModuleInit"
proof -
  have "\<forall>d l k'. I d (l, k') \<longrightarrow> I d (l, k)"
    if "env_ok I e" "fst (rpc_call rpc_decimals e w) = Inr k" for e k and w :: world
  proof -
    from that(1) have keep: "\<forall>d l k n k'. I d (l, k) \<longrightarrow> rpc_decimals (rpc e n) = Inr k' \<longrightarrow> I d (l, k')"
      unfolding env_ok_def by (elim conjE)
    from rpc_call_answer [OF that(2)] obtain n where "rpc_decimals (rpc e n) = Inr k" by (elim exE)
    with keep show ?thesis by auto
  qed
  then have "hoare I (\<lambda>_. True) (rpc_call rpc_decimals) (\<lambda>k _. \<forall>d l k'. I d (l, k') \<longrightarrow> I d (l, k))"
    using guar_rpc_call [OF stable_True, of I rpc_decimals] by (simp add: guar_def hoare_def)
  moreover have "guar I (\<lambda>d. True \<and> (\<forall>d l k'. I d (l, k') \<longrightarrow> I d (l, k))) (modify (\<lambda>w. w\<lparr>decimals := k\<rparr>))" for k
    by (auto simp: guar_def hoare_def io_defs)
  ultimately show ?thesis
    unfolding chain_onModuleInit_def by (intro guar_tryCatch guar_await_dep guar_ret) auto
qed

lemmas guar_surface = guar_chain_init guar_dvp_fund guar_dvp_release guar_dvp_getDeal guar_list_settlements guar_get guar_get_transitions
  guar_get_balance guar_collector guar_health

end
