(* ===== verification/System.thy ===== *)
theory System
  imports Invariants Surface
begin

text \<open>
  The process as a whole: its tasks (HTTP requests, periodic jobs, chain events, boot and shutdown
  hooks), restarts, what others do on the chain, and the worlds it can reach. A task runs in an environment whose interference
  is again made of reachable changes, so runs nest as the event loop interleaves them; the
  environment may also cut a task short at any await.
\<close>

datatype task =
    ChainInit
  | Opening
  | Bootstrap
  | Worker nat
  | Sweep
  | Poll
  | Transfer "string option"
  | ByTxHash string
  | Post "string \<Rightarrow> compliance_result" create_dto
  | Reconcile
  | Relay "nat \<Rightarrow> outbox_event \<Rightarrow> exn option"
  | Shutdown
  | ListAll
  | GetOne string
  | GetTrail string
  | GetBalance
  | DvpFund dvp_dto
  | DvpRelease string
  | DvpGet string
  | RefreshMetrics
  | Probe "nat \<Rightarrow> bool"

definition discard_result :: "'a io \<Rightarrow> unit io" where
  "discard_result m = await m (\<lambda>_. ret ())"

fun run_task :: "task \<Rightarrow> unit io" where
  "run_task ChainInit = chain_onModuleInit"
| "run_task Opening = ensureOpeningSnapshot"
| "run_task Bootstrap = relayer_onApplicationBootstrap"
| "run_task (Worker fuel) = discard_result (runWorker fuel)"
| "run_task Sweep = watcher_sweep"
| "run_task Poll = pollConfirmations"
| "run_task (Transfer h) = onTransfer h"
| "run_task (ByTxHash h) = processByTxHash h"
| "run_task (Post provider dto) = discard_result (create provider dto)"
| "run_task Reconcile = discard_result reconcile"
| "run_task (Relay broker) = relay broker"
| "run_task Shutdown = relayer_onModuleDestroy"
| "run_task ListAll = discard_result list_settlements"
| "run_task (GetOne i) = discard_result (get_settlement i)"
| "run_task (GetTrail i) = discard_result (get_transitions i)"
| "run_task GetBalance = discard_result get_balance"
| "run_task (DvpFund dto) = discard_result (dvp_fund dto)"
| "run_task (DvpRelease i) = discard_result (dvp_release i)"
| "run_task (DvpGet i) = discard_result (dvp_getDeal i)"
| "run_task RefreshMetrics = collector_refresh"
| "run_task (Probe late) = discard_result (health_ready late)"

text \<open>A restart keeps the database, and the chain stays; memory starts afresh.\<close>

definition fresh_metrics :: metrics where
  "fresh_metrics = \<lparr>m_broadcasts = 0, m_gasWei = 0, m_reconRuns = (\<lambda>_. 0), m_reconMismatches = 0,
     m_reorgs = 0, m_queueDepth = 0, m_settlementsByStatus = (\<lambda>_. 0)\<rparr>"

definition no_evm :: "mock_erc20 evm" where
  "no_evm = \<lparr>tok = \<lparr>balanceOf_map = (\<lambda>_. 0), allowance_map = (\<lambda>_ _. 0), totalSupply = 0\<rparr>,
     deals = (\<lambda>_. zero_deal), events = []\<rparr>"

definition boot_world :: "string \<Rightarrow> database \<Rightarrow> world" where
  "boot_world oper d = \<lparr>db = d, queue = [], inflight = [], localNonce = 0, workerRunning = False,
     draining = False, sweepRunning = False, polling = False, relayRunning = False, decimals = 6,
     operatorAddress = oper, metrics = fresh_metrics, spawned = [], broadcastLog = [], sleeps = [],
     published = [], evm = no_evm, pool = [], tick = 0\<rparr>"

definition restart :: "world \<Rightarrow> world" where
  "restart w = (boot_world (operatorAddress w) (db w))\<lparr>evm := evm w, pool := pool w\<rparr>"

text \<open>Submissions are screened by a provider that approves allowed addresses only.\<close>

fun task_ok :: "(string \<Rightarrow> bool) \<Rightarrow> task \<Rightarrow> bool" where
  "task_ok allowed (Post provider dto) = (\<forall>a. approved (provider a) \<longrightarrow> allowed a)"
| "task_ok allowed _ = True"

inductive reach :: "(string \<Rightarrow> bool) \<Rightarrow> world \<Rightarrow> world \<Rightarrow> bool" for allowed where
  start: "reach allowed w w"
| task: "reach allowed w v \<Longrightarrow> task_ok allowed t \<Longrightarrow> (\<And>n u. reach allowed u (others e n u)) \<Longrightarrow>
    (\<And>xs. set (scan e xs) \<subseteq> set xs) \<Longrightarrow> (\<And>n x. dbErr e n = Some x \<Longrightarrow> \<not> isUniqueViolation x) \<Longrightarrow>
    reach allowed w (snd (run_task t e v))"
| reboot: "reach allowed w v \<Longrightarrow> reach allowed w (restart v)"
| chain: "reach allowed w v \<Longrightarrow> reach allowed w (v\<lparr>evm := m, pool := ps\<rparr>)"

text \<open>The same with one conversion library \<open>lb\<close> throughout and a token that says it has six decimals, as USDC does.\<close>

inductive usdc_reach :: "lib \<Rightarrow> (string \<Rightarrow> bool) \<Rightarrow> world \<Rightarrow> world \<Rightarrow> bool" for lb allowed where
  start: "usdc_reach lb allowed w w"
| task: "usdc_reach lb allowed w v \<Longrightarrow> task_ok allowed t \<Longrightarrow> (\<And>n u. usdc_reach lb allowed u (others e n u)) \<Longrightarrow>
    (\<And>xs. set (scan e xs) \<subseteq> set xs) \<Longrightarrow> (\<And>n x. dbErr e n = Some x \<Longrightarrow> \<not> isUniqueViolation x) \<Longrightarrow>
    lib e = lb \<Longrightarrow> (\<And>n k. rpc_decimals (rpc e n) = Inr k \<Longrightarrow> k = 6) \<Longrightarrow>
    usdc_reach lb allowed w (snd (run_task t e v))"
| reboot: "usdc_reach lb allowed w v \<Longrightarrow> usdc_reach lb allowed w (restart v)"
| chain: "usdc_reach lb allowed w v \<Longrightarrow> usdc_reach lb allowed w (v\<lparr>evm := m, pool := ps\<rparr>)"

lemma usdc_reach_reach: "usdc_reach lb allowed w v \<Longrightarrow> reach allowed w v"
proof (induction rule: usdc_reach.induct)
  case (task w v t e)
  then show ?case by (intro reach.task) auto
qed (auto intro: reach.intros)

lemma restart_sel [simp]: "db (restart w) = db w" "broadcastLog (restart w) = []" "decimals (restart w) = 6"
  by (simp_all add: restart_def boot_world_def)

context db_protocol begin

lemma guar_task: "task_ok allowed t \<Longrightarrow> guar I (\<lambda>_. True) (run_task t)"
  by (cases t)
     (auto simp: discard_result_def relayer_onModuleDestroy_def
        intro!: guar_await guar_ret guar_modify guar_snapshot guar_bootstrap guar_runWorker guar_watcher
          guar_poll guar_onTransfer guar_processByTxHash guar_create guar_reconcile guar_relay guar_surface)

text \<open>Every reachable change keeps the invariant and only appends.\<close>

lemma reach_protocol:
  assumes pay: "indifferent I"
  shows "reach allowed w v \<Longrightarrow> I (db w) (sending w) \<Longrightarrow>
    I (db v) (sending v) \<and> evolve (db w) (db v)"
proof (induction rule: reach.induct)
  case (start w)
  then show ?case by simp
next
  case (task w v t e)
  have "env_ok I e" using task.IH(2) task.hyps pay unfolding env_ok_def indifferent_def by blast
  moreover from task have "I (db v) (sending v)" "evolve (db w) (db v)" by auto
  ultimately show ?case using guarD [OF guar_task [OF task.hyps(2)]] by (blast intro: evolve_trans)
next
  case (reboot w v)
  then show ?case by (auto intro: I_restart)
next
  case (chain w v m ps)
  then show ?case by simp
qed

lemma usdc_reach_protocol:
  assumes units: "\<And>d l k a u. I d (l, k) \<Longrightarrow> parseUnits lb (decToString lb a) k = Inr u \<Longrightarrow> payable I a u"
    and six: "\<And>d l k. I d (l, k) \<Longrightarrow> I d (l, 6)"
  shows "usdc_reach lb allowed w v \<Longrightarrow> I (db w) (sending w) \<Longrightarrow> I (db v) (sending v) \<and> evolve (db w) (db v)"
proof (induction rule: usdc_reach.induct)
  case (task w v t e)
  have "env_ok I e" unfolding env_ok_def
  proof (intro conjI allI impI)
    fix n and u :: world assume "I (db u) (sending u)"
    then show "I (db (others e n u)) (sending (others e n u))" "evolve (db u) (db (others e n u))"
      using task.IH(2) by blast+
  next
    fix d l k n k' assume "I d (l, k)" "rpc_decimals (rpc e n) = Inr k'"
    then show "I d (l, k')" using six task.hyps(7) by blast
  qed (use task.hyps units in auto)
  moreover from task have "I (db v) (sending v)" "evolve (db w) (db v)" by auto
  ultimately show ?case using guarD [OF guar_task [OF task.hyps(2)]] by (blast intro: evolve_trans)
qed (auto intro: I_restart)

end

lemmas reach_inv = rail.reach_protocol [OF indifferent_db_only, THEN conjunct1]

end
