(* ===== verification/Scenario.thy ===== *)
theory Scenario
  imports System
begin

text \<open>
  A concrete run of the system, which the concrete instances of the properties use: an operator with
  100 USDC, one settlement of 40 submitted, approved, sent with nonce 5 and mined in block 10. Times
  are the await counter, keys a letter each. Each stage is evaluated in the kernel.
\<close>

section \<open>The environment\<close>

definition demo_lib :: lib where
  "demo_lib = \<lparr>dround = (\<lambda>x. x),
     newDecimal = (\<lambda>s. if s = ''100'' then Some 100 else if s = ''60'' then Some 60
        else if s = ''40'' then Some 40 else None),
     decToString = (\<lambda>a. if a = 100 then ''100'' else if a = 60 then ''60'' else ''40''),
     parseUnits = (\<lambda>s k. Inr (if s = ''100'' then 100000000 else if s = ''60'' then 60000000
        else 40000000)),
     formatUnits = (\<lambda>n k. if n = 100000000 then ''100'' else if n = 60000000 then ''60'' else ''40''),
     getAddress = (\<lambda>s. Some s), keccakUtf8 = (\<lambda>s. s)\<rparr>"

lemma demo_lib_sel [simp]:
  "dround demo_lib x = x" "getAddress demo_lib a = Some a"
  "newDecimal demo_lib s = (if s = ''100'' then Some 100 else if s = ''60'' then Some 60
     else if s = ''40'' then Some 40 else None)"
  "decToString demo_lib x = (if x = 100 then ''100'' else if x = 60 then ''60'' else ''40'')"
  "parseUnits demo_lib s k = Inr (if s = ''100'' then 100000000 else if s = ''60'' then 60000000
     else 40000000)"
  "keccakUtf8 demo_lib s = s"
  "formatUnits demo_lib n k = (if n = 100000000 then ''100'' else if n = 60000000 then ''60'' else ''40'')"
  by (simp_all add: demo_lib_def)

definition demo_receipt :: receipt where
  "demo_receipt = \<lparr>rc_status = 1, rc_blockHash = ''B'', rc_blockNumber = 10, rc_gasUsed = 50000,
     rc_gasPrice = 900\<rparr>"

definition demo_rpc :: "rpc" where
  "demo_rpc = \<lparr>getTransactionReceipt = (\<lambda>_. Inr (Some demo_receipt)),
     getTransaction = (\<lambda>_. Inr None), getTransactionCount = Inr 5, getBlockNumber = Inr 14,
     getFeeData = Inr \<lparr>fd_maxFeePerGas = Some 1000, fd_maxPriorityFeePerGas = Some 100\<rparr>,
     balanceOf = Inr 100000000, rpc_estimateGas = (\<lambda>_ _. Inr 50000),
     rpc_transfer = (\<lambda>rq. Inr ''H''), getBlockTime = Inr (Some 500), rpc_decimals = Inr 6, blockTime = 500, ethCall = None,
     sendTx = (\<lambda>a k n. Inr (case k of Approve _ _ \<Rightarrow> ''A'' | _ \<Rightarrow> ''F'')), waitTx = None\<rparr>"

definition demo_cfg :: config where
  "demo_cfg = \<lparr>confirmationsConfirmed = 1, confirmationsFinal = 5, stuckTxSeconds = 60, maxRetries = 3,
     dvpEscrowAddress = Some ''E''\<rparr>"

definition demo_uuid :: "nat \<Rightarrow> string" where
  "demo_uuid n = (if n < 10 then ''g'' else if n < 30 then ''s'' else if n < 40 then ''t'' else ''u'')"

definition demo_env :: "(nat \<Rightarrow> rpc) \<Rightarrow> env" where
  "demo_env node = \<lparr>lib = demo_lib, cfg = demo_cfg, rpc = node, now = int, uuid = demo_uuid,
     dbErr = (\<lambda>_. None), crash = (\<lambda>_. False), others = (\<lambda>_ w. w), scan = (\<lambda>xs. xs),
     usdc = mock_ops, escrowSettler = ''op''\<rparr>"

abbreviation calm_env :: "env" where
  "calm_env \<equiv> demo_env (\<lambda>_. demo_rpc)"

lemma demo_env_sel [simp]:
  "lib (demo_env node) = demo_lib" "cfg (demo_env node) = demo_cfg" "rpc (demo_env node) n = node n"
  "now (demo_env node) n = int n" "uuid (demo_env node) n = demo_uuid n"
  "others (demo_env node) n w = w" "dbErr (demo_env node) n = None" "crash (demo_env node) n = False"
  "scan (demo_env node) xs = xs" "usdc (demo_env node) = mock_ops" "escrowSettler (demo_env node) = ''op''"
  by (simp_all add: demo_env_def)

lemma demo_quiet [simp]: "quiet (demo_env node)"
  by (simp add: quiet_def)

lemma dec6_demo [simp]: "dec6 100 = 100" "dec6 60 = 60" "dec6 40 = 40"
  using dec6_micro [of 100000000] dec6_micro [of 60000000] dec6_micro [of 40000000] by simp_all

lemmas demo_simps = demo_rpc_def demo_receipt_def demo_cfg_def demo_uuid_def
  io_defs quiet_simps

lemmas state_simps = findById_def findByInstructionId_def findByStatuses_def findByTxHash_def
  by_instruction_def by_statuses_def row_def transition_def transition_tx_def write_transition_def
  apply_opts_def payload_of_def no_opts_def recordResend_def resend_tx_def state_create_def
  create_tx_def

lemmas ledger_simps = getOperatorBalance_def getOpeningBalance_def opening_of_def genesis_entry_def
  sum_entries_def or_zero_def sum_of_def recordSettlementFinalized_def book_tx_def insert_entry_def
  snapshot_tx_def upsert_genesis_def GENESIS_INSTRUCTION_ID_def

lemmas relayer_simps = processJob_def is_resume_def toBaseUnits_def estimateGas_def buildFees_def
  sendLoop.simps send_once_def broadcast_def runExclusive_def usdc_transfer_def request_of_def
  track_def fail_def forget_def resync_def sleep_def big_div_def updateQueueDepth_def

section \<open>The stages\<close>

definition db_open :: database where
  "db_open = \<lparr>settlements = [\<lparr>sid = ''g'', instructionId = GENESIS_INSTRUCTION_ID, toAddress = ''op'',
       amount = 100, status = FINAL, txHash = None, nonce = None, failureReason = None, retryCount = 0,
       confirmedBlockHash = None, confirmedBlockNumber = None, createdAt = 5, updatedAt = 5\<rparr>],
     ledgerEntries = [\<lparr>le_settlementId = ''g'', le_account = GENESIS, le_direction = CREDIT,
       le_amount = 100, le_createdAt = 5\<rparr>],
     statusTransitions = [], reconciliationRuns = [], outboxEvents = []\<rparr>"

definition approved_row :: settlement where
  "approved_row = \<lparr>sid = ''s'', instructionId = ''i'', toAddress = ''a'', amount = 40,
     status = COMPLIANCE_APPROVED, txHash = None, nonce = None, failureReason = None, retryCount = 0,
     confirmedBlockHash = None, confirmedBlockNumber = None, createdAt = 21, updatedAt = 24\<rparr>"

definition trail_entry :: "settlement_status \<Rightarrow> settlement_status \<Rightarrow> string option \<Rightarrow> int
    \<Rightarrow> status_transition" where
  "trail_entry a b h t = \<lparr>st_settlementId = ''s'', fromStatus = a, toStatus = b, st_txHash = h,
     st_createdAt = t\<rparr>"

definition db_ready :: database where
  "db_ready = db_open\<lparr>settlements := settlements db_open @ [approved_row],
     statusTransitions := [trail_entry RECEIVED COMPLIANCE_APPROVED None 24]\<rparr>"

definition sent_row :: settlement where
  "sent_row = approved_row\<lparr>status := SUBMITTED, txHash := Some ''H'', nonce := Some 5, updatedAt := 35\<rparr>"

definition sent_event :: outbox_event where
  "sent_event = \<lparr>ob_id = ''t'', ob_settlementId = ''s'', ob_type = ''settlement.submitted'',
     ob_payload = \<lparr>p_settlementId = ''s'', p_instructionId = ''i'', p_status = SUBMITTED,
       p_amount = ''40'', p_toAddress = ''a'', p_txHash = Some ''H''\<rparr>,
     ob_createdAt = 35, ob_publishedAt = None\<rparr>"

definition db_sent :: database where
  "db_sent = db_open\<lparr>settlements := settlements db_open @ [sent_row],
     statusTransitions := [trail_entry RECEIVED COMPLIANCE_APPROVED None 24,
       trail_entry COMPLIANCE_APPROVED SUBMITTED (Some ''H'') 35],
     outboxEvents := [sent_event]\<rparr>"

definition final_row :: settlement where
  "final_row = sent_row\<lparr>status := FINAL, updatedAt := 45\<rparr>"

definition db_final :: database where
  "db_final = db_sent\<lparr>settlements := settlements db_open @ [final_row],
     ledgerEntries := ledgerEntries db_open @ booking_pair 43 ''s'' 40,
     statusTransitions := statusTransitions db_sent @ [trail_entry SUBMITTED FINAL (Some ''H'') 45],
     outboxEvents := [sent_event, \<lparr>ob_id = ''u'', ob_settlementId = ''s'', ob_type = ''settlement.final'',
       ob_payload = \<lparr>p_settlementId = ''s'', p_instructionId = ''i'', p_status = FINAL,
         p_amount = ''40'', p_toAddress = ''a'', p_txHash = Some ''H''\<rparr>,
       ob_createdAt = 45, ob_publishedAt = None\<rparr>]\<rparr>"

lemmas db_stages = db_open_def db_ready_def db_sent_def db_final_def approved_row_def sent_row_def
  final_row_def sent_event_def trail_entry_def booking_pair_def

definition w_open :: world where
  "w_open = (boot_world ''op'' db_open)\<lparr>tick := 6, localNonce := 5\<rparr>"

definition demo_dto :: create_dto where
  "demo_dto = \<lparr>d_instructionId = ''i'', d_toAddress = ''a'', d_amount = ''40''\<rparr>"

lemma stage_open:
  "snd (run_task Bootstrap calm_env (snd (run_task Opening calm_env (boot_world ''op'' empty_db)))) =
     w_open\<lparr>tick := 10\<rparr>"
  by (simp add: w_open_def boot_world_def empty_db_def ensureOpeningSnapshot_def getChainBalance_def
      newDecimal_io_def relayer_onApplicationBootstrap_def recoverInFlight_def Let_def
      demo_simps state_simps ledger_simps db_open_def)

definition w_ready :: world where
  "w_ready = w_open\<lparr>db := db_ready, queue := [''s''], spawned := [RunWorker],
     metrics := fresh_metrics\<lparr>m_queueDepth := 1\<rparr>, tick := 25\<rparr>"

lemma stage_ready:
  "snd (run_task (Post (compliance_check demo_lib) demo_dto) calm_env (w_open\<lparr>tick := 10\<rparr>)) = w_ready"
  by (simp add: w_ready_def w_open_def boot_world_def db_stages demo_dto_def discard_result_def create_def
      newDecimal_io_def availableBalance_def sumByStatuses_def sum_in_def IN_FLIGHT_STATUSES_def
      insert_received_def screen_def compliance_check_def blocklist_def enqueue_def enqueueId_def
      updateQueueDepth_def Let_def demo_simps state_simps ledger_simps)

definition w_sent :: world where
  "w_sent = w_ready\<lparr>db := db_sent, queue := [], localNonce := 6,
     inflight := [(''s'', \<lparr>if_settlementId = ''s'', if_nonce = 5, if_gasLimit = 60000,
       if_maxFeePerGas = 1000, if_maxPriorityFeePerGas = 100, if_lastSubmittedAt = 34, if_attempts = 0\<rparr>)],
     broadcastLog := [(\<lparr>rq_to = ''a'', rq_units = 40000000, rq_nonce = 5, rq_gasLimit = 60000,
       rq_maxFeePerGas = 1000, rq_maxPriorityFeePerGas = 100\<rparr>, Some ''H'')],
     metrics := fresh_metrics\<lparr>m_broadcasts := 1, m_queueDepth := 1\<rparr>, tick := 36\<rparr>"

lemma stage_sent: "snd (run_task (Worker (Suc (Suc 0))) calm_env w_ready) = w_sent"
  by (simp add: w_sent_def w_ready_def w_open_def boot_world_def fresh_metrics_def db_stages discard_result_def
      runWorker_def Let_def demo_simps state_simps relayer_simps)

definition w_final :: world where
  "w_final = w_sent\<lparr>db := db_final, tick := 46,
     metrics := fresh_metrics\<lparr>m_broadcasts := 1, m_queueDepth := 1, m_gasWei := 45000000\<rparr>\<rparr>"

lemma stage_final: "snd (run_task Poll calm_env w_sent) = w_final"
  by (simp add: w_final_def w_sent_def w_ready_def w_open_def boot_world_def fresh_metrics_def
      db_stages pollConfirmations_def getCurrentBlock_def processReceipt_def finalize_def Let_def
      demo_simps state_simps ledger_simps)

end
