(* ===== verification/Safety.thy ===== *)
theory Safety
  imports Scenario
begin

text \<open>
  Properties of the whole system in every run from the first boot: any order and interleaving of
  the tasks, any answers of the node, outages of the database, crashes at an await and restarts.
\<close>

definition running :: "(string \<Rightarrow> bool) \<Rightarrow> string \<Rightarrow> world \<Rightarrow> bool" where
  "running allowed oper v \<longleftrightarrow> reach allowed (boot_world oper empty_db) v"

lemma db_boot [simp]: "db (boot_world oper d) = d"
  by (simp add: boot_world_def)

lemma running_inv_for: "running allowed oper v \<Longrightarrow> db_inv_for allowed (db v)"
  unfolding running_def
  by (erule reach_inv) (simp add: db_inv_for_def db_inv_empty, simp add: cleared_def empty_db_def)

lemma running_inv: "running allowed oper v \<Longrightarrow> db_inv (db v)"
  using running_inv_for by (auto simp: db_inv_for_def)

lemma later_inv:
  assumes "running allowed oper v" "reach allowed v u"
  shows "db_inv (db u)" "evolve (db v) (db u)"
  using rail.reach_protocol [OF indifferent_db_only assms(2) running_inv_for [OF assms(1)]] by (auto simp: db_inv_for_def)

section \<open>The concrete run is a run\<close>

definition demo_allowed :: "string \<Rightarrow> bool" where
  "demo_allowed a \<longleftrightarrow> \<not> screened_out demo_lib a"

lemma calm_task:
  "reach demo_allowed w v \<Longrightarrow> task_ok demo_allowed t \<Longrightarrow>
   reach demo_allowed w (snd (run_task t (demo_env node) v))"
  by (rule reach.task) (auto intro: reach.start)

lemma post_ok: "task_ok demo_allowed (Post (compliance_check demo_lib) dto)"
  by (simp add: demo_allowed_def mock_compliance.approved_iff)

lemma demo_running_open: "running demo_allowed ''op'' (w_open\<lparr>tick := 10\<rparr>)"
  unfolding running_def stage_open [symmetric] by (intro calm_task reach.start) simp_all

lemma demo_running_ready: "running demo_allowed ''op'' w_ready"
  using demo_running_open unfolding running_def stage_ready [symmetric] by (rule calm_task) (rule post_ok)

lemma demo_reach_sent: "reach demo_allowed w_ready w_sent"
  unfolding stage_sent [symmetric] by (intro calm_task reach.start) simp

lemma demo_reach_final: "reach demo_allowed w_sent w_final"
  unfolding stage_final [symmetric] by (intro calm_task reach.start) simp

lemma demo_running_sent: "running demo_allowed ''op'' w_sent"
  using demo_running_ready unfolding running_def stage_sent [symmetric] by (rule calm_task) simp

lemma demo_running_final: "running demo_allowed ''op'' w_final"
  using demo_running_sent unfolding running_def stage_final [symmetric] by (rule calm_task) simp

lemma db_w [simp]: "db w_ready = db_ready" "db w_sent = db_sent" "db w_final = db_final"
  by (simp_all add: w_ready_def w_sent_def w_final_def)

lemma db_demo_inv [simp]: "db_inv db_ready" "db_inv db_sent" "db_inv db_final"
  using running_inv [OF demo_running_ready] running_inv [OF demo_running_sent]
    running_inv [OF demo_running_final] by simp_all

lemma db_open_inv [simp]: "db_inv db_open"
  using running_inv [OF demo_running_open] by (simp add: w_open_def)

section \<open>The ledger\<close>

text \<open>The entries of an account in one direction, as pairs of settlement and amount.\<close>

definition postings :: "ledger_account \<Rightarrow> ledger_direction \<Rightarrow> database \<Rightarrow> (string \<times> rat) list" where
  "postings acc dir d = map (\<lambda>l. (le_settlementId l, le_amount l))
     (filter (\<lambda>l. le_account l = acc \<and> le_direction l = dir) (ledgerEntries d))"

lemma postings_wf:
  assumes "ledger_wf d"
  shows "postings acc (if acc = OPERATOR then DEBIT else CREDIT) d = bookings acc d"
    "postings OPERATOR DEBIT d = bookings OPERATOR d"
    "postings SETTLED_OUT CREDIT d = bookings SETTLED_OUT d"
    "postings GENESIS CREDIT d = bookings GENESIS d"
proof -
  show eq: "postings acc (if acc = OPERATOR then DEBIT else CREDIT) d = bookings acc d" for acc
    unfolding postings_def bookings_def using assms
    by (intro arg_cong [of _ _ "map _"] filter_cong) (auto simp: ledger_wf_def)
  show "postings OPERATOR DEBIT d = bookings OPERATOR d"
    "postings SETTLED_OUT CREDIT d = bookings SETTLED_OUT d"
    "postings GENESIS CREDIT d = bookings GENESIS d"
    using eq [of OPERATOR] eq [of SETTLED_OUT] eq [of GENESIS] by simp_all
qed

lemma account_rows:
  assumes wf: "ledger_wf d" and b: "(i, a) \<in> set (bookings acc d)" and acc: "acc \<noteq> GENESIS"
  shows "map (\<lambda>l. (le_direction l, le_amount l))
      (filter (\<lambda>l. le_settlementId l = i \<and> le_account l = acc) (ledgerEntries d)) =
    [(if acc = OPERATOR then DEBIT else CREDIT, a)]"
proof -
  let ?L = "filter (\<lambda>l. le_account l = acc) (ledgerEntries d)"
  from wf have "bookings SETTLED_OUT d = bookings OPERATOR d" "distinct (map fst (bookings OPERATOR d))"
    unfolding ledger_wf_def by (elim conjE, simp)+
  with acc have "distinct (map fst (bookings acc d))" by (cases acc) simp_all
  then have dist: "distinct (map le_settlementId ?L)" by (simp add: bookings_def comp_def)
  from b obtain l where l: "l \<in> set ?L" "le_settlementId l = i" "le_amount l = a"
    by (auto simp: bookings_def)
  from filter_key_unique [OF dist l(1)] l(2)
  have "filter (\<lambda>l. le_settlementId l = i \<and> le_account l = acc) (ledgerEntries d) = [l]"
    by (simp add: conj_commute)
  with wf l show ?thesis by (auto simp: ledger_wf_def)
qed

lemma booked_rows:
  assumes inv: "db_inv d" and r: "r \<in> set (settlements d)" and b: "booked d (sid r)"
  shows "(sid r, amount r) \<in> set (bookings OPERATOR d)"
    and "(sid r, amount r) \<in> set (bookings SETTLED_OUT d)"
proof -
  from b obtain a where a: "(sid r, a) \<in> set (bookings OPERATOR d)" by (auto simp: booked_def)
  with inv obtain r' where "r' \<in> set (settlements d)" "sid r' = sid r" "amount r' = a"
    by (auto simp: db_inv_def bookings_ok_def known_amount_def)
  moreover from this inv r have "r' = r"
    by (auto simp: db_inv_def uniq_ok_def distinct_map dest: inj_onD)
  ultimately show "(sid r, amount r) \<in> set (bookings OPERATOR d)" using a by simp
  with inv show "(sid r, amount r) \<in> set (bookings SETTLED_OUT d)"
    by (simp add: db_inv_def ledger_wf_def)
qed

text \<open>
  C6: In every run, a settlement that is FINAL has moved its money in the ledger exactly once: it
  has exactly one OPERATOR entry, a debit of its amount, and exactly one SETTLED_OUT entry, a credit
  of the same amount. The row that carries the opening balance is the only exception.
\<close>

theorem final_booked_once:
  assumes "running allowed oper v" "r \<in> set (settlements (db v))" "status r = FINAL"
    and "instructionId r \<noteq> GENESIS_INSTRUCTION_ID"
  shows "map (\<lambda>l. (le_direction l, le_amount l)) (filter (\<lambda>l. le_settlementId l = sid r \<and>
      le_account l = OPERATOR) (ledgerEntries (db v))) = [(DEBIT, amount r)] \<and>
    map (\<lambda>l. (le_direction l, le_amount l)) (filter (\<lambda>l. le_settlementId l = sid r \<and>
      le_account l = SETTLED_OUT) (ledgerEntries (db v))) = [(CREDIT, amount r)]"
proof -
  from running_inv [OF assms(1)] have inv: "db_inv (db v)" .
  with assms have "booked (db v) (sid r)" by (auto simp: db_inv_def final_ok_def)
  note rows = booked_rows [OF inv assms(2) this]
  from inv have wf: "ledger_wf (db v)" by (rule inv_ledger)
  from account_rows [OF wf rows(1)] account_rows [OF wf rows(2)] show ?thesis by simp
qed

lemma final_booked_once_witness:
  "map le_amount (filter (\<lambda>l. le_settlementId l = ''s'' \<and> le_account l = OPERATOR)
     (ledgerEntries db_final)) = [40] \<and> status final_row = FINAL"
  using final_booked_once [OF demo_running_final, of final_row]
  by (auto simp: db_stages GENESIS_INSTRUCTION_ID_def)

text \<open>
  C8: The books balance in every run. The debits of OPERATOR and the credits of SETTLED_OUT are the
  same postings in the same order, and beside them the ledger holds at most one entry, a credit of
  GENESIS: no entry has another account and direction. No settlement is posted twice, each posting
  is of an existing settlement at its amount, and the total debited equals the total credited.
\<close>

theorem books_balance:
  assumes "running allowed oper v"
  shows "postings OPERATOR DEBIT (db v) = postings SETTLED_OUT CREDIT (db v) \<and>
    (\<lambda>l. (le_account l, le_direction l)) ` set (ledgerEntries (db v))
      \<subseteq> {(OPERATOR, DEBIT), (SETTLED_OUT, CREDIT), (GENESIS, CREDIT)} \<and>
    length (postings GENESIS CREDIT (db v)) \<le> 1 \<and>
    distinct (map fst (postings OPERATOR DEBIT (db v))) \<and>
    set (postings OPERATOR DEBIT (db v)) \<subseteq> (\<lambda>r. (sid r, amount r)) ` set (settlements (db v)) \<and>
    or_zero (sum_entries (db v) OPERATOR DEBIT) = sum_list (map snd (postings OPERATOR DEBIT (db v))) \<and>
    or_zero (sum_entries (db v) SETTLED_OUT CREDIT) = or_zero (sum_entries (db v) OPERATOR DEBIT)"
proof -
  from running_inv [OF assms] have inv: "db_inv (db v)" .
  then have wf: "ledger_wf (db v)" by (rule inv_ledger)
  have total: "or_zero (sum_entries (db v) acc dir) = sum_list (map snd (postings acc dir (db v)))" for acc dir
    by (simp add: or_zero_def sum_entries_def sum_of_def postings_def comp_def filter_empty_conv)
  have "(le_account l, le_direction l) \<in> {(OPERATOR, DEBIT), (SETTLED_OUT, CREDIT), (GENESIS, CREDIT)}"
    if "l \<in> set (ledgerEntries (db v))" for l
    using wf that by (cases "le_account l") (simp_all add: ledger_wf_def)
  then have "(\<lambda>l. (le_account l, le_direction l)) ` set (ledgerEntries (db v))
      \<subseteq> {(OPERATOR, DEBIT), (SETTLED_OUT, CREDIT), (GENESIS, CREDIT)}" by blast
  moreover have "length (postings GENESIS CREDIT (db v)) \<le> 1"
    "postings OPERATOR DEBIT (db v) = postings SETTLED_OUT CREDIT (db v)"
    "distinct (map fst (postings OPERATOR DEBIT (db v)))"
    using wf unfolding postings_wf [OF wf] ledger_wf_def by blast+
  moreover have "set (postings OPERATOR DEBIT (db v)) \<subseteq> (\<lambda>r. (sid r, amount r)) ` set (settlements (db v))"
    using inv unfolding postings_wf [OF wf] by (auto simp: db_inv_def bookings_ok_def known_amount_def image_iff)
  ultimately show ?thesis by (simp add: total)
qed

lemma books_balance_witness:
  "postings OPERATOR DEBIT db_final = postings SETTLED_OUT CREDIT db_final \<and>
   postings SETTLED_OUT CREDIT db_final = [(''s'', 40)]"
  using books_balance [OF demo_running_final] by (simp add: db_stages postings_def)

section \<open>The calls\<close>

text \<open>
  C3: Every payment the service orders is a settlement's. In every run, in any interleaving, with any answers of
  the node, outages and crashes, where one library converts amounts and the token has six decimals,
  each transfer call the process has made, accepted or not, is of a stored settlement that compliance
  approved: it goes to the recipient of that settlement, which is an allowed address, over its amount in
  base units.
\<close>

theorem calls_pay_approved:
  assumes "usdc_reach lb allowed (boot_world oper empty_db) v" "(rq, answer) \<in> set (broadcastLog v)"
  shows "\<exists>r \<in> set (settlements (db v)). rq_to rq = toAddress r \<and> allowed (toAddress r) \<and>
    parseUnits lb (decToString lb (amount r)) 6 = Inr (rq_units rq) \<and>
    COMPLIANCE_APPROVED \<in> toStatus ` set (transitions_of (db v) (sid r))"
proof -
  have "db_inv_for allowed empty_db"
    by (simp add: db_inv_for_def db_inv_empty) (simp add: cleared_def empty_db_def)
  then have "db_inv_for allowed (db (boot_world oper empty_db)) \<and> backed lb (db (boot_world oper empty_db)) (sending (boot_world oper empty_db))"
    by (simp add: backed_def boot_world_def)
  then have "(db_inv_for allowed (db v) \<and> backed lb (db v) (sending v)) \<and> evolve (db (boot_world oper empty_db)) (db v)"
    by (intro paid.usdc_reach_protocol [OF _ _ assms(1)]) (erule (1) backed_payable, simp add: backed_def, assumption)
  then have inv: "db_inv_for allowed (db v)" and b: "backed lb (db v) (sending v)" by blast+
  from b assms(2) obtain s where s: "known s (db v)" "cleared (db v) (sid s)" "rq_to rq = toAddress s"
    "parseUnits lb (decToString lb (amount s)) 6 = Inr (rq_units rq)" by (fastforce simp: backed_def backs_def)
  from s(1) obtain r where r: "r \<in> set (settlements (db v))" "skey r = skey s" by (force simp: known_def)
  then have k: "sid r = sid s" "toAddress r = toAddress s" "amount r = amount s" by (simp_all add: skey_def)
  from inv s(2) obtain q where "q \<in> set (settlements (db v))" "sid q = sid r" "allowed (toAddress q)"
    by (auto simp: db_inv_for_def sent_to_def k)
  moreover from this r(1) inv have "q = r"
    by (auto simp: db_inv_for_def db_inv_def uniq_ok_def distinct_map dest: inj_onD)
  ultimately show ?thesis using r(1) s k by (intro bexI [of _ r]) (force simp: cleared_def transitions_of_def)+
qed

lemma usdc_task:
  "usdc_reach demo_lib demo_allowed w v \<Longrightarrow> task_ok demo_allowed t \<Longrightarrow>
   usdc_reach demo_lib demo_allowed w (snd (run_task t calm_env v))"
  by (rule usdc_reach.task) (auto intro: usdc_reach.start simp: demo_rpc_def)

lemma demo_usdc_sent: "usdc_reach demo_lib demo_allowed (boot_world ''op'' empty_db) w_sent"
proof -
  have "usdc_reach demo_lib demo_allowed (boot_world ''op'' empty_db) (w_open\<lparr>tick := 10\<rparr>)"
    unfolding stage_open [symmetric] by (intro usdc_task usdc_reach.start) simp_all
  then have "usdc_reach demo_lib demo_allowed (boot_world ''op'' empty_db) w_ready"
    unfolding stage_ready [symmetric] by (rule usdc_task) (rule post_ok)
  then show ?thesis unfolding stage_sent [symmetric] by (rule usdc_task) simp
qed

lemma calls_pay_approved_witness:
  "\<exists>rq r. map fst (broadcastLog w_sent) = [rq] \<and> r \<in> set (settlements db_sent) \<and> rq_to rq = toAddress r \<and>
     demo_allowed (toAddress r) \<and> rq_units rq = 40000000 \<and>
     COMPLIANCE_APPROVED \<in> toStatus ` set (transitions_of db_sent (sid r))"
proof -
  obtain rq where rq: "broadcastLog w_sent = [(rq, Some ''H'')]" "rq_units rq = 40000000"
    by (simp add: w_sent_def w_ready_def w_open_def boot_world_def)
  with calls_pay_approved [OF demo_usdc_sent, of rq "Some ''H''"] show ?thesis by auto
qed

section \<open>Histories\<close>

text \<open>
  History is append-only over any further run, restarts included: ledger entries, audit rows and
  reconciliation runs are never changed or removed, settlements and events never disappear, and a
  settlement's instruction, recipient and amount and an event's payload never change.
\<close>

theorem history_append_only:
  assumes "running allowed oper v" "reach allowed v u"
  shows "prefix (ledgerEntries (db v)) (ledgerEntries (db u)) \<and>
    prefix (statusTransitions (db v)) (statusTransitions (db u)) \<and>
    prefix (reconciliationRuns (db v)) (reconciliationRuns (db u)) \<and>
    prefix (map (\<lambda>r. (sid r, instructionId r, toAddress r, amount r, createdAt r)) (settlements (db v)))
      (map (\<lambda>r. (sid r, instructionId r, toAddress r, amount r, createdAt r)) (settlements (db u))) \<and>
    prefix (map (\<lambda>o1. (ob_id o1, ob_settlementId o1, ob_type o1, ob_payload o1, ob_createdAt o1))
        (outboxEvents (db v)))
      (map (\<lambda>o1. (ob_id o1, ob_settlementId o1, ob_type o1, ob_payload o1, ob_createdAt o1))
        (outboxEvents (db u)))"
proof -
  from later_inv [OF assms] show ?thesis by (simp add: evolve_def skey_def [abs_def] okey_def [abs_def])
qed

lemma history_append_only_witness:
  "prefix (ledgerEntries db_sent) (ledgerEntries db_final) \<and> ledgerEntries db_sent \<noteq> ledgerEntries db_final"
  using history_append_only [OF demo_running_sent demo_reach_final] by (simp add: db_stages)

text \<open>
  C9: The audit trail is complete and consistent: in every run each settlement's rows, in order,
  chain from its initial status to its present status, each row starting where the one before ended.
  The initial status is RECEIVED; only the row that carries the opening balance may start as FINAL.
\<close>

theorem audit_trail_replays:
  assumes "running allowed oper v" "r \<in> set (settlements (db v))"
  shows "replay RECEIVED (transitions_of (db v) (sid r)) = Some (status r) \<or>
    instructionId r = GENESIS_INSTRUCTION_ID \<and>
      replay FINAL (transitions_of (db v) (sid r)) = Some (status r)"
  using running_inv [OF assms(1)] assms(2) by (auto simp: db_inv_def audit_ok_def trail_ok_def)

lemma audit_trail_replays_witness:
  "replay RECEIVED (transitions_of db_final ''s'') = Some FINAL \<and> length (transitions_of db_final ''s'') = 3"
  using audit_trail_replays [OF demo_running_final, of final_row]
  by (auto simp: db_stages transitions_of_def)

text \<open>
  C12: The outbox mirrors the audit trail: in every run the events are, in order, exactly those of the
  transitions whose target status has an event type, with distinct event ids. No transition is
  committed without its event and no event without its transition.
\<close>

theorem outbox_mirrors_trail:
  assumes "running allowed oper v"
  shows "map (\<lambda>o1. (ob_settlementId o1, ob_type o1)) (outboxEvents (db v)) =
      concat (map (\<lambda>t. case OUTBOX_EVENT_TYPES (toStatus t) of None \<Rightarrow> []
        | Some ty \<Rightarrow> [(st_settlementId t, ty)]) (statusTransitions (db v))) \<and>
    distinct (map ob_id (outboxEvents (db v)))"
  using running_inv [OF assms] by (simp add: db_inv_def outbox_ok_def emitted_def uniq_ok_def)

lemma outbox_mirrors_trail_witness:
  "map ob_type (outboxEvents db_final) = [''settlement.submitted'', ''settlement.final''] \<and>
   distinct (map ob_id (outboxEvents db_final))"
  using outbox_mirrors_trail [OF demo_running_final] by (simp add: db_stages)

text \<open>
  C13: An instruction is settled at most once: in every run two rows with the same instruction id are
  the same row, and the row of an instruction keeps its key, recipient and amount in every later world.
\<close>

theorem instruction_unique:
  assumes "running allowed oper v" "reach allowed v u"
    and "r \<in> set (settlements (db v))" "r' \<in> set (settlements (db u))" "instructionId r' = instructionId r"
  shows "sid r' = sid r \<and> toAddress r' = toAddress r \<and> amount r' = amount r"
proof -
  from later_inv [OF assms(1,2)] have inv: "db_inv (db u)" and ev: "evolve (db v) (db u)" by simp_all
  from ev have "skey ` set (settlements (db v)) \<subseteq> skey ` set (settlements (db u))"
    using prefix_set by (fastforce simp: evolve_def)
  with assms(3) obtain q where q: "q \<in> set (settlements (db u))" "skey q = skey r" by force
  then have "instructionId q = instructionId r'" using assms(5) by (simp add: skey_def)
  with inv q(1) assms(4) have "q = r'"
    by (auto simp: db_inv_def uniq_ok_def distinct_map dest: inj_onD)
  with q(2) show ?thesis by (simp add: skey_def)
qed

lemma instruction_unique_witness: "sid sent_row = sid approved_row \<and> amount sent_row = amount approved_row"
  using instruction_unique [OF demo_running_ready demo_reach_sent, of approved_row sent_row]
  by (simp add: db_stages)

text \<open>
  C7: Compliance cannot be bypassed. In every run in which submissions are screened by a provider that
  approves allowed addresses only, each settlement that got past RECEIVED and REJECTED_COMPLIANCE, and
  each settlement in the ledger, has a COMPLIANCE_APPROVED row in its audit trail and goes to an
  allowed address. The row that carries the opening balance pays nobody, is not screened and is the
  only exception.
\<close>

theorem compliance_gate:
  assumes "running allowed oper v" "r \<in> set (settlements (db v))"
    and "instructionId r \<noteq> GENESIS_INSTRUCTION_ID"
    and "status r \<notin> {RECEIVED, REJECTED_COMPLIANCE} \<or> booked (db v) (sid r)"
  shows "COMPLIANCE_APPROVED \<in> toStatus ` set (transitions_of (db v) (sid r)) \<and> allowed (toAddress r)"
proof -
  from running_inv_for [OF assms(1)] have inv: "db_inv (db v)"
    and for_all: "cleared (db v) (sid r) \<Longrightarrow> sent_to allowed (db v) (sid r)"
    by (auto simp: db_inv_for_def)
  from inv assms(2-4) have c: "cleared (db v) (sid r)" by (auto simp: db_inv_def screened_ok_def)
  from for_all [OF c] obtain q where "q \<in> set (settlements (db v))" "sid q = sid r" "allowed (toAddress q)"
    by (auto simp: sent_to_def)
  moreover from this inv assms(2) have "q = r"
    by (auto simp: db_inv_def uniq_ok_def distinct_map dest: inj_onD)
  ultimately show ?thesis using c by (force simp: cleared_def transitions_of_def)
qed

lemma compliance_gate_witness:
  "COMPLIANCE_APPROVED \<in> toStatus ` set (transitions_of db_sent ''s'') \<and> \<not> screened_out demo_lib ''a''"
  using compliance_gate [OF demo_running_sent, of sent_row]
  by (simp add: db_stages demo_allowed_def GENESIS_INSTRUCTION_ID_def)

text \<open>
  Every task keeps the database consistent under interference. Whatever the other tasks do at its
  awaits, as long as they keep the invariant and only append, whatever the database refuses and
  whenever the process dies, the task leaves the invariant intact and has only appended.
\<close>

theorem task_keeps_invariant:
  assumes "env_ok (db_only (db_inv_for allowed)) e" "db_inv_for allowed (db w)" "task_ok allowed t"
  shows "db_inv_for allowed (db (snd (run_task t e w))) \<and> evolve (db w) (db (snd (run_task t e w)))"
  using guarD [OF rail.guar_task [OF assms(3)] assms(1,2)] by simp

text \<open>At its instance the process dies between the booking and the status change.\<close>

lemma task_keeps_invariant_witness:
  "let e = calm_env\<lparr>crash := (\<lambda>n. n = 44)\<rparr>; v = snd (run_task Poll e w_sent) in
     db_inv_for demo_allowed (db v) \<and> booked (db v) ''s'' \<and> map status (settlements (db v)) = [FINAL, SUBMITTED]"
proof -
  let ?e = "calm_env\<lparr>crash := (\<lambda>n. n = 44)\<rparr>"
  have "env_ok (db_only (db_inv_for demo_allowed)) ?e" by (simp add: env_ok_def demo_env_def)
  moreover have "db_inv_for demo_allowed (db w_sent)" by (rule running_inv_for [OF demo_running_sent])
  ultimately have "db_inv_for demo_allowed (db (snd (run_task Poll ?e w_sent)))"
    using task_keeps_invariant [of demo_allowed ?e w_sent Poll] by simp
  moreover have "booked (db (snd (run_task Poll ?e w_sent))) ''s'' \<and>
      map status (settlements (db (snd (run_task Poll ?e w_sent)))) = [FINAL, SUBMITTED]"
    by (simp add: booked_def bookings_def w_sent_def w_ready_def w_open_def boot_world_def
        db_stages pollConfirmations_def getCurrentBlock_def processReceipt_def finalize_def Let_def
        rpc_call_def db_read_def db_tx_def run_tx_def yield_def
        demo_env_def demo_simps state_simps ledger_simps)
  ultimately show ?thesis by (simp add: Let_def)
qed

end
