(* ===== verification/LedgerSpec.thy ===== *)
theory LedgerSpec
  imports Ledger
begin

text \<open>
  What the ledger promises: the contract \<open>booking_ledger\<close> that the listener, the submission path and
  reconciliation rely on, its interpretation on the transactions of \<open>Ledger\<close>, and what the
  handlers of \<open>LedgerService\<close> return when nothing interferes.
\<close>

section \<open>The contract\<close>

text \<open>
  A ledger keeps postings in order; a posting under a new key lowers the balance by its amount, a
  second one under the same key is refused.
\<close>

locale booking_ledger =
  fixes wf :: "'d \<Rightarrow> bool"
    and knows :: "'d \<Rightarrow> 'k \<Rightarrow> bool"
    and posts :: "'d \<Rightarrow> ('k \<times> rat) list"
    and balance :: "'d \<Rightarrow> rat"
    and book :: "'k \<Rightarrow> rat \<Rightarrow> 'd \<Rightarrow> 'x + unit \<times> 'd"
  assumes book_new: "wf d \<Longrightarrow> knows d i \<Longrightarrow> micro a \<Longrightarrow> i \<notin> fst ` set (posts d) \<Longrightarrow>
      \<exists>d'. book i a d = Inr ((), d') \<and> wf d' \<and> posts d' = posts d @ [(i, a)] \<and>
        balance d' = balance d - a \<and> knows d' = knows d"
    and book_again: "wf d \<Longrightarrow> i \<in> fst ` set (posts d) \<Longrightarrow> \<exists>x. book i a d = Inl x"

text \<open>Deliveries one after the other, a refused one without effect.\<close>

primrec post_all :: "('k \<Rightarrow> rat \<Rightarrow> 'd \<Rightarrow> 'x + unit \<times> 'd) \<Rightarrow> ('k \<times> rat) list \<Rightarrow> 'd \<Rightarrow> 'd" where
  "post_all bk [] d = d"
| "post_all bk (p # ps) d = post_all bk ps
     (case bk (fst p) (snd p) d of Inl _ \<Rightarrow> d | Inr (_, d') \<Rightarrow> d')"

text \<open>The keys of a list in order of first appearance, without those in a set.\<close>

fun first_seen :: "'k set \<Rightarrow> 'k list \<Rightarrow> 'k list" where
  "first_seen seen [] = []"
| "first_seen seen (k # ks) =
     (if k \<in> seen then first_seen seen ks else k # first_seen (insert k seen) ks)"

lemma first_seen_set: "set (first_seen seen ks) = set ks - seen"
  by (induction seen ks rule: first_seen.induct) auto

lemma first_seen_distinct: "distinct (first_seen seen ks)"
  by (induction seen ks rule: first_seen.induct) (auto simp: first_seen_set)

context booking_ledger begin

lemma post_step:
  assumes "wf d" "knows d i" "micro a"
  shows "\<exists>d'. (case book i a d of Inl _ \<Rightarrow> d | Inr (_, d') \<Rightarrow> d') = d' \<and> wf d' \<and> knows d' = knows d \<and>
    posts d' = posts d @ (if i \<in> fst ` set (posts d) then [] else [(i, a)]) \<and>
    balance d' = balance d - (if i \<in> fst ` set (posts d) then 0 else a)"
proof (cases "i \<in> fst ` set (posts d)")
  case True
  with book_again [OF assms(1) True, of a] assms(1) show ?thesis by auto
next
  case False
  from book_new [OF assms this] obtain d' where "book i a d = Inr ((), d')" "wf d'"
    "posts d' = posts d @ [(i, a)]" "balance d' = balance d - a" "knows d' = knows d" by blast
  with False show ?thesis by (intro exI [of _ d']) simp
qed

text \<open>Repeated deliveries post each key once, at its amount.\<close>

lemma post_all_once:
  assumes "wf d" "\<And>i. i \<in> set ks \<Longrightarrow> knows d i \<and> micro (amt i)"
  shows "wf (post_all book (map (\<lambda>i. (i, amt i)) ks) d)"
    and "posts (post_all book (map (\<lambda>i. (i, amt i)) ks) d) =
      posts d @ map (\<lambda>i. (i, amt i)) (first_seen (fst ` set (posts d)) ks)"
    and "balance (post_all book (map (\<lambda>i. (i, amt i)) ks) d) =
      balance d - (\<Sum>i \<leftarrow> first_seen (fst ` set (posts d)) ks. amt i)"
proof -
  have "wf (post_all book (map (\<lambda>i. (i, amt i)) ks) d) \<and>
    posts (post_all book (map (\<lambda>i. (i, amt i)) ks) d) =
      posts d @ map (\<lambda>i. (i, amt i)) (first_seen (fst ` set (posts d)) ks) \<and>
    balance (post_all book (map (\<lambda>i. (i, amt i)) ks) d) =
      balance d - (\<Sum>i \<leftarrow> first_seen (fst ` set (posts d)) ks. amt i)"
    using assms
  proof (induction ks arbitrary: d)
    case (Cons k ks)
    from Cons.prems(2) [of k] have k: "knows d k" "micro (amt k)" by simp_all
    from post_step [OF Cons.prems(1) k] obtain d'
      where d': "(case book k (amt k) d of Inl _ \<Rightarrow> d | Inr (_, d') \<Rightarrow> d') = d'" "wf d'"
        "knows d' = knows d"
        "posts d' = posts d @ (if k \<in> fst ` set (posts d) then [] else [(k, amt k)])"
        "balance d' = balance d - (if k \<in> fst ` set (posts d) then 0 else amt k)" by blast
    from Cons.prems(2) d'(3) have "\<And>i. i \<in> set ks \<Longrightarrow> knows d' i \<and> micro (amt i)" by simp
    from Cons.IH [OF d'(2) this] d'(1,4,5) show ?case
      by (cases "k \<in> fst ` set (posts d)") (simp_all add: insert_absorb)
  qed simp
  then show "wf (post_all book (map (\<lambda>i. (i, amt i)) ks) d)"
    and "posts (post_all book (map (\<lambda>i. (i, amt i)) ks) d) =
      posts d @ map (\<lambda>i. (i, amt i)) (first_seen (fst ` set (posts d)) ks)"
    and "balance (post_all book (map (\<lambda>i. (i, amt i)) ks) d) =
      balance d - (\<Sum>i \<leftarrow> first_seen (fst ` set (posts d)) ks. amt i)" by blast+
qed

end

lemma genesis_entry_pair:
  "genesis_entry (d\<lparr>ledgerEntries := ledgerEntries d @ booking_pair t i a\<rparr>) = genesis_entry d"
  by (simp add: genesis_entry_def booking_pair_def find_append split: option.split)

interpretation service_ledger: booking_ledger ledger_wf "\<lambda>d i. row d i \<noteq> None" "bookings OPERATOR"
    operator_balance "book_tx t" for t
proof
  fix d :: database and i a
  assume wf: "ledger_wf d" and kn: "row d i \<noteq> None" and m: "micro a"
    and new: "i \<notin> fst ` set (bookings OPERATOR d)"
  let ?d' = "d\<lparr>ledgerEntries := ledgerEntries d @ booking_pair t i a\<rparr>"
  from wf kn new have eq: "book_tx t i a d = Inr ((), ?d')"
    by (auto simp: ledger_wf_def book_tx_eq booked_def)
  moreover have "bookings OPERATOR ?d' = bookings OPERATOR d @ [(i, a)]"
    by (simp add: bookings_pair dec6_fix m)
  moreover from this have "operator_balance ?d' = operator_balance d - a"
    by (simp add: operator_balance_def opening_of_def genesis_entry_pair)
  moreover have "(\<lambda>i. row ?d' i \<noteq> None) = (\<lambda>i. row d i \<noteq> None)" by simp
  ultimately show "\<exists>d'. book_tx t i a d = Inr ((), d') \<and> ledger_wf d' \<and>
      bookings OPERATOR d' = bookings OPERATOR d @ [(i, a)] \<and>
      operator_balance d' = operator_balance d - a \<and>
      (\<lambda>i. row d' i \<noteq> None) = (\<lambda>i. row d i \<noteq> None)"
    using book_tx_ledger_wf [OF wf eq] by blast
next
  fix d :: database and i a
  assume "ledger_wf d" "i \<in> fst ` set (bookings OPERATOR d)"
  then show "\<exists>x. book_tx t i a d = Inl x" by (auto simp: ledger_wf_def book_tx_eq booked_def)
qed

section \<open>What the handlers return\<close>

text \<open>Amounts are exact when the balance and the sums are below the precision of \<open>Decimal\<close>.\<close>

definition exact_ledger :: "lib \<Rightarrow> database \<Rightarrow> bool" where
  "exact_ledger l d \<longleftrightarrow> dround l (opening_of d) = opening_of d \<and>
     dround l (operator_balance d) = operator_balance d"

lemma opening_micro: "ledger_wf d \<Longrightarrow> micro (opening_of d)"
  by (auto simp: opening_of_def genesis_entry_def ledger_wf_def split: option.split dest!: find_SomeD)

lemma balance_micro: "ledger_wf d \<Longrightarrow> micro (operator_balance d)"
proof -
  assume wf: "ledger_wf d"
  then have "micro (sum_list (map snd (bookings OPERATOR d)))"
    by (intro micro_sum_list) (auto simp: bookings_def ledger_wf_def)
  with opening_micro [OF wf] show ?thesis by (simp add: operator_balance_def)
qed

lemma exact_small:
  assumes "dround_ok l" "ledger_wf d" "\<bar>opening_of d\<bar> < 100000000000000"
    "\<bar>operator_balance d\<bar> < 100000000000000"
  shows "exact_ledger l d"
  using assms by (simp add: exact_ledger_def dround_ok_def opening_micro balance_micro)

lemma quiet_operatorBalance:
  assumes "quiet e" "ledger_wf (db w)" "exact_ledger (lib e) (db w)"
  shows "getOperatorBalance e w = (Inr (operator_balance (db w)), w\<lparr>tick := tick w + 6\<rparr>)"
  using assms operator_debit_sum [OF assms(2)] operator_credit_none [OF assms(2)]
  by (simp add: getOperatorBalance_def getOpeningBalance_def io_defs quiet_simps exact_ledger_def
      operator_balance_def or_zero_def)

lemma quiet_book:
  assumes "quiet e" "ledger_wf (db w)" "row (db w) i \<noteq> None"
  shows "recordSettlementFinalized i a e w =
    (if booked (db w) i then (Inr False, w\<lparr>tick := Suc (tick w)\<rparr>)
     else (Inr True, w\<lparr>db := (db w)\<lparr>ledgerEntries := ledgerEntries (db w) @
        booking_pair (now e (Suc (tick w))) i a\<rparr>, tick := Suc (Suc (tick w))\<rparr>))"
  using assms
  by (auto simp: recordSettlementFinalized_def io_defs quiet_simps ledger_wf_def book_tx_eq P2002_def)

end
