(* ===== verification/LedgerClaims.thy ===== *)
theory LedgerClaims
  imports LedgerSpec Safety
begin

text \<open>Properties of the ledger's handlers: booking, the operator's balance, the opening snapshot.\<close>

section \<open>Booking\<close>

text \<open>
  C16: Deliveries of finality, however often repeated, book each settlement once. After any list of
  bookings of known settlements at their amounts, the ledger has one posting more for each settlement
  not yet booked, in order of first delivery, and the operator's balance is lower by exactly the sum
  of those amounts.
\<close>

theorem deliveries_book_once:
  assumes "ledger_wf d" "\<And>i. i \<in> set ks \<Longrightarrow> row d i \<noteq> None \<and> micro (amt i)"
  shows "let d' = post_all (book_tx t) (map (\<lambda>i. (i, amt i)) ks) d;
      fresh = first_seen (fst ` set (bookings OPERATOR d)) ks in
    ledger_wf d' \<and> bookings OPERATOR d' = bookings OPERATOR d @ map (\<lambda>i. (i, amt i)) fresh \<and>
    bookings SETTLED_OUT d' = bookings OPERATOR d' \<and>
    operator_balance d' = operator_balance d - (\<Sum>i \<leftarrow> fresh. amt i)"
proof -
  note posted = service_ledger.post_all_once [of d ks amt t, OF assms]
  from posted(1) have "bookings SETTLED_OUT (post_all (book_tx t) (map (\<lambda>i. (i, amt i)) ks) d) =
      bookings OPERATOR (post_all (book_tx t) (map (\<lambda>i. (i, amt i)) ks) d)"
    by (simp only: ledger_wf_def)
  with posted show ?thesis by (simp add: Let_def)
qed

lemma deliveries_book_once_witness:
  "operator_balance (post_all (book_tx 0) (map (\<lambda>i. (i, 40)) [''s'', ''s'', ''s'']) db_sent) = 60"
proof -
  have "micro 40" using micro_of_int [of 40000000] by simp
  moreover have "ledger_wf db_sent" by (rule inv_ledger) simp
  moreover have "row db_sent ''s'' \<noteq> None" by (simp add: row_def db_stages)
  moreover have "bookings OPERATOR db_sent = []" "operator_balance db_sent = 100"
    by (simp_all add: bookings_def operator_balance_def opening_of_def genesis_entry_def db_stages)
  ultimately show ?thesis
    using deliveries_book_once [of db_sent "[''s'', ''s'', ''s'']" "\<lambda>_. 40" 0] by (simp add: Let_def)
qed

text \<open>
  \<open>recordSettlementFinalized\<close> answers true exactly when it booked. Without interference, on a known
  settlement, it returns true and appends the debit and the credit of the amount when the settlement
  was not booked, returns false and changes nothing in the database when it was, and never fails.
\<close>

theorem record_finalized_idempotent:
  assumes "quiet e" "ledger_wf (db w)" "row (db w) i = Some r"
  shows "fst (recordSettlementFinalized i a e w) = Inr (\<not> booked (db w) i) \<and>
    db (snd (recordSettlementFinalized i a e w)) = (if booked (db w) i then db w
      else (db w)\<lparr>ledgerEntries := ledgerEntries (db w) @
        [\<lparr>le_settlementId = i, le_account = OPERATOR, le_direction = DEBIT, le_amount = dec6 a,
           le_createdAt = now e (Suc (tick w))\<rparr>,
         \<lparr>le_settlementId = i, le_account = SETTLED_OUT, le_direction = CREDIT, le_amount = dec6 a,
           le_createdAt = now e (Suc (tick w))\<rparr>]\<rparr>) \<and>
    booked (db (snd (recordSettlementFinalized i a e w))) i"
proof -
  have "booked ((db w)\<lparr>ledgerEntries := ledgerEntries (db w) @ booking_pair t i a\<rparr>) i" for t
    by (simp add: booked_def bookings_pair)
  with quiet_book [OF assms(1,2), of i a] assms(3) show ?thesis by (auto simp: booking_pair_def)
qed

lemma record_finalized_idempotent_witness:
  "fst (recordSettlementFinalized ''s'' 40 calm_env w_sent) = Inr True \<and>
   fst (recordSettlementFinalized ''s'' 40 calm_env w_final) = Inr False \<and>
   db (snd (recordSettlementFinalized ''s'' 40 calm_env w_final)) = db_final"
proof -
  have wf: "ledger_wf (db w_sent)" "ledger_wf (db w_final)" by (simp_all add: inv_ledger)
  have "row (db w_sent) ''s'' = Some sent_row" "row (db w_final) ''s'' = Some final_row"
    by (simp_all add: row_def db_stages)
  with record_finalized_idempotent [OF _ wf(1), of calm_env "''s''"]
    record_finalized_idempotent [OF _ wf(2), of calm_env "''s''"]
  show ?thesis by (simp add: booked_def bookings_def db_stages)
qed

section \<open>The balance\<close>

text \<open>
  The operator's balance is the opening snapshot less everything booked. Without interference,
  on a well-formed ledger whose balance is below the precision of the decimal library,
  \<open>getOperatorBalance\<close> returns exactly that and changes nothing in the database.
\<close>

theorem operator_balance_exact:
  assumes "quiet e" "ledger_wf (db w)" "dround_ok (lib e)"
    and "\<bar>opening_of (db w)\<bar> < 100000000000000" "\<bar>operator_balance (db w)\<bar> < 100000000000000"
  shows "fst (getOperatorBalance e w) =
      Inr (opening_of (db w) - sum_list (map snd (bookings OPERATOR (db w)))) \<and>
    db (snd (getOperatorBalance e w)) = db w"
  using quiet_operatorBalance [OF assms(1,2) exact_small [OF assms(3,2,4,5)]]
  by (simp add: operator_balance_def)

lemma demo_dround [simp]: "dround_ok demo_lib"
  by (simp add: dround_ok_def)

lemma operator_balance_exact_witness: "fst (getOperatorBalance calm_env w_final) = Inr 60"
proof -
  have "ledger_wf (db w_final)" by (simp add: inv_ledger)
  from operator_balance_exact [OF _ this, of calm_env] show ?thesis
    by (simp add: operator_balance_def opening_of_def genesis_entry_def bookings_def db_stages)
qed

section \<open>The opening snapshot\<close>

text \<open>
  The opening balance is taken once. On an empty ledger the boot hook books the chain's balance of
  the operator as the one GENESIS entry, with the reserved FINAL settlement; when a GENESIS entry
  exists, the hook changes nothing, whatever the chain's balance is by then, and asks the node nothing.
\<close>

theorem opening_snapshot_once:
  assumes "quiet e" "quiet e'" "ledgerEntries (db w) = []" "by_instruction (db w) GENESIS_INSTRUCTION_ID = None"
    and "uuid e (tick w + 5) \<notin> sid ` set (settlements (db w))"
    and "balanceOf (rpc e (tick w + 3)) = Inr raw"
    and "newDecimal (lib e) (formatUnits (lib e) raw (decimals w)) = Some opening"
  shows "let (res, v) = ensureOpeningSnapshot e w; (res', v') = ensureOpeningSnapshot e' v in
    res = Inr () \<and> opening_of (db v) = dec6 opening \<and> length (bookings GENESIS (db v)) = 1 \<and>
    map status (settlements (db v)) = map status (settlements (db w)) @ [FINAL] \<and>
    res' = Inr () \<and> v' = v\<lparr>tick := tick v + 2\<rparr>"
proof -
  let ?t = "now e (tick w + 5)" and ?k = "uuid e (tick w + 5)"
  let ?g = "\<lparr>sid = ?k, instructionId = GENESIS_INSTRUCTION_ID, toAddress = operatorAddress w,
      amount = dec6 opening, status = FINAL, txHash = None, nonce = None, failureReason = None,
      retryCount = 0, confirmedBlockHash = None, confirmedBlockNumber = None, createdAt = ?t,
      updatedAt = ?t\<rparr>"
  let ?d = "(db w)\<lparr>settlements := settlements (db w) @ [?g],
      ledgerEntries := [\<lparr>le_settlementId = ?k, le_account = GENESIS, le_direction = CREDIT,
        le_amount = dec6 opening, le_createdAt = ?t\<rparr>]\<rparr>"
  from assms(3) have g0: "genesis_entry (db w) = None" by (simp add: genesis_entry_def)
  have new: "\<not> (\<exists>r \<in> set (settlements (db w)). sid r = ?k \<or> instructionId r = GENESIS_INSTRUCTION_ID)"
    using assms(4,5) unfolding by_instruction_def find_None_all by (metis image_eqI)
  then have k: "find (\<lambda>r. sid r = ?k) (settlements (db w)) = None" by (simp add: find_None_all)
  have "snapshot_tx ?t ?k (operatorAddress w) opening (db w) = Inr ((), ?d)"
    using assms(3,4) g0 new k
    by (simp add: snapshot_tx_def upsert_genesis_def create_tx_def insert_entry_def row_def find_append Let_def)
  then have v: "ensureOpeningSnapshot e w = (Inr (), w\<lparr>db := ?d, tick := tick w + 6\<rparr>)"
    using assms(1,6,7) g0
    by (simp add: ensureOpeningSnapshot_def getChainBalance_def newDecimal_io_def io_defs quiet_simps
        eval_nat_numeral)
  have g: "genesis_entry ?d \<noteq> None" by (simp add: genesis_entry_def)
  have again: "ensureOpeningSnapshot e' u = (Inr (), u\<lparr>tick := tick u + 2\<rparr>)"
    if "genesis_entry (db u) \<noteq> None" for u :: world
    using assms(2) that by (simp add: ensureOpeningSnapshot_def io_defs quiet_simps)
  have "opening_of ?d = dec6 opening" "length (bookings GENESIS ?d) = 1"
    by (simp_all add: opening_of_def genesis_entry_def bookings_def)
  then show ?thesis using g by (simp add: v again)
qed

lemma opening_snapshot_once_witness:
  "let (res, v) = ensureOpeningSnapshot calm_env (boot_world ''op'' empty_db);
       (res', v') = ensureOpeningSnapshot (demo_env (\<lambda>_. demo_rpc\<lparr>balanceOf := Inr 40000000\<rparr>)) v in
     opening_of (db v) = 100 \<and> db v' = db v"
  using opening_snapshot_once [of calm_env "demo_env (\<lambda>_. demo_rpc\<lparr>balanceOf := Inr 40000000\<rparr>)"
      "boot_world ''op'' empty_db" 100000000 100]
  by (auto simp: genesis_entry_def by_instruction_def empty_db_def demo_rpc_def
      boot_world_def split: prod.splits)

end
