(* ===== verification/SubmissionSpec.thy ===== *)
theory SubmissionSpec
  imports LedgerSpec Settlements
begin

text \<open>
  The available balance as an abstract value, how each step of the database changes it, and the
  submission path evaluated step by step when nothing interferes.
\<close>

section \<open>The available balance\<close>

text \<open>What is left to promise: the ledger's balance less everything in flight.\<close>

definition available_of :: "database \<Rightarrow> rat" where
  "available_of d = operator_balance d - sum_in d IN_FLIGHT_STATUSES"

text \<open>A database the balance check reads exactly.\<close>

definition exact_available :: "lib \<Rightarrow> database \<Rightarrow> bool" where
  "exact_available l d \<longleftrightarrow> ledger_wf d \<and> exact_ledger l d \<and> dround l (available_of d) = available_of d"

lemma quiet_available:
  assumes "quiet e" "exact_available (lib e) (db w)"
  shows "availableBalance e w = (Inr (available_of (db w)), w\<lparr>tick := tick w + 8\<rparr>)"
  using assms quiet_operatorBalance [of e w]
  by (simp add: availableBalance_def sumByStatuses_def io_defs quiet_simps exact_available_def available_of_def)

text \<open>How the steps change the sum over some statuses.\<close>

lemma sum_in_append:
  "sum_in (d\<lparr>settlements := settlements d @ [r]\<rparr>) sts =
     sum_in d sts + (if status r \<in> set sts then amount r else 0)"
  by (simp add: sum_in_sum_list by_statuses_def)

lemma sum_upd:
  assumes "distinct (map sid rs)" "find (\<lambda>r. sid r = i) rs = Some cur"
  shows "(\<Sum>r \<leftarrow> filter (\<lambda>r. status r \<in> S) (upd_where (\<lambda>r. sid r = i) (apply_opts t to opts) rs). amount r) =
    (\<Sum>r \<leftarrow> filter (\<lambda>r. status r \<in> S) rs. amount r) - (if status cur \<in> S then amount cur else 0)
      + (if to \<in> S then amount cur else 0)"
  using assms
proof (induction rs)
  case (Cons r rs)
  show ?case
  proof (cases "sid r = i")
    case True
    with Cons.prems have "cur = r" "\<And>x. x \<in> set rs \<Longrightarrow> sid x \<noteq> i" by (auto simp: image_iff)
    then show ?thesis using True by (simp add: upd_where_id)
  next
    case False
    with Cons show ?thesis by simp
  qed
qed simp

lemma sum_in_write_transition:
  assumes "distinct (map sid (settlements d))" "row d (sid cur) = Some cur"
  shows "sum_in (write_transition str t ev to opts cur d) sts =
    sum_in d sts - (if status cur \<in> set sts then amount cur else 0) + (if to \<in> set sts then amount cur else 0)"
  using sum_upd [OF assms(1), of "sid cur" cur "set sts" t to opts] assms(2)
  by (simp add: sum_in_sum_list by_statuses_def row_def write_transition_def Let_def)

lemma operator_balance_cong: "ledgerEntries d' = ledgerEntries d \<Longrightarrow> operator_balance d' = operator_balance d"
  by (simp add: operator_balance_def opening_of_def genesis_entry_def bookings_def)

section \<open>The submission path\<close>

text \<open>The row a submission inserts.\<close>

definition received_row :: "env \<Rightarrow> nat \<Rightarrow> create_dto \<Rightarrow> rat \<Rightarrow> settlement" where
  "received_row e n dto a = \<lparr>sid = uuid e n, instructionId = d_instructionId dto,
     toAddress = d_toAddress dto, amount = dec6 a, status = RECEIVED, txHash = None, nonce = None,
     failureReason = None, retryCount = 0, confirmedBlockHash = None, confirmedBlockNumber = None,
     createdAt = now e n, updatedAt = now e n\<rparr>"

lemma quiet_create_prefix:
  assumes "quiet e" "by_instruction (db w) (d_instructionId dto) = None"
    and "newDecimal (lib e) (d_amount dto) = Some a" "exact_available (lib e) (db w)"
  shows "create provider dto e w =
    (if available_of (db w) < a
     then (Inl (insufficient (lib e) a (available_of (db w))), w\<lparr>tick := tick w + 10\<rparr>)
     else await (insert_received dto a) (\<lambda>inserted. case inserted of
         Inl raced \<Rightarrow> ret \<lparr>cr_settlement = raced, cr_created = False\<rparr>
       | Inr s \<Rightarrow> screen provider dto s) e (w\<lparr>tick := tick w + 10\<rparr>))"
  using assms quiet_available [of e "w\<lparr>tick := Suc (Suc (tick w))\<rparr>"]
  by (simp add: create_def findByInstructionId_def newDecimal_io_def run_simps quiet_simps add.commute)

lemma quiet_insert:
  assumes "quiet e" "by_instruction (db w) (d_instructionId dto) = None"
  shows "insert_received dto a e w =
    (if uuid e (Suc (tick w)) \<in> sid ` set (settlements (db w))
     then (Inl P2002, w\<lparr>tick := tick w + 3\<rparr>)
     else (Inr (Inr (received_row e (Suc (tick w)) dto a)),
       w\<lparr>db := (db w)\<lparr>settlements := settlements (db w) @ [received_row e (Suc (tick w)) dto a]\<rparr>,
         tick := tick w + 2\<rparr>))"
proof -
  from assms(2) have "\<not> (\<exists>r \<in> set (settlements (db w)). instructionId r = d_instructionId dto)"
    by (auto simp: by_instruction_def find_None_all)
  then have "create_tx t k (d_instructionId dto) b a (Some RECEIVED) (db w) =
    (if k \<in> sid ` set (settlements (db w)) then Inl P2002
     else let r = \<lparr>sid = k, instructionId = d_instructionId dto, toAddress = b, amount = dec6 a,
          status = RECEIVED, txHash = None, nonce = None, failureReason = None, retryCount = 0,
          confirmedBlockHash = None, confirmedBlockNumber = None, createdAt = t, updatedAt = t\<rparr>
        in Inr (r, (db w)\<lparr>settlements := settlements (db w) @ [r]\<rparr>))" for t k b
    by (auto simp: create_tx_def)
  with assms show ?thesis
    by (simp add: insert_received_def state_create_def findByInstructionId_def run_simps quiet_simps
        received_row_def P2002_def Let_def numeral_2_eq_2 numeral_3_eq_3)
qed

text \<open>Screening of a row that is there.\<close>

definition reject_opts :: "compliance_result \<Rightarrow> transition_options" where
  "reject_opts c = no_opts\<lparr>o_failureReason :=
     Some (Some (case c_reason c of None \<Rightarrow> ''COMPLIANCE_REJECTED'' | Some why \<Rightarrow> why))\<rparr>"

lemma quiet_screen:
  assumes "quiet e" "row (db w) (sid s) = Some s"
  shows "screen provider dto s e w =
    (let c = provider (d_toAddress dto); t = now e (tick w + 2); str = decToString (lib e);
       to = (if approved c then COMPLIANCE_APPROVED else REJECTED_COMPLIANCE);
       opts = (if approved c then no_opts else reject_opts c);
       w' = w\<lparr>db := write_transition str t (uuid e (tick w + 2)) to opts s (db w), tick := tick w + 3\<rparr>
     in (Inr \<lparr>cr_settlement = apply_opts t to opts s, cr_created = True\<rparr>,
         if approved c then snd (enqueueId (sid s) e w') else w'))"
proof -
  have "transition_tx str t ev (sid s) to opts (db w) =
      Inr (Some (apply_opts t to opts s), write_transition str t ev to opts s (db w))"
    if "expectedFrom opts = None" "OUTBOX_EVENT_TYPES to = None" for str t ev to opts
    using assms(2) that by (simp add: transition_tx_def)
  with assms(1) show ?thesis
    by (simp add: screen_def transition_def run_simps quiet_simps Let_def reject_opts_def no_opts_def
        enqueue_def enqueueId_def numeral_2_eq_2 numeral_3_eq_3)
qed

section \<open>A submission within the balance\<close>

lemma quiet_accepted:
  assumes "quiet e" "by_instruction (db w) (d_instructionId dto) = None"
    and "newDecimal (lib e) (d_amount dto) = Some a" "exact_available (lib e) (db w)" "a \<le> available_of (db w)"
    and "uuid e (tick w + 11) \<notin> sid ` set (settlements (db w))"
  defines "r \<equiv> received_row e (tick w + 11) dto a"
  defines "v \<equiv> w\<lparr>db := (db w)\<lparr>settlements := settlements (db w) @ [r]\<rparr>, tick := tick w + 12\<rparr>"
  shows "create provider dto e w = screen provider dto r e v" "row (db v) (sid r) = Some r"
    "upd_where (\<lambda>x. sid x = sid r) f (settlements (db v)) = settlements (db w) @ [f r]"
proof -
  have sid: "sid r = uuid e (tick w + 11)" by (simp add: r_def received_row_def)
  have old: "\<And>x. x \<in> set (settlements (db w)) \<Longrightarrow> sid x \<noteq> sid r" using assms(6) sid by (auto simp: image_iff)
  then show "row (db v) (sid r) = Some r"
    by (auto simp: v_def row_def find_append find_None_all split: option.split dest: find_SomeD)
  show "upd_where (\<lambda>x. sid x = sid r) f (settlements (db v)) = settlements (db w) @ [f r]"
    using upd_where_id [of "settlements (db w)" "\<lambda>x. sid x = sid r" f] old by (simp add: v_def upd_where_def)
  have "insert_received dto a e (w\<lparr>tick := tick w + 10\<rparr>) = (Inr (Inr r), v)"
    using quiet_insert [OF assms(1), of "w\<lparr>tick := tick w + 10\<rparr>" dto a] assms(2,6)
    by (simp add: r_def v_def add.commute [of "tick w"])
  then show "create provider dto e w = screen provider dto r e v"
    using quiet_create_prefix [OF assms(1-4)] assms(5) by (simp add: run_simps)
qed

end
