(* ===== verification/SubmissionClaims.thy ===== *)
theory SubmissionClaims
  imports SubmissionSpec LedgerClaims
begin

text \<open>
  Properties of the submission path: idempotency, the balance check, screening, and what the check
  does and does not guarantee when submissions overlap.
\<close>

section \<open>One submission\<close>

text \<open>
  Resubmitting an instruction changes nothing. When a settlement with the instruction id exists,
  \<open>create\<close> returns it unchanged, marked as not created (status 200), whatever address and amount the
  request carries, without touching database, queue or provider.
\<close>

theorem resubmission_idempotent:
  assumes "quiet e" "by_instruction (db w) (d_instructionId dto) = Some s"
  shows "create provider dto e w =
      (Inr \<lparr>cr_settlement = s, cr_created = False\<rparr>, w\<lparr>tick := tick w + 2\<rparr>) \<and>
    create_status \<lparr>cr_settlement = s, cr_created = False\<rparr> = 200"
  using assms
  by (simp add: create_def findByInstructionId_def run_simps quiet_simps create_status_def)

lemma resubmission_idempotent_witness:
  "fst (create (compliance_check demo_lib) \<lparr>d_instructionId = ''i'', d_toAddress = ''z'', d_amount = ''60''\<rparr>
     calm_env w_sent) = Inr \<lparr>cr_settlement = sent_row, cr_created = False\<rparr>"
  using resubmission_idempotent [of calm_env w_sent
      "\<lparr>d_instructionId = ''i'', d_toAddress = ''z'', d_amount = ''60''\<rparr>" sent_row]
  by (simp add: by_instruction_def db_stages GENESIS_INSTRUCTION_ID_def)

text \<open>
  A submission above the available balance is refused. When the amount exceeds the ledger's
  balance less everything in flight, \<open>create\<close> answers 422 with both amounts and stores, screens and
  enqueues nothing.
\<close>

theorem insufficient_refused:
  assumes "quiet e" "by_instruction (db w) (d_instructionId dto) = None"
    and "newDecimal (lib e) (d_amount dto) = Some a" "exact_available (lib e) (db w)"
    and "operator_balance (db w) - sum_in (db w) IN_FLIGHT_STATUSES < a"
  shows "create provider dto e w =
    (Inl (HttpExn 422 ''InsufficientBalance'' (''amount '' @ decToString (lib e) a @
        '' exceeds available balance '' @
        decToString (lib e) (operator_balance (db w) - sum_in (db w) IN_FLIGHT_STATUSES))),
     w\<lparr>tick := tick w + 10\<rparr>)"
  using quiet_create_prefix [OF assms(1-4)] assms(5)
  by (simp add: available_of_def insufficient_def)

lemma demo_exact [simp]: "exact_available demo_lib d \<longleftrightarrow> ledger_wf d"
  by (simp add: exact_available_def exact_ledger_def)

lemma insufficient_refused_witness:
  "db (snd (create (compliance_check demo_lib) \<lparr>d_instructionId = ''j'', d_toAddress = ''z'', d_amount = ''100''\<rparr>
     calm_env w_sent)) = db_sent"
proof -
  have "operator_balance db_sent - sum_in db_sent IN_FLIGHT_STATUSES < 100"
    by (simp add: operator_balance_def opening_of_def genesis_entry_def bookings_def sum_in_def
        by_statuses_def sum_of_def IN_FLIGHT_STATUSES_def db_stages)
  moreover have "ledger_wf db_sent" by (rule inv_ledger) simp
  moreover have "by_instruction db_sent ''j'' = None"
    by (simp add: by_instruction_def db_stages GENESIS_INSTRUCTION_ID_def)
  ultimately show ?thesis
    using insufficient_refused [of calm_env w_sent
        "\<lparr>d_instructionId = ''j'', d_toAddress = ''z'', d_amount = ''100''\<rparr>" 100]
    by simp
qed

text \<open>
  C21: A submission within the balance is stored and screened. The new row carries the instruction,
  the recipient and the rounded amount; if the provider approves, it is COMPLIANCE_APPROVED, is the
  last job of the queue (unless the relayer drains) and a worker is started; if not, it is
  REJECTED_COMPLIANCE with the provider's reason and the queue is unchanged. The ledger and all other
  rows stay as they were, and the answer is the stored row, with status 201.
\<close>

theorem submission_decided:
  assumes "quiet e" "by_instruction (db w) (d_instructionId dto) = None"
    and "newDecimal (lib e) (d_amount dto) = Some a" "exact_available (lib e) (db w)"
    and "a \<le> operator_balance (db w) - sum_in (db w) IN_FLIGHT_STATUSES"
    and "uuid e (tick w + 11) \<notin> sid ` set (settlements (db w))"
  shows "let (res, v) = create provider dto e w; i = uuid e (tick w + 11); c = provider (d_toAddress dto) in
    \<exists>s. res = Inr \<lparr>cr_settlement = s, cr_created = True\<rparr> \<and> create_status \<lparr>cr_settlement = s, cr_created = True\<rparr> = 201 \<and>
      settlements (db v) = settlements (db w) @ [s] \<and> ledgerEntries (db v) = ledgerEntries (db w) \<and>
      sid s = i \<and> instructionId s = d_instructionId dto \<and> toAddress s = d_toAddress dto \<and> amount s = dec6 a \<and>
      (if approved c then status s = COMPLIANCE_APPROVED \<and>
         queue v = (if draining w then queue w else queue w @ [i]) \<and>
         spawned v = (if draining w then spawned w else spawned w @ [RunWorker])
       else status s = REJECTED_COMPLIANCE \<and> queue v = queue w \<and> spawned v = spawned w \<and>
         failureReason s = Some (case c_reason c of None \<Rightarrow> ''COMPLIANCE_REJECTED'' | Some why \<Rightarrow> why))"
proof -
  let ?r = "received_row e (tick w + 11) dto a"
  note A = quiet_accepted [OF assms(1-4) _ assms(6)]
  have le: "a \<le> available_of (db w)" using assms(5) by (simp add: available_of_def)
  note screened = quiet_screen [OF assms(1) A(2) [OF le], of provider dto]
  have sid: "sid ?r = uuid e (tick w + 11)" by (simp add: received_row_def)
  show ?thesis
    unfolding A(1) [OF le] screened using A(3) [OF le] sid
    by (simp add: Let_def enqueueId_def run_simps updateQueueDepth_def write_transition_def
        create_status_def reject_opts_def apply_opts_def no_opts_def received_row_def)
qed

lemma submission_decided_witness:
  "let (res, v) = create (compliance_check demo_lib) demo_dto calm_env (w_open\<lparr>tick := 10\<rparr>) in
     map status (settlements (db v)) = [FINAL, COMPLIANCE_APPROVED] \<and> queue v = [''s'']"
proof -
  let ?w = "w_open\<lparr>tick := 10\<rparr>"
  have d: "db ?w = db_open" by (simp add: w_open_def)
  have "40 \<le> operator_balance db_open - sum_in db_open IN_FLIGHT_STATUSES"
    by (simp add: operator_balance_def opening_of_def genesis_entry_def bookings_def sum_in_def
        by_statuses_def sum_of_def IN_FLIGHT_STATUSES_def db_stages)
  moreover have "ledger_wf db_open" by (rule inv_ledger) simp
  moreover have "by_instruction db_open ''i'' = None" "demo_uuid 21 \<notin> sid ` set (settlements db_open)"
    by (simp_all add: by_instruction_def db_stages GENESIS_INSTRUCTION_ID_def demo_uuid_def)
  moreover have "newDecimal demo_lib ''40'' = Some 40" "approved (compliance_check demo_lib ''a'')"
    by (simp_all add: compliance_check_def blocklist_def)
  ultimately show ?thesis
    using submission_decided [of calm_env ?w demo_dto 40 "compliance_check demo_lib"] d
    by (simp add: demo_dto_def Let_def db_open_def demo_uuid_def w_open_def boot_world_def split: prod.splits) auto
qed

text \<open>
  A lost race for an instruction is an idempotent hit. When another request stored the
  instruction after the first check of \<open>create\<close>, the insert fails on the unique key and answers with
  the row that won: nothing is stored, and the caller gets that row as not created.
\<close>

theorem lost_race_idempotent:
  assumes "quiet e" "by_instruction (db w) (d_instructionId dto) = Some s"
  shows "insert_received dto a e w = (Inr (Inl s), w\<lparr>tick := tick w + 3\<rparr>)"
proof -
  from assms(2) have "s \<in> set (settlements (db w))" "instructionId s = d_instructionId dto"
    by (auto simp: by_instruction_def dest: find_SomeD)
  then have "create_tx t k (d_instructionId dto) b a st (db w) = Inl P2002" for t k b st
    by (auto simp: create_tx_def)
  with assms show ?thesis
    by (simp add: insert_received_def state_create_def findByInstructionId_def run_simps quiet_simps
        P2002_def numeral_3_eq_3)
qed

lemma lost_race_idempotent_witness:
  "fst (insert_received demo_dto 40 calm_env w_sent) = Inr (Inl sent_row)"
  using lost_race_idempotent [of calm_env w_sent demo_dto sent_row 40]
  by (simp add: by_instruction_def db_stages demo_dto_def GENESIS_INSTRUCTION_ID_def)

text \<open>
  The blocklist decides on normal forms. An address is approved exactly when ethers can normalise
  it and its normal form is not blocklisted; a rejection says which of the two it was, and two
  spellings of one address get the same answer.
\<close>

theorem blocklist_decides:
  "(approved (compliance_check l a) \<longleftrightarrow> getAddress l a \<noteq> None \<and> getAddress l a \<notin> blocklist l) \<and>
   c_reason (compliance_check l a) = (if getAddress l a = None then Some ''INVALID_ADDRESS''
     else if getAddress l a \<in> blocklist l then Some ''ADDRESS_BLOCKLISTED'' else None) \<and>
   getAddress l ''0x000000000000000000000000000000000000dead'' \<in> blocklist l \<and>
   {b. getAddress l b = getAddress l a} \<subseteq> {b. compliance_check l b = compliance_check l a}"
  using mock_compliance.approved_iff [of l a] check_normalised [of l _ a]
  by (auto simp: screened_out_def compliance_check_def blocklist_def split: option.split)

section \<open>Many submissions\<close>

lemma create_available:
  assumes q: "quiet e" and ex: "exact_available (lib e) (db w)" and dist: "distinct (map sid (settlements (db w)))"
    and mic: "\<And>a. newDecimal (lib e) (d_amount dto) = Some a \<Longrightarrow> micro a"
  obtains "available_of (db (snd (create provider dto e w))) = available_of (db w)"
  | a where "newDecimal (lib e) (d_amount dto) = Some a" "a \<le> available_of (db w)"
      "available_of (db (snd (create provider dto e w))) = available_of (db w) - a"
proof (cases "by_instruction (db w) (d_instructionId dto)")
  case (Some s)
  then have "db (snd (create provider dto e w)) = db w"
    using q by (simp add: create_def findByInstructionId_def run_simps quiet_simps)
  then show thesis by (intro that(1)) simp
next
  case None
  show thesis
  proof (cases "newDecimal (lib e) (d_amount dto)")
    case nan: None
    then have "db (snd (create provider dto e w)) = db w"
      using q None by (simp add: create_def findByInstructionId_def newDecimal_io_def run_simps quiet_simps)
    then show thesis by (intro that(1)) simp
  next
    case (Some a)
    let ?w = "w\<lparr>tick := tick w + 10\<rparr>"
    note pre = quiet_create_prefix [OF q None Some ex, of provider]
    note ins = quiet_insert [OF q, of ?w dto a]
    consider "available_of (db w) < a" | "uuid e (Suc (tick ?w)) \<in> sid ` set (settlements (db w))"
      | "a \<le> available_of (db w)" "uuid e (Suc (tick ?w)) \<notin> sid ` set (settlements (db w))" by force
    then show thesis
    proof cases
      case 3
      let ?r = "received_row e (Suc (tick ?w)) dto a"
      let ?d = "(db w)\<lparr>settlements := settlements (db w) @ [?r]\<rparr>"
      let ?v = "w\<lparr>db := ?d, tick := tick ?w + 2\<rparr>"
      have r: "sid ?r = uuid e (Suc (tick ?w))" "status ?r = RECEIVED" "amount ?r = a"
        using mic [OF Some] by (simp_all add: received_row_def dec6_fix)
      have new: "sid ?r \<notin> sid ` set (settlements (db w))" using 3(2) r(1) by simp
      have row: "row ?d (sid ?r) = Some ?r" and dist': "distinct (map sid (settlements ?d))"
        using new dist row_unique [of ?d ?r] by simp_all
      have "create provider dto e w = screen provider dto ?r e ?v"
        using pre ins None 3 by (simp add: run_simps)
      moreover have "row (db ?v) (sid ?r) = Some ?r" using row by simp
      note quiet_screen [OF q this, of provider dto]
      ultimately obtain str t ev opts where
        "db (snd (create provider dto e w)) = write_transition str t ev
          (if approved (provider (d_toAddress dto)) then COMPLIANCE_APPROVED else REJECTED_COMPLIANCE) opts ?r ?d"
        by (simp add: Let_def enqueueId_def run_simps updateQueueDepth_def split: if_splits)
      moreover have "sum_in ?d IN_FLIGHT_STATUSES = sum_in (db w) IN_FLIGHT_STATUSES + a"
        by (simp only: sum_in_append r IN_FLIGHT_STATUSES_def) simp
      moreover have "operator_balance (write_transition str t ev to opts ?r ?d) = operator_balance (db w)" for to
        by (rule operator_balance_cong) simp
      ultimately have "available_of (db (snd (create provider dto e w))) =
          (if approved (provider (d_toAddress dto)) then available_of (db w) - a else available_of (db w))"
        using sum_in_write_transition [OF dist' row] r(2,3)
        by (simp add: available_of_def IN_FLIGHT_STATUSES_def)
      with 3(1) Some that show thesis by (auto split: if_splits)
    qed (use pre ins None that(1) in \<open>simp_all add: run_simps\<close>)
  qed
qed

text \<open>
  C24: Submissions one at a time never promise more than there is. If the available balance is not
  negative before \<open>create\<close>, it is not negative after, whatever the outcome (idempotent hit, invalid
  amount, refusal, rejection, approval, a failed insert).
\<close>

theorem submission_never_oversells:
  assumes "quiet e" "exact_available (lib e) (db w)" "distinct (map sid (settlements (db w)))"
    and "\<And>a. newDecimal (lib e) (d_amount dto) = Some a \<Longrightarrow> micro a"
    and "0 \<le> available_of (db w)"
  shows "0 \<le> available_of (db (snd (create provider dto e w)))"
proof -
  from create_available [OF assms(1-4), where provider = provider] show ?thesis
    using assms(5) by fastforce
qed

lemma submission_never_oversells_witness:
  "0 \<le> available_of (db (snd (create (compliance_check demo_lib) demo_dto calm_env w_sent)))"
proof -
  have "0 \<le> available_of db_sent"
    by (simp add: available_of_def operator_balance_def opening_of_def genesis_entry_def bookings_def
        sum_in_def by_statuses_def sum_of_def IN_FLIGHT_STATUSES_def db_stages)
  moreover have "ledger_wf db_sent" by (rule inv_ledger) simp
  moreover have "micro 40" using micro_of_int [of 40000000] by simp
  ultimately show ?thesis
    using submission_never_oversells [of calm_env w_sent demo_dto]
    by (simp add: db_stages demo_dto_def)
qed

definition race_dto :: "string \<Rightarrow> create_dto" where
  "race_dto i = \<lparr>d_instructionId = i, d_toAddress = ''a'', d_amount = ''60''\<rparr>"

lemma race_dto_sel [simp]:
  "d_instructionId (race_dto i) = i" "d_toAddress (race_dto i) = ''a''" "d_amount (race_dto i) = ''60''"
  by (simp_all add: race_dto_def)

definition race_env :: "env" where
  "race_env = calm_env\<lparr>others := (\<lambda>n u. if n = 20
     then snd (create (compliance_check demo_lib) (race_dto ''j'') calm_env u) else u)\<rparr>"

definition db_raced :: database where
  "db_raced = db_open\<lparr>settlements := settlements db_open @
       [\<lparr>sid = ''t'', instructionId = ''j'', toAddress = ''a'', amount = 60, status = COMPLIANCE_APPROVED,
         txHash = None, nonce = None, failureReason = None, retryCount = 0, confirmedBlockHash = None,
         confirmedBlockNumber = None, createdAt = 31, updatedAt = 34\<rparr>],
     statusTransitions := [\<lparr>st_settlementId = ''t'', fromStatus = RECEIVED, toStatus = COMPLIANCE_APPROVED,
       st_txHash = None, st_createdAt = 34\<rparr>]\<rparr>"

lemmas create_simps = create_def newDecimal_io_def availableBalance_def sumByStatuses_def sum_in_def
  IN_FLIGHT_STATUSES_def insert_received_def screen_def compliance_check_def blocklist_def enqueue_def
  enqueueId_def updateQueueDepth_def

lemma race_inner:
  "snd (create (compliance_check demo_lib) (race_dto ''j'') calm_env (w_open\<lparr>tick := 20\<rparr>)) =
     w_open\<lparr>db := db_raced, queue := [''t''], spawned := [RunWorker],
       metrics := fresh_metrics\<lparr>m_queueDepth := 1\<rparr>, tick := 35\<rparr>"
  by (simp add: w_open_def boot_world_def db_raced_def db_open_def create_simps Let_def
      demo_simps state_simps ledger_simps)

lemma race_env_sel [simp]:
  "lib race_env = demo_lib" "now race_env n = int n" "uuid race_env n = demo_uuid n"
  "dbErr race_env n = None"
  by (simp_all add: race_env_def demo_env_def)

lemma race_yield:
  "yield race_env u = (if tick u = 20
     then (Inr (), (snd (create (compliance_check demo_lib) (race_dto ''j'') calm_env u))\<lparr>tick := 21\<rparr>)
     else (Inr (), u\<lparr>tick := Suc (tick u)\<rparr>))"
  by (simp add: yield_def race_env_def demo_env_def)

lemma race_db_tx:
  "tick u \<noteq> 20 \<Longrightarrow> tick u \<noteq> 19 \<Longrightarrow> db_tx f race_env u = (case f race_env (Suc (tick u)) (db u) of
     Inl x \<Rightarrow> (Inl x, u\<lparr>tick := Suc (tick u)\<rparr>)
   | Inr (a, d) \<Rightarrow> (Inr a, u\<lparr>db := d, tick := Suc (Suc (tick u))\<rparr>))"
  by (simp add: db_tx_def run_simps run_tx_def race_yield split: sum.split prod.split)

text \<open>
  Overlapping submissions can promise more than there is. The balance check and the insert are
  not one transaction: with 100 available, a submission of 60 that runs while another of 60 waits for
  its insert is approved too, and the available balance ends at minus 20.
\<close>

theorem overlapping_submissions_oversell:
  "available_of db_open = 100 \<and>
   (let v = snd (create (compliance_check demo_lib) (race_dto ''i'') race_env (w_open\<lparr>tick := 10\<rparr>)) in
     map status (settlements (db v)) = [FINAL, COMPLIANCE_APPROVED, COMPLIANCE_APPROVED] \<and>
     length (queue v) = 2 \<and> available_of (db v) = -20)"
proof -
  let ?k = "\<lambda>inserted. case inserted of Inl raced \<Rightarrow> ret \<lparr>cr_settlement = raced, cr_created = False\<rparr>
    | Inr s \<Rightarrow> screen (compliance_check demo_lib) (race_dto ''i'') s"
  have pre: "create (compliance_check demo_lib) (race_dto ''i'') race_env (w_open\<lparr>tick := 10\<rparr>) =
    await (insert_received (race_dto ''i'') 60) ?k race_env (w_open\<lparr>tick := 20\<rparr>)"
    by (simp add: w_open_def boot_world_def db_open_def create_def newDecimal_io_def
      availableBalance_def sumByStatuses_def sum_in_def
      IN_FLIGHT_STATUSES_def run_simps race_db_tx db_read_def findByInstructionId_def
      by_instruction_def by_statuses_def ledger_simps)
  let ?d = "db_raced\<lparr>settlements := settlements db_raced @ [received_row race_env 21 (race_dto ''i'') 60]\<rparr>"
  let ?w = "w_open\<lparr>db := ?d, queue := [''t''], spawned := [RunWorker],
       metrics := fresh_metrics\<lparr>m_queueDepth := 1\<rparr>, tick := 22\<rparr>"
  have ins: "insert_received (race_dto ''i'') 60 race_env (w_open\<lparr>tick := 20\<rparr>) =
    (Inr (Inr (received_row race_env 21 (race_dto ''i'') 60)), ?w)"
    by (simp add: insert_received_def state_create_def db_tx_def run_simps race_yield race_inner run_tx_def)
       (simp add: create_tx_def db_raced_def db_open_def GENESIS_INSTRUCTION_ID_def demo_uuid_def
          received_row_def Let_def w_open_def boot_world_def run_simps race_yield)
  have "snd (create (compliance_check demo_lib) (race_dto ''i'') race_env (w_open\<lparr>tick := 10\<rparr>)) =
    snd (screen (compliance_check demo_lib) (race_dto ''i'') (received_row race_env 21 (race_dto ''i'') 60) race_env ?w)"
    by (simp add: pre run_simps ins)
  moreover have "available_of db_open = 100"
    by (simp add: available_of_def operator_balance_def bookings_def sum_in_def IN_FLIGHT_STATUSES_def
        by_statuses_def ledger_simps db_open_def)
  ultimately show ?thesis
    by (simp add: received_row_def screen_def compliance_check_def blocklist_def run_simps race_yield race_db_tx
        enqueue_def enqueueId_def updateQueueDepth_def Let_def state_simps db_raced_def db_open_def demo_uuid_def)
       (simp add: available_of_def operator_balance_def bookings_def sum_in_def IN_FLIGHT_STATUSES_def
        by_statuses_def ledger_simps w_open_def boot_world_def)
qed

end
