(* ===== verification/RelayerSpec.thy ===== *)
theory RelayerSpec
  imports Relayer
begin

text \<open>
  The relayer evaluated step by step when nothing interferes, and what a job sends in any
  environment.
\<close>

section \<open>What a job sends\<close>

text \<open>The other tasks send nothing while the job waits (one worker, one mutex).\<close>

definition sends_alone :: "env \<Rightarrow> bool" where
  "sends_alone e \<longleftrightarrow> (\<forall>n w. broadcastLog (others e n w) = broadcastLog w)"

text \<open>The calls a step adds to the log are at most \<open>k\<close> and all satisfy \<open>Q\<close>.\<close>

definition logs :: "env \<Rightarrow> nat \<Rightarrow> (tx_request \<Rightarrow> bool) \<Rightarrow> 'a io \<Rightarrow> bool" where
  "logs e k Q m \<longleftrightarrow> (\<forall>w. \<exists>es. broadcastLog (snd (m e w)) = broadcastLog w @ es \<and> length es \<le> k \<and>
     (\<forall>p \<in> set es. Q (fst p)))"

lemma logs_none: "(\<And>w. broadcastLog (snd (m e w)) = broadcastLog w) \<Longrightarrow> logs e k Q m"
  by (simp add: logs_def)

lemma logs_await:
  assumes "logs e j Q m" "\<And>x. logs e k Q (f x)"
  shows "logs e (j + k) Q (await m f)"
  unfolding logs_def
proof
  fix w :: world
  obtain r v where m: "m e w = (r, v)" by force
  from assms(1) m obtain es where es: "broadcastLog v = broadcastLog w @ es" "length es \<le> j"
    "\<forall>p \<in> set es. Q (fst p)" unfolding logs_def by (metis snd_conv)
  show "\<exists>es. broadcastLog (snd (await m f e w)) = broadcastLog w @ es \<and> length es \<le> j + k \<and>
      (\<forall>p \<in> set es. Q (fst p))"
  proof (cases r)
    case (Inl x)
    with m es show ?thesis by (auto simp: run_simps)
  next
    case (Inr x)
    from assms(2) [of x] obtain fs where "broadcastLog (snd (f x e v)) = broadcastLog v @ fs"
      "length fs \<le> k" "\<forall>p \<in> set fs. Q (fst p)" unfolding logs_def by metis
    with m Inr es show ?thesis by (intro exI [of _ "es @ fs"]) (auto simp: run_simps)
  qed
qed

lemma logs_tryCatch:
  assumes "logs e j Q m" "\<And>x. logs e k Q (h x)"
  shows "logs e (j + k) Q (tryCatch m h)"
  unfolding logs_def
proof
  fix w :: world
  obtain r v where m: "m e w = (r, v)" by force
  from assms(1) m obtain es where es: "broadcastLog v = broadcastLog w @ es" "length es \<le> j"
    "\<forall>p \<in> set es. Q (fst p)" unfolding logs_def by (metis snd_conv)
  show "\<exists>es. broadcastLog (snd (tryCatch m h e w)) = broadcastLog w @ es \<and> length es \<le> j + k \<and>
      (\<forall>p \<in> set es. Q (fst p))"
  proof (cases "\<exists>x. r = Inl x \<and> x \<noteq> Crash")
    case False
    with m es show ?thesis by (cases r) (auto simp: run_simps)
  next
    case True
    then obtain x where x: "r = Inl x" "x \<noteq> Crash" by blast
    from assms(2) [of x] obtain fs where "broadcastLog (snd (h x e v)) = broadcastLog v @ fs"
      "length fs \<le> k" "\<forall>p \<in> set fs. Q (fst p)" unfolding logs_def by metis
    with m x es show ?thesis by (intro exI [of _ "es @ fs"]) (auto simp: run_simps)
  qed
qed

lemma logs_andThen: "logs e j Q m \<Longrightarrow> logs e k Q n \<Longrightarrow> logs e (j + k) Q (andThen m n)"
  unfolding andThen_def by (rule logs_await)

lemma logs_mono: "logs e j Q m \<Longrightarrow> j \<le> k \<Longrightarrow> logs e k Q m"
  unfolding logs_def by (meson order_trans)

lemma logs_silent:
  "logs e 0 Q (ret x)" "logs e 0 Q (gets f)" "logs e 0 Q (throw y)"
  "(\<And>w. broadcastLog (g w) = broadcastLog w) \<Longrightarrow> logs e 0 Q (modify g)"
  by (auto intro: logs_none simp: run_simps)

text \<open>Steps that send nothing, one after the other.\<close>

lemmas logs_seq0 = logs_await [where j = 0 and k = 0, simplified] logs_andThen [where j = 0 and k = 0, simplified]

lemma logs_yield: "sends_alone e \<Longrightarrow> logs e 0 Q yield"
  by (rule logs_none) (simp add: yield_def sends_alone_def)

lemma logs_rpc: "sends_alone e \<Longrightarrow> logs e 0 Q (rpc_call f)"
  unfolding rpc_call_def by (intro logs_seq0 logs_yield logs_silent logs_none) simp_all

lemma logs_db_tx: "sends_alone e \<Longrightarrow> logs e 0 Q (db_tx f)"
  unfolding db_tx_def
  by (intro logs_seq0 logs_yield logs_silent logs_none)
     (auto simp: run_tx_def split: option.split sum.split)

lemma logs_transfer: "sends_alone e \<Longrightarrow> Q rq \<Longrightarrow> logs e 1 Q (usdc_transfer rq)"
proof -
  assume a: "sends_alone e" "Q rq"
  have call: "logs e 1 Q (\<lambda>e w. case rpc_transfer (rpc e (tick w)) rq of
       Inl x \<Rightarrow> (Inl x, w\<lparr>broadcastLog := broadcastLog w @ [(rq, None)]\<rparr>)
     | Inr h \<Rightarrow> (Inr h, w\<lparr>broadcastLog := broadcastLog w @ [(rq, Some h)]\<rparr>))"
    using a(2) by (auto simp: logs_def split: sum.split)
  have "logs e (0 + (1 + (0 + 0))) Q (usdc_transfer rq)"
    unfolding usdc_transfer_def using a
    by (intro logs_andThen logs_await logs_yield logs_silent call)
  then show ?thesis by simp
qed

lemma logs_broadcast:
  assumes "sends_alone e" "Q (request_of to units n g f)"
  shows "logs e 1 Q (broadcast to units n g f)"
proof -
  have "logs e (0 + (1 + (0 + 0))) Q (broadcast to units n g f)"
    unfolding broadcast_def runExclusive_def using assms
    by (intro logs_andThen logs_await logs_yield logs_transfer logs_silent) simp_all
  then show ?thesis by simp
qed

lemma logs_track: "logs e 0 Q (track i n g f k)"
  unfolding track_def by (intro logs_seq0 logs_silent) simp

lemma logs_fail: "sends_alone e \<Longrightarrow> logs e 0 Q (fail i why n)"
  unfolding fail_def transition_def
  by (intro logs_seq0 logs_silent logs_db_tx) (simp_all add: forget_def)

lemma logs_send_once:
  assumes "sends_alone e" "Q (request_of (toAddress s) units n g f)"
  shows "logs e 1 Q (send_once s isResume units g n f k)"
proof -
  have "logs e (1 + (0 + (0 + (0 + 0)))) Q (send_once s isResume units g n f k)"
    unfolding send_once_def transition_def using assms
    by (intro logs_andThen logs_await logs_broadcast logs_track logs_db_tx logs_silent) simp_all
  then show ?thesis by simp
qed

lemma logs_resync: "sends_alone e \<Longrightarrow> logs e 0 Q (resync needed isResume n)"
  unfolding resync_def
  by (auto intro!: logs_seq0 logs_silent logs_rpc)

lemma resync_nonce: "fst (resync needed isResume n e w) = Inr n' \<Longrightarrow> isResume \<or> \<not> needed \<Longrightarrow> n' = n"
  by (auto simp: resync_def run_simps split: if_splits sum.splits prod.splits)

text \<open>
  The loop makes at most one call more than it has retries left, each with the recipient, the units and
  the gas limit of the job; a resumed job never uses another nonce than its own.
\<close>

lemma logs_sendLoop:
  assumes "sends_alone e"
  shows "logs e (Suc (maxR - k)) (\<lambda>rq. rq_to rq = toAddress s \<and> rq_units rq = units \<and> rq_gasLimit rq = g \<and>
      (isResume \<longrightarrow> rq_nonce rq = n)) (sendLoop s isResume units g maxR attempt n f k)"
proof (induction "Suc maxR - k" arbitrary: attempt n f k rule: less_induct)
  case less
  let ?Q = "\<lambda>n rq. rq_to rq = toAddress s \<and> rq_units rq = units \<and> rq_gasLimit rq = g \<and>
      (isResume \<longrightarrow> rq_nonce rq = n)"
  have once: "logs e 1 (?Q n) (send_once s isResume units g n f k)"
    by (rule logs_send_once [OF assms]) (simp add: request_of_def)
  have retry: "logs e (maxR - k) (?Q n) (await (resync needed isResume n) (\<lambda>n'.
      andThen (sleep ms) (sendLoop s isResume units g maxR (attempt + 1) n' f' (k + 1))))"
    if "\<not> maxR < k + 1" for needed f' ms
    unfolding logs_def
  proof
    fix w :: world
    have slp: "logs e 0 (?Q n) (sleep ms)" for n
      unfolding sleep_def using assms by (intro logs_seq0 logs_silent logs_yield) simp
    have "logs e (Suc (maxR - (k + 1))) (?Q n') (sendLoop s isResume units g maxR (attempt + 1) n' f' (k + 1))"
      for n' using that by (intro less) simp
    with that have loop: "logs e (maxR - k) (?Q n') (sendLoop s isResume units g maxR (attempt + 1) n' f' (k + 1))"
      for n' by (simp add: Suc_diff_Suc)
    have body: "logs e (maxR - k) (?Q n') (andThen (sleep ms)
        (sendLoop s isResume units g maxR (attempt + 1) n' f' (k + 1)))" for n'
      using logs_andThen [OF slp loop, of n'] by simp
    obtain r v where m: "resync needed isResume n e w = (r, v)" by force
    with logs_resync [OF assms, of "?Q n" needed isResume n] have v: "broadcastLog v = broadcastLog w"
      unfolding logs_def by (metis append_Nil2 le_zero_eq length_0_conv snd_conv)
    show "\<exists>es. broadcastLog (snd (await (resync needed isResume n) (\<lambda>n'. andThen (sleep ms)
          (sendLoop s isResume units g maxR (attempt + 1) n' f' (k + 1))) e w)) = broadcastLog w @ es \<and>
        length es \<le> maxR - k \<and> (\<forall>p \<in> set es. ?Q n (fst p))"
    proof (cases r)
      case (Inl x)
      with m v show ?thesis by (simp add: run_simps)
    next
      case (Inr n')
      have "isResume \<Longrightarrow> n' = n" using resync_nonce [of needed isResume n e w n'] m Inr by simp
      with body [of n', unfolded logs_def, THEN spec, of v] m Inr v show ?thesis
        by (auto simp: run_simps)
    qed
  qed
  have handler: "logs e (maxR - k) (?Q n) (let cls = classifyTxError err in
       if \<not> retryable cls then fail (sid s) (reason cls) k
       else if maxR < k + 1 then fail (sid s) (''MAX_RETRIES_EXCEEDED:'' @ reason cls) (k + 1)
       else await (resync (resyncNonce cls) isResume n) (\<lambda>n'.
         let f' = (if reason cls = ''UNDERPRICED'' then bumpFees f else f) in
         andThen (sleep (backoffMs attempt))
           (sendLoop s isResume units g maxR (attempt + 1) n' f' (k + 1))))" for err
    unfolding Let_def using retry logs_mono [OF logs_fail [OF assms]] by auto
  show ?case
    using logs_tryCatch [OF once handler] by (subst sendLoop.simps) simp
qed

section \<open>A job without interference\<close>

lemma quiet_transition:
  "quiet e \<Longrightarrow> transition i to opts e w =
    (case transition_tx (decToString (lib e)) (now e (Suc (tick w))) (uuid e (Suc (tick w))) i to opts (db w) of
       Inl x \<Rightarrow> (Inl x, w\<lparr>tick := Suc (tick w)\<rparr>)
     | Inr (a, d) \<Rightarrow> (Inr a, w\<lparr>db := d, tick := Suc (Suc (tick w))\<rparr>))"
  by (simp add: transition_def quiet_db_tx)

lemma quiet_broadcast:
  "quiet e \<Longrightarrow> broadcast to units n g f e w =
    (case rpc_transfer (rpc e (Suc (Suc (tick w)))) (request_of to units n g f) of
       Inl x \<Rightarrow> (Inl x, w\<lparr>broadcastLog := broadcastLog w @ [(request_of to units n g f, None)],
         tick := Suc (Suc (tick w))\<rparr>)
     | Inr h \<Rightarrow> (Inr h, w\<lparr>broadcastLog := broadcastLog w @ [(request_of to units n g f, Some h)],
         metrics := (metrics w)\<lparr>m_broadcasts := Suc (m_broadcasts (metrics w))\<rparr>,
         tick := Suc (Suc (Suc (tick w)))\<rparr>))"
  by (simp add: broadcast_def runExclusive_def usdc_transfer_def run_simps quiet_yield split: sum.split)

text \<open>Event keys that are still to be drawn are new.\<close>

definition fresh_ids :: "env \<Rightarrow> world \<Rightarrow> bool" where
  "fresh_ids e w \<longleftrightarrow> (\<forall>k \<ge> tick w. uuid e k \<notin> set (map ob_id (outboxEvents (db w))))"

definition sent_opts :: "string \<Rightarrow> nat \<Rightarrow> nat \<Rightarrow> transition_options" where
  "sent_opts h n k = no_opts\<lparr>o_txHash := Some (Some h), o_nonce := Some (Some n), o_retryCount := Some k\<rparr>"

definition failed_opts :: "string \<Rightarrow> nat \<Rightarrow> transition_options" where
  "failed_opts why k = no_opts\<lparr>o_failureReason := Some (Some why), o_retryCount := Some k\<rparr>"

text \<open>The world after an accepted call.\<close>

definition after_send :: "env \<Rightarrow> settlement \<Rightarrow> settlement \<Rightarrow> bool \<Rightarrow> int \<Rightarrow> int \<Rightarrow> nat \<Rightarrow> fees \<Rightarrow> nat \<Rightarrow> string
    \<Rightarrow> world \<Rightarrow> world" where
  "after_send e s cur isResume units g n f k h w = w\<lparr>
     broadcastLog := broadcastLog w @ [(request_of (toAddress s) units n g f, Some h)],
     metrics := (metrics w)\<lparr>m_broadcasts := Suc (m_broadcasts (metrics w))\<rparr>,
     localNonce := (if \<not> isResume \<and> n = localNonce w then Suc (localNonce w) else localNonce w),
     inflight := AList.update (sid s) \<lparr>if_settlementId = sid s, if_nonce = n, if_gasLimit = g,
        if_maxFeePerGas = maxFeePerGas f, if_maxPriorityFeePerGas = maxPriorityFeePerGas f,
        if_lastSubmittedAt = now e (Suc (Suc (Suc (tick w)))), if_attempts = k\<rparr> (inflight w),
     db := write_transition (decToString (lib e)) (now e (tick w + 4)) (uuid e (tick w + 4)) SUBMITTED
        (sent_opts h n k) cur (db w),
     tick := tick w + 5\<rparr>"

lemma quiet_send_once:
  assumes "quiet e" "row (db w) (sid s) = Some cur" "fresh_ids e w"
  shows "send_once s isResume units g n f k e w =
    (case rpc_transfer (rpc e (Suc (Suc (tick w)))) (request_of (toAddress s) units n g f) of
       Inl x \<Rightarrow> (Inl x, w\<lparr>broadcastLog := broadcastLog w @ [(request_of (toAddress s) units n g f, None)],
         tick := Suc (Suc (tick w))\<rparr>)
     | Inr h \<Rightarrow> (Inr (), after_send e s cur isResume units g n f k h w))"
proof -
  have "uuid e (Suc (Suc (Suc (Suc (tick w))))) \<notin> set (map ob_id (outboxEvents (db w)))"
    using assms(3) by (simp add: fresh_ids_def)
  then have "transition_tx str t (uuid e (Suc (Suc (Suc (Suc (tick w)))))) (sid s) SUBMITTED opts (db w) =
      Inr (Some (apply_opts t SUBMITTED opts cur),
        write_transition str t (uuid e (Suc (Suc (Suc (Suc (tick w)))))) SUBMITTED opts cur (db w))"
    if "expectedFrom opts = None" for str t opts
    using that assms(2) by (intro transition_tx_ok) simp_all
  with assms(1) show ?thesis
    by (simp add: send_once_def quiet_broadcast track_def quiet_transition run_simps after_send_def
        sent_opts_def eval_nat_numeral split: sum.split)
qed

lemma quiet_fail:
  assumes "quiet e" "row (db w) i = Some cur" "fresh_ids e w"
  shows "fail i why k e w = (Inr (), w\<lparr>inflight := AList.delete i (inflight w),
     db := write_transition (decToString (lib e)) (now e (Suc (tick w))) (uuid e (Suc (tick w))) FAILED
        (failed_opts why k) cur (db w), tick := tick w + 2\<rparr>)"
proof -
  have "uuid e (Suc (tick w)) \<notin> set (map ob_id (outboxEvents (db w)))"
    using assms(3) by (auto simp: fresh_ids_def)
  then have "transition_tx str t (uuid e (Suc (tick w))) i FAILED opts (db w) =
      Inr (Some (apply_opts t FAILED opts cur),
        write_transition str t (uuid e (Suc (tick w))) FAILED opts cur (db w))"
    if "expectedFrom opts = None" for str t opts
    using that assms(2) by (intro transition_tx_ok) simp_all
  with assms(1) show ?thesis
    by (simp add: fail_def quiet_transition run_simps forget_def failed_opts_def)
qed

lemma quiet_sleep: "quiet e \<Longrightarrow> sleep ms e w = (Inr (), w\<lparr>sleeps := sleeps w @ [ms], tick := Suc (tick w)\<rparr>)"
  by (simp add: sleep_def run_simps quiet_yield)

text \<open>
  The verdict on a job: the calls it made, all refused but the last, the delays between them, and the
  row it leaves.
\<close>

definition decided :: "nat \<Rightarrow> string \<Rightarrow> world \<Rightarrow> (tx_request \<times> string option) list \<Rightarrow> world \<Rightarrow> bool" where
  "decided attempt i w es v \<longleftrightarrow> broadcastLog v = broadcastLog w @ es \<and> es \<noteq> [] \<and>
     sleeps v = sleeps w @ map backoffMs [attempt ..< attempt + length es - 1] \<and>
     (\<forall>p \<in> set (butlast es). snd p = None) \<and>
     (\<forall>j. j \<noteq> i \<longrightarrow> row (db v) j = row (db w) j) \<and> ledgerEntries (db v) = ledgerEntries (db w) \<and>
     (\<exists>r. row (db v) i = Some r \<and> (case snd (last es) of
        Some h \<Rightarrow> status r = SUBMITTED \<and> txHash r = Some h \<and> nonce r = Some (rq_nonce (fst (last es)))
      | None \<Rightarrow> status r = FAILED \<and> failureReason r \<noteq> None))"

lemma decided_cons:
  assumes "decided (Suc attempt) i u es v" "broadcastLog u = broadcastLog w @ [(rq, None)]" "db u = db w"
    and "sleeps u = sleeps w @ [backoffMs attempt]"
  shows "decided attempt i w ((rq, None) # es) v"
proof -
  from assms(1) have "es \<noteq> []" by (simp add: decided_def)
  then have "[attempt ..< attempt + length es] = attempt # [Suc attempt ..< Suc attempt + length es - 1]"
    by (simp add: upt_conv_Cons)
  with assms show ?thesis by (auto simp: decided_def split: option.splits)
qed

lemma decided_failed:
  assumes "row (db w) i = Some cur"
  shows "decided attempt i w [(rq, None)] (w\<lparr>broadcastLog := broadcastLog w @ [(rq, None)], inflight := m,
     db := write_transition str t ev FAILED (failed_opts why k) cur (db w), tick := n\<rparr>)"
proof -
  from assms have "sid cur = i" by (auto dest: row_SomeD)
  with assms show ?thesis by (simp add: decided_def failed_opts_def apply_opts_def)
qed

lemma decided_sent:
  assumes "row (db w) (sid s) = Some cur"
  shows "decided attempt (sid s) w [(request_of (toAddress s) units n g f, Some h)]
    (after_send e s cur isResume units g n f k h w)"
proof -
  from assms have "sid cur = sid s" by (auto dest: row_SomeD)
  with assms show ?thesis
    by (simp add: decided_def after_send_def sent_opts_def apply_opts_def request_of_def)
qed

text \<open>
  The node always answers the nonce query, and refuses a call with an error. The death of the process
  is no answer of the node.
\<close>

definition node_up :: "env \<Rightarrow> bool" where
  "node_up e \<longleftrightarrow> (\<forall>k. (\<exists>m. getTransactionCount (rpc e k) = Inr m) \<and>
     (\<forall>rq. rpc_transfer (rpc e k) rq \<noteq> Inl Crash))"

lemma quiet_resync:
  assumes "quiet e" "node_up e"
  shows "\<exists>n' v. resync needed isResume n e w = (Inr n', v) \<and> db v = db w \<and> tick w \<le> tick v \<and>
    broadcastLog v = broadcastLog w \<and> sleeps v = sleeps w"
proof -
  from assms(2) obtain m where "getTransactionCount (rpc e (Suc (tick w))) = Inr m"
    by (auto simp: node_up_def)
  with assms(1) show ?thesis by (simp add: resync_def run_simps quiet_rpc_call)
qed

lemma fresh_later: "fresh_ids e w \<Longrightarrow> db v = db w \<Longrightarrow> tick w \<le> tick v \<Longrightarrow> fresh_ids e v"
  by (auto simp: fresh_ids_def)

lemma sendLoop_decided:
  assumes q: "quiet e" and up: "node_up e" and "row (db w) (sid s) = Some cur" "fresh_ids e w"
  shows "\<exists>es v. sendLoop s isResume units g maxR attempt n f k e w = (Inr (), v) \<and>
    decided attempt (sid s) w es v"
  using assms(3,4)
proof (induction "Suc maxR - k" arbitrary: attempt n f k w rule: less_induct)
  case less
  let ?rq = "request_of (toAddress s) units n g f"
  note once = quiet_send_once [OF q less.prems, of isResume units g n f k]
  show ?case
  proof (cases "rpc_transfer (rpc e (Suc (Suc (tick w)))) ?rq")
    case (Inr h)
    with once have "sendLoop s isResume units g maxR attempt n f k e w =
        (Inr (), after_send e s cur isResume units g n f k h w)"
      by (subst sendLoop.simps) (simp add: run_simps)
    with decided_sent [OF less.prems(1)] show ?thesis by blast
  next
    case (Inl x)
    let ?w = "w\<lparr>broadcastLog := broadcastLog w @ [(?rq, None)], tick := Suc (Suc (tick w))\<rparr>"
    let ?cls = "classifyTxError x"
    from Inl up have x: "x \<noteq> Crash" by (auto simp: node_up_def)
    have row: "row (db ?w) (sid s) = Some cur" and fresh: "fresh_ids e ?w"
      using less.prems by (simp_all add: fresh_later [of e w ?w])
    have step: "sendLoop s isResume units g maxR attempt n f k e w =
      (if \<not> retryable ?cls then fail (sid s) (reason ?cls) k e ?w
       else if maxR < k + 1 then fail (sid s) (''MAX_RETRIES_EXCEEDED:'' @ reason ?cls) (k + 1) e ?w
       else await (resync (resyncNonce ?cls) isResume n) (\<lambda>n'.
         andThen (sleep (backoffMs attempt))
           (sendLoop s isResume units g maxR (attempt + 1) n'
             (if reason ?cls = ''UNDERPRICED'' then bumpFees f else f) (k + 1))) e ?w)"
      using once Inl x by (subst sendLoop.simps) (simp add: run_simps Let_def)
    show ?thesis
    proof (cases "\<not> retryable ?cls \<or> maxR < k + 1")
      case True
      then obtain why k' where "sendLoop s isResume units g maxR attempt n f k e w = fail (sid s) why k' e ?w"
        using step by metis
      with quiet_fail [OF q row fresh, of why k'] less.prems(1) show ?thesis
        by (auto intro!: exI [of _ "[(?rq, None)]"] decided_failed)
    next
      case False
      obtain n' v where rs: "resync (resyncNonce ?cls) isResume n e ?w = (Inr n', v)" "db v = db ?w"
          "tick ?w \<le> tick v" "broadcastLog v = broadcastLog ?w" "sleeps v = sleeps ?w"
        using quiet_resync [OF q up, of "resyncNonce ?cls" isResume n ?w] by blast
      let ?v = "v\<lparr>sleeps := sleeps v @ [backoffMs attempt], tick := Suc (tick v)\<rparr>"
      let ?f = "if reason ?cls = ''UNDERPRICED'' then bumpFees f else f"
      have v: "row (db ?v) (sid s) = Some cur" "fresh_ids e ?v"
        using rs(2,3) row fresh_later [OF fresh, of ?v] by simp_all
      from False have "Suc maxR - (k + 1) < Suc maxR - k" by linarith
      from less.hyps [OF this v] obtain es u where
        "sendLoop s isResume units g maxR (attempt + 1) n' ?f (k + 1) e ?v = (Inr (), u)"
        "decided (attempt + 1) (sid s) ?v es u" by blast
      with step False rs decided_cons [of attempt "sid s" ?v es u w ?rq] show ?thesis
        by (auto simp: run_simps quiet_sleep [OF q])
    qed
  qed
qed

section \<open>From the job to its loop\<close>

text \<open>What a job needs of the node and of the libraries before its first call.\<close>

definition node_serves :: "env \<Rightarrow> bool" where
  "node_serves e \<longleftrightarrow> (\<forall>a k. \<exists>u. parseUnits (lib e) (decToString (lib e) a) k = Inr u) \<and>
     (\<exists>u. parseUnits (lib e) ''1'' 9 = Inr u) \<and>
     (\<forall>k. (\<exists>fd. getFeeData (rpc e k) = Inr fd) \<and> (\<forall>a u. rpc_estimateGas (rpc e k) a u \<noteq> Inl Crash))"

lemma serves_estimate:
  assumes "quiet e" "node_serves e"
  shows "\<exists>g t. estimateGas a units e w = (Inr g, w\<lparr>tick := t\<rparr>) \<and> tick w \<le> t"
proof (cases "rpc_estimateGas (rpc e (Suc (tick w))) a units")
  case (Inl x)
  with assms(2) have "x \<noteq> Crash" by (auto simp: node_serves_def)
  with Inl assms(1) show ?thesis by (auto simp: estimateGas_def run_simps quiet_rpc_call)
next
  case (Inr g)
  with assms(1) show ?thesis by (auto simp: estimateGas_def run_simps quiet_rpc_call)
qed

lemma serves_fees:
  assumes "quiet e" "node_serves e"
  shows "\<exists>f. buildFees e w = (Inr f, w\<lparr>tick := Suc (Suc (tick w))\<rparr>)"
proof -
  from assms(2) obtain fd u where fd: "getFeeData (rpc e (Suc (tick w))) = Inr fd"
    and "parseUnits (lib e) ''1'' 9 = Inr u" unfolding node_serves_def by metis
  with assms(1) show ?thesis
    by (cases "fd_maxPriorityFeePerGas fd")
       (simp_all add: buildFees_def one_gwei_def run_simps quiet_rpc_call)
qed

text \<open>The nonce a job starts with: the stored one when it resumes, else the next local one.\<close>

definition first_nonce :: "settlement \<Rightarrow> world \<Rightarrow> nat" where
  "first_nonce s w = (case (is_resume s, nonce s) of (True, Some n) \<Rightarrow> n | _ \<Rightarrow> localNonce w)"

lemma job_loop:
  assumes q: "quiet e" and up: "node_serves e" and row: "row (db w) i = Some s"
    and st: "status s = COMPLIANCE_APPROVED \<or> status s = SUBMITTED"
  shows "\<exists>units g f t. tick w \<le> t \<and> parseUnits (lib e) (decToString (lib e) (amount s)) (decimals w) = Inr units \<and>
    processJob i e w = sendLoop s (is_resume s) units g (maxRetries (cfg e)) 0
    (first_nonce s w) f (retryCount s) e (w\<lparr>tick := t\<rparr>)"
proof -
  let ?w0 = "w\<lparr>tick := Suc (Suc (tick w))\<rparr>"
  from up obtain units where u: "parseUnits (lib e) (decToString (lib e) (amount s)) (decimals w) = Inr units"
    unfolding node_serves_def by metis
  obtain g t where g: "estimateGas (toAddress s) units e ?w0 = (Inr g, ?w0\<lparr>tick := t\<rparr>)" "tick ?w0 \<le> t"
    using serves_estimate [OF q up, of "toAddress s" units ?w0] by blast
  obtain f where f: "buildFees e (w\<lparr>tick := t\<rparr>) = (Inr f, w\<lparr>tick := Suc (Suc t)\<rparr>)"
    using serves_fees [OF q up, of "w\<lparr>tick := t\<rparr>"] by auto
  have "processJob i e w = sendLoop s (is_resume s) units g (maxRetries (cfg e)) 0 (first_nonce s w) f
      (retryCount s) e (w\<lparr>tick := Suc (Suc t)\<rparr>)"
    using q row st u g f
    by (auto simp: processJob_def findById_def toBaseUnits_def run_simps quiet_db_read first_nonce_def
        split: bool.splits option.splits)
  with u g(2) show ?thesis by (intro exI [of _ units] exI [of _ g] exI [of _ f] exI [of _ "Suc (Suc t)"]) simp
qed

section \<open>The worker on a node that accepts every call\<close>

definition node_accepts :: "env \<Rightarrow> bool" where
  "node_accepts e \<longleftrightarrow> inj (uuid e) \<and> node_serves e \<and> (\<forall>k rq. \<exists>h. rpc_transfer (rpc e k) rq = Inr h)"

lemma outbox_write_submitted:
  "map ob_id (outboxEvents (write_transition str t ev SUBMITTED opts cur d)) = map ob_id (outboxEvents d) @ [ev]"
  by (simp add: write_transition_def Let_def)

lemma accepted_job:
  assumes q: "quiet e" and up: "node_accepts e" and row: "row (db w) i = Some s"
    and st: "status s = COMPLIANCE_APPROVED" and fresh: "fresh_ids e w"
  shows "\<exists>v rq h. processJob i e w = (Inr (), v) \<and> broadcastLog v = broadcastLog w @ [(rq, Some h)] \<and>
    rq_nonce rq = localNonce w \<and> rq_to rq = toAddress s \<and> localNonce v = Suc (localNonce w) \<and>
    queue v = queue w \<and> draining v = draining w \<and> (\<forall>j. j \<noteq> i \<longrightarrow> row (db v) j = row (db w) j) \<and>
    (\<exists>t. row (db v) i = Some (apply_opts t SUBMITTED (sent_opts h (localNonce w) (retryCount s)) s)) \<and>
    parseUnits (lib e) (decToString (lib e) (amount s)) (decimals w) = Inr (rq_units rq) \<and>
    polling v = polling w \<and> fresh_ids e v"
proof -
  from row have i: "sid s = i" by (auto dest: row_SomeD)
  from up have srv: "node_serves e" by (simp add: node_accepts_def)
  from st have nr: "is_resume s = False" "first_nonce s w = localNonce w"
    by (simp_all add: is_resume_def first_nonce_def)
  obtain units g f t where t: "tick w \<le> t" "parseUnits (lib e) (decToString (lib e) (amount s)) (decimals w) = Inr units"
    "processJob i e w = sendLoop s False units g (maxRetries (cfg e)) 0
      (localNonce w) f (retryCount s) e (w\<lparr>tick := t\<rparr>)"
    using job_loop [OF q srv row disjI1 [OF st]] nr by metis
  let ?w = "w\<lparr>tick := t\<rparr>"
  let ?rq = "request_of (toAddress s) units (localNonce w) g f"
  from up obtain h where h: "rpc_transfer (rpc e (Suc (Suc (tick ?w)))) ?rq = Inr h"
    unfolding node_accepts_def by metis
  let ?v = "after_send e s s False units g (localNonce w) f (retryCount s) h ?w"
  have fresh': "fresh_ids e ?w" using fresh t(1) by (auto simp: fresh_ids_def)
  have run: "processJob i e w = (Inr (), ?v)"
    unfolding t(3)
    using quiet_send_once [OF q, of ?w s s False units g "localNonce w" f "retryCount s"] row i fresh' h
    by (subst sendLoop.simps) (simp add: run_simps)
  have "decided 0 i ?w [(?rq, Some h)] ?v"
    using decided_sent [of ?w s s] row i by simp
  then have dec: "broadcastLog ?v = broadcastLog w @ [(?rq, Some h)]"
    "\<forall>j. j \<noteq> i \<longrightarrow> row (db ?v) j = row (db w) j"
    by (auto simp: decided_def request_of_def)
  have sent: "row (db ?v) i = Some (apply_opts (now e (t + 4)) SUBMITTED (sent_opts h (localNonce w) (retryCount s)) s)"
    using row i by (simp add: after_send_def row_write_transition)
  have "fresh_ids e ?v"
    unfolding fresh_ids_def
  proof (intro allI impI)
    fix k
    assume k: "tick ?v \<le> k"
    then have "uuid e k \<noteq> uuid e (t + 4)"
      using up by (auto simp: node_accepts_def after_send_def inj_eq)
    moreover have "uuid e k \<notin> set (map ob_id (outboxEvents (db w)))"
      using fresh' k by (auto simp: fresh_ids_def after_send_def)
    ultimately show "uuid e k \<notin> set (map ob_id (outboxEvents (db ?v)))"
      by (simp add: after_send_def outbox_write_submitted del: set_map)
  qed
  with run dec sent t(2) show ?thesis
    by (intro exI [of _ ?v] exI [of _ ?rq] exI [of _ h]) (auto simp: after_send_def request_of_def)
qed

lemma worker_fifo:
  assumes "quiet e" "node_accepts e" "queue w = ids" "\<not> draining w" "distinct ids" "fresh_ids e w"
    and "\<And>i. i \<in> set ids \<Longrightarrow> \<exists>s. row (db w) i = Some s \<and> status s = COMPLIANCE_APPROVED \<and> toAddress s = dest i"
  shows "\<exists>v es. workerLoop (Suc (length ids)) e w = (Inr True, v) \<and> queue v = [] \<and>
    broadcastLog v = broadcastLog w @ es \<and> (\<forall>p \<in> set es. snd p \<noteq> None) \<and>
    map (rq_nonce \<circ> fst) es = [localNonce w ..< localNonce w + length ids] \<and>
    map (rq_to \<circ> fst) es = map dest ids \<and> localNonce v = localNonce w + length ids \<and>
    (\<forall>i \<in> set ids. \<exists>r. row (db v) i = Some r \<and> status r = SUBMITTED) \<and>
    (\<forall>j. j \<notin> set ids \<longrightarrow> row (db v) j = row (db w) j)"
  using assms(3-)
proof (induction ids arbitrary: w)
  case Nil
  then show ?case by (simp add: run_simps)
next
  case (Cons i ids)
  from Cons.prems(5) obtain s where s: "row (db w) i = Some s" "status s = COMPLIANCE_APPROVED" "toAddress s = dest i"
    by auto
  let ?w = "w\<lparr>queue := ids\<rparr>"
  have "fresh_ids e ?w" using Cons.prems(4) by (simp add: fresh_ids_def)
  then obtain v rq h where job: "processJob i e ?w = (Inr (), v)" "broadcastLog v = broadcastLog w @ [(rq, Some h)]"
    "rq_nonce rq = localNonce w" "rq_to rq = dest i" "localNonce v = Suc (localNonce w)" "queue v = ids"
    "draining v = draining w" "\<forall>j. j \<noteq> i \<longrightarrow> row (db v) j = row (db w) j"
    "\<exists>r. row (db v) i = Some r \<and> status r = SUBMITTED" "fresh_ids e v"
    using accepted_job [OF assms(1,2), of ?w i s] s by (auto simp: apply_opts_def)
  let ?v = "updateQueueDepth v"
  have v: "queue ?v = ids" "\<not> draining ?v" "fresh_ids e ?v" "db ?v = db v" "localNonce ?v = localNonce v"
      "broadcastLog ?v = broadcastLog v"
    using job Cons.prems(2) by (simp_all add: updateQueueDepth_def fresh_ids_def)
  have ih: "\<exists>x es. workerLoop (Suc (length ids)) e ?v = (Inr True, x) \<and> queue x = [] \<and>
    broadcastLog x = broadcastLog ?v @ es \<and> (\<forall>p \<in> set es. snd p \<noteq> None) \<and>
    map (rq_nonce \<circ> fst) es = [localNonce ?v ..< localNonce ?v + length ids] \<and>
    map (rq_to \<circ> fst) es = map dest ids \<and> localNonce x = localNonce ?v + length ids \<and>
    (\<forall>i \<in> set ids. \<exists>r. row (db x) i = Some r \<and> status r = SUBMITTED) \<and>
    (\<forall>j. j \<notin> set ids \<longrightarrow> row (db x) j = row (db ?v) j)"
  proof (rule Cons.IH [OF v(1,2) _ v(3)])
    show "distinct ids" using Cons.prems(3) by simp
    fix j
    assume j: "j \<in> set ids"
    with Cons.prems(3) job(8) v(4) have "row (db ?v) j = row (db w) j" by auto
    with Cons.prems(5) [of j] j show "\<exists>s. row (db ?v) j = Some s \<and> status s = COMPLIANCE_APPROVED \<and> toAddress s = dest j" by simp
  qed
  then obtain x es where x: "workerLoop (Suc (length ids)) e ?v = (Inr True, x)" "queue x = []"
    "broadcastLog x = broadcastLog ?v @ es" "\<forall>p \<in> set es. snd p \<noteq> None"
    "map (rq_nonce \<circ> fst) es = [localNonce ?v ..< localNonce ?v + length ids]"
    "map (rq_to \<circ> fst) es = map dest ids" "localNonce x = localNonce ?v + length ids"
    "\<forall>i \<in> set ids. \<exists>r. row (db x) i = Some r \<and> status r = SUBMITTED"
    "\<forall>j. j \<notin> set ids \<longrightarrow> row (db x) j = row (db ?v) j" by blast
  have run: "workerLoop (Suc (length (i # ids))) e w = (Inr True, x)"
    using Cons.prems(1,2) job(1) x(1) by (simp add: run_simps)
  have nonces: "map (rq_nonce \<circ> fst) ((rq, Some h) # es) = [localNonce w ..< localNonce w + length (i # ids)]"
    using x(5) v(5) job(3,5) by (simp add: upt_conv_Cons del: upt_Suc)
  have dests: "map (rq_to \<circ> fst) ((rq, Some h) # es) = map dest (i # ids)" using x(6) job(4) by simp
  have log: "broadcastLog x = broadcastLog w @ (rq, Some h) # es" using x(3) v(6) job(2) by simp
  have here: "row (db x) i = row (db v) i" using x(9) v(4) Cons.prems(3) by simp
  have rows: "\<forall>j \<in> set (i # ids). \<exists>r. row (db x) j = Some r \<and> status r = SUBMITTED"
    using x(8) here job(9) by auto
  have rest: "\<forall>j. j \<notin> set (i # ids) \<longrightarrow> row (db x) j = row (db w) j"
    using x(9) v(4) job(8) by simp
  have count: "localNonce x = localNonce w + length (i # ids)" using x(7) v(5) job(5) by simp
  have sent: "\<forall>p \<in> set ((rq, Some h) # es). snd p \<noteq> None" using x(4) by simp
  show ?case
    by (intro exI [of _ x] exI [of _ "(rq, Some h) # es"] conjI) (fact run x(2) log sent nonces dests count rows rest)+
qed

end
