(* ===== verification/RelayerClaims.thy ===== *)
theory RelayerClaims
  imports RelayerSpec Safety
begin

text \<open>
  Properties of the relayer: what a job sends, that it always ends in a verdict, the nonces of the
  worker, the sweep, restart recovery, fees, back-off and error classes; and the situations in which
  a settlement is paid twice, lost or stuck.
\<close>

section \<open>Jobs\<close>

text \<open>The other tasks send nothing, leave the settlement's row alone and do not change the token.\<close>

definition leaves_job :: "string \<Rightarrow> env \<Rightarrow> bool" where
  "leaves_job i e \<longleftrightarrow> (\<forall>n v. broadcastLog (others e n v) = broadcastLog v \<and>
     row (db (others e n v)) i = row (db v) i \<and> decimals (others e n v) = decimals v)"

lemma leaves_sends: "leaves_job i e \<Longrightarrow> sends_alone e"
  by (simp add: leaves_job_def sends_alone_def)

lemma leaves_read:
  assumes "leaves_job i e"
  shows "\<exists>r v. findById i e w = (r, v) \<and> (r = Inr (row (db w) i) \<or> (\<exists>x. r = Inl x)) \<and>
    broadcastLog v = broadcastLog w \<and> decimals v = decimals w"
  using assms
  by (auto simp: findById_def db_read_def db_tx_def run_tx_def yield_def run_simps leaves_job_def
      split: option.split sum.split prod.split)

lemma logs_fees:
  assumes "sends_alone e"
  shows "logs e 0 Q buildFees"
  unfolding buildFees_def one_gwei_def
  by (intro logs_seq0 logs_rpc assms) (auto intro!: logs_seq0 logs_silent logs_none split: option.split sum.split)

text \<open>From the price of the call on, with the gas limit fixed.\<close>

lemma logs_priced:
  assumes "sends_alone e"
  shows "logs e (Suc (maxRetries (cfg e) - k)) (\<lambda>rq. rq_to rq = toAddress s \<and> rq_units rq = units \<and>
      rq_gasLimit rq = g \<and> (isResume \<longrightarrow> rq_nonce rq = n))
    (await buildFees (\<lambda>f. await (gets (\<lambda>e w. maxRetries (cfg e))) (\<lambda>maxR.
      sendLoop s isResume units g maxR 0 n f k)))"
proof -
  let ?Q = "\<lambda>rq. rq_to rq = toAddress s \<and> rq_units rq = units \<and> rq_gasLimit rq = g \<and> (isResume \<longrightarrow> rq_nonce rq = n)"
  have "logs e (Suc (maxRetries (cfg e) - k)) ?Q (await (gets (\<lambda>e w. maxRetries (cfg e))) (\<lambda>maxR.
      sendLoop s isResume units g maxR 0 n f k))" for f
    using logs_sendLoop [OF assms, of "maxRetries (cfg e)" k s units g isResume n 0 f]
    by (simp add: logs_def run_simps)
  from logs_await [OF logs_fees [OF assms] this] show ?thesis by simp
qed

text \<open>
  C28: A job's calls are bounded and all the same payment. In any environment whose other tasks send
  nothing and leave the settlement's row and the decimals of the token alone, with any refusals, outages, resyncs and crashes, a job
  makes at most one call more than the retries its settlement has left, and none when it is neither
  approved nor submitted. Every call goes to the settlement's recipient, for its amount in base units
  and under one gas limit, and a job that resumes a SUBMITTED settlement uses its stored nonce only.
\<close>

theorem job_calls_bounded:
  assumes "leaves_job i e" "row (db w) i = Some s"
  shows "\<exists>es g. broadcastLog (snd (processJob i e w)) = broadcastLog w @ es \<and>
    length es \<le> (if status s = COMPLIANCE_APPROVED \<or> status s = SUBMITTED
      then Suc (maxRetries (cfg e) - retryCount s) else 0) \<and>
    (\<forall>p \<in> set es. rq_to (fst p) = toAddress s \<and> rq_gasLimit (fst p) = g \<and>
      parseUnits (lib e) (decToString (lib e) (amount s)) (decimals w) = Inr (rq_units (fst p))) \<and>
    (status s = SUBMITTED \<and> nonce s \<noteq> None \<longrightarrow> (\<forall>p \<in> set es. nonce s = Some (rq_nonce (fst p))))"
proof -
  obtain r v where v: "findById i e w = (r, v)" "r = Inr (Some s) \<or> (\<exists>x. r = Inl x)"
      "broadcastLog v = broadcastLog w" "decimals v = decimals w"
    using leaves_read [OF assms(1), of w] assms(2) by auto
  note alone = leaves_sends [OF assms(1)]
  show ?thesis
  proof (cases "r = Inr (Some s) \<and> (status s = COMPLIANCE_APPROVED \<or> status s = SUBMITTED)")
    case False
    with v have "broadcastLog (snd (processJob i e w)) = broadcastLog w"
      by (auto simp: processJob_def run_simps)
    then show ?thesis by (intro exI [of _ "[]"]) simp
  next
    case True
    then have st: "r = Inr (Some s)" "\<not> (status s \<noteq> COMPLIANCE_APPROVED \<and> status s \<noteq> SUBMITTED)" by auto
    define n where "n = (case (is_resume s, nonce s) of (True, Some n) \<Rightarrow> n | _ \<Rightarrow> localNonce v)"
    show ?thesis
    proof (cases "parseUnits (lib e) (decToString (lib e) (amount s)) (decimals w)")
      case (Inl x)
      with v st have "broadcastLog (snd (processJob i e w)) = broadcastLog w"
        by (simp add: processJob_def toBaseUnits_def run_simps)
      then show ?thesis by (intro exI [of _ "[]"]) simp
    next
      case (Inr units)
      obtain r2 v2 where v2: "estimateGas (toAddress s) units e v = (r2, v2)" by force
      have "logs e 0 (\<lambda>_. False) (estimateGas (toAddress s) units)"
        unfolding estimateGas_def
        by (intro logs_tryCatch [where j = 0 and k = 0, simplified] logs_seq0 logs_rpc [OF alone] logs_silent)
      with v2 have log2: "broadcastLog v2 = broadcastLog v" by (auto simp: logs_def dest!: spec [of _ v])
      have run: "processJob i e w = (case r2 of Inl x \<Rightarrow> (Inl x, v2) | Inr g \<Rightarrow>
          await buildFees (\<lambda>f. await (gets (\<lambda>e w. maxRetries (cfg e))) (\<lambda>maxR.
            sendLoop s (is_resume s) units g maxR 0 n f (retryCount s))) e v2)"
        using v(1,4) st v2 Inr by (cases r2) (auto simp: processJob_def toBaseUnits_def run_simps n_def)
      show ?thesis
      proof (cases r2)
        case (Inl x)
        with run log2 v(3) show ?thesis by (intro exI [of _ "[]"]) simp
      next
        case g: (Inr g)
        have "is_resume s \<longleftrightarrow> status s = SUBMITTED \<and> nonce s \<noteq> None" by (simp add: is_resume_def)
        then have "nonce s = Some n" if "status s = SUBMITTED \<and> nonce s \<noteq> None" using that by (auto simp: n_def)
        with logs_priced [OF alone, of "retryCount s" s units g "is_resume s" n, unfolded logs_def, THEN spec, of v2]
          run g log2 v(3) Inr True \<open>is_resume s \<longleftrightarrow> _\<close> show ?thesis by (auto intro!: exI [of _ g])
      qed
    qed
  qed
qed

definition timeout :: exn where
  "timeout = Thrown (Some ''TIMEOUT'') ''slow''"

definition refusing_env :: "env" where
  "refusing_env = demo_env (\<lambda>_. demo_rpc\<lparr>rpc_transfer := (\<lambda>_. Inl timeout)\<rparr>)"

text \<open>At its instance the settlement was sent with nonce 5 and the node now refuses every call.\<close>

lemma job_calls_bounded_witness:
  "\<exists>es. broadcastLog (snd (processJob ''s'' refusing_env w_sent)) = broadcastLog w_sent @ es \<and> length es \<le> 4 \<and>
     (\<forall>p \<in> set es. rq_nonce (fst p) = 5 \<and> rq_to (fst p) = ''a'')"
proof -
  have "leaves_job ''s'' refusing_env" by (simp add: leaves_job_def refusing_env_def demo_env_def)
  moreover have "row (db w_sent) ''s'' = Some sent_row" by (simp add: row_def db_stages)
  moreover have "status sent_row = SUBMITTED" "nonce sent_row = Some 5" "toAddress sent_row = ''a''"
    "retryCount sent_row = 0" "maxRetries (cfg refusing_env) = 3"
    by (simp_all add: db_stages refusing_env_def demo_env_def demo_cfg_def)
  ultimately show ?thesis using job_calls_bounded [of "''s''" refusing_env w_sent sent_row] by fastforce
qed

text \<open>
  C29: Every job ends in a verdict. Without interference, on a node that answers queries and accepts or
  refuses calls in any way, \<open>processJob\<close> on an approved or submitted settlement returns after at most one
  call more than the retries left, with the delays of the back-off between the calls; all calls but the
  last were refused; if the last was accepted the row is SUBMITTED with the returned hash and
  the nonce of that call, else it is FAILED with a reason. No other row and no ledger entry changes.
\<close>

theorem job_decided:
  assumes "quiet e" "node_serves e" "node_up e" "fresh_ids e w"
    and "row (db w) i = Some s" "status s = COMPLIANCE_APPROVED \<or> status s = SUBMITTED"
  shows "\<exists>es v r. processJob i e w = (Inr (), v) \<and> broadcastLog v = broadcastLog w @ es \<and> es \<noteq> [] \<and>
    length es \<le> Suc (maxRetries (cfg e) - retryCount s) \<and>
    sleeps v = sleeps w @ map backoffMs [0 ..< length es - 1] \<and>
    (\<forall>p \<in> set (butlast es). snd p = None) \<and> row (db v) i = Some r \<and>
    (case snd (last es) of
       Some h \<Rightarrow> status r = SUBMITTED \<and> txHash r = Some h \<and> nonce r = Some (rq_nonce (fst (last es)))
     | None \<Rightarrow> status r = FAILED \<and> failureReason r \<noteq> None) \<and>
    (\<forall>j. j \<noteq> i \<longrightarrow> row (db v) j = row (db w) j) \<and> ledgerEntries (db v) = ledgerEntries (db w)"
proof -
  from assms(5) have i: "sid s = i" by (auto dest: row_SomeD)
  obtain units g f t where t: "tick w \<le> t" "processJob i e w = sendLoop s (is_resume s) units g
      (maxRetries (cfg e)) 0 (first_nonce s w) f (retryCount s) e (w\<lparr>tick := t\<rparr>)"
    using job_loop [OF assms(1,2,5,6)] by blast
  have "fresh_ids e (w\<lparr>tick := t\<rparr>)" using fresh_later [OF assms(4)] t(1) by simp
  then obtain es v where "processJob i e w = (Inr (), v)" "decided 0 i (w\<lparr>tick := t\<rparr>) es v"
    using sendLoop_decided [OF assms(1,3), of "w\<lparr>tick := t\<rparr>" s s] assms(5) i t(2) by fastforce
  moreover have "sends_alone e" using assms(1) by (simp add: sends_alone_def quiet_def)
  ultimately have "length es \<le> Suc (maxRetries (cfg e) - retryCount s)"
    using logs_sendLoop [of e "maxRetries (cfg e)" "retryCount s" s units g "is_resume s" "first_nonce s w" 0 f,
        unfolded logs_def, THEN spec, of "w\<lparr>tick := t\<rparr>"] t(2)
    by (auto simp: decided_def)
  then show ?thesis using \<open>processJob i e w = (Inr (), v)\<close> \<open>decided 0 i (w\<lparr>tick := t\<rparr>) es v\<close>
    by (auto simp: decided_def)
qed

lemma refusing_ok: "quiet refusing_env" "node_serves refusing_env" "node_up refusing_env"
  by (simp_all add: refusing_env_def node_serves_def node_up_def demo_rpc_def timeout_def)

lemma job_decided_witness:
  "\<exists>r. row (db (snd (processJob ''s'' refusing_env w_ready))) ''s'' = Some r \<and> status r \<in> {SUBMITTED, FAILED}"
proof -
  have "fresh_ids refusing_env w_ready" by (simp add: fresh_ids_def db_stages)
  moreover have "row (db w_ready) ''s'' = Some approved_row" by (simp add: row_def db_stages)
  moreover have "status approved_row = COMPLIANCE_APPROVED" by (simp add: approved_row_def)
  ultimately show ?thesis
    using job_decided [OF refusing_ok, of w_ready "''s''" approved_row]
    by (force split: option.splits)
qed

text \<open>
  C30: The worker is a queue with consecutive nonces. On a node that accepts every call, the worker
  empties a queue of approved settlements in order: one accepted call for each, to its recipient, with
  the nonces from the local one upwards without gap or reuse, and each row becomes SUBMITTED. The loop
  ends with fuel one more than the jobs.
\<close>

theorem worker_consecutive_nonces:
  assumes "quiet e" "node_accepts e" "\<not> workerRunning w" "\<not> draining w" "distinct (queue w)" "fresh_ids e w"
    and "\<And>i. i \<in> set (queue w) \<Longrightarrow>
      \<exists>s. row (db w) i = Some s \<and> status s = COMPLIANCE_APPROVED \<and> toAddress s = dest i"
  shows "\<exists>v es. runWorker (Suc (length (queue w))) e w = (Inr True, v) \<and> queue v = [] \<and> \<not> workerRunning v \<and>
    broadcastLog v = broadcastLog w @ es \<and> (\<forall>p \<in> set es. snd p \<noteq> None) \<and>
    map (rq_nonce \<circ> fst) es = [localNonce w ..< localNonce w + length (queue w)] \<and>
    map (rq_to \<circ> fst) es = map dest (queue w) \<and> localNonce v = localNonce w + length (queue w) \<and>
    (\<forall>i \<in> set (queue w). \<exists>r. row (db v) i = Some r \<and> status r = SUBMITTED)"
proof -
  let ?w = "w\<lparr>workerRunning := True\<rparr>"
  have "fresh_ids e ?w" using assms(6) by (simp add: fresh_ids_def)
  then obtain v es where v: "workerLoop (Suc (length (queue w))) e ?w = (Inr True, v)" "queue v = []"
    "broadcastLog v = broadcastLog w @ es" "\<forall>p \<in> set es. snd p \<noteq> None"
    "map (rq_nonce \<circ> fst) es = [localNonce w ..< localNonce w + length (queue w)]"
    "map (rq_to \<circ> fst) es = map dest (queue w)" "localNonce v = localNonce w + length (queue w)"
    "\<forall>i \<in> set (queue w). \<exists>r. row (db v) i = Some r \<and> status r = SUBMITTED"
    using worker_fifo [OF assms(1,2), of ?w "queue w" dest] assms(4,5,7) by auto
  have "runWorker (Suc (length (queue w))) e w = (Inr True, v\<lparr>workerRunning := False\<rparr>)"
    using v(1) assms(3) by (simp add: runWorker_def tryFinally_def run_simps del: workerLoop.simps)
  with v show ?thesis
    by (intro exI [of _ "v\<lparr>workerRunning := False\<rparr>"] exI [of _ es]) (simp del: workerLoop.simps)
qed

definition numbered_env :: "env" where
  "numbered_env = calm_env\<lparr>uuid := (\<lambda>n. replicate n CHR ''x'')\<rparr>"

lemma numbered_ok: "quiet numbered_env" "node_accepts numbered_env"
proof -
  show "quiet numbered_env" by (simp add: quiet_def numbered_env_def demo_env_def)
  have "inj (\<lambda>n. replicate n CHR ''x'')" by (rule inj_on_inverseI [of _ length]) simp
  then show "node_accepts numbered_env"
    by (simp add: node_accepts_def node_serves_def numbered_env_def demo_env_def demo_rpc_def)
qed

lemma worker_consecutive_nonces_witness:
  "\<exists>v es. runWorker 2 numbered_env w_ready = (Inr True, v) \<and> queue v = [] \<and>
     broadcastLog v = es \<and> map (rq_nonce \<circ> fst) es = [5]"
proof -
  have w: "\<not> workerRunning w_ready" "\<not> draining w_ready" "queue w_ready = [''s'']" "localNonce w_ready = 5"
    "broadcastLog w_ready = []"
    by (simp_all add: w_ready_def w_open_def boot_world_def)
  have "fresh_ids numbered_env w_ready" by (simp add: fresh_ids_def db_stages)
  moreover have "row (db w_ready) ''s'' = Some approved_row" "status approved_row = COMPLIANCE_APPROVED"
    by (simp_all add: row_def db_stages)
  ultimately show ?thesis
    using worker_consecutive_nonces [OF numbered_ok, of w_ready "\<lambda>_. toAddress approved_row"] w
    by (fastforce simp: numeral_2_eq_2)
qed

section \<open>The sweep\<close>

text \<open>
  The sweep leaves alone what is mined or recent, and gives up what has no retries left. For a
  sent row: with a receipt the sweep only stops tracking it; without one, while the last send is less
  than the threshold ago, it does nothing; later, with the retries used up, the row becomes FAILED with
  STUCK_MAX_RETRIES and is no longer tracked. In none of these cases is anything sent.
\<close>

theorem sweep_verdicts:
  assumes "quiet e" "txHash s = Some h" "h \<noteq> []" "nonce s = Some n"
    and "row (db w) (sid s) = Some cur" "fresh_ids e w"
    and "getTransactionReceipt (rpc e (Suc (tick w))) h = Inr rcpt"
    and "lastAt = (case map_of (inflight w) (sid s) of Some x \<Rightarrow> if_lastSubmittedAt x | None \<Rightarrow> updatedAt s)"
    and "rcpt \<noteq> None \<or> now e (tick w + 2) - lastAt < th \<or> maxRetries (cfg e) \<le> retryCount s"
  shows "let (res, v) = sweep_one th s e w in res = Inr () \<and> broadcastLog v = broadcastLog w \<and>
    (if rcpt \<noteq> None then db v = db w \<and> map_of (inflight v) (sid s) = None
     else if now e (tick w + 2) - lastAt < th then db v = db w \<and> inflight v = inflight w
     else map_of (inflight v) (sid s) = None \<and> (\<exists>r. row (db v) (sid s) = Some r \<and> status r = FAILED \<and>
       failureReason r = Some ''STUCK_MAX_RETRIES'' \<and> txHash r = txHash cur))"
proof -
  have fresh: "fresh_ids e (w\<lparr>tick := Suc (Suc (tick w))\<rparr>)" using fresh_later [OF assms(6)] by simp
  have gone: "map_of (AList.delete i xs) i = None" for i :: string and xs :: "(string \<times> inflight_tx) list"
    by (simp add: delete_conv')
  from assms(5) have "sid cur = sid s" by (auto dest: row_SomeD)
  then show ?thesis
    using assms quiet_fail [OF assms(1) _ fresh, of "sid s" cur "''STUCK_MAX_RETRIES''" "retryCount s"]
    by (auto simp: sweep_one_def run_simps quiet_rpc_call forget_def gone failed_opts_def apply_opts_def
        Let_def numeral_2_eq_2 split: option.splits)
qed

lemma sweep_verdicts_witness:
  "let (res, v) = sweep_one 60000 sent_row calm_env (w_sent\<lparr>tick := 40\<rparr>) in
     broadcastLog v = broadcastLog (w_sent\<lparr>tick := 40\<rparr>) \<and> db v = db_sent \<and> map_of (inflight v) ''s'' = None"
proof -
  have "fresh_ids calm_env (w_sent\<lparr>tick := 40\<rparr>)"
    by (auto simp: fresh_ids_def db_stages demo_uuid_def w_sent_def)
  moreover have "row (db (w_sent\<lparr>tick := 40\<rparr>)) (sid sent_row) = Some sent_row" by (simp add: row_def db_stages)
  moreover have "txHash sent_row = Some ''H''" "nonce sent_row = Some 5" "sid sent_row = ''s''"
    by (simp_all add: db_stages)
  moreover have "getTransactionReceipt (rpc calm_env (Suc (tick (w_sent\<lparr>tick := 40\<rparr>)))) ''H'' = Inr (Some demo_receipt)"
    by (simp add: demo_rpc_def)
  ultimately show ?thesis
    using sweep_verdicts [of calm_env sent_row "''H''" 5 "w_sent\<lparr>tick := 40\<rparr>" sent_row "Some demo_receipt"
        "case map_of (inflight (w_sent\<lparr>tick := 40\<rparr>)) (sid sent_row) of Some x \<Rightarrow> if_lastSubmittedAt x
          | None \<Rightarrow> updatedAt sent_row" 60000]
    by (auto split: prod.splits)
qed

text \<open>
  C31: A stuck transaction is replaced, not repeated. The sweep resends a tracked transaction with no
  receipt, past the threshold and with retries left, in one call with the same nonce, recipient, amount
  and gas limit and both fees raised by a quarter; once accepted, the row has the new hash, one retry
  more, and its status and nonce as before.
\<close>

theorem sweep_replaces:
  assumes "quiet e" "txHash s = Some h" "h \<noteq> []" "nonce s = Some n" "row (db w) (sid s) = Some s"
    and "getTransactionReceipt (rpc e (Suc (tick w))) h = Inr None"
    and "map_of (inflight w) (sid s) = Some x" "th \<le> now e (tick w + 2) - if_lastSubmittedAt x"
    and "retryCount s < maxRetries (cfg e)"
    and "parseUnits (lib e) (decToString (lib e) (amount s)) (decimals w) = Inr units"
    and "rq = \<lparr>rq_to = toAddress s, rq_units = units, rq_nonce = n, rq_gasLimit = if_gasLimit x,
        rq_maxFeePerGas = big_div (if_maxFeePerGas x * 125) 100,
        rq_maxPriorityFeePerGas = big_div (if_maxPriorityFeePerGas x * 125) 100\<rparr>"
    and "rpc_transfer (rpc e (tick w + 4)) rq = Inr h'"
  shows "let (res, v) = sweep_one th s e w in res = Inr () \<and>
    broadcastLog v = broadcastLog w @ [(rq, Some h')] \<and>
    (\<exists>r. row (db v) (sid s) = Some r \<and> txHash r = Some h' \<and> retryCount r = retryCount s + 1 \<and>
      status r = status s \<and> nonce r = Some n \<and> amount r = amount s) \<and>
    (\<exists>y. map_of (inflight v) (sid s) = Some y \<and> if_nonce y = n \<and> if_maxFeePerGas y = rq_maxFeePerGas rq \<and>
      if_maxPriorityFeePerGas y = rq_maxPriorityFeePerGas rq)"
proof -
  let ?f = "bumpFees \<lparr>maxFeePerGas = if_maxFeePerGas x, maxPriorityFeePerGas = if_maxPriorityFeePerGas x\<rparr>"
  have rq: "rq = request_of (toAddress s) units n (if_gasLimit x) ?f"
    by (simp add: assms(11) request_of_def bumpFees_def)
  have "resend_tx t (sid s) h' k (db w) = Inr (s\<lparr>txHash := Some h', retryCount := k, updatedAt := t\<rparr>,
      (db w)\<lparr>settlements := upd_where (\<lambda>r. sid r = sid s)
        (\<lambda>r. r\<lparr>txHash := Some h', retryCount := k, updatedAt := t\<rparr>) (settlements (db w))\<rparr>)" for t k
    using assms(5) by (simp add: resend_tx_def)
  moreover have "row ((db w)\<lparr>settlements := upd_where (\<lambda>r. sid r = sid s)
      (\<lambda>r. r\<lparr>txHash := Some h', retryCount := k, updatedAt := t\<rparr>) (settlements (db w))\<rparr>) (sid s) =
      Some (s\<lparr>txHash := Some h', retryCount := k, updatedAt := t\<rparr>)" for t k
    using assms(5) by (simp add: row_def find_upd_where_key)
  ultimately show ?thesis
    using assms(1-10,12) rq
    by (simp add: sweep_one_def bumpAndResend_def toBaseUnits_def quiet_broadcast track_def recordResend_def
        run_simps quiet_rpc_call quiet_db_tx Let_def eval_nat_numeral request_of_def update_conv')
qed

text \<open>At its instance the first fees of 1000 and 100 become 1250 and 125.\<close>

definition pending_env :: "env" where
  "pending_env = demo_env (\<lambda>_. demo_rpc\<lparr>getTransactionReceipt := (\<lambda>_. Inr None), rpc_transfer := (\<lambda>_. Inr ''K'')\<rparr>)"

lemma sweep_replaces_witness:
  "let (res, v) = sweep_one 4 sent_row pending_env w_sent in
     map (\<lambda>p. (rq_nonce (fst p), rq_maxFeePerGas (fst p), snd p)) (broadcastLog v) =
       [(5, 1000, Some ''H''), (5, 1250, Some ''K'')]"
proof -
  let ?x = "\<lparr>if_settlementId = ''s'', if_nonce = 5, if_gasLimit = 60000,
       if_maxFeePerGas = 1000, if_maxPriorityFeePerGas = 100, if_lastSubmittedAt = 34, if_attempts = 0\<rparr>"
  have "row (db w_sent) (sid sent_row) = Some sent_row" by (simp add: row_def db_stages)
  moreover have "txHash sent_row = Some ''H''" "nonce sent_row = Some 5" "sid sent_row = ''s''" "retryCount sent_row = 0"
    "toAddress sent_row = ''a''" "amount sent_row = 40" by (simp_all add: db_stages)
  moreover have "map_of (inflight w_sent) ''s'' = Some ?x" "tick w_sent = 36" "decimals w_sent = 6"
    "broadcastLog w_sent = [(\<lparr>rq_to = ''a'', rq_units = 40000000, rq_nonce = 5, rq_gasLimit = 60000,
       rq_maxFeePerGas = 1000, rq_maxPriorityFeePerGas = 100\<rparr>, Some ''H'')]"
    by (simp_all add: w_sent_def w_ready_def w_open_def boot_world_def)
  ultimately show ?thesis
    using sweep_replaces [of pending_env sent_row "''H''" 5 w_sent ?x 4 40000000 _ "''K''"]
    by (simp add: pending_env_def demo_cfg_def demo_rpc_def big_div_def split: prod.splits)
qed

end
