(* ===== verification/RecoveryClaims.thy ===== *)
theory RecoveryClaims
  imports RelayerClaims
begin

text \<open>
  Properties of restart recovery, of graceful shutdown, of the fees, the back-off and the error
  classes.
\<close>

section \<open>Restart recovery\<close>

text \<open>
  C32: Recovery of a sent settlement follows the chain. A mined transaction is left to the listener
  unless it reverted, which makes the row FAILED; a pending one is tracked again under its stored nonce;
  a dropped one is queued to be sent again. Recovery itself sends nothing and keeps the local nonce.
\<close>

theorem recovery_follows_chain:
  assumes "quiet e" "\<not> draining w" "txHash s = Some h" "h \<noteq> []" "row (db w) (sid s) = Some cur" "fresh_ids e w"
    and "getTransactionReceipt (rpc e (Suc (tick w))) h = Inr rcpt"
    and "getTransaction (rpc e (Suc (Suc (Suc (tick w))))) h = Inr tx"
  shows "let (res, v) = recover_one s e w in
    res = Inr () \<and> broadcastLog v = broadcastLog w \<and> localNonce v = localNonce w \<and>
    (case rcpt of
       Some r \<Rightarrow> queue v = queue w \<and> (if rc_status r = 0
         then \<exists>q. row (db v) (sid s) = Some q \<and> status q = FAILED \<and> failureReason q = Some ''REVERTED_ON_RECOVERY''
         else db v = db w \<and> inflight v = inflight w)
     | None \<Rightarrow> db v = db w \<and> (case tx of
         Some t \<Rightarrow> queue v = queue w \<and> (\<exists>x. map_of (inflight v) (sid s) = Some x \<and>
           if_nonce x = (case nonce s of Some n \<Rightarrow> n | None \<Rightarrow> ti_nonce t))
       | None \<Rightarrow> queue v = queue w @ [sid s]))"
proof -
  have fresh: "fresh_ids e (w\<lparr>tick := Suc (Suc (tick w))\<rparr>)" using fresh_later [OF assms(6)] by simp
  from assms(5) have "sid cur = sid s" by (auto dest: row_SomeD)
  then show ?thesis
    using assms quiet_fail [OF assms(1) _ fresh, of "sid s" cur "''REVERTED_ON_RECOVERY''" "retryCount s"]
    by (auto simp: recover_one_def run_simps quiet_rpc_call failed_opts_def apply_opts_def track_def
        enqueueId_def updateQueueDepth_def update_conv' Let_def split: option.split)
qed

definition dropped_env :: "env" where
  "dropped_env = demo_env (\<lambda>_. demo_rpc\<lparr>getTransactionReceipt := (\<lambda>_. Inr None)\<rparr>)"

lemma recovery_follows_chain_witness:
  "let (res, v) = recover_one sent_row dropped_env (w_sent\<lparr>tick := 40\<rparr>) in queue v = [''s'']"
proof -
  have "fresh_ids dropped_env (w_sent\<lparr>tick := 40\<rparr>)"
    by (auto simp: fresh_ids_def db_stages demo_uuid_def w_sent_def dropped_env_def)
  moreover have "row (db (w_sent\<lparr>tick := 40\<rparr>)) (sid sent_row) = Some sent_row" by (simp add: row_def db_stages)
  moreover have "txHash sent_row = Some ''H''" "sid sent_row = ''s''" by (simp_all add: db_stages)
  moreover have "\<not> draining (w_sent\<lparr>tick := 40\<rparr>)" "queue (w_sent\<lparr>tick := 40\<rparr>) = []"
    by (simp_all add: w_sent_def w_ready_def w_open_def boot_world_def)
  ultimately show ?thesis
    using recovery_follows_chain [of dropped_env "w_sent\<lparr>tick := 40\<rparr>" sent_row "''H''" sent_row None None]
    by (simp add: dropped_env_def demo_rpc_def split: prod.splits)
qed

lemma recover_other:
  assumes "quiet e" "i \<notin> set (queue w)" "row (db w) i = Some s" "sid t \<noteq> i"
  shows "i \<notin> set (queue (snd (recover_one t e w))) \<and> row (db (snd (recover_one t e w))) i = Some s"
proof -
  have "row (db v) i = Some s \<and> queue v = queue u" if "fail (sid t) why k e u = (r, v)" "row (db u) i = Some s"
    for u v why k r
  proof -
    have "row d i = Some s" if tx: "transition_tx str m ev (sid t) FAILED opts (db u) = Inr (x, d)" for str m ev opts x d
      using tx
    proof (cases rule: transition_tx_cases)
      case (moved cur)
      from moved(1) have "sid cur = sid t" by (auto dest: row_SomeD)
      with moved(5) assms(4) \<open>row (db u) i = Some s\<close> show ?thesis by simp
    qed (use \<open>row (db u) i = Some s\<close> in simp)
    with that assms(1) show ?thesis
      by (auto simp: fail_def run_simps quiet_transition forget_def split: sum.splits prod.splits)
  qed
  note fl = this
  have q: "i \<notin> set (queue (snd (enqueueId (sid t) e u))) \<and> db (snd (enqueueId (sid t) e u)) = db u"
    if "i \<notin> set (queue u)" for u
    using that assms(4) by (auto simp: enqueueId_def run_simps updateQueueDepth_def)
  show ?thesis
  proof (cases "txHash t = None \<or> txHash t = Some []")
    case True
    with q [OF assms(2)] assms(3) show ?thesis by (auto simp: recover_one_def)
  next
    case False
    then obtain h where h: "txHash t = Some h" "h \<noteq> []" by auto
    show ?thesis
    proof (cases "getTransactionReceipt (rpc e (Suc (tick w))) h")
      case (Inl x)
      with h assms show ?thesis by (simp add: recover_one_def run_simps quiet_rpc_call)
    next
      case (Inr rcpt)
      let ?u = "w\<lparr>tick := Suc (Suc (tick w))\<rparr>"
      show ?thesis
      proof (cases rcpt)
        case (Some r)
        obtain a v where f: "fail (sid t) ''REVERTED_ON_RECOVERY'' (retryCount t) e ?u = (a, v)" by force
        from fl [OF f] assms(2,3) have "row (db v) i = Some s" "i \<notin> set (queue v)" by auto
        with h Inr Some f assms show ?thesis by (auto simp: recover_one_def run_simps quiet_rpc_call)
      next
        case None
        with h Inr assms q [of "?u\<lparr>tick := Suc (Suc (tick ?u))\<rparr>"] show ?thesis
          by (auto simp: recover_one_def run_simps quiet_rpc_call track_def split: sum.split option.split)
      qed
    qed
  qed
qed

text \<open>
  A restart forgets approved settlements. The boot hook re-queues and tracks SUBMITTED rows only: a
  settlement that was COMPLIANCE_APPROVED and waiting in the queue when the process died is not in the
  new queue and keeps its status. Resubmitting it is an idempotent hit, so nothing ever sends it.
\<close>

theorem restart_forgets_approved:
  assumes "quiet e" "\<And>xs. set (scan e xs) \<subseteq> set xs" "distinct (map sid (settlements (db w)))"
    and "row (db w) i = Some s" "status s = COMPLIANCE_APPROVED"
  shows "let v = snd (relayer_onApplicationBootstrap e (restart w)) in
    i \<notin> set (queue v) \<and> row (db v) i = Some s"
proof -
  let ?R = "restart w"
  have loop: "i \<notin> set (queue (snd (for_each ts recover_one e u))) \<and>
      row (db (snd (for_each ts recover_one e u))) i = Some s"
    if "\<forall>t \<in> set ts. sid t \<noteq> i" "i \<notin> set (queue u)" "row (db u) i = Some s" for ts u
    using that
  proof (induction ts arbitrary: u)
    case (Cons t ts)
    obtain r v where rv: "recover_one t e u = (r, v)" by force
    from recover_other [OF assms(1) Cons.prems(2,3), of t] Cons.prems(1) rv
    have "i \<notin> set (queue v)" "row (db v) i = Some s" by auto
    with Cons rv show ?case by (cases r) (simp_all add: run_simps)
  qed (simp add: run_simps)
  have rows: "\<forall>t \<in> set (scan e (by_statuses (db w) [SUBMITTED])). sid t \<noteq> i"
  proof
    fix t
    assume "t \<in> set (scan e (by_statuses (db w) [SUBMITTED]))"
    with assms(2) have "t \<in> set (settlements (db w))" "status t = SUBMITTED"
      by (auto simp: by_statuses_def dest!: subsetD [OF assms(2)])
    with assms(3-5) row_unique [of "db w" t] show "sid t \<noteq> i" by auto
  qed
  have "i \<notin> set (queue ?R)" "row (db ?R) i = Some s" "db ?R = db w"
    using assms(4) by (simp_all add: restart_def boot_world_def)
  then show ?thesis
    using assms(1) loop [OF rows, of "?R\<lparr>localNonce := n, tick := k\<rparr>" for n k]
    by (simp add: relayer_onApplicationBootstrap_def recoverInFlight_def findByStatuses_def run_simps
        quiet_rpc_call quiet_db_read Let_def split: sum.split)
qed

lemma restart_forgets_approved_witness:
  "queue w_ready = [''s''] \<and> ''s'' \<notin> set (queue (snd (relayer_onApplicationBootstrap calm_env (restart w_ready))))"
proof -
  have "row (db w_ready) ''s'' = Some approved_row" "status approved_row = COMPLIANCE_APPROVED"
    "distinct (map sid (settlements (db w_ready)))"
    by (simp_all add: row_def db_stages)
  with restart_forgets_approved [of calm_env w_ready "''s''" approved_row] show ?thesis
    by (simp add: Let_def w_ready_def)
qed

section \<open>Shutdown\<close>

text \<open>
  After the shutdown hook the relayer starts nothing new: submissions are no longer queued, the
  worker's loop ends at its next test without taking a job, and the sweep returns at once.
\<close>

theorem shutdown_drains:
  "let w' = snd (relayer_onModuleDestroy e w) in
    enqueueId i e' w' = (Inr (), w') \<and> workerLoop (Suc fuel) e' w' = (Inr True, w') \<and>
    sweepStuckTransactions e' w' = (Inr (), w')"
  by (simp add: relayer_onModuleDestroy_def enqueueId_def sweepStuckTransactions_def run_simps Let_def)

section \<open>Fees, delays, error classes\<close>

text \<open>
  A gas bump is enough to replace. For fees of at least 4 wei both fees grow by at least ten per
  cent, what nodes ask of a replacement, and by at most twenty-five; the priority fee stays below the
  maximal fee if it was.
\<close>

theorem bump_replaces:
  assumes "4 \<le> maxFeePerGas f" "4 \<le> maxPriorityFeePerGas f"
  shows "110 * maxFeePerGas f \<le> 100 * maxFeePerGas (bumpFees f) \<and>
    100 * maxFeePerGas (bumpFees f) \<le> 125 * maxFeePerGas f \<and>
    110 * maxPriorityFeePerGas f \<le> 100 * maxPriorityFeePerGas (bumpFees f) \<and>
    100 * maxPriorityFeePerGas (bumpFees f) \<le> 125 * maxPriorityFeePerGas f \<and>
    (maxFeePerGas f < maxPriorityFeePerGas f \<or> maxPriorityFeePerGas (bumpFees f) \<le> maxFeePerGas (bumpFees f))"
proof -
  have "110 * x \<le> 100 * (x * 125 div 100) \<and> 100 * (x * 125 div 100) \<le> 125 * x" if "4 \<le> x" for x :: int
  proof (cases "x = 4 \<or> x = 5 \<or> x = 6")
    case False
    with that have "7 \<le> x" by linarith
    moreover have "x * 125 - 99 \<le> 100 * (x * 125 div 100)" "100 * (x * 125 div 100) \<le> x * 125"
      using mult_div_mod_eq [of 100 "x * 125"] pos_mod_bound [of 100 "x * 125"] pos_mod_sign [of 100 "x * 125"]
      by linarith+
    ultimately show ?thesis by linarith
  qed auto
  then show ?thesis
    using assms by (auto simp: bumpFees_def big_div_nonneg intro!: zdiv_mono1)
qed

lemma bump_replaces_witness:
  "bumpFees \<lparr>maxFeePerGas = 1000, maxPriorityFeePerGas = 7\<rparr> = \<lparr>maxFeePerGas = 1250, maxPriorityFeePerGas = 8\<rparr> \<and>
   110 * 7 \<le> 100 * maxPriorityFeePerGas (bumpFees \<lparr>maxFeePerGas = 1000, maxPriorityFeePerGas = 7\<rparr>)"
  using bump_replaces [of "\<lparr>maxFeePerGas = 1000, maxPriorityFeePerGas = 7\<rparr>"]
  by (simp add: bumpFees_def big_div_def)

text \<open>
  The back-off doubles from one second to eight and stays there, so a job with \<open>n\<close> retries waits
  at most eight seconds times \<open>n\<close> in all.
\<close>

theorem backoff_bounded:
  "backoffMs 0 = 1000 \<and> backoffMs (Suc k) = min (2 * backoffMs k) 8000 \<and> backoffMs k \<in> {1000..8000} \<and>
   (\<Sum>i \<leftarrow> [0 ..< n]. backoffMs i) \<le> 8000 * int n"
proof -
  have b: "1000 \<le> backoffMs i \<and> backoffMs i \<le> 8000" for i
    by (simp add: backoffMs_def)
  have "(\<Sum>i \<leftarrow> [0 ..< n]. backoffMs i) \<le> 8000 * int n"
  proof (induction n)
    case (Suc n)
    with b [of n] show ?case by simp
  qed simp
  with b [of k] show ?thesis by (auto simp: backoffMs_def min_def)
qed

text \<open>
  A send is given up at once exactly when its error names a lack of funds or a revert and carries no
  mark of a nonce, infrastructure or fee problem; the reason is then INSUFFICIENT_FUNDS or REVERTED, and
  an error that asks for the nonce to be refetched is never given up.
\<close>

theorem permanent_errors:
  "(retryable (classifyTxError err) = False \<longleftrightarrow>
     (let code = readCode err; message = toLowerCase (readMessage err) in
        (nonce_desync code message \<or> transient code message \<or> underpriced message) = False \<and>
        (out_of_funds code message \<or> reverted code message))) \<and>
   (retryable (classifyTxError err) \<or> reason (classifyTxError err) \<in> {''INSUFFICIENT_FUNDS'', ''REVERTED''}) \<and>
   {x. resyncNonce (classifyTxError x)} \<subseteq> {x. retryable (classifyTxError x)}"
  using permanent_iff [of err] permanent_reason [of err] by (auto simp: Let_def intro: resync_retryable)

text \<open>
  The mark 429 is looked for anywhere in the message. A revert whose text holds the digits of the
  HTTP status for rate limits, in an amount or an address say, counts as a passing fault and is retried
  to the limit.
\<close>

theorem digits_hide_revert:
  assumes "toLowerCase (readMessage err) = a @ ''429'' @ b"
  shows "retryable (classifyTxError err)"
proof -
  have "js_includes (toLowerCase (readMessage err)) ''429''" unfolding assms by (rule includes_mid)
  then have "transient (readCode err) (toLowerCase (readMessage err))" by (simp only: transient_def simp_thms)
  then show ?thesis by (simp add: classifyTxError_def Let_def)
qed

lemma digits_hide_revert_witness:
  "let err = Thrown (Some ''CALL_EXCEPTION'') ''execution reverted: 0x429'' in
     reverted (readCode err) (toLowerCase (readMessage err)) \<and> retryable (classifyTxError err)"
proof -
  let ?e = "Thrown (Some ''CALL_EXCEPTION'') ''execution reverted: 0x429''"
  have m: "toLowerCase (readMessage ?e) = ''execution reverted: 0x'' @ ''429'' @ []" by code_simp
  from digits_hide_revert [OF m] show ?thesis by (simp add: Let_def reverted_def)
qed

end
