(* ===== verification/HazardClaims.thy ===== *)
theory HazardClaims
  imports RecoveryClaims ChainListener
begin

text \<open>
  Runs of the code in which a settlement is paid twice, is dropped, gets stuck, or leaves a terminal
  status. Each is a concrete environment and a run evaluated in the kernel.
\<close>

section \<open>Paid twice\<close>

definition timeout_env :: "env" where
  "timeout_env = demo_env (\<lambda>n. demo_rpc\<lparr>getTransactionCount := Inr 6,
     rpc_transfer := (\<lambda>rq. if rq_nonce rq = 5
       then Inl (if n < 35 then timeout else Thrown None ''already known'') else Inr ''L'')\<rparr>)"

text \<open>
  A send that timed out can be paid twice. The node answers the first call with a timeout but keeps
  the transaction; the retry under the same nonce is answered "already known"; the relayer takes that as a
  wrong nonce, refetches the pending count, and sends the same settlement again under the next nonce,
  where it is accepted.
\<close>

theorem timeout_pays_twice:
  "let v = snd (processJob ''s'' timeout_env w_ready) in
     map (\<lambda>p. (rq_to (fst p), rq_units (fst p), rq_nonce (fst p), snd p)) (broadcastLog v) =
       [(''a'', 40000000, 5, None), (''a'', 40000000, 5, None), (''a'', 40000000, 6, Some ''L'')] \<and>
     map (\<lambda>r. (status r, nonce r)) (settlements (db v)) = [(FINAL, None), (SUBMITTED, Some 6)]"
proof -
  have c: "classifyTxError timeout = \<lparr>retryable = True, resyncNonce = False, reason = ''TIMEOUT''\<rparr>"
    "classifyTxError (Thrown None ''already known'') =
       \<lparr>retryable = True, resyncNonce = True, reason = ''NONCE_DESYNC''\<rparr>"
    by code_simp+
  have t: "timeout \<noteq> Crash" by (simp add: timeout_def)
  show ?thesis
    by (simp add: timeout_env_def w_ready_def w_open_def boot_world_def db_ready_def db_open_def
        approved_row_def trail_entry_def Let_def c t demo_simps state_simps relayer_simps)
qed

definition outage_env :: "env" where
  "outage_env = (demo_env (\<lambda>n. demo_rpc\<lparr>getTransactionCount := Inr 6,
     rpc_transfer := (\<lambda>rq. if n = 33 then Inr ''H'' else if rq_nonce rq = 5
       then Inl (Thrown (Some ''NONCE_EXPIRED'') ''nonce too low'') else Inr ''L'')\<rparr>))
     \<lparr>dbErr := (\<lambda>n. if n = 35 then Some (PrismaKnown ''P1001'' ''no database'') else None)\<rparr>"

text \<open>
  An outage after an accepted send is paid twice. When the database refuses the write that follows an
  accepted call, the error is taken for a failed send: the call is repeated under the same nonce, is
  answered "nonce too low", and goes out again under the next nonce. Two calls for one settlement are
  accepted.
\<close>

theorem outage_pays_twice:
  "let v = snd (processJob ''s'' outage_env w_ready) in
     map (\<lambda>p. (rq_to (fst p), rq_units (fst p), rq_nonce (fst p), snd p)) (broadcastLog v) =
       [(''a'', 40000000, 5, Some ''H''), (''a'', 40000000, 5, None), (''a'', 40000000, 6, Some ''L'')] \<and>
     map (\<lambda>r. (status r, txHash r)) (settlements (db v)) = [(FINAL, None), (SUBMITTED, Some ''L'')]"
proof -
  have c: "classifyTxError (PrismaKnown ''P1001'' ''no database'') =
       \<lparr>retryable = True, resyncNonce = False, reason = ''P1001''\<rparr>"
    "classifyTxError (Thrown (Some ''NONCE_EXPIRED'') ''nonce too low'') =
       \<lparr>retryable = True, resyncNonce = True, reason = ''NONCE_EXPIRED''\<rparr>"
    by code_simp+
  have e: "lib outage_env = demo_lib" "cfg outage_env = demo_cfg" "now outage_env n = int n"
    "uuid outage_env n = demo_uuid n" "dbErr outage_env n = (if n = 35 then Some (PrismaKnown ''P1001'' ''no database'') else None)"
    "yield outage_env w = (Inr (), w\<lparr>tick := Suc (tick w)\<rparr>)"
    "rpc outage_env n = demo_rpc\<lparr>getTransactionCount := Inr 6,
     rpc_transfer := (\<lambda>rq. if n = 33 then Inr ''H'' else if rq_nonce rq = 5
       then Inl (Thrown (Some ''NONCE_EXPIRED'') ''nonce too low'') else Inr ''L'')\<rparr>" for n w
    by (simp_all add: outage_env_def demo_env_def yield_def)
  show ?thesis
    by (simp add: e w_ready_def w_open_def boot_world_def db_ready_def db_open_def
        approved_row_def trail_entry_def Let_def c rpc_call_def db_read_def db_tx_def run_tx_def
        demo_rpc_def demo_cfg_def demo_uuid_def io_defs state_simps relayer_simps)
qed

section \<open>Dropped and stuck\<close>

text \<open>
  A job whose fee query fails is dropped. The error leaves \<open>processJob\<close>, the worker only logs it, and
  the settlement stays COMPLIANCE_APPROVED with an empty queue and no task that would send it.
\<close>

theorem fee_failure_drops_job:
  assumes "quiet e" "\<And>k a u. rpc_estimateGas (rpc e k) a u \<noteq> Inl Crash"
    and "\<And>k. getFeeData (rpc e k) = Inl x" "x \<noteq> Crash"
    and "queue w = [i]" "\<not> draining w" "\<not> workerRunning w"
    and "row (db w) i = Some s" "status s = COMPLIANCE_APPROVED"
    and "parseUnits (lib e) (decToString (lib e) (amount s)) (decimals w) = Inr units"
  shows "let (res, v) = runWorker 2 e w in
    res = Inr True \<and> queue v = [] \<and> db v = db w \<and> broadcastLog v = broadcastLog w \<and> inflight v = inflight w"
proof -
  have est: "\<exists>g t. estimateGas a us e v = (Inr g, v\<lparr>tick := t\<rparr>)" for a us v
  proof (cases "rpc_estimateGas (rpc e (Suc (tick v))) a us")
    case (Inl y)
    with assms(2) have "y \<noteq> Crash" by auto
    with Inl assms(1) show ?thesis by (auto simp: estimateGas_def run_simps quiet_rpc_call)
  next
    case (Inr g)
    with assms(1) show ?thesis by (auto simp: estimateGas_def run_simps quiet_rpc_call)
  qed
  let ?w = "w\<lparr>workerRunning := True, queue := [], tick := Suc (Suc (tick w))\<rparr>"
  obtain g t where g: "estimateGas (toAddress s) units e ?w = (Inr g, ?w\<lparr>tick := t\<rparr>)"
    using est [of "toAddress s" units ?w] by blast
  have "processJob i e (w\<lparr>workerRunning := True, queue := []\<rparr>) = (Inl x, ?w\<lparr>tick := Suc t\<rparr>)"
    using assms(1,3,8,9,10) g
    by (simp add: processJob_def findById_def toBaseUnits_def buildFees_def run_simps quiet_db_read quiet_rpc_call)
  then have "runWorker 2 e w = (Inr True, (updateQueueDepth (?w\<lparr>tick := Suc t\<rparr>))\<lparr>workerRunning := False\<rparr>)"
    using assms(4-7) by (simp add: runWorker_def tryFinally_def run_simps numeral_2_eq_2 updateQueueDepth_def)
  then show ?thesis by (simp add: updateQueueDepth_def)
qed

definition feeless_env :: "env" where
  "feeless_env = demo_env (\<lambda>_. demo_rpc\<lparr>getFeeData := Inl timeout\<rparr>)"

lemma fee_failure_drops_job_witness:
  "let v = snd (runWorker 2 feeless_env w_ready) in queue v = [] \<and> db v = db_ready \<and> broadcastLog v = []"
proof -
  have w: "queue w_ready = [''s'']" "\<not> draining w_ready" "\<not> workerRunning w_ready" "broadcastLog w_ready = []"
    by (simp_all add: w_ready_def w_open_def boot_world_def)
  have r: "row (db w_ready) ''s'' = Some approved_row" "status approved_row = COMPLIANCE_APPROVED"
    "amount approved_row = 40"
    by (simp_all add: row_def db_stages)
  have f: "quiet feeless_env" "\<And>k a u. rpc_estimateGas (rpc feeless_env k) a u \<noteq> Inl Crash"
    "\<And>k. getFeeData (rpc feeless_env k) = Inl timeout" "timeout \<noteq> Crash"
    "parseUnits (lib feeless_env) (decToString (lib feeless_env) (amount approved_row)) (decimals w_ready) = Inr 40000000"
    using r(3) by (simp_all add: feeless_env_def demo_rpc_def timeout_def)
  from fee_failure_drops_job [OF f(1-4) w(1-3) r(1,2) f(5)] w(4) show ?thesis
    by (cases "runWorker 2 feeless_env w_ready") simp
qed

definition replaced_row :: settlement where
  "replaced_row = sent_row\<lparr>txHash := Some ''K'', retryCount := 1\<rparr>"

definition w_replaced :: world where
  "w_replaced = w_sent\<lparr>db := db_sent\<lparr>settlements := settlements db_open @ [replaced_row]\<rparr>\<rparr>"

definition original_mined_env :: "env" where
  "original_mined_env = demo_env (\<lambda>_. demo_rpc\<lparr>
     getTransactionReceipt := (\<lambda>h. Inr (if h = ''H'' then Some demo_receipt else None)),
     rpc_transfer := (\<lambda>_. Inl (Thrown (Some ''NONCE_EXPIRED'') ''nonce too low''))\<rparr>)"

text \<open>
  A replaced transaction that was mined first leaves its settlement stuck. Once the sweep has stored
  the hash of a replacement and the node mines the original instead, neither the sweep (its resends are
  answered "nonce too low") nor the poll (no receipt for the stored hash) ever changes the database again,
  at any later time, although the transfer is on the chain.
\<close>

theorem replaced_original_sticks:
  "let w = w_replaced\<lparr>tick := k\<rparr> in
     getTransactionReceipt (rpc original_mined_env k) ''H'' = Inr (Some demo_receipt) \<and>
     db (snd (run_task Sweep original_mined_env w)) = db w \<and>
     db (snd (run_task Poll original_mined_env w)) = db w \<and>
     map status (settlements (db w)) = [FINAL, SUBMITTED]"
proof -
  have c: "classifyTxError (Thrown (Some ''NONCE_EXPIRED'') ''nonce too low'') =
       \<lparr>retryable = True, resyncNonce = True, reason = ''NONCE_EXPIRED''\<rparr>"
    by code_simp
  show ?thesis
    by (simp add: c original_mined_env_def w_replaced_def w_sent_def w_ready_def w_open_def boot_world_def
        replaced_row_def db_sent_def db_open_def sent_row_def approved_row_def Let_def watcher_sweep_def
        tryFinally_def sweepStuckTransactions_def sweep_one_def bumpAndResend_def pollConfirmations_def
        getCurrentBlock_def processReceipt_def demo_simps state_simps relayer_simps)
qed

section \<open>A terminal status that does not last\<close>

definition overtaken_env :: "env" where
  "overtaken_env = (demo_env (\<lambda>_. demo_rpc\<lparr>getTransactionReceipt := (\<lambda>_. Inr None),
     rpc_transfer := (\<lambda>_. Inl (Thrown (Some ''INSUFFICIENT_FUNDS'') ''empty''))\<rparr>))
     \<lparr>uuid := (\<lambda>n. ''v''),
      others := (\<lambda>n w. if n = 102 then w\<lparr>db := db_final\<rparr> else w)\<rparr>"

text \<open>
  A failing send can take FINAL back. The relayer's transitions have no expected status: while the
  sweep waits to resend, the listener finds the original mined, books it and makes it FINAL; the resend is
  then refused for lack of funds, and the settlement becomes FAILED although it is paid and booked.
\<close>

theorem failing_send_undoes_final:
  "db (snd (run_task Poll calm_env w_sent)) = db_final \<and>
   (let v = snd (sweep_one 60 sent_row overtaken_env (w_sent\<lparr>tick := 100\<rparr>)) in
     booked (db v) ''s'' \<and>
     map (\<lambda>t. (fromStatus t, toStatus t)) (transitions_of (db v) ''s'') =
       [(RECEIVED, COMPLIANCE_APPROVED), (COMPLIANCE_APPROVED, SUBMITTED), (SUBMITTED, FINAL), (FINAL, FAILED)] \<and>
     map ob_type (outboxEvents (db v)) = [''settlement.submitted'', ''settlement.final'', ''settlement.failed''])"
proof -
  have c: "classifyTxError (Thrown (Some ''INSUFFICIENT_FUNDS'') ''empty'') =
       \<lparr>retryable = False, resyncNonce = False, reason = ''INSUFFICIENT_FUNDS''\<rparr>"
    by code_simp
  have "snd (run_task Poll calm_env w_sent) = w_final" by (rule stage_final)
  then have p: "db (snd (run_task Poll calm_env w_sent)) = db_final" by simp
  have e: "lib overtaken_env = demo_lib" "cfg overtaken_env = demo_cfg" "now overtaken_env n = int n"
    "uuid overtaken_env n = ''v''" "dbErr overtaken_env n = None"
    "yield overtaken_env w = (Inr (), (if tick w = 102 then w\<lparr>db := db_final\<rparr> else w)\<lparr>tick := Suc (tick w)\<rparr>)"
    "rpc overtaken_env n = demo_rpc\<lparr>getTransactionReceipt := (\<lambda>_. Inr None),
     rpc_transfer := (\<lambda>_. Inl (Thrown (Some ''INSUFFICIENT_FUNDS'') ''empty''))\<rparr>" for n w
    by (simp_all add: overtaken_env_def demo_env_def yield_def)
  show ?thesis
    unfolding p
    by (simp add: e c w_sent_def w_ready_def w_open_def boot_world_def db_sent_def db_open_def db_final_def
        sent_row_def final_row_def approved_row_def sent_event_def trail_entry_def booking_pair_def
        Let_def sweep_one_def bumpAndResend_def rpc_call_def db_read_def db_tx_def run_tx_def bumpFees_def
        demo_rpc_def demo_cfg_def io_defs state_simps relayer_simps booked_def in_bookings transitions_of_def)
qed

end
