(* ===== verification/ListenerSpec.thy ===== *)
theory ListenerSpec
  imports RelayerSpec SubmissionSpec Invariants
begin

text \<open>
  The chain listener evaluated step by step when nothing interferes: what \<open>finalize\<close> leaves, what
  \<open>processReceipt\<close> does on each branch, and the verdict a receipt calls for.
\<close>

section \<open>Finality\<close>

definition final_opts :: "settlement \<Rightarrow> transition_options" where
  "final_opts s = no_opts\<lparr>o_txHash := Some (txHash s), expectedFrom := Some [SUBMITTED, CONFIRMED]\<rparr>"

text \<open>The database after the listener made a settlement FINAL.\<close>

definition after_booking :: "env \<Rightarrow> settlement \<Rightarrow> world \<Rightarrow> database" where
  "after_booking e s w = (if booked (db w) (sid s) then db w
     else (db w)\<lparr>ledgerEntries := ledgerEntries (db w) @ booking_pair (now e (Suc (tick w))) (sid s) (amount s)\<rparr>)"

lemma after_booking_sel [simp]:
  "row (after_booking e s w) i = row (db w) i" "outboxEvents (after_booking e s w) = outboxEvents (db w)"
  "settlements (after_booking e s w) = settlements (db w)"
  "statusTransitions (after_booking e s w) = statusTransitions (db w)"
  by (simp_all add: after_booking_def)

lemma quiet_finalize:
  assumes q: "quiet e" and wf: "ledger_wf (db w)" and row: "row (db w) (sid s) = Some cur"
    and st: "status cur = SUBMITTED \<or> status cur = CONFIRMED" and fresh: "fresh_ids e w"
  shows "\<exists>v t ev. finalize s rcpt e w = (Inr (), v) \<and>
    db v = write_transition (decToString (lib e)) t ev FINAL (final_opts s) cur (after_booking e s w) \<and>
    metrics v = (metrics w)\<lparr>m_gasWei := m_gasWei (metrics w) + rc_gasUsed rcpt * rc_gasPrice rcpt\<rparr>"
proof -
  have "row (db w) (sid s) \<noteq> None" using row by simp
  note book = quiet_book [OF q wf this, of "amount s"]
  define b where "b = fst (recordSettlementFinalized (sid s) (amount s) e w)"
  define k where "k = tick (snd (recordSettlementFinalized (sid s) (amount s) e w))"
  let ?w = "w\<lparr>db := after_booking e s w, tick := k\<rparr>"
  have run: "recordSettlementFinalized (sid s) (amount s) e w = (b, ?w)" "b \<noteq> Inl x" "tick w \<le> k" for x
    using book by (simp_all add: b_def k_def after_booking_def)
  have "uuid e (Suc k) \<notin> set (map ob_id (outboxEvents (db w)))"
    using fresh run(3) by (auto simp: fresh_ids_def)
  then have step: "transition_tx str t (uuid e (Suc k)) (sid s) FINAL (final_opts s) (db ?w) =
      Inr (Some (apply_opts t FINAL (final_opts s) cur),
        write_transition str t (uuid e (Suc k)) FINAL (final_opts s) cur (db ?w))" for str t
    using row st by (intro transition_tx_ok) (auto simp: final_opts_def)
  from run(1,2) obtain x where "recordSettlementFinalized (sid s) (amount s) e w = (Inr x, ?w)"
    by (cases b) auto
  with step q have "finalize s rcpt e w = (Inr (), w\<lparr>
      db := write_transition (decToString (lib e)) (now e (Suc k)) (uuid e (Suc k)) FINAL (final_opts s) cur
        (after_booking e s w), tick := Suc (Suc k),
      metrics := (metrics w)\<lparr>m_gasWei := m_gasWei (metrics w) + rc_gasUsed rcpt * rc_gasPrice rcpt\<rparr>\<rparr>)"
    by (simp add: finalize_def final_opts_def [symmetric] run_simps quiet_transition)
  then show ?thesis by (intro exI conjI) (assumption, simp_all)
qed

section \<open>The verdict on a receipt\<close>

text \<open>What the chain says of an open settlement, from its receipt and the current block.\<close>

definition reorged :: "settlement_status \<Rightarrow> settlement_status" where
  "reorged st = (if st = CONFIRMED then SUBMITTED else st)"

definition receipt_verdict :: "config \<Rightarrow> settlement \<Rightarrow> int \<Rightarrow> receipt option \<Rightarrow> settlement_status" where
  "receipt_verdict c s block rcpt = (let seen = (case confirmedBlockHash s of None \<Rightarrow> '''' | Some b \<Rightarrow> b) in
     case rcpt of
       None \<Rightarrow> if seen \<noteq> '''' then reorged (status s) else status s
     | Some r \<Rightarrow> let depth = block - rc_blockNumber r + 1 in
         if rc_status r = 0 then FAILED
         else if seen \<noteq> '''' \<and> seen \<noteq> rc_blockHash r then reorged (status s)
         else if confirmationsFinal c \<le> depth then FINAL
         else if confirmationsConfirmed c \<le> depth \<and> status s = SUBMITTED then CONFIRMED
         else status s)"

lemma quiet_guarded:
  assumes "quiet e" "row (db w) i = Some cur" "fresh_ids e w" "expectedFrom opts = Some fs"
  shows "\<exists>v. transition i to opts e w = (Inr (if status cur \<in> set fs
      then Some (apply_opts (now e (Suc (tick w))) to opts cur) else None), v) \<and>
    metrics v = metrics w \<and> ledgerEntries (db v) = ledgerEntries (db w) \<and>
    (\<exists>r. row (db v) i = Some r \<and> r = (if status cur \<in> set fs
      then apply_opts (now e (Suc (tick w))) to opts cur else cur)) \<and>
    (\<forall>j. j \<noteq> i \<longrightarrow> row (db v) j = row (db w) j)"
proof -
  have ev: "uuid e (Suc (tick w)) \<notin> set (map ob_id (outboxEvents (db w)))"
    using assms(3) by (auto simp: fresh_ids_def)
  from assms(2) have sid: "sid cur = i" by (auto dest: row_SomeD)
  show ?thesis
  proof (cases "status cur \<in> set fs")
    case True
    have "transition_tx str t (uuid e (Suc (tick w))) i to opts (db w) =
      Inr (Some (apply_opts t to opts cur), write_transition str t (uuid e (Suc (tick w))) to opts cur (db w))" for str t
      using True assms(2,4) ev by (intro transition_tx_ok) auto
    with True assms(1,2) sid show ?thesis by (simp add: quiet_transition)
  next
    case False
    with assms transition_tx_guarded [OF assms(2,4)] show ?thesis by (simp add: quiet_transition)
  qed
qed

lemma quiet_reorg:
  assumes "quiet e" "row (db w) (sid s) = Some cur" "fresh_ids e w"
  shows "\<exists>v. handleReorg s e w = (Inr (), v) \<and> ledgerEntries (db v) = ledgerEntries (db w) \<and>
    (\<exists>r. row (db v) (sid s) = Some r \<and> status r = reorged (status cur) \<and>
      (status cur = CONFIRMED \<longrightarrow> confirmedBlockHash r = None)) \<and>
    (\<forall>j. j \<noteq> sid s \<longrightarrow> row (db v) j = row (db w) j)"
proof -
  let ?opts = "no_opts\<lparr>expectedFrom := Some [CONFIRMED], o_confirmedBlockHash := Some None,
    o_confirmedBlockNumber := Some None\<rparr>"
  let ?w = "w\<lparr>metrics := (metrics w)\<lparr>m_reorgs := Suc (m_reorgs (metrics w))\<rparr>\<rparr>"
  have "row (db ?w) (sid s) = Some cur" "fresh_ids e ?w" "expectedFrom ?opts = Some [CONFIRMED]"
    using assms(2,3) by (simp_all add: fresh_ids_def)
  from quiet_guarded [OF assms(1) this, of SUBMITTED] obtain x v where
    v: "transition (sid s) SUBMITTED ?opts e ?w = (Inr x, v)" "ledgerEntries (db v) = ledgerEntries (db w)"
      "row (db v) (sid s) = Some (if status cur = CONFIRMED
         then apply_opts (now e (Suc (tick w))) SUBMITTED ?opts cur else cur)"
      "\<forall>j. j \<noteq> sid s \<longrightarrow> row (db v) j = row (db w) j"
    by (auto split: if_splits)
  from v(1) have "handleReorg s e w = (Inr (), v)" by (simp add: handleReorg_def run_simps)
  with v(2-4) show ?thesis
    by (cases "status cur = CONFIRMED") (simp_all add: reorged_def apply_opts_def)
qed

text \<open>What \<open>processReceipt\<close> is to have done when it brought a settlement to a status.\<close>

definition brought :: "settlement \<Rightarrow> receipt option \<Rightarrow> world \<Rightarrow> settlement_status \<Rightarrow> (exn + unit) \<times> world \<Rightarrow> bool" where
  "brought s rcpt w st p \<longleftrightarrow> fst p = Inr () \<and>
    (\<exists>r. row (db (snd p)) (sid s) = Some r \<and> status r = st \<and>
      (st = CONFIRMED \<and> status s = SUBMITTED \<longrightarrow>
        confirmedBlockHash r = map_option rc_blockHash rcpt \<and> confirmedBlockNumber r = map_option rc_blockNumber rcpt) \<and>
      (st = SUBMITTED \<and> status s = CONFIRMED \<longrightarrow> confirmedBlockHash r = None)) \<and>
    (booked (db (snd p)) (sid s) \<longleftrightarrow> st = FINAL) \<and>
    (\<forall>j. j \<noteq> sid s \<longrightarrow> row (db (snd p)) j = row (db w) j)"

definition open_status :: "settlement \<Rightarrow> bool" where
  "open_status s \<longleftrightarrow> status s = SUBMITTED \<or> status s = CONFIRMED"

lemma brought_same:
  "row (db w) (sid s) = Some s \<Longrightarrow> \<not> booked (db w) (sid s) \<Longrightarrow> open_status s \<Longrightarrow>
   brought s rcpt w (status s) (Inr (), w\<lparr>tick := k\<rparr>)"
  by (auto simp: brought_def open_status_def)

lemma brought_guarded:
  assumes "quiet e" "row (db w) (sid s) = Some s" "fresh_ids e w" "\<not> booked (db w) (sid s)"
    and "expectedFrom opts = Some fs" "status s \<in> set fs" "to \<noteq> FINAL"
    and "to = CONFIRMED \<Longrightarrow> o_confirmedBlockHash opts = Some (map_option rc_blockHash rcpt) \<and>
      o_confirmedBlockNumber opts = Some (map_option rc_blockNumber rcpt)"
    and "to = SUBMITTED \<Longrightarrow> o_confirmedBlockHash opts = Some None"
  shows "brought s rcpt w to (await (transition (sid s) to opts) (\<lambda>_. ret ()) e w)"
proof -
  from quiet_guarded [OF assms(1-3,5), of to] assms(6) obtain x v where
    v: "transition (sid s) to opts e w = (Inr x, v)" "ledgerEntries (db v) = ledgerEntries (db w)"
    "row (db v) (sid s) = Some (apply_opts (now e (Suc (tick w))) to opts s)"
    "\<forall>j. j \<noteq> sid s \<longrightarrow> row (db v) j = row (db w) j" by auto
  with assms(4,7) booked_cong [OF v(2)] show ?thesis
    using assms(8,9) by (auto simp: brought_def run_simps apply_opts_def)
qed

lemma brought_reorg:
  assumes "quiet e" "row (db w) (sid s) = Some s" "fresh_ids e w" "\<not> booked (db w) (sid s)" "open_status s"
  shows "brought s rcpt w (reorged (status s)) (handleReorg s e w)"
proof -
  obtain v where v: "handleReorg s e w = (Inr (), v)" "ledgerEntries (db v) = ledgerEntries (db w)"
    "\<exists>r. row (db v) (sid s) = Some r \<and> status r = reorged (status s) \<and>
      (status s = CONFIRMED \<longrightarrow> confirmedBlockHash r = None)"
    "\<forall>j. j \<noteq> sid s \<longrightarrow> row (db v) j = row (db w) j"
    using quiet_reorg [OF assms(1-3)] by auto
  with assms(4,5) booked_cong [OF v(2)] show ?thesis
    by (auto simp: brought_def reorged_def open_status_def)
qed

lemma brought_final:
  assumes "quiet e" "row (db w) (sid s) = Some s" "fresh_ids e w" "\<not> booked (db w) (sid s)" "open_status s"
    and "ledger_wf (db w)"
  shows "brought s rcpt w FINAL (finalize s r e w)"
proof -
  obtain v t ev where v: "finalize s r e w = (Inr (), v)"
    "db v = write_transition (decToString (lib e)) t ev FINAL (final_opts s) s (after_booking e s w)"
    using quiet_finalize [OF assms(1,6,2) _ assms(3), of r] assms(5) by (auto simp: open_status_def)
  have "bookings OPERATOR (db v) = bookings OPERATOR (after_booking e s w)"
    by (rule bookings_cong) (simp add: v(2))
  then have "booked (db v) (sid s)"
    using assms(4) by (simp add: booked_def after_booking_def bookings_pair)
  moreover have "row (db v) (sid s) = Some (apply_opts t FINAL (final_opts s) s)"
    "\<forall>j. j \<noteq> sid s \<longrightarrow> row (db v) j = row (db w) j" using assms(2) by (simp_all add: v(2))
  ultimately show ?thesis by (simp add: brought_def v(1))
qed

text \<open>The branches of \<open>processReceipt\<close> and of the verdict once a receipt is there.\<close>

lemma receipt_run:
  assumes "rpc_call (\<lambda>r. getTransactionReceipt r h) e w = (Inr (Some r), v)" "txHash s = Some h" "h \<noteq> []"
  shows "processReceipt s block e w = (if rc_status r = 0 then
        await (transition (sid s) FAILED (no_opts\<lparr>o_failureReason := Some (Some ''REVERTED_ONCHAIN''),
          expectedFrom := Some [SUBMITTED, CONFIRMED]\<rparr>)) (\<lambda>_. ret ()) e v
      else if (case confirmedBlockHash s of Some b \<Rightarrow> b \<noteq> [] \<and> b \<noteq> rc_blockHash r | None \<Rightarrow> False)
      then handleReorg s e v
      else if confirmationsFinal (cfg e) \<le> block - rc_blockNumber r + 1 then finalize s r e v
      else if confirmationsConfirmed (cfg e) \<le> block - rc_blockNumber r + 1 \<and> status s = SUBMITTED then
        await (transition (sid s) CONFIRMED (no_opts\<lparr>o_txHash := Some (txHash s),
          expectedFrom := Some [SUBMITTED], o_confirmedBlockHash := Some (Some (rc_blockHash r)),
          o_confirmedBlockNumber := Some (Some (rc_blockNumber r))\<rparr>)) (\<lambda>_. ret ()) e v
      else (Inr (), v))"
  using assms by (simp add: processReceipt_def run_simps Let_def)

lemma verdict_run:
  "receipt_verdict cf s block (Some r) = (if rc_status r = 0 then FAILED
      else if (case confirmedBlockHash s of Some b \<Rightarrow> b \<noteq> [] \<and> b \<noteq> rc_blockHash r | None \<Rightarrow> False)
      then reorged (status s)
      else if confirmationsFinal cf \<le> block - rc_blockNumber r + 1 then FINAL
      else if confirmationsConfirmed cf \<le> block - rc_blockNumber r + 1 \<and> status s = SUBMITTED then CONFIRMED
      else status s)"
  by (simp add: receipt_verdict_def Let_def split: option.split)

text \<open>All branches together.\<close>

lemma quiet_receipt:
  assumes "quiet e" "ledger_wf (db w)" "fresh_ids e w" "row (db w) (sid s) = Some s"
    and "status s = SUBMITTED \<or> status s = CONFIRMED" "txHash s = Some h" "h \<noteq> []"
    and "getTransactionReceipt (rpc e (Suc (tick w))) h = Inr rcpt" "\<not> booked (db w) (sid s)"
  shows "brought s rcpt (w\<lparr>tick := Suc (Suc (tick w))\<rparr>) (receipt_verdict (cfg e) s block rcpt) (processReceipt s block e w)"
proof -
  let ?w = "w\<lparr>tick := Suc (Suc (tick w))\<rparr>"
  have op: "open_status s" using assms(5) by (simp add: open_status_def)
  have w: "row (db ?w) (sid s) = Some s" "fresh_ids e ?w" "\<not> booked (db ?w) (sid s)" "ledger_wf (db ?w)"
    using assms(2,4,9) fresh_later [OF assms(3), of ?w] by simp_all
  have start: "rpc_call (\<lambda>r. getTransactionReceipt r h) e w = (Inr rcpt, ?w)"
    using assms(1,8) by (simp add: quiet_rpc_call)
  note same = brought_same [OF w(1,3) op, of rcpt "tick ?w"]
  note undone = brought_reorg [OF assms(1) w(1-3) op, of rcpt]
  note final = brought_final [OF assms(1) w(1-3) op w(4), of rcpt]
  show ?thesis
  proof (cases rcpt)
    case None
    with same undone start assms(6,7) show ?thesis
      by (cases "confirmedBlockHash s") (auto simp: processReceipt_def receipt_verdict_def run_simps)
  next
    case (Some r)
    note run = receipt_run [OF start [unfolded Some] assms(6,7), of block]
    have failed: "brought s rcpt ?w FAILED (await (transition (sid s) FAILED (no_opts\<lparr>o_failureReason :=
        Some (Some ''REVERTED_ONCHAIN''), expectedFrom := Some [SUBMITTED, CONFIRMED]\<rparr>)) (\<lambda>_. ret ()) e ?w)"
      using assms(5) by (intro brought_guarded [OF assms(1) w(1-3)]) auto
    have confirmed: "brought s rcpt ?w CONFIRMED (await (transition (sid s) CONFIRMED (no_opts\<lparr>
        o_txHash := Some (txHash s), expectedFrom := Some [SUBMITTED],
        o_confirmedBlockHash := Some (Some (rc_blockHash r)),
        o_confirmedBlockNumber := Some (Some (rc_blockNumber r))\<rparr>)) (\<lambda>_. ret ()) e ?w)" if "status s = SUBMITTED"
      using that Some by (intro brought_guarded [OF assms(1) w(1-3)]) auto
    show ?thesis
      using same undone final failed confirmed unfolding Some run verdict_run by (simp split del: option.split)
  qed
qed

end
