(* ===== verification/ListenerClaims.thy ===== *)
theory ListenerClaims
  imports ListenerSpec SubmissionClaims
begin

text \<open>
  Properties of the chain listener: the verdict on a receipt, and finality.
\<close>

section \<open>Finality\<close>

text \<open>
  C17: Finality completes, once, also after a crash. Without interference, for a settlement whose row is
  SUBMITTED or CONFIRMED, \<open>finalize\<close> leaves the row FINAL and the settlement booked; the ledger grows by its
  entries only if a run cut short before the status change had not written them; and unless it had, the
  available balance is the same as before, what was in flight being now in the ledger.
\<close>

theorem finality_completes:
  assumes "quiet e" "ledger_wf (db w)" "distinct (map sid (settlements (db w)))" "fresh_ids e w"
    and "row (db w) (sid s) = Some cur" "status cur = SUBMITTED \<or> status cur = CONFIRMED"
    and "amount s = amount cur" "micro (amount s)"
  shows "let (res, v) = finalize s rcpt e w in
    res = Inr () \<and> (\<exists>r. row (db v) (sid s) = Some r \<and> status r = FINAL) \<and> booked (db v) (sid s) \<and>
    (if booked (db w) (sid s) then ledgerEntries (db v) = ledgerEntries (db w)
     else bookings OPERATOR (db v) = bookings OPERATOR (db w) @ [(sid s, amount s)] \<and>
       available_of (db v) = available_of (db w))"
proof -
  from assms(5) have sid: "sid cur = sid s" by (auto dest: row_SomeD)
  let ?d = "(db w)\<lparr>ledgerEntries := ledgerEntries (db w) @ booking_pair (now e (Suc (tick w))) (sid s) (amount s)\<rparr>"
  define d where "d = after_booking e s w"
  obtain v t ev where v: "finalize s rcpt e w = (Inr (), v)"
    "d = (if booked (db w) (sid s) then db w else ?d)"
    "db v = write_transition (decToString (lib e)) t ev FINAL (final_opts s) cur d"
    using quiet_finalize [OF assms(1,2,5,6,4), of rcpt] by (auto simp: d_def after_booking_def)
  have row: "row d (sid cur) = Some cur" using assms(5) sid v(2) by simp
  from row sid v(3) obtain r where fin: "row (db v) (sid s) = Some r" "status r = FINAL" by simp
  have led: "ledgerEntries (db v) = ledgerEntries d" by (simp add: v(3))
  then have b: "bookings acc (db v) = bookings acc d" for acc by (rule bookings_cong)
  then have bk: "booked (db v) j = booked d j" for j by (simp add: booked_def)
  show ?thesis
  proof (cases "booked (db w) (sid s)")
    case True
    then have "d = db w" using v(2) by simp
    with True v(1) fin led bk show ?thesis by simp
  next
    case False
    then have d: "d = ?d" using v(2) by simp
    have ops: "bookings OPERATOR (db v) = bookings OPERATOR (db w) @ [(sid s, amount s)]"
      using assms(8) by (simp add: b d bookings_pair dec6_fix)
    moreover have "opening_of (db v) = opening_of (db w)"
      using genesis_entry_pair by (simp add: opening_of_def genesis_entry_def led d)
    ultimately have "operator_balance (db v) = operator_balance (db w) - amount s"
      by (simp add: operator_balance_def)
    moreover have "sum_in d sts = sum_in (db w) sts" for sts by (simp add: d sum_in_def by_statuses_def)
    moreover have "distinct (map sid (settlements d))" using assms(3) by (simp add: d)
    note sum_in_write_transition [OF this row, of "decToString (lib e)" t ev FINAL "final_opts s" IN_FLIGHT_STATUSES]
    ultimately have "available_of (db v) = available_of (db w)"
      using assms(6,7) by (auto simp: available_of_def v(3) IN_FLIGHT_STATUSES_def)
    moreover have "booked (db v) (sid s)" using ops by (simp add: booked_def)
    ultimately show ?thesis using False v(1) fin ops by simp
  qed
qed

lemma finality_completes_witness:
  "let (res, v) = finalize sent_row demo_receipt calm_env (w_sent\<lparr>tick := 40\<rparr>) in
     available_of (db v) = available_of db_sent \<and> booked (db v) ''s''"
proof -
  have wf: "ledger_wf db_sent" by (rule inv_ledger) simp
  have fresh: "fresh_ids calm_env (w_sent\<lparr>tick := 40\<rparr>)"
    by (auto simp: fresh_ids_def db_stages demo_uuid_def w_sent_def)
  have r: "row db_sent (sid sent_row) = Some sent_row" "status sent_row = SUBMITTED" "sid sent_row = ''s''"
    "micro (amount sent_row)" "\<not> booked db_sent ''s''" "distinct (map sid (settlements db_sent))"
    using micro_of_int [of 40000000] by (simp_all add: row_def booked_def bookings_def db_stages)
  from finality_completes [of calm_env "w_sent\<lparr>tick := 40\<rparr>" sent_row sent_row demo_receipt] wf fresh r
  show ?thesis by (simp split: prod.splits)
qed

section \<open>The verdict on a receipt\<close>

text \<open>
  C18: The chain decides. Without interference, \<open>processReceipt\<close> on a row it has just read brings an open
  settlement exactly to the status the receipt calls for: FAILED for a revert, back to SUBMITTED when the
  block it was confirmed in is gone or another, FINAL at the final depth and not below it, CONFIRMED at
  the first depth with the block recorded, and no change otherwise. The ledger gets the settlement exactly
  when it becomes FINAL; no other row changes.
\<close>

theorem receipt_decides:
  assumes "quiet e" "ledger_wf (db w)" "fresh_ids e w" "row (db w) (sid s) = Some s"
    and "status s = SUBMITTED \<or> status s = CONFIRMED" "txHash s = Some h" "h \<noteq> []"
    and "getTransactionReceipt (rpc e (Suc (tick w))) h = Inr rcpt" "\<not> booked (db w) (sid s)"
  shows "let (res, v) = processReceipt s block e w; st = receipt_verdict (cfg e) s block rcpt in res = Inr () \<and>
    (\<exists>r. row (db v) (sid s) = Some r \<and> status r = st \<and>
      (st = CONFIRMED \<and> status s = SUBMITTED \<longrightarrow>
        confirmedBlockHash r = map_option rc_blockHash rcpt \<and> confirmedBlockNumber r = map_option rc_blockNumber rcpt) \<and>
      (st = SUBMITTED \<and> status s = CONFIRMED \<longrightarrow> confirmedBlockHash r = None)) \<and>
    (booked (db v) (sid s) \<longleftrightarrow> st = FINAL) \<and> (\<forall>j. j \<noteq> sid s \<longrightarrow> row (db v) j = row (db w) j)"
  using quiet_receipt [OF assms, of block] by (auto simp: brought_def Let_def split: prod.split)

lemma receipt_decides_witness:
  "receipt_verdict demo_cfg sent_row 13 (Some demo_receipt) = CONFIRMED \<and>
   (\<exists>r. row (db (snd (processReceipt sent_row 13 calm_env (w_sent\<lparr>tick := 40\<rparr>)))) ''s'' = Some r \<and>
     status r = CONFIRMED \<and> confirmedBlockHash r = Some ''B'')"
proof -
  have wf: "ledger_wf db_sent" by (rule inv_ledger) simp
  have fresh: "fresh_ids calm_env (w_sent\<lparr>tick := 40\<rparr>)"
    by (auto simp: fresh_ids_def db_stages demo_uuid_def w_sent_def)
  have r: "row db_sent (sid sent_row) = Some sent_row" "status sent_row = SUBMITTED" "sid sent_row = ''s''"
    "txHash sent_row = Some ''H''" "\<not> booked db_sent ''s''"
    by (simp_all add: row_def booked_def bookings_def db_stages)
  have verdict: "receipt_verdict demo_cfg sent_row 13 (Some demo_receipt) = CONFIRMED"
    by (simp add: receipt_verdict_def demo_cfg_def demo_receipt_def db_stages)
  with receipt_decides [of calm_env "w_sent\<lparr>tick := 40\<rparr>" sent_row "''H''" "Some demo_receipt" 13] wf fresh r
  show ?thesis by (auto simp: demo_rpc_def demo_receipt_def split: prod.splits)
qed

end
