(* ===== verification/TerminalClaims.thy ===== *)
theory TerminalClaims
  imports ListenerClaims
begin

text \<open>
  Which tasks respect a terminal status: all but the relayer's, under any interference that does. The
  rely logic is used with the settlement's status as the invariant.
\<close>

definition frozen :: "string \<Rightarrow> settlement_status \<Rightarrow> database \<Rightarrow> bool" where
  "frozen i st d \<longleftrightarrow> (\<exists>r. row d i = Some r \<and> status r = st)"

lemma frozen_guarded:
  assumes "frozen i st d" "transition_tx str t ev j to opts d = Inr (res, d')"
    and "j \<noteq> i \<or> (\<exists>fs. expectedFrom opts = Some fs \<and> st \<notin> set fs)"
  shows "frozen i st d'"
  using assms(2)
proof (cases rule: transition_tx_cases)
  case guarded
  with assms(1) show ?thesis by simp
next
  case (moved cur)
  from moved(1) have "sid cur = j" by (auto dest: row_SomeD)
  with assms(1,3) moved(1,2,5) show ?thesis by (auto simp: frozen_def)
qed

lemma guar_guarded:
  assumes "stable P" "case expectedFrom opts of None \<Rightarrow> False | Some fs \<Rightarrow> st \<notin> set fs"
  shows "guar (db_only (frozen i st)) P (transition j to opts)"
  unfolding transition_def using assms
  by (intro guar_db_tx) (auto intro: frozen_guarded evolve_transition split: option.splits)

lemma guar_elsewhere:
  assumes "stable P" "j \<noteq> i"
  shows "guar (db_only (frozen i st)) P (transition j to opts)"
  unfolding transition_def using assms
  by (intro guar_db_tx) (auto intro: frozen_guarded evolve_transition)

lemma frozen_cong: "settlements d' = settlements d \<Longrightarrow> frozen i st d' = frozen i st d"
  by (simp add: frozen_def row_def)

lemma frozen_insert_entry: "insert_entry l d = Inr (u, d') \<Longrightarrow> frozen i st d' = frozen i st d"
  by (auto simp: insert_entry_def intro!: frozen_cong split: if_splits)

lemma frozen_book: "book_tx t j a d = Inr (u, d') \<Longrightarrow> frozen i st d' = frozen i st d"
  by (auto simp: book_tx_def split: sum.splits prod.splits dest!: frozen_insert_entry)

lemma frozen_create: "create_tx t new instr a x s d = Inr (r, d') \<Longrightarrow> frozen i st d \<Longrightarrow> frozen i st d' \<and> new \<noteq> i"
proof -
  assume tx: "create_tx t new instr a x s d = Inr (r, d')" and fr: "frozen i st d"
  from tx have "new \<notin> sid ` set (settlements d)" by (rule create_tx_cases)
  moreover from fr have "i \<in> sid ` set (settlements d)" by (auto simp: frozen_def dest: row_SomeD)
  ultimately show ?thesis using fr row_create [OF tx] by (auto simp: frozen_def)
qed

lemma frozen_snapshot: "snapshot_tx t new oper a d = Inr (u, d') \<Longrightarrow> frozen i st d \<Longrightarrow> frozen i st d'"
  by (auto simp: snapshot_tx_def upsert_genesis_def split: option.splits sum.splits prod.splits
      dest!: frozen_insert_entry dest: frozen_create)

lemma guar_book_frozen: "stable P \<Longrightarrow> guar (db_only (frozen i st)) P (recordSettlementFinalized j a)"
  unfolding recordSettlementFinalized_def
  by (intro hoare_intros guar_db_tx) (auto intro: evolve_book simp: frozen_book)


lemma guar_receipt_frozen:
  assumes "terminal_status st" "stable P"
  shows "guar (db_only (frozen i st)) P (processReceipt s b)"
proof -
  have st: "st \<noteq> SUBMITTED" "st \<noteq> CONFIRMED" using assms(1) by (auto simp: terminal_status_def)
  have "guar (db_only (frozen i st)) P (handleReorg s)"
    unfolding handleReorg_def using assms(2) st by (intro hoare_intros guar_guarded) auto
  moreover have "guar (db_only (frozen i st)) P (finalize s r)" for r
    unfolding finalize_def using assms(2) st
    by (intro hoare_intros guar_book_frozen guar_guarded) auto
  ultimately show ?thesis
    unfolding processReceipt_def Let_def using assms(2) st
    by (intro hoare_intros guar_guarded) auto
qed

lemma guar_poll_frozen: "terminal_status st \<Longrightarrow> guar (db_only (frozen i st)) (\<lambda>_. True) pollConfirmations"
  unfolding pollConfirmations_def findByStatuses_def getCurrentBlock_def
  by (intro hoare_intros guar_receipt_frozen) auto

lemma guar_byTxHash_frozen: "terminal_status st \<Longrightarrow> guar (db_only (frozen i st)) (\<lambda>_. True) (processByTxHash h)"
  unfolding processByTxHash_def findByTxHash_def getCurrentBlock_def
  by (intro hoare_intros guar_receipt_frozen) auto

lemma hoare_insert_elsewhere:
  "hoare (db_only (frozen i st)) (\<lambda>_. True) (insert_received dto a) (\<lambda>x d. \<forall>s. x = Inr s \<longrightarrow> sid s \<noteq> i)"
  unfolding insert_received_def
proof (rule hoare_tryCatch)
  have "hoare (db_only (frozen i st)) (\<lambda>_. True) (state_create (d_instructionId dto) (d_toAddress dto) a (Some RECEIVED))
      (\<lambda>s d. sid s \<noteq> i)"
    unfolding state_create_def
  proof (rule hoare_db_tx)
    fix e n d s d'
    assume fr: "frozen i st d" and tx: "create_tx (now e n) (uuid e n) (d_instructionId dto) (d_toAddress dto) a
      (Some RECEIVED) d = Inr (s, d')"
    from tx have "sid s = uuid e n" by (rule create_tx_cases)
    with frozen_create [OF tx fr] show "frozen i st d' \<and> evolve d d' \<and> sid s \<noteq> i"
      using tx by (auto intro: evolve_create)
  qed (auto simp: stable_def)
  then show "hoare (db_only (frozen i st)) (\<lambda>_. True) (await (state_create (d_instructionId dto) (d_toAddress dto) a
      (Some RECEIVED)) (\<lambda>s. ret (Inr s))) (\<lambda>x d. \<forall>s. x = Inr s \<longrightarrow> sid s \<noteq> i)"
    by (rule hoare_await [OF _ hoare_ret]) auto
  fix err
  show "hoare (db_only (frozen i st)) (\<lambda>_. True) (if isUniqueViolation err
      then await (findByInstructionId (d_instructionId dto)) (\<lambda>raced. case raced of
        Some s \<Rightarrow> ret (Inl s) | None \<Rightarrow> throw err)
      else throw err) (\<lambda>x d. \<forall>s. x = Inr s \<longrightarrow> sid s \<noteq> i)"
    unfolding findByInstructionId_def
    by (auto intro!: hoare_await [OF hoare_db_read [where Q = "\<lambda>_ _. True"]] hoare_ret
        split: option.split simp: hoare_throw)
qed simp

lemma guar_create_frozen: "guar (db_only (frozen i st)) (\<lambda>_. True) (create provider dto)"
proof -
  have enq: "guar (db_only (frozen i st)) (\<lambda>_. True) (enqueueId j)" for j
    unfolding enqueueId_def by (intro hoare_intros) (simp add: updateQueueDepth_def)
  have scr: "guar (db_only (frozen i st)) (\<lambda>_. True) (screen provider dto s)" if "sid s \<noteq> i" for s
    unfolding screen_def enqueue_def Let_def using that
    by (intro hoare_intros guar_elsewhere enq) auto
  have tail: "guar (db_only (frozen i st)) (\<lambda>_. True) (await (insert_received dto a) (\<lambda>inserted. case inserted of
      Inl raced \<Rightarrow> ret \<lparr>cr_settlement = raced, cr_created = False\<rparr>
    | Inr s \<Rightarrow> screen provider dto s))" for a
  proof (rule guar_await_dep [OF _ hoare_insert_elsewhere])
    fix x
    show "guar (db_only (frozen i st)) (\<lambda>d. True \<and> (\<forall>s. x = Inr s \<longrightarrow> sid s \<noteq> i)) (case x of
        Inl raced \<Rightarrow> ret \<lparr>cr_settlement = raced, cr_created = False\<rparr> | Inr s \<Rightarrow> screen provider dto s)"
    proof (cases x)
      case (Inr s)
      then show ?thesis
        using scr [of s] by (cases "sid s = i") (auto simp: guar_def hoare_def)
    qed (simp add: guar_ret)
  qed simp
  show ?thesis
    unfolding create_def findByInstructionId_def availableBalance_def sumByStatuses_def
    by (intro hoare_intros guar_operatorBalance guar_newDecimal tail) auto
qed

lemma guar_opening_frozen: "guar (db_only (frozen i st)) (\<lambda>_. True) ensureOpeningSnapshot"
  unfolding ensureOpeningSnapshot_def getChainBalance_def
  by (intro hoare_intros guar_newDecimal guar_db_tx) (auto intro: evolve_snapshot frozen_snapshot)

lemma guar_reconcile_frozen: "guar (db_only (frozen i st)) (\<lambda>_. True) reconcile"
proof -
  have "frozen i st d'" if "insert_run rr d = Inr (rr1, d')" "frozen i st d" for rr d rr1 d'
    using that by (auto simp: insert_run_def Let_def frozen_def row_def)
  then show ?thesis
    unfolding reconcile_def computeMinedPending_def findByStatuses_def getChainBalance_def Let_def
    by (intro hoare_intros guar_operatorBalance guar_newDecimal guar_sum_mined guar_db_tx)
       (auto intro: evolve_run simp: count_run_def Let_def)
qed

lemma guar_relay_frozen: "guar (db_only (frozen i st)) (\<lambda>_. True) (relay broker)"
proof -
  have "frozen i st d'" if "mark_tx t j d = Inr (u, d')" "frozen i st d" for t j d u d'
    using that by (auto simp: mark_tx_def frozen_def row_def split: if_splits)
  then have "guar (db_only (frozen i st)) (\<lambda>_. True) (db_tx (\<lambda>e n. mark_tx (now e n) j))" for j
    by (intro guar_db_tx) (auto intro: evolve_mark)
  moreover have "guar (db_only (frozen i st)) (\<lambda>_. True) (publish broker ev)" for ev
    unfolding publish_def by (intro hoare_intros guar_pure) (auto split: option.split)
  ultimately have "guar (db_only (frozen i st)) (\<lambda>_. True) (relay_row broker ev)" for ev
    unfolding relay_row_def by (intro guar_andThen) auto
  then show ?thesis unfolding relay_def by (intro hoare_intros) auto
qed

text \<open>The tasks of the relayer.\<close>

fun relayer_task :: "task \<Rightarrow> bool" where
  "relayer_task Bootstrap = True"
| "relayer_task (Worker fuel) = True"
| "relayer_task Sweep = True"
| "relayer_task _ = False"

text \<open>
  C15: A terminal status is respected, also by a task that read the settlement before. A settlement
  that is FINAL, FAILED or REJECTED_COMPLIANCE keeps that status through every task but the relayer's
  (the poll, chain events, submissions, reconciliation, the outbox relay, the boot snapshot, the
  queries, DvP deals, shutdown); and the handler with which the poll and a chain event act on a row
  keeps it too, whatever row it was given, so also one read before the settlement became
  terminal. Both hold under any interference that respects the status, with outages and a crash at any await.
\<close>

theorem terminal_respected:
  assumes "terminal_status st" "\<not> relayer_task t" "env_ok (db_only (frozen i st)) e" "frozen i st (db w)"
  shows "(\<exists>r. row (db (snd (run_task t e w))) i = Some r \<and> status r = st) \<and>
    (\<exists>r. row (db (snd (processReceipt stale block e w))) i = Some r \<and> status r = st)"
proof -
  have "guar (db_only (frozen i st)) (\<lambda>_. True) (run_task t)"
    using assms(1,2)
    by (cases t)
       (auto simp: discard_result_def relayer_onModuleDestroy_def onTransfer_def
          intro!: guar_await guar_ret guar_modify guar_option guar_if guar_opening_frozen guar_poll_frozen
            guar_byTxHash_frozen guar_create_frozen guar_reconcile_frozen guar_relay_frozen guar_surface)
  note run = guarD(1) [OF this assms(3,4) TrueI]
  have "guar (db_only (frozen i st)) (\<lambda>_. True) (processReceipt stale block)"
    using assms(1) by (rule guar_receipt_frozen) simp
  from run guarD(1) [OF this assms(3,4) TrueI] show ?thesis by (simp add: frozen_def)
qed

text \<open>
  At its instance the settlement is FINAL. The database fails during the poll; the handler is given the
  row as it was while SUBMITTED.
\<close>

lemma terminal_respected_witness:
  "let e = calm_env\<lparr>dbErr := (\<lambda>n. if n = 50 then Some (PrismaKnown ''P1001'' ''down'') else None)\<rparr> in
   status sent_row = SUBMITTED \<and> (\<exists>r. row (db (snd (run_task Poll e w_final))) ''s'' = Some r \<and> status r = FINAL) \<and>
   (\<exists>r. row (db (snd (processReceipt sent_row 9 e w_final))) ''s'' = Some r \<and> status r = FINAL)"
proof -
  let ?e = "calm_env\<lparr>dbErr := (\<lambda>n. if n = 50 then Some (PrismaKnown ''P1001'' ''down'') else None)\<rparr>"
  have "env_ok (db_only (frozen ''s'' FINAL)) ?e" by (simp add: env_ok_def demo_env_def)
  moreover have "frozen ''s'' FINAL (db w_final)" by (simp add: frozen_def row_def db_stages)
  ultimately show ?thesis
    using terminal_respected [of FINAL Poll "''s''" ?e w_final sent_row 9]
    by (simp add: terminal_status_def Let_def) (simp add: sent_row_def approved_row_def)
qed

end
