(* ===== verification/ReconSpec.thy ===== *)
theory ReconSpec
  imports SubmissionSpec Invariants
begin

text \<open>
  Reconciliation evaluated when nothing interferes: the sum of the mined settlements, and the verdict of
  a run in terms of the numbers it read.
\<close>


text \<open>
  What the chain knows of the open settlements: \<open>seen\<close> answers receipts by hash. A mined settlement has a
  receipt of success.
\<close>

definition mined :: "(string \<Rightarrow> receipt option) \<Rightarrow> settlement \<Rightarrow> bool" where
  "mined seen s \<longleftrightarrow> (\<exists>h r. txHash s = Some h \<and> h \<noteq> [] \<and> seen h = Some r \<and> rc_status r = 1)"

definition mined_pending :: "(string \<Rightarrow> receipt option) \<Rightarrow> database \<Rightarrow> rat" where
  "mined_pending seen d = (\<Sum>s \<leftarrow> filter (mined seen) (by_statuses d PENDING_STATUSES). amount s)"

text \<open>Numbers the decimal library keeps exactly.\<close>

definition small :: "rat \<Rightarrow> bool" where
  "small x \<longleftrightarrow> micro x \<and> \<bar>x\<bar> < 100000000000000"

lemma small_dround: "dround_ok l \<Longrightarrow> small x \<Longrightarrow> dround l x = x"
  by (simp add: dround_ok_def small_def)

lemma quiet_sum_mined:
  assumes q: "quiet e" and l: "dround_ok (lib e)"
    and seen: "\<And>k h. getTransactionReceipt (rpc e k) h = Inr (seen h)"
    and pos: "\<And>s. s \<in> set ss \<Longrightarrow> 0 \<le> amount s \<and> micro (amount s)"
    and acc: "0 \<le> acc" "micro acc" "acc + (\<Sum>s \<leftarrow> ss. amount s) < 100000000000000"
  shows "\<exists>k. sum_mined ss acc e w = (Inr (acc + (\<Sum>s \<leftarrow> filter (mined seen) ss. amount s)), w\<lparr>tick := k\<rparr>)"
  using pos acc
proof (induction ss arbitrary: acc w)
  case Nil
  show ?case by (rule exI [of _ "tick w"]) (simp add: run_simps)
next
  case (Cons s ss)
  have s: "0 \<le> amount s" "micro (amount s)" using Cons.prems(1) by simp_all
  have rest: "0 \<le> (\<Sum>s \<leftarrow> ss. amount s)"
    using Cons.prems(1) by (intro sum_list_nonneg) auto
  have bound: "acc + (\<Sum>s \<leftarrow> ss. amount s) < 100000000000000"
    using Cons.prems(4) s(1) by simp
  have skip: "\<exists>k. sum_mined ss acc e v = (Inr (acc + (\<Sum>s \<leftarrow> filter (mined seen) ss. amount s)), v\<lparr>tick := k\<rparr>)" for v
    using Cons.prems(1-3) bound by (intro Cons.IH) auto
  have take_it: "\<exists>k. sum_mined ss (acc + amount s) e v =
      (Inr (acc + amount s + (\<Sum>s \<leftarrow> filter (mined seen) ss. amount s)), v\<lparr>tick := k\<rparr>)" for v
    using Cons.prems s by (intro Cons.IH) (auto simp: add.assoc)
  have "small (acc + amount s)"
    using Cons.prems(2-4) s rest by (simp add: small_def)
  then have exact: "dround (lib e) (acc + amount s) = acc + amount s" by (rule small_dround [OF l])
  let ?v = "w\<lparr>tick := Suc (Suc (tick w))\<rparr>"
  show ?case
  proof (cases "txHash s = None \<or> txHash s = Some []")
    case True
    then have "\<not> mined seen s" by (auto simp: mined_def)
    with True skip [of w] show ?thesis by auto
  next
    case False
    then obtain h where h: "txHash s = Some h" "h \<noteq> []" by auto
    have run: "sum_mined (s # ss) acc e w = sum_mined ss
        (case seen h of Some r \<Rightarrow> if rc_status r = 1 then acc + amount s else acc | None \<Rightarrow> acc) e ?v"
      using h q exact by (simp add: run_simps quiet_rpc_call seen split: option.split)
    have m: "mined seen s \<longleftrightarrow> (\<exists>r. seen h = Some r \<and> rc_status r = 1)" using h by (simp add: mined_def)
    show ?thesis
    proof (cases "mined seen s")
      case True
      with m run take_it [of ?v] show ?thesis by (auto simp: add.assoc)
    next
      case False
      with m run skip [of ?v] show ?thesis by (auto split: option.split)
    qed
  qed
qed

section \<open>One run\<close>

lemma quiet_reconcile:
  assumes "quiet e" "ledger_wf (db w)" "dround_ok (lib e)" "exact_ledger (lib e) (db w)"
    and "\<And>k h. getTransactionReceipt (rpc e k) h = Inr (seen h)"
    and "\<And>k. balanceOf (rpc e k) = Inr raw"
    and "newDecimal (lib e) (formatUnits (lib e) raw (decimals w)) = Some chain" "micro chain"
    and "mset (scan e (by_statuses (db w) PENDING_STATUSES)) = mset (by_statuses (db w) PENDING_STATUSES)"
    and "\<And>s. s \<in> set (by_statuses (db w) PENDING_STATUSES) \<Longrightarrow> 0 \<le> amount s \<and> micro (amount s)"
    and "sum_in (db w) PENDING_STATUSES < 100000000000000"
    and "\<bar>operator_balance (db w) - mined_pending seen (db w)\<bar> < 100000000000000"
    and "\<bar>operator_balance (db w) - mined_pending seen (db w) - chain\<bar> < 100000000000000"
  shows "let (res, v) = reconcile e w in \<exists>run. res = Inr run \<and>
    (rr_status run = MATCHED \<longleftrightarrow> operator_balance (db w) - mined_pending seen (db w) = chain) \<and>
    ledgerBalance run = operator_balance (db w) \<and> pendingAmount run = mined_pending seen (db w) \<and>
    chainBalance run = chain \<and> diff run = operator_balance (db w) - mined_pending seen (db w) - chain \<and>
    db v = (db w)\<lparr>reconciliationRuns := reconciliationRuns (db w) @ [run]\<rparr>"
proof -
  let ?rows = "by_statuses (db w) PENDING_STATUSES"
  let ?scan = "scan e ?rows"
  let ?L = "operator_balance (db w)" and ?P = "mined_pending seen (db w)"
  have sets: "set ?scan = set ?rows" using assms(9) by (metis set_mset_mset)
  have sums: "(\<Sum>s \<leftarrow> ?scan. amount s) = sum_in (db w) PENDING_STATUSES"
    unfolding sum_in_sum_list by (metis assms(9) mset_map sum_mset_sum_list)
  have P: "(\<Sum>s \<leftarrow> filter (mined seen) ?scan. amount s) = ?P"
    unfolding mined_pending_def by (metis assms(9) mset_map mset_filter sum_mset_sum_list)
  have P': "micro ?P" unfolding mined_pending_def using assms(10) by (intro micro_sum_list) auto
  have L: "micro ?L" using assms(2) by (rule balance_micro)
  let ?w1 = "w\<lparr>tick := tick w + 6\<rparr>"
  have ledger: "getOperatorBalance e w = (Inr ?L, ?w1)" by (rule quiet_operatorBalance [OF assms(1,2,4)])
  have chain: "getChainBalance e ?w1 = (Inr chain, w\<lparr>tick := tick w + 8\<rparr>)"
    using assms(1,6,7) by (simp add: getChainBalance_def newDecimal_io_def run_simps quiet_rpc_call)
  obtain k where k: "sum_mined ?scan 0 e (w\<lparr>tick := tick w + 10\<rparr>) = (Inr ?P, w\<lparr>tick := k\<rparr>)"
    using quiet_sum_mined [OF assms(1,3,5), of ?scan 0 "w\<lparr>tick := tick w + 10\<rparr>"] assms(10,11) sets sums P by auto
  have pend: "computeMinedPending e (w\<lparr>tick := tick w + 8\<rparr>) = (Inr ?P, w\<lparr>tick := k\<rparr>)"
    using assms(1) k by (simp add: computeMinedPending_def findByStatuses_def run_simps quiet_db_read add.commute [of "tick w"])
  have d1: "dround (lib e) (?L - ?P) = ?L - ?P"
    using L P' assms(12) by (intro small_dround [OF assms(3)]) (simp add: small_def)
  have d2: "dround (lib e) (?L - ?P - chain) = ?L - ?P - chain"
    using L P' assms(8,13) by (intro small_dround [OF assms(3)]) (simp add: small_def)
  have eps: "\<bar>?L - ?P - chain\<bar> < EPSILON \<longleftrightarrow> ?L - ?P = chain"
    using micro_small_zero [of "?L - ?P - chain"] L P' assms(8) by (auto simp: EPSILON_def)
  have "dec6 ?L = ?L" "dec6 ?P = ?P" "dec6 chain = chain" "dec6 (?L - ?P - chain) = ?L - ?P - chain"
    using L P' assms(8) by (simp_all add: dec6_fix)
  with assms(1) eps show ?thesis
    by (simp add: reconcile_def run_simps ledger chain pend d1 d2 quiet_db_tx insert_run_def Let_def count_run_def)
qed

end
