(* ===== verification/ReconClaims.thy ===== *)
theory ReconClaims
  imports ReconSpec ListenerClaims
begin

text \<open>Properties of reconciliation.\<close>

section \<open>Reconciliation\<close>

text \<open>
  Reconciliation tells the truth about what it read. Without interference, with receipts that stay as
  they are, a chain balance of whole micro-units and amounts within the library's precision, \<open>run\<close> reports
  MATCHED exactly when the ledger's balance less the mined but unfinished settlements equals the chain's
  balance, MISMATCH otherwise; it stores one run with the three numbers and changes nothing else.
\<close>

theorem reconciliation_verdict:
  assumes "quiet e" "ledger_wf (db w)" "dround_ok (lib e)" "exact_ledger (lib e) (db w)"
    and "\<And>k h. getTransactionReceipt (rpc e k) h = Inr (seen h)"
    and "\<And>k. balanceOf (rpc e k) = Inr raw"
    and "newDecimal (lib e) (formatUnits (lib e) raw (decimals w)) = Some chain" "micro chain"
    and "mset (scan e (by_statuses (db w) PENDING_STATUSES)) = mset (by_statuses (db w) PENDING_STATUSES)"
    and "\<And>s. s \<in> set (by_statuses (db w) PENDING_STATUSES) \<Longrightarrow> 0 \<le> amount s \<and> micro (amount s)"
    and "sum_in (db w) PENDING_STATUSES < 100000000000000"
    and "\<bar>operator_balance (db w) - mined_pending seen (db w)\<bar> < 100000000000000"
    and "\<bar>operator_balance (db w) - mined_pending seen (db w) - chain\<bar> < 100000000000000"
  shows "let (res, v) = reconcile e w in \<exists>run. res = Inr run \<and>
    (rr_status run = MATCHED \<longleftrightarrow> operator_balance (db w) - mined_pending seen (db w) = chain) \<and>
    ledgerBalance run = operator_balance (db w) \<and> pendingAmount run = mined_pending seen (db w) \<and>
    chainBalance run = chain \<and> diff run = operator_balance (db w) - mined_pending seen (db w) - chain \<and>
    db v = (db w)\<lparr>reconciliationRuns := reconciliationRuns (db w) @ [run]\<rparr>"
  using assms by (rule quiet_reconcile)

definition settled_node :: "env" where
  "settled_node = demo_env (\<lambda>_. demo_rpc\<lparr>balanceOf := Inr 60000000\<rparr>)"

lemma reconciliation_verdict_witness:
  "let (res, v) = reconcile settled_node w_sent in \<exists>run. res = Inr run \<and> rr_status run = MATCHED \<and> pendingAmount run = 40"
proof -
  have wf: "ledger_wf (db w_sent)" by (simp add: inv_ledger)
  have rows: "by_statuses db_sent PENDING_STATUSES = [sent_row]" "amount sent_row = 40" "operator_balance db_sent = 100"
    "mined (\<lambda>_. Some demo_receipt) sent_row"
    by (simp_all add: by_statuses_def PENDING_STATUSES_def operator_balance_def opening_of_def genesis_entry_def
        bookings_def mined_def demo_receipt_def db_stages)
  then have p: "mined_pending (\<lambda>_. Some demo_receipt) db_sent = 40" "sum_in db_sent PENDING_STATUSES = 40"
    by (simp_all add: mined_pending_def sum_in_sum_list)
  have "exact_ledger demo_lib (db w_sent)" by (simp add: exact_ledger_def)
  moreover have "micro 60" "micro 40" using micro_of_int [of 60000000] micro_of_int [of 40000000] by simp_all
  ultimately show ?thesis
    using reconciliation_verdict [of settled_node w_sent "\<lambda>_. Some demo_receipt" 60000000 60] wf p rows
    by (auto simp: settled_node_def demo_rpc_def split: prod.splits)
qed

definition db_half :: database where
  "db_half = db_sent\<lparr>ledgerEntries := ledgerEntries db_open @ booking_pair 43 ''s'' 40\<rparr>"

lemma half_run: "db (snd (run_task Poll (calm_env\<lparr>crash := (\<lambda>n. n = 44)\<rparr>) w_sent)) = db_half"
  by (simp add: db_half_def w_sent_def w_ready_def w_open_def boot_world_def
      db_stages pollConfirmations_def getCurrentBlock_def processReceipt_def finalize_def Let_def
      rpc_call_def db_read_def db_tx_def run_tx_def yield_def
      demo_env_def demo_simps state_simps ledger_simps)

text \<open>
  A settlement that is booked but not yet FINAL counts twice. When the process died between the
  booking and the status change, the ledger has the amount already and \<open>computeMinedPending\<close> subtracts it
  again: reconciliation reports a MISMATCH of the amount although ledger and chain agree.
\<close>

theorem half_final_mismatch:
  "let d = db (snd (run_task Poll (calm_env\<lparr>crash := (\<lambda>n. n = 44)\<rparr>) w_sent));
       (res, v) = reconcile settled_node (boot_world ''op'' d) in
     operator_balance d = 60 \<and> fst (getChainBalance settled_node (boot_world ''op'' d)) = Inr 60 \<and>
     (\<exists>run. res = Inr run \<and> rr_status run = MISMATCH \<and> diff run = -40)"
proof -
  have m: "dec6 20 = 20" "dec6 (- 40) = - 40"
    using dec6_micro [of 20000000] dec6_micro [of "-40000000"] by simp_all
  have "operator_balance db_half = 60"
    by (simp add: operator_balance_def bookings_def db_half_def db_stages ledger_simps)
  then show ?thesis
    unfolding half_run
    by (simp add: m settled_node_def db_half_def db_stages boot_world_def reconcile_def getChainBalance_def
        newDecimal_io_def computeMinedPending_def PENDING_STATUSES_def insert_run_def Let_def EPSILON_def
        demo_simps state_simps ledger_simps)
qed

end
