(* ===== verification/OutboxClaims.thy ===== *)
theory OutboxClaims
  imports Scenario Outbox
begin

text \<open>Properties of the outbox relay: which events a tick takes, publishes and marks,
  and what the binding without a broker does to them.\<close>

section \<open>The batch\<close>

text \<open>
  The batch is the oldest unpublished events. It has at most fifty, in order of creation, each an unpublished
  event of the table and no more often than there, and every unpublished event outside it is at least as
  new as each one in it, and left out only when the batch is full.
\<close>

definition unpublished :: "database \<Rightarrow> outbox_event list" where
  "unpublished d = filter (\<lambda>o1. ob_publishedAt o1 = None) (outboxEvents d)"

lemma batch_oldest:
  "length (batch d) \<le> 50 \<and> sorted (map ob_createdAt (batch d)) \<and> mset (batch d) \<subseteq># mset (unpublished d) \<and>
    (\<forall>o1 \<in> set (unpublished d). o1 \<notin> set (batch d) \<longrightarrow>
      length (batch d) = 50 \<and> (\<forall>o2 \<in> set (batch d). ob_createdAt o2 \<le> ob_createdAt o1))"
proof -
  let ?s = "sort_key ob_createdAt (unpublished d)"
  have b: "batch d = take 50 ?s" by (simp add: batch_def unpublished_def)
  have split: "?s = batch d @ drop 50 ?s" by (simp add: b)
  have sorted: "sorted (map ob_createdAt (batch d @ drop 50 ?s))" by (simp only: split [symmetric] sorted_sort_key)
  have "mset (unpublished d) = mset (batch d) + mset (drop 50 ?s)"
    by (metis split mset_append mset_sort)
  then have sub: "mset (batch d) \<subseteq># mset (unpublished d)" by simp
  have rest: "length (batch d) = 50 \<and> (\<forall>o2 \<in> set (batch d). ob_createdAt o2 \<le> ob_createdAt o1)"
    if "o1 \<in> set (unpublished d)" "o1 \<notin> set (batch d)" for o1
  proof -
    from that have "o1 \<in> set ?s" by simp
    with that(2) have r: "o1 \<in> set (drop 50 ?s)" using split by (metis Un_iff set_append)
    then have "50 < length ?s" by (cases "50 < length ?s") auto
    then have "length (batch d) = 50" by (simp add: b)
    with r sorted show ?thesis by (auto simp: sorted_append)
  qed
  have "sorted (map ob_createdAt (batch d))" using sorted unfolding map_append sorted_append by blast
  moreover have "length (batch d) \<le> 50" by (simp add: b)
  ultimately show ?thesis using rest sub by blast
qed

lemma batch_member: "o1 \<in> set (batch d) \<Longrightarrow> o1 \<in> set (outboxEvents d) \<and> ob_publishedAt o1 = None"
  unfolding batch_def using set_take_subset by fastforce

section \<open>A tick without interference\<close>

text \<open>What a tick does to the table when it delivers \<open>acc\<close>: these events are marked, nothing else changes.\<close>

definition marked :: "outbox_event list \<Rightarrow> database \<Rightarrow> database \<Rightarrow> bool" where
  "marked acc d d' \<longleftrightarrow>
     filter (\<lambda>o1. ob_publishedAt o1 = None) (outboxEvents d') =
       filter (\<lambda>o1. ob_publishedAt o1 = None \<and> ob_id o1 \<notin> set (map ob_id acc)) (outboxEvents d) \<and>
     map (\<lambda>o1. o1\<lparr>ob_publishedAt := None\<rparr>) (outboxEvents d') =
       map (\<lambda>o1. o1\<lparr>ob_publishedAt := None\<rparr>) (outboxEvents d) \<and>
     d'\<lparr>outboxEvents := []\<rparr> = d\<lparr>outboxEvents := []\<rparr>"

lemma marked_ids: "marked acc d d' \<Longrightarrow> map ob_id (outboxEvents d') = map ob_id (outboxEvents d)"
proof -
  assume "marked acc d d'"
  then have "map (ob_id \<circ> (\<lambda>o1. o1\<lparr>ob_publishedAt := None\<rparr>)) (outboxEvents d') =
      map (ob_id \<circ> (\<lambda>o1. o1\<lparr>ob_publishedAt := None\<rparr>)) (outboxEvents d)"
    by (simp only: marked_def map_map [symmetric])
  then show ?thesis by (simp add: comp_def)
qed

lemma marked_Nil [simp]: "marked [] d d"
  by (simp add: marked_def)

lemma filter_marked_row:
  "filter (\<lambda>x. ob_publishedAt x = None \<and> ob_id x \<notin> S)
     (upd_where (\<lambda>x. ob_id x = i) (\<lambda>x. x\<lparr>ob_publishedAt := Some t\<rparr>) xs) =
   filter (\<lambda>x. ob_publishedAt x = None \<and> ob_id x \<noteq> i \<and> ob_id x \<notin> S) xs"
  by (induction xs) auto

lemma marked_step:
  assumes m: "mark_tx t i d = Inr (u, d1)" and rest: "marked acc d1 d2" and i: "i = ob_id o1"
  shows "marked (o1 # acc) d d2"
proof -
  have d1: "d1 = d\<lparr>outboxEvents := upd_where (\<lambda>o1. ob_id o1 = i) (\<lambda>o1. o1\<lparr>ob_publishedAt := Some t\<rparr>) (outboxEvents d)\<rparr>"
    using m by (simp add: mark_tx_def split: if_splits)
  have f: "filter (\<lambda>x. ob_publishedAt x = None \<and> ob_id x \<notin> S) (outboxEvents d1) =
      filter (\<lambda>x. ob_publishedAt x = None \<and> ob_id x \<noteq> i \<and> ob_id x \<notin> S) (outboxEvents d)" for S
    by (simp add: d1 filter_marked_row)
  have c: "map (\<lambda>x. x\<lparr>ob_publishedAt := None\<rparr>) (outboxEvents d1) =
      map (\<lambda>x. x\<lparr>ob_publishedAt := None\<rparr>) (outboxEvents d)"
    unfolding d1 by (simp add: upd_where_def)
  have o1: "d1\<lparr>outboxEvents := []\<rparr> = d\<lparr>outboxEvents := []\<rparr>" by (simp add: d1)
  show ?thesis using rest unfolding marked_def f c o1 by (simp add: i conj_ac)
qed

lemma quiet_publish:
  "quiet e \<Longrightarrow> publish (\<lambda>_. f) ev e w = (case f ev of
     Some x \<Rightarrow> (Inl x, w\<lparr>tick := Suc (tick w)\<rparr>)
   | None \<Rightarrow> (Inr (), w\<lparr>published := published w @ [ev], tick := Suc (Suc (tick w))\<rparr>))"
  by (simp add: publish_def run_simps quiet_yield split: option.split)

lemma quiet_relay_rows:
  assumes q: "quiet e" and "set (map ob_id rs) \<subseteq> set (map ob_id (outboxEvents (db w)))"
  shows "\<exists>r d k. for_each rs (relay_row (\<lambda>_. f)) e w =
       (r, w\<lparr>db := d, published := published w @ takeWhile (\<lambda>ev. f ev = None) rs, tick := k\<rparr>) \<and>
     marked (takeWhile (\<lambda>ev. f ev = None) rs) (db w) d \<and> (\<forall>x. r = Inl x \<longrightarrow> (\<exists>ev \<in> set rs. f ev = Some x))"
  using assms(2)
proof (induction rs arbitrary: w)
  case Nil
  show ?case
    by (rule exI [of _ "Inr ()"], rule exI [of _ "db w"], rule exI [of _ "tick w"]) (simp add: run_simps)
next
  case (Cons ev rs)
  show ?case
  proof (cases "f ev")
    case (Some x)
    with q show ?thesis
      by (intro exI [of _ "Inl x"] exI [of _ "db w"] exI [of _ "Suc (tick w)"])
         (simp add: run_simps relay_row_def quiet_publish)
  next
    case None
    let ?w1 = "w\<lparr>published := published w @ [ev], tick := Suc (Suc (tick w))\<rparr>"
    let ?t = "now e (Suc (tick ?w1))"
    obtain d1 where d1: "mark_tx ?t (ob_id ev) (db w) = Inr ((), d1)"
      using Cons.prems by (auto simp: mark_tx_def)
    let ?w2 = "?w1\<lparr>db := d1, tick := Suc (Suc (tick ?w1))\<rparr>"
    have one: "relay_row (\<lambda>_. f) ev e w = (Inr (), ?w2)"
      using d1 None q by (simp add: relay_row_def run_simps quiet_publish quiet_db_tx)
    have m1: "marked [ev] (db w) d1" by (rule marked_step [OF d1 marked_Nil]) simp
    have "set (map ob_id rs) \<subseteq> set (map ob_id (outboxEvents (db ?w2)))"
      using Cons.prems marked_ids [OF m1] by (simp del: set_map)
    from Cons.IH [OF this] obtain r d k where
      loop: "for_each rs (relay_row (\<lambda>_. f)) e ?w2 =
        (r, ?w2\<lparr>db := d, published := published ?w2 @ takeWhile (\<lambda>ev. f ev = None) rs, tick := k\<rparr>)"
      and m: "marked (takeWhile (\<lambda>ev. f ev = None) rs) d1 d" and r: "\<forall>x. r = Inl x \<longrightarrow> (\<exists>ev \<in> set rs. f ev = Some x)"
      by auto
    show ?thesis using loop one r None marked_step [OF d1 m] by (auto simp: run_simps)
  qed
qed

text \<open>
  C33: The relay delivers in order and stops at the first refusal. Without interference, a tick that finds
  no other under way takes the oldest unpublished
  events, at most fifty, in order of creation: an unpublished event it leaves out is at least as new as
  all it takes, and it leaves one out only when it takes fifty. Of these it publishes the events before
  the first one the broker refuses, in order and once each, and marks these and no others; the rest of
  the database is untouched, a refusal does not escape, and the next tick can run.
\<close>

theorem relay_delivers:
  assumes "quiet e" "\<not> relayRunning w" "\<And>ev. f ev \<noteq> Some Crash"
  shows "let (r, v) = relay (\<lambda>_. f) e w;
             acc = takeWhile (\<lambda>ev. f ev = None) (batch (db w)) in
     r = Inr () \<and> \<not> relayRunning v \<and> published v = published w @ acc \<and>
     filter (\<lambda>o1. ob_publishedAt o1 = None) (outboxEvents (db v)) =
       filter (\<lambda>o1. ob_publishedAt o1 = None \<and> ob_id o1 \<notin> set (map ob_id acc)) (outboxEvents (db w)) \<and>
     map (\<lambda>o1. o1\<lparr>ob_publishedAt := None\<rparr>) (outboxEvents (db v)) =
       map (\<lambda>o1. o1\<lparr>ob_publishedAt := None\<rparr>) (outboxEvents (db w)) \<and>
     (db v)\<lparr>outboxEvents := []\<rparr> = (db w)\<lparr>outboxEvents := []\<rparr> \<and>
     length (batch (db w)) \<le> 50 \<and> sorted (map ob_createdAt (batch (db w))) \<and>
     mset (batch (db w)) \<subseteq># mset (unpublished (db w)) \<and>
     (\<forall>o1 \<in> set (unpublished (db w)). o1 \<notin> set (batch (db w)) \<longrightarrow>
       length (batch (db w)) = 50 \<and> (\<forall>o2 \<in> set (batch (db w)). ob_createdAt o2 \<le> ob_createdAt o1))"
proof -
  let ?w1 = "w\<lparr>relayRunning := True, tick := Suc (Suc (tick w))\<rparr>"
  have "set (map ob_id (batch (db w))) \<subseteq> set (map ob_id (outboxEvents (db ?w1)))"
    using batch_member by fastforce
  from quiet_relay_rows [OF assms(1) this, of f] obtain r d k where
    loop: "for_each (batch (db w)) (relay_row (\<lambda>_. f)) e ?w1 = (r, ?w1\<lparr>db := d,
        published := published ?w1 @ takeWhile (\<lambda>ev. f ev = None) (batch (db w)), tick := k\<rparr>)"
    and m: "marked (takeWhile (\<lambda>ev. f ev = None) (batch (db w))) (db ?w1) d"
    and r: "\<forall>x. r = Inl x \<longrightarrow> (\<exists>ev \<in> set (batch (db w)). f ev = Some x)" by blast
  have "r \<noteq> Inl Crash" using r assms(3) by blast
  with m batch_oldest [of "db w"] show ?thesis
    by (cases r) (simp_all add: relay_def run_simps tryFinally_def quiet_db_read [OF assms(1)] assms(2) loop
        marked_def Let_def)
qed

lemma relay_delivers_witness:
  "batch (db w_final) = outboxEvents db_final \<and> length (outboxEvents db_final) = 2 \<and>
   published (snd (relay (\<lambda>_ _. None) calm_env w_final)) = published w_final @ outboxEvents db_final"
proof -
  have b: "batch (db w_final) = outboxEvents db_final" "length (outboxEvents db_final) = 2"
    by (simp_all add: batch_def db_stages w_final_def w_sent_def w_ready_def w_open_def)
  moreover have "\<not> relayRunning w_final" by (simp add: w_final_def w_sent_def w_ready_def w_open_def boot_world_def)
  ultimately show ?thesis
    using relay_delivers [of calm_env w_final "\<lambda>_. None"] by (auto simp: Let_def split: prod.splits)
qed

section \<open>Delivery before the mark\<close>

text \<open>
  \<open>delivered X w\<close>: an event with a publication time is one of \<open>X\<close>, or the broker has accepted it. \<open>keeps X m\<close>:
  the handler keeps this and forgets no delivery, whatever it interleaves with that does the same.
\<close>

definition delivered :: "string set \<Rightarrow> world \<Rightarrow> bool" where
  "delivered X w \<longleftrightarrow> (\<forall>o1 \<in> set (outboxEvents (db w)). ob_publishedAt o1 \<noteq> None \<longrightarrow>
     ob_id o1 \<in> X \<union> set (map ob_id (published w)))"

definition forgets_no_delivery :: "string set \<Rightarrow> world \<Rightarrow> world \<Rightarrow> bool" where
  "forgets_no_delivery X w w' \<longleftrightarrow> (delivered X w \<longrightarrow> delivered X w') \<and> set (published w) \<subseteq> set (published w')"

definition keeps :: "string set \<Rightarrow> env \<Rightarrow> 'a io \<Rightarrow> bool" where
  "keeps X e m \<longleftrightarrow> (\<forall>w. forgets_no_delivery X w (snd (m e w)))"

lemma forgets_refl [simp]: "forgets_no_delivery X w w"
  by (simp add: forgets_no_delivery_def)

lemma forgets_trans: "forgets_no_delivery X a b \<Longrightarrow> forgets_no_delivery X b c \<Longrightarrow> forgets_no_delivery X a c"
  by (auto simp: forgets_no_delivery_def)

lemma forgets_same: "db w' = db w \<Longrightarrow> published w' = published w \<Longrightarrow> forgets_no_delivery X w w'"
  by (simp add: forgets_no_delivery_def delivered_def)

lemma keeps_await: "keeps X e m \<Longrightarrow> (\<And>a. keeps X e (k a)) \<Longrightarrow> keeps X e (await m k)"
  unfolding keeps_def by (auto simp: run_simps split: prod.split sum.split) (metis forgets_trans snd_conv)+

lemma keeps_ret: "keeps X e (ret a)"
  by (simp add: keeps_def run_simps)

lemma keeps_yield:
  assumes "\<And>n w. forgets_no_delivery X w (others e n w)"
  shows "keeps X e yield"
proof -
  have "forgets_no_delivery X w ((others e n w)\<lparr>tick := k\<rparr>)" for n w k
    by (rule forgets_trans [OF assms]) (rule forgets_same, simp_all)
  then show ?thesis by (simp add: keeps_def yield_def)
qed

lemma keeps_andThen: "keeps X e m \<Longrightarrow> keeps X e n \<Longrightarrow> keeps X e (andThen m n)"
  unfolding andThen_def by (rule keeps_await)

lemma keeps_for_each: "(\<And>x. keeps X e (body x)) \<Longrightarrow> keeps X e (for_each xs body)"
  by (induction xs) (auto intro: keeps_andThen keeps_ret)

text \<open>After \<open>publish\<close> returns, the broker has accepted the event; the mark needs no more.\<close>

lemma publish_accepted:
  assumes env: "\<And>n w. forgets_no_delivery X w (others e n w)"
  shows "forgets_no_delivery X w (snd (publish broker ev e w)) \<and>
    (fst (publish broker ev e w) = Inr u \<longrightarrow> ev \<in> set (published (snd (publish broker ev e w))))"
proof -
  have y: "forgets_no_delivery X v (snd (yield e v))" for v using keeps_yield [OF env] by (simp add: keeps_def)
  have add: "forgets_no_delivery X v (v\<lparr>published := published v @ [ev]\<rparr>)" for v
    by (auto simp: forgets_no_delivery_def delivered_def)
  obtain r1 w1 where y1: "yield e w = (r1, w1)" by fastforce
  with y [of w] have k1: "forgets_no_delivery X w w1" by simp
  let ?w2 = "w1\<lparr>published := published w1 @ [ev]\<rparr>"
  obtain r2 w3 where y2: "yield e ?w2 = (r2, w3)" by fastforce
  with y [of ?w2] have k2: "forgets_no_delivery X ?w2 w3" by simp
  then have "ev \<in> set (published w3)" by (auto simp: forgets_no_delivery_def)
  with k1 forgets_trans [OF forgets_trans [OF k1 add] k2] show ?thesis
    by (auto simp: publish_def run_simps y1 y2 split: sum.split option.split)
qed

lemma mark_forgets:
  assumes "ev \<in> set (published w)" "mark_tx t (ob_id ev) (db w) = Inr (u, d)"
  shows "forgets_no_delivery X w (w\<lparr>db := d\<rparr>)"
proof -
  have d: "d = (db w)\<lparr>outboxEvents := upd_where (\<lambda>o1. ob_id o1 = ob_id ev)
      (\<lambda>o1. o1\<lparr>ob_publishedAt := Some t\<rparr>) (outboxEvents (db w))\<rparr>"
    using assms(2) by (simp add: mark_tx_def split: if_splits)
  have "ob_id ev \<in> ob_id ` set (published w)" using assms(1) by simp
  then show ?thesis
    unfolding forgets_no_delivery_def delivered_def d
    by (simp add: upd_where_def ball_Un)
qed

lemma keeps_relay_row:
  assumes env: "\<And>n w. forgets_no_delivery X w (others e n w)"
  shows "keeps X e (relay_row broker ev)"
proof -
  have y: "forgets_no_delivery X v (snd (yield e v))" for v using keeps_yield [OF env] by (simp add: keeps_def)
  have mark: "forgets_no_delivery X v (snd (db_tx (\<lambda>e n. mark_tx (now e n) (ob_id ev)) e v))"
    if ev: "ev \<in> set (published v)" for v
  proof -
    obtain r1 w1 where y1: "yield e v = (r1, w1)" by fastforce
    with y [of v] have k1: "forgets_no_delivery X v w1" by simp
    with ev have "ev \<in> set (published w1)" by (auto simp: forgets_no_delivery_def)
    from mark_forgets [OF this] have k2: "mark_tx t (ob_id ev) (db w1) = Inr (u, d) \<Longrightarrow>
        forgets_no_delivery X w1 (w1\<lparr>db := d\<rparr>)" for t u d .
    have k3: "mark_tx t (ob_id ev) (db w1) = Inr (u, d) \<Longrightarrow>
        forgets_no_delivery X v (snd (yield e (w1\<lparr>db := d\<rparr>)))" for t u d
      by (rule forgets_trans [OF forgets_trans [OF k1 k2] y])
    show ?thesis
      by (auto simp: db_tx_def run_tx_def run_simps y1 k1 split: sum.split option.split prod.split)
         (metis k3 snd_conv)+
  qed
  show ?thesis
    unfolding keeps_def
  proof
    fix w
    obtain r1 w1 where p: "publish broker ev e w = (r1, w1)" by fastforce
    from publish_accepted [OF env, of w broker ev "()"] p
    have k: "forgets_no_delivery X w w1" "r1 = Inr () \<Longrightarrow> ev \<in> set (published w1)" by simp_all
    show "forgets_no_delivery X w (snd (relay_row broker ev e w))"
    proof (cases r1)
      case (Inr u)
      with forgets_trans [OF k(1) mark] k(2) p show ?thesis by (simp add: relay_row_def run_simps)
    qed (simp add: relay_row_def run_simps p k)
  qed
qed

lemma keeps_read:
  assumes env: "\<And>n w. forgets_no_delivery X w (others e n w)"
  shows "keeps X e (db_read f)"
proof -
  have "keeps X e (run_tx (\<lambda>e n d. Inr (f e d, d)))"
    by (simp add: keeps_def run_tx_def split: option.split)
  then show ?thesis unfolding db_read_def db_tx_def
    by (intro keeps_andThen keeps_await keeps_yield keeps_ret env)
qed

text \<open>
  C34: At least once. Whatever the broker does, wherever the process dies, whichever database calls fail and
  however the tick interleaves with tasks that do the same, an event is marked only after the broker
  accepted it: if every marked event was delivered before the tick, every marked event was delivered
  after it, and no delivery is lost.
\<close>

theorem marked_after_delivery:
  assumes "\<And>n w. forgets_no_delivery X w (others e n w)" "delivered X w"
  shows "delivered X (snd (relay broker e w)) \<and> set (published w) \<subseteq> set (published (snd (relay broker e w)))"
proof -
  let ?rows = "await (db_read (\<lambda>e d. batch d)) (\<lambda>rows. for_each rows (relay_row broker))"
  let ?w1 = "w\<lparr>relayRunning := True\<rparr>"
  have "keeps X e ?rows"
    by (intro keeps_await keeps_read keeps_for_each keeps_relay_row assms)
  then have "forgets_no_delivery X ?w1 (snd (?rows e ?w1))" by (simp add: keeps_def)
  then have k: "forgets_no_delivery X w (snd (?rows e ?w1))"
    by (rule forgets_trans [OF forgets_same, rotated -1]) simp_all
  have flag: "forgets_no_delivery X w (v\<lparr>relayRunning := False\<rparr>)" if "forgets_no_delivery X w v" for v
    by (rule forgets_trans [OF that forgets_same]) simp_all
  obtain r v where run: "?rows e ?w1 = (r, v)" by fastforce
  with k have kv: "forgets_no_delivery X w v" by simp
  have "forgets_no_delivery X w (snd (relay broker e w))"
  proof (cases "relayRunning w")
    case False
    then have "snd (relay broker e w) \<in> {v, v\<lparr>relayRunning := False\<rparr>}"
      using run by (auto simp: relay_def run_simps(4-7) tryFinally_def run_simps(1) await_def
          split: sum.split)
    with kv flag [OF kv] show ?thesis by auto
  qed (simp add: relay_def run_simps)
  with assms(2) show ?thesis by (simp add: forgets_no_delivery_def)
qed

text \<open>
  An instance where the process dies between the publication and the mark: the first event is accepted, no row is marked,
  and the next tick takes the same batch again.
\<close>

lemma marked_after_delivery_witness:
  "let v = snd (relay (\<lambda>_ _. None) (calm_env\<lparr>crash := (\<lambda>n. n = 50)\<rparr>) w_final) in
     delivered {} v \<and> published v = [hd (outboxEvents db_final)] \<and> db v = db_final"
proof -
  let ?e = "calm_env\<lparr>crash := (\<lambda>n. n = 50)\<rparr>"
  have b: "batch db_final = outboxEvents db_final" by (simp add: batch_def db_stages)
  have run: "published (snd (relay (\<lambda>_ _. None) ?e w_final)) = [hd (outboxEvents db_final)]"
    "db (snd (relay (\<lambda>_ _. None) ?e w_final)) = db_final"
    by (simp_all add: relay_def run_simps tryFinally_def db_read_def db_tx_def run_tx_def yield_def b
        relay_row_def publish_def w_final_def w_sent_def w_ready_def w_open_def boot_world_def)
       (simp_all add: db_stages run_simps relay_row_def publish_def yield_def db_tx_def run_tx_def)
  have "delivered {} w_final" by (simp add: delivered_def w_final_def db_stages)
  moreover have "forgets_no_delivery {} w (others ?e n w)" for n w by (simp add: demo_env_def)
  ultimately show ?thesis
    using run marked_after_delivery [of "{}" ?e w_final "\<lambda>_ _. None"] by (simp add: Let_def)
qed

section \<open>Without a broker\<close>

text \<open>
  Without a broker the events are used up. A tick with the log-only publisher marks its whole batch as
  published although no consumer got any of it: a broker that is configured later is offered only the
  events that were not in the batch.
\<close>

theorem no_broker_consumes:
  assumes "quiet e" "\<not> relayRunning w"
  shows "let (r, v) = relay (event_publisher None xadd isoString toJson) e w in r = Inr () \<and>
    filter (\<lambda>o1. ob_publishedAt o1 = None) (outboxEvents (db v)) =
      filter (\<lambda>o1. ob_publishedAt o1 = None \<and> ob_id o1 \<notin> set (map ob_id (batch (db w)))) (outboxEvents (db w))"
proof -
  let ?w1 = "w\<lparr>relayRunning := True, tick := Suc (Suc (tick w))\<rparr>"
  have ids: "set (map ob_id (batch (db w))) \<subseteq> set (map ob_id (outboxEvents (db ?w1)))"
    using batch_member by fastforce
  have t: "takeWhile (\<lambda>ev. (None :: exn option) = None) (batch (db w)) = batch (db w)"
    by (simp add: takeWhile_eq_all_conv)
  from quiet_relay_rows [OF assms(1) ids, of "\<lambda>_. None"] obtain r d k where
    loop: "for_each (batch (db w)) (relay_row (\<lambda>_ _. None)) e ?w1 = (r, ?w1\<lparr>db := d,
        published := published ?w1 @ takeWhile (\<lambda>ev. (None :: exn option) = None) (batch (db w)), tick := k\<rparr>)"
    and m: "marked (takeWhile (\<lambda>ev. (None :: exn option) = None) (batch (db w))) (db ?w1) d"
    and r: "\<forall>x. r = Inl x \<longrightarrow> (\<exists>ev \<in> set (batch (db w)). None = Some x)" by blast
  from r obtain u where "r = Inr u" by (cases r) auto
  with m [unfolded t] show ?thesis
    by (simp add: relay_def run_simps tryFinally_def quiet_db_read [OF assms(1)] assms(2) loop marked_def Let_def)
qed

lemma no_broker_consumes_witness:
  "filter (\<lambda>o1. ob_publishedAt o1 = None) (outboxEvents (db (snd (relay
     (event_publisher None (\<lambda>_ _. None) (\<lambda>_. []) (\<lambda>_. [])) calm_env w_final)))) = []"
proof -
  have b: "batch (db w_final) = outboxEvents db_final"
    "db w_final = db_final" "\<not> relayRunning w_final"
    by (simp_all add: batch_def db_stages w_final_def w_sent_def w_ready_def w_open_def boot_world_def)
  have q: "quiet calm_env" by simp
  from no_broker_consumes [OF q b(3), of "\<lambda>_ _. None" "\<lambda>_. []" "\<lambda>_. []"] show ?thesis
    unfolding b(1) by (auto simp: b(2) filter_empty_conv split: prod.splits)
qed

end
