(* ===== verification/Mutex.thy ===== *)
theory Mutex
  imports Prelude
begin

text \<open>
  \<open>Mutex\<close> (\<open>src/relayer/mutex.ts\<close>), the lock that serialises the broadcasts. Each call of
  \<open>runExclusive(fn)\<close> hangs \<open>fn\<close> on the tail of a chain of promises with \<open>then(fn, fn)\<close> and makes the
  settling of its own promise the new tail. The state is the list of the promises of all calls, in
  order of the calls; a promise waits for the one before it, runs, and settles either way.
\<close>

section \<open>The chain of promises\<close>

datatype promise = Waiting | Running | Settled bool

fun is_settled :: "promise \<Rightarrow> bool" where
  "is_settled (Settled ok) = True"
| "is_settled _ = False"

datatype mutex_event = Call | Start nat | Settle nat bool

text \<open>The tail a call hangs on has settled: the call is the first, or the one before it is done.\<close>

definition turn :: "promise list \<Rightarrow> nat \<Rightarrow> bool" where
  "turn ps k \<longleftrightarrow> k < length ps \<and> ps ! k = Waiting \<and> (case k of 0 \<Rightarrow> True | Suc j \<Rightarrow> is_settled (ps ! j))"

definition mutex_apply :: "mutex_event \<Rightarrow> promise list \<Rightarrow> promise list option" where
  "mutex_apply ev ps = (case ev of
     Call \<Rightarrow> Some (ps @ [Waiting])
   | Start k \<Rightarrow> if turn ps k then Some (ps[k := Running]) else None
   | Settle k ok \<Rightarrow> if k < length ps \<and> ps ! k = Running then Some (ps[k := Settled ok]) else None)"

inductive mutex_run :: "mutex_event list \<Rightarrow> promise list \<Rightarrow> bool" where
  init: "mutex_run [] []"
| step: "mutex_run tr ps \<Longrightarrow> mutex_apply ev ps = Some qs \<Longrightarrow> mutex_run (tr @ [ev]) qs"

inductive_cases mutex_runE: "mutex_run tr ps"

text \<open>What has happened to the calls, read off a trace.\<close>

definition started :: "mutex_event list \<Rightarrow> nat list" where
  "started tr = concat (map (\<lambda>ev. case ev of Start k \<Rightarrow> [k] | _ \<Rightarrow> []) tr)"

definition settled :: "mutex_event list \<Rightarrow> (nat \<times> bool) list" where
  "settled tr = concat (map (\<lambda>ev. case ev of Settle k ok \<Rightarrow> [(k, ok)] | _ \<Rightarrow> []) tr)"

definition calls :: "mutex_event list \<Rightarrow> nat" where
  "calls tr = length (filter (\<lambda>ev. ev = Call) tr)"

lemma trace_simps [simp]:
  "started [] = []" "settled [] = []" "calls [] = 0"
  "started (tr @ [ev]) = started tr @ (case ev of Start k \<Rightarrow> [k] | _ \<Rightarrow> [])"
  "settled (tr @ [ev]) = settled tr @ (case ev of Settle k ok \<Rightarrow> [(k, ok)] | _ \<Rightarrow> [])"
  "calls (tr @ [ev]) = calls tr + (if ev = Call then 1 else 0)"
  by (simp_all add: started_def settled_def calls_def)

section \<open>The shape of the chain\<close>

text \<open>
  Done calls first, with the outcomes of the trace, then at most one running, then the waiting ones.
\<close>

definition chain_of :: "bool list \<Rightarrow> bool \<Rightarrow> nat \<Rightarrow> promise list" where
  "chain_of oks busy n = map Settled oks @ (if busy then [Running] else []) @ replicate n Waiting"

lemma length_chain_of [simp]: "length (chain_of oks busy n) = length oks + (if busy then 1 else 0) + n"
  by (simp add: chain_of_def)

lemma nth_chain_of:
  "k < length (chain_of oks busy n) \<Longrightarrow> chain_of oks busy n ! k =
     (if k < length oks then Settled (oks ! k)
      else if busy \<and> k = length oks then Running else Waiting)"
  by (auto simp: chain_of_def nth_append)

lemma turn_chain_of: "turn (chain_of oks busy n) k \<longleftrightarrow> \<not> busy \<and> 0 < n \<and> k = length oks"
  by (cases k) (auto simp: turn_def nth_chain_of split: if_splits)

lemma chain_call: "chain_of oks busy n @ [Waiting] = chain_of oks busy (Suc n)"
  by (simp add: chain_of_def replicate_append_same [symmetric])

lemma chain_start: "(chain_of oks False (Suc n))[length oks := Running] = chain_of oks True n"
  by (simp add: chain_of_def list_update_append)

lemma chain_settle: "(chain_of oks True n)[length oks := Settled ok] = chain_of (oks @ [ok]) False n"
  by (simp add: chain_of_def list_update_append)

lemma running_chain_of:
  "k < length (chain_of oks busy n) \<Longrightarrow> chain_of oks busy n ! k = Running \<longleftrightarrow> busy \<and> k = length oks"
  by (auto simp: nth_chain_of)

lemma apply_chain_of:
  "mutex_apply ev (chain_of oks busy n) = (case ev of
     Call \<Rightarrow> Some (chain_of oks busy (Suc n))
   | Start k \<Rightarrow> if \<not> busy \<and> 0 < n \<and> k = length oks then Some (chain_of oks True (n - 1)) else None
   | Settle k ok \<Rightarrow> if busy \<and> k = length oks then Some (chain_of (oks @ [ok]) False n) else None)"
proof (cases ev)
  case (Start k)
  then show ?thesis using chain_start [of oks "n - 1"] by (auto simp: mutex_apply_def turn_chain_of)
next
  case (Settle k ok)
  then show ?thesis using chain_settle [of oks n ok]
    by (auto simp: mutex_apply_def running_chain_of simp del: length_chain_of) simp_all
qed (simp add: mutex_apply_def chain_call)

text \<open>Every run has this shape, and its trace agrees with it.\<close>

lemma mutex_run_shape:
  "mutex_run tr ps \<Longrightarrow> \<exists>oks busy n. ps = chain_of oks busy n \<and>
     started tr = [0 ..< length oks + (if busy then 1 else 0)] \<and>
     settled tr = zip [0 ..< length oks] oks \<and> calls tr = length oks + (if busy then 1 else 0) + n"
proof (induction rule: mutex_run.induct)
  case init
  have "[] = chain_of [] False 0" by (simp add: chain_of_def)
  then show ?case by fastforce
next
  case (step tr ps ev qs)
  then obtain oks busy n where ps: "ps = chain_of oks busy n"
    and tr: "started tr = [0 ..< length oks + (if busy then 1 else 0)]"
      "settled tr = zip [0 ..< length oks] oks" "calls tr = length oks + (if busy then 1 else 0) + n" by blast
  show ?case
  proof (cases ev)
    case Call
    with step.hyps ps have "qs = chain_of oks busy (Suc n)" by (simp add: apply_chain_of)
    with Call tr show ?thesis by fastforce
  next
    case (Start k)
    with step.hyps ps have k: "\<not> busy" "0 < n" "k = length oks" "qs = chain_of oks True (n - 1)"
      by (auto simp: apply_chain_of split: if_splits)
    show ?thesis using Start tr k
      by (intro exI [of _ oks] exI [of _ True] exI [of _ "n - 1"]) simp
  next
    case (Settle k ok)
    with step.hyps ps have k: "busy" "k = length oks" "qs = chain_of (oks @ [ok]) False n"
      by (auto simp: apply_chain_of split: if_splits)
    show ?thesis using Settle tr k
      by (intro exI [of _ "oks @ [ok]"] exI [of _ False] exI [of _ n]) simp
  qed
qed

end
