(* ===== verification/MutexClaims.thy ===== *)
theory MutexClaims
  imports Mutex
begin

text \<open>Properties of the broadcast mutex: exclusion, order of calls, and that it never blocks.\<close>

text \<open>
  C25: The mutex serialises in order. In every run at most one function is running, functions start in the
  order of their calls, they settle in that order, and one starts only when all before it have settled,
  with success or failure.
\<close>

theorem mutex_exclusive:
  assumes "mutex_run tr ps"
  shows "length (filter (\<lambda>p. p = Running) ps) \<le> 1 \<and>
    started tr = [0 ..< length (started tr)] \<and> map fst (settled tr) = [0 ..< length (settled tr)] \<and>
    length (settled tr) \<le> length (started tr) \<and> length (started tr) \<le> Suc (length (settled tr)) \<and>
    length ps = calls tr"
proof -
  obtain oks busy n where ps: "ps = chain_of oks busy n"
    and tr: "started tr = [0 ..< length oks + (if busy then 1 else 0)]"
      "settled tr = zip [0 ..< length oks] oks" "calls tr = length oks + (if busy then 1 else 0) + n"
    using mutex_run_shape [OF assms] by blast
  have "filter (\<lambda>p. p = Running) ps = (if busy then [Running] else [])"
    by (auto simp: ps chain_of_def filter_empty_conv)
  with tr show ?thesis by (simp add: ps)
qed

definition demo_trace :: "mutex_event list" where
  "demo_trace = [Call, Call, Start 0, Call, Settle 0 False, Start 1]"

lemma demo_trace_run: "mutex_run demo_trace [Settled False, Running, Waiting]"
proof -
  have "mutex_run [Call] [Waiting]"
    using mutex_run.step [OF mutex_run.init, of Call] by (simp add: mutex_apply_def)
  from mutex_run.step [OF this, of Call] have "mutex_run [Call, Call] [Waiting, Waiting]" by (simp add: mutex_apply_def)
  from mutex_run.step [OF this, of "Start 0"] have "mutex_run [Call, Call, Start 0] [Running, Waiting]"
    by (simp add: mutex_apply_def turn_def)
  from mutex_run.step [OF this, of Call] have "mutex_run [Call, Call, Start 0, Call] [Running, Waiting, Waiting]"
    by (simp add: mutex_apply_def)
  from mutex_run.step [OF this, of "Settle 0 False"]
  have "mutex_run [Call, Call, Start 0, Call, Settle 0 False] [Settled False, Waiting, Waiting]"
    by (simp add: mutex_apply_def)
  from mutex_run.step [OF this, of "Start 1"] show ?thesis
    by (simp add: mutex_apply_def turn_def demo_trace_def)
qed

lemma mutex_exclusive_witness:
  "started demo_trace = [0, 1] \<and> settled demo_trace = [(0, False)] \<and>
   length (filter (\<lambda>p. p = Running) [Settled False, Running, Waiting]) \<le> 1"
  using mutex_exclusive [OF demo_trace_run] by (simp add: demo_trace_def started_def settled_def)

section \<open>Progress\<close>

text \<open>How many starts and settlements the calls made so far still need.\<close>

definition remaining :: "promise list \<Rightarrow> nat" where
  "remaining ps = sum_list (map (\<lambda>p. case p of Waiting \<Rightarrow> 2 | Running \<Rightarrow> 1 | Settled _ \<Rightarrow> 0) ps)"

lemma remaining_chain_of: "remaining (chain_of oks busy n) = (if busy then 1 else 0) + 2 * n"
  by (simp add: remaining_def chain_of_def sum_list_replicate comp_def)

definition outcome :: "(nat \<Rightarrow> bool) \<Rightarrow> promise list \<Rightarrow> promise list" where
  "outcome f ps = map (\<lambda>k. case ps ! k of Settled ok \<Rightarrow> Settled ok | _ \<Rightarrow> Settled (f k)) [0 ..< length ps]"

lemma length_outcome [simp]: "length (outcome f ps) = length ps"
  by (simp add: outcome_def)

lemma nth_outcome:
  "k < length ps \<Longrightarrow> outcome f ps ! k = (case ps ! k of Settled ok \<Rightarrow> Settled ok | _ \<Rightarrow> Settled (f k))"
  by (simp add: outcome_def split: promise.split)

lemma outcome_settled: "outcome f (chain_of oks False 0) = chain_of oks False 0"
  by (rule nth_equalityI) (simp_all add: nth_outcome nth_chain_of)

lemma outcome_settle: "outcome f (chain_of (oks @ [f (length oks)]) False n) = outcome f (chain_of oks True n)"
  by (rule nth_equalityI) (simp_all add: nth_outcome nth_chain_of nth_append)

lemma outcome_start: "outcome f (chain_of oks True n) = outcome f (chain_of oks False (Suc n))"
  by (rule nth_equalityI) (simp_all add: nth_outcome nth_chain_of)

lemma run_on:
  "mutex_run tr (chain_of oks busy n) \<Longrightarrow>
     \<exists>ext. mutex_run (tr @ ext) (outcome f (chain_of oks busy n)) \<and> Call \<notin> set ext \<and>
       length ext = remaining (chain_of oks busy n)"
proof (induction "(if busy then 1 else 0) + 2 * n" arbitrary: tr oks busy n)
  case 0
  then have e: "\<not> busy" "n = 0" by (auto split: if_splits)
  with 0 show ?case by (intro exI [of _ "[]"]) (simp add: outcome_settled remaining_chain_of)
next
  case (Suc m)
  have one: ?case if ap: "mutex_apply ev (chain_of oks busy n) = Some (chain_of oks' busy' n')" "ev \<noteq> Call"
    and m: "m = (if busy' then 1 else 0) + 2 * n'"
    and o: "outcome f (chain_of oks' busy' n') = outcome f (chain_of oks busy n)" for ev oks' busy' n'
  proof -
    have "mutex_run (tr @ [ev]) (chain_of oks' busy' n')" by (rule mutex_run.step [OF Suc.prems ap(1)])
    from Suc.hyps(1) [OF m this] obtain ext where "mutex_run ((tr @ [ev]) @ ext) (outcome f (chain_of oks busy n))"
      "Call \<notin> set ext" "length ext = remaining (chain_of oks' busy' n')" by (auto simp: o)
    with ap(2) m Suc.hyps(2) show ?case
      by (intro exI [of _ "ev # ext"]) (auto simp: remaining_chain_of split: if_splits)
  qed
  show ?case
  proof (cases busy)
    case True
    show ?thesis
      by (rule one [of "Settle (length oks) (f (length oks))" "oks @ [f (length oks)]" False n])
         (use True Suc.hyps(2) outcome_settle [of f oks n] in \<open>simp_all add: apply_chain_of\<close>)
  next
    case False
    with Suc.hyps(2) obtain k where n: "n = Suc k" by (cases n) simp_all
    show ?thesis
      by (rule one [of "Start (length oks)" oks True k])
         (use False n Suc.hyps(2) outcome_start [of f oks k] in \<open>simp_all add: apply_chain_of\<close>)
  qed
qed

text \<open>
  C26: The mutex never blocks. After any run the calls made so far can all settle, each with any outcome, so
  a failed function does not hold up those behind it; and every start or settlement brings the end
  nearer, so no order of events puts it off for ever.
\<close>

theorem mutex_never_blocks:
  assumes "mutex_run tr ps"
  shows "(\<exists>ext. mutex_run (tr @ ext) (outcome f ps) \<and> Call \<notin> set ext \<and> length ext = remaining ps) \<and>
    list_all is_settled (outcome f ps) \<and>
    (\<forall>ev qs. mutex_apply ev ps = Some qs \<longrightarrow> ev \<noteq> Call \<longrightarrow> remaining ps = Suc (remaining qs))"
proof -
  obtain oks busy n where ps: "ps = chain_of oks busy n" using mutex_run_shape [OF assms] by blast
  have "list_all is_settled (outcome f ps)"
    by (auto simp: outcome_def list_all_iff split: promise.split)
  moreover have "remaining ps = Suc (remaining qs)" if "mutex_apply ev ps = Some qs" "ev \<noteq> Call" for ev qs
    using that by (cases ev) (auto simp: ps apply_chain_of remaining_chain_of split: if_splits)
  ultimately show ?thesis using run_on [OF assms [unfolded ps], of f] by (auto simp: ps)
qed

lemma mutex_never_blocks_witness:
  "\<exists>ext. mutex_run (demo_trace @ ext) [Settled False, Settled True, Settled True] \<and> length ext = 3"
proof -
  have "outcome (\<lambda>_. True) [Settled False, Running, Waiting] = [Settled False, Settled True, Settled True]"
    "remaining [Settled False, Running, Waiting] = 3"
    by (simp_all add: outcome_def remaining_def upt_conv_Cons)
  with mutex_never_blocks [OF demo_trace_run, of "\<lambda>_. True"] show ?thesis by auto
qed

end
