(* ===== verification/Wss.thy ===== *)
theory Wss
  imports Chain
begin

text \<open>
  The event socket of \<open>ChainService\<close> (\<open>src/chain/chain.service.ts\<close>): connection, reconnection with
  back-off, re-subscription and shutdown, as a machine of the hooks the runtime calls. Providers are
  numbered in order of construction; the last one is current. A timer or an asynchronous block that waits
  for \<open>closeWss\<close> is an item of the state, so hooks interleave as the event loop lets them.
\<close>

datatype socket = Connecting | Open | Closed

record wss =
  sockets :: "socket list" \<comment> \<open>one per provider made so far\<close>
  subscribed :: "bool list" \<comment> \<open>the Transfer listener is attached to the provider's contract\<close>
  reconnectAttempts :: nat
  shuttingDown :: bool
  timers :: "int list" \<comment> \<open>the delays of the pending timeouts\<close>
  closing :: nat \<comment> \<open>reconnections that wait for \<open>closeWss\<close>\<close>
  handlers :: nat \<comment> \<open>registered \<open>onWssReconnect\<close> handlers\<close>
  backfills :: nat \<comment> \<open>polls the handlers have started\<close>

definition live :: "wss \<Rightarrow> bool" where
  "live s \<longleftrightarrow> sockets s \<noteq> [] \<and> last (sockets s) \<noteq> Closed"

section \<open>The methods\<close>

definition connectWss :: "wss \<Rightarrow> wss" where
  "connectWss s = s\<lparr>sockets := sockets s @ [Connecting], subscribed := subscribed s @ [False]\<rparr>"

definition scheduleReconnect :: "wss \<Rightarrow> wss" where
  "scheduleReconnect s = (let n = reconnectAttempts s + 1 in
     s\<lparr>reconnectAttempts := n, timers := timers s @ [reconnect_delay n]\<rparr>)"

text \<open>
  \<open>closeWss\<close> detaches the listeners of the current contract and destroys the current provider; a socket
  that was not closed yet reports it later through its own hook.
\<close>

definition unsubscribe :: "wss \<Rightarrow> wss" where
  "unsubscribe s = s\<lparr>subscribed := butlast (subscribed s) @ (if subscribed s = [] then [] else [False])\<rparr>"

text \<open>\<open>subscribeTransfers\<close>, on the current contract.\<close>

definition subscribe :: "wss \<Rightarrow> wss" where
  "subscribe s = s\<lparr>subscribed := butlast (subscribed s) @ (if subscribed s = [] then [] else [True])\<rparr>"

text \<open>The listener's handler attaches the subscription and starts a poll.\<close>

definition runResubscribeHandlers :: "wss \<Rightarrow> wss" where
  "runResubscribeHandlers s = (if handlers s = 0 then s
     else (subscribe s)\<lparr>backfills := backfills s + handlers s\<rparr>)"

definition onopen :: "nat \<Rightarrow> wss \<Rightarrow> wss" where
  "onopen g s = s\<lparr>sockets := (sockets s)[g := Open], reconnectAttempts := 0\<rparr>"

definition onclose :: "nat \<Rightarrow> wss \<Rightarrow> wss" where
  "onclose g s = (let s1 = s\<lparr>sockets := (sockets s)[g := Closed]\<rparr> in
     if shuttingDown s1 then s1 else scheduleReconnect s1)"

text \<open>The body of the timeout up to its await, and the rest.\<close>

definition fire_timer :: "nat \<Rightarrow> wss \<Rightarrow> wss" where
  "fire_timer k s = (let s1 = s\<lparr>timers := take k (timers s) @ drop (Suc k) (timers s)\<rparr> in
     if shuttingDown s1 then s1 else (unsubscribe s1)\<lparr>closing := closing s1 + 1\<rparr>)"

definition reconnect :: "wss \<Rightarrow> wss" where
  "reconnect s = runResubscribeHandlers (connectWss (s\<lparr>closing := closing s - 1\<rparr>))"

definition chain_onModuleDestroy :: "wss \<Rightarrow> wss" where
  "chain_onModuleDestroy s = unsubscribe (s\<lparr>shuttingDown := True\<rparr>)"

text \<open>The listener's boot hook: it subscribes and registers its handler.\<close>

definition listener_boot :: "wss \<Rightarrow> wss" where
  "listener_boot s = (subscribe s)\<lparr>handlers := handlers s + 1\<rparr>"

section \<open>The machine\<close>

datatype wss_event =
    SocketOpen nat
  | SocketClose nat
  | Timer nat
  | CloseDone
  | ListenerBoot
  | ModuleDestroy

text \<open>
  A socket opens once, while it is connecting, and closes once. The boot hook of the listener runs once.
\<close>

definition wss_step :: "wss_event \<Rightarrow> wss \<Rightarrow> wss option" where
  "wss_step ev s = (case ev of
     SocketOpen g \<Rightarrow> if g < length (sockets s) \<and> sockets s ! g = Connecting then Some (onopen g s) else None
   | SocketClose g \<Rightarrow> if g < length (sockets s) \<and> sockets s ! g \<noteq> Closed then Some (onclose g s) else None
   | Timer k \<Rightarrow> if k < length (timers s) then Some (fire_timer k s) else None
   | CloseDone \<Rightarrow> if 0 < closing s then Some (reconnect s) else None
   | ListenerBoot \<Rightarrow> if handlers s = 0 \<and> \<not> shuttingDown s then Some (listener_boot s) else None
   | ModuleDestroy \<Rightarrow> if \<not> shuttingDown s then Some (chain_onModuleDestroy s) else None)"

text \<open>\<open>onModuleInit\<close> makes the first connection.\<close>

definition wss_init :: wss where
  "wss_init = connectWss \<lparr>sockets = [], subscribed = [], reconnectAttempts = 0, shuttingDown = False,
     timers = [], closing = 0, handlers = 0, backfills = 0\<rparr>"

inductive wss_run :: "wss_event list \<Rightarrow> wss \<Rightarrow> bool" where
  init: "wss_run [] wss_init"
| step: "wss_run tr s \<Longrightarrow> wss_step ev s = Some s' \<Longrightarrow> wss_run (tr @ [ev]) s'"

section \<open>The invariant\<close>

text \<open>
  Until shutdown there is exactly one way to the next message: the current socket is live, or one timer is
  pending, or one reconnection is under way; all earlier sockets are closed.
\<close>

definition wss_inv :: "wss \<Rightarrow> bool" where
  "wss_inv s \<longleftrightarrow> sockets s \<noteq> [] \<and> length (subscribed s) = length (sockets s) \<and>
     (\<forall>x \<in> set (butlast (sockets s)). x = Closed) \<and>
     (\<forall>x \<in> set (timers s). 1000 \<le> x \<and> x \<le> 30000) \<and>
     length (timers s) + closing s + (if live s then 1 else 0) \<le> 1 \<and>
     (shuttingDown s \<or> length (timers s) + closing s + (if live s then 1 else 0) = 1) \<and>
     (shuttingDown s \<or> handlers s = 0 \<or> \<not> live s \<or> last (subscribed s))"

lemma last_update: "xs \<noteq> [] \<Longrightarrow> last (xs[g := y]) = (if g = length xs - 1 then y else last xs)"
  by (auto simp: last_conv_nth nth_list_update)

lemma butlast_all_closed:
  assumes "xs \<noteq> []" "\<forall>x \<in> set (butlast xs). x = Closed" "g < length xs" "xs ! g \<noteq> Closed"
  shows "g = length xs - 1"
proof (rule ccontr)
  assume "g \<noteq> length xs - 1"
  with assms(3) have "g < length (butlast xs)" by simp
  then have "xs ! g \<in> set (butlast xs)" by (metis nth_butlast nth_mem)
  with assms(2,4) show False by blast
qed

lemma last_update_last [simp]:
  "xs \<noteq> [] \<Longrightarrow> last (xs[length xs - 1 := y]) = y" "xs \<noteq> [] \<Longrightarrow> last (xs[length xs - Suc 0 := y]) = y"
  "butlast (xs[length xs - 1 := y]) = butlast xs" "butlast (xs[length xs - Suc 0 := y]) = butlast xs"
  by (auto simp: last_conv_nth butlast_list_update)

lemma wss_inv_step:
  assumes inv: "wss_inv s" and st: "wss_step ev s = Some s'"
  shows "wss_inv s'"
proof (cases ev)
  case (SocketOpen g)
  with st have g: "g < length (sockets s)" "sockets s ! g = Connecting" and s': "s' = onopen g s"
    by (auto simp: wss_step_def split: if_splits)
  with inv have "g = length (sockets s) - 1" by (intro butlast_all_closed) (auto simp: wss_inv_def)
  moreover from this g inv have "last (sockets s) = Connecting" by (simp add: wss_inv_def last_conv_nth)
  ultimately show ?thesis using inv by (auto simp: wss_inv_def s' onopen_def live_def)
next
  case (SocketClose g)
  with st have g: "g < length (sockets s)" "sockets s ! g \<noteq> Closed" and s': "s' = onclose g s"
    by (auto simp: wss_step_def split: if_splits)
  with inv have gl: "g = length (sockets s) - 1" by (intro butlast_all_closed) (auto simp: wss_inv_def)
  with g inv have "live s" by (simp add: wss_inv_def last_conv_nth live_def)
  with inv gl show ?thesis using reconnect_delay_bounds
    by (auto simp: wss_inv_def s' onclose_def scheduleReconnect_def live_def Let_def)
next
  case (Timer k)
  with st have k: "k < length (timers s)" and s': "s' = fire_timer k s"
    by (auto simp: wss_step_def split: if_splits)
  have "set (take k (timers s)) \<subseteq> set (timers s)" "set (drop (Suc k) (timers s)) \<subseteq> set (timers s)"
    by (rule set_take_subset, rule set_drop_subset)
  moreover have "\<not> live s" using inv k by (auto simp: wss_inv_def split: if_splits)
  ultimately show ?thesis using inv k
    by (auto simp: wss_inv_def s' fire_timer_def unsubscribe_def live_def Let_def min_def)
next
  case CloseDone
  with st have c: "0 < closing s" and s': "s' = reconnect s" by (auto simp: wss_step_def split: if_splits)
  have "\<not> live s" using inv c by (auto simp: wss_inv_def split: if_splits)
  with inv have "last (sockets s) = Closed" "sockets s \<noteq> []" by (auto simp: wss_inv_def live_def)
  then have "set (sockets s) = insert Closed (set (butlast (sockets s)))"
    by (metis append_butlast_last_id list.simps(15) rotate1.simps(2) set_rotate1)
  with inv have "\<forall>x \<in> set (sockets s). x = Closed" by (simp add: wss_inv_def)
  moreover have "length (timers s) + closing s \<le> 1" using inv by (simp add: wss_inv_def)
  with c have "length (timers s) = 0" "closing s = 1" by linarith+
  then have "timers s = []" "closing s = 1" by simp_all
  ultimately show ?thesis using inv \<open>\<not> live s\<close>
    by (auto simp: wss_inv_def s' reconnect_def runResubscribeHandlers_def connectWss_def subscribe_def live_def)
next
  case ListenerBoot
  with st have "s' = listener_boot s" by (auto simp: wss_step_def split: if_splits)
  with inv show ?thesis by (auto simp: wss_inv_def listener_boot_def subscribe_def live_def)
next
  case ModuleDestroy
  with st have "s' = chain_onModuleDestroy s" by (auto simp: wss_step_def split: if_splits)
  with inv show ?thesis by (auto simp: wss_inv_def chain_onModuleDestroy_def unsubscribe_def live_def)
qed

lemma wss_run_inv: "wss_run tr s \<Longrightarrow> wss_inv s"
proof (induction rule: wss_run.induct)
  case init
  show ?case by (simp add: wss_inv_def wss_init_def connectWss_def live_def)
qed (rule wss_inv_step)

end
