(* ===== verification/WssClaims.thy ===== *)
theory WssClaims
  imports Wss
begin

text \<open>Properties of the event socket: it comes back after every close, and what a shutdown does to that.\<close>

text \<open>
  C27: The event connection comes back. Until shutdown there is exactly one of a live current socket, a pending
  reconnection timer (of one to thirty seconds) and a reconnection under way, never two connections
  and never none in sight; and once the listener has booted, a live socket carries its Transfer
  subscription, on every connection made.
\<close>

theorem wss_comes_back:
  assumes "wss_run tr s" "\<not> shuttingDown s"
  shows "length (timers s) + closing s + (if last (sockets s) \<noteq> Closed then 1 else 0) = 1 \<and>
    filter (\<lambda>x. x \<noteq> Closed) (butlast (sockets s)) = [] \<and> set (timers s) \<subseteq> {1000..30000} \<and>
    (handlers s = 0 \<or> last (sockets s) = Closed \<or> last (subscribed s))"
proof -
  have "wss_inv s" using assms(1) by (rule wss_run_inv)
  with assms(2) show ?thesis by (auto simp: wss_inv_def live_def filter_empty_conv)
qed

definition wss_again :: wss where
  "wss_again = \<lparr>sockets = [Closed, Connecting], subscribed = [False, True], reconnectAttempts = 1,
     shuttingDown = False, timers = [], closing = 0, handlers = 1, backfills = 1\<rparr>"

text \<open>The first socket opens, drops, and is replaced.\<close>

lemma wss_drop_run: "wss_run [ListenerBoot, SocketOpen 0, SocketClose 0, Timer 0]
  \<lparr>sockets = [Closed], subscribed = [False], reconnectAttempts = 1, shuttingDown = False, timers = [],
   closing = 1, handlers = 1, backfills = 0\<rparr>"
proof -
  note defs = wss_step_def wss_init_def connectWss_def listener_boot_def subscribe_def onopen_def onclose_def
    scheduleReconnect_def fire_timer_def unsubscribe_def Let_def
  have "wss_run [ListenerBoot] (wss_init\<lparr>subscribed := [True], handlers := 1\<rparr>)"
    using wss_run.step [OF wss_run.init, of ListenerBoot] by (simp add: defs)
  from wss_run.step [OF this, of "SocketOpen 0"]
  have "wss_run [ListenerBoot, SocketOpen 0] (wss_init\<lparr>sockets := [Open], subscribed := [True], handlers := 1\<rparr>)"
    by (simp add: defs)
  from wss_run.step [OF this, of "SocketClose 0"]
  have "wss_run [ListenerBoot, SocketOpen 0, SocketClose 0] (wss_init\<lparr>sockets := [Closed], subscribed := [True],
      handlers := 1, reconnectAttempts := 1, timers := [reconnect_delay 1]\<rparr>)" by (simp add: defs)
  from wss_run.step [OF this, of "Timer 0"] show ?thesis by (simp add: defs)
qed

lemma wss_again_run: "wss_run [ListenerBoot, SocketOpen 0, SocketClose 0, Timer 0, CloseDone] wss_again"
  using wss_run.step [OF wss_drop_run, of CloseDone]
  by (simp add: wss_step_def reconnect_def connectWss_def runResubscribeHandlers_def subscribe_def wss_again_def)

lemma wss_comes_back_witness:
  "length (timers wss_again) + closing wss_again + 1 = (1 :: nat) \<and> last (subscribed wss_again)"
  using wss_comes_back [OF wss_again_run] by (simp add: wss_again_def)

text \<open>
  A shutdown during a reconnection is undone. The block that waits for \<open>closeWss\<close> does not look at
  \<open>shuttingDown\<close> again: it opens a new connection after the shutdown hook is through, subscribes it and
  starts a poll, and nothing is left that would close the connection.
\<close>

theorem wss_survives_shutdown:
  "\<exists>tr s. wss_run (tr @ [ModuleDestroy, CloseDone]) s \<and> shuttingDown s \<and> last (sockets s) = Connecting \<and>
     last (subscribed s) \<and> backfills s = 1 \<and> timers s = [] \<and> closing s = 0"
proof -
  let ?tr = "[ListenerBoot, SocketOpen 0, SocketClose 0, Timer 0]"
  note defs = wss_step_def chain_onModuleDestroy_def unsubscribe_def reconnect_def connectWss_def
    runResubscribeHandlers_def subscribe_def
  obtain s where "wss_run (?tr @ [ModuleDestroy]) s" and s: "s = \<lparr>sockets = [Closed], subscribed = [False],
      reconnectAttempts = 1, shuttingDown = True, timers = [], closing = 1, handlers = 1, backfills = 0\<rparr>"
    using wss_run.step [OF wss_drop_run, of ModuleDestroy] by (simp add: defs)
  from wss_run.step [OF this(1), of CloseDone]
  have "wss_run (?tr @ [ModuleDestroy, CloseDone]) (s\<lparr>sockets := [Closed, Connecting], subscribed := [False, True],
      closing := 0, backfills := 1\<rparr>)" by (simp add: defs s)
  then show ?thesis using s by (intro exI [of _ ?tr]) fastforce
qed

end
