(* ===== verification/EscrowClaims.thy ===== *)
theory EscrowClaims
  imports Escrow
begin

text \<open>
  Properties of the escrow contract, for every token that obeys the interface \<open>erc20\<close>, in all states that
  any calls of any accounts at any times lead to.
\<close>

section \<open>A concrete deployment\<close>

definition demo_site :: escrow_site where
  "demo_site = \<lparr>self = ''E'', settler = ''op''\<rparr>"

definition demo_tok :: mock_erc20 where
  "demo_tok = \<lparr>balanceOf_map = (\<lambda>a. if a = ''op'' then 100 else 0),
     allowance_map = (\<lambda>a p. if a = ''op'' \<and> p = ''E'' then 100 else 0), totalSupply = 100\<rparr>"

definition evm_new :: "mock_erc20 evm" where
  "evm_new = \<lparr>tok = demo_tok, deals = (\<lambda>_. zero_deal), events = []\<rparr>"

definition evm_funded :: "mock_erc20 evm" where
  "evm_funded = \<lparr>tok = demo_tok\<lparr>balanceOf_map := (\<lambda>a. if a = ''op'' then 60 else if a = ''E'' then 40 else 0),
       allowance_map := (\<lambda>a p. if a = ''op'' \<and> p = ''E'' then 60 else 0)\<rparr>,
     deals = (\<lambda>_. zero_deal)(''d'' := \<lparr>depositor = ''op'', beneficiary = ''b'', deal_amount = 40,
       deadline = 1000, deal_state = Funded\<rparr>),
     events = [FundedEv ''d'' ''op'' ''b'' 40 1000]\<rparr>"

lemma demo_site_sel [simp]: "self demo_site = ''E''" "settler demo_site = ''op''"
  by (simp_all add: demo_site_def)

lemma evm_new_run: "evm_run mock_ops demo_site (\<lambda>t. True) evm_new"
  unfolding evm_new_def by (rule evm_run.deployed) (simp_all add: demo_tok_def)

lemma exec_fund: "exec mock_ops demo_site ''op'' 500 (Fund ''d'' ''b'' 40 1000) evm_new = Inr evm_funded"
  by (auto simp: fund_def evm_new_def evm_funded_def demo_tok_def zero_deal_def time_of_def mock_transferFrom_def
      mock_move_def checked_add_def Let_def fun_eq_iff)

lemma evm_funded_run: "evm_run mock_ops demo_site (\<lambda>t. True) evm_funded"
  by (rule evm_run.call [OF evm_new_run _ exec_fund]) simp

section \<open>Solvency\<close>

text \<open>
  C10: The escrow is solvent. In every state it holds at least the sum of the amounts of all funded deals,
  whoever called what and when, so every open deal can be paid.
\<close>

theorem escrow_solvent:
  assumes "erc20 ops good" "evm_run ops c good s"
  shows "finite {i. deal_state (deals s i) = Funded} \<and>
    (\<Sum>i | deal_state (deals s i) = Funded. unat (deal_amount (deals s i))) \<le> unat (op_balanceOf ops (tok s) (self c))"
proof -
  have "escrow_inv ops c good s" using assms by (rule erc20.evm_run_inv)
  then show ?thesis by (simp add: escrow_inv_def locked_def funded_def)
qed

lemma escrow_solvent_witness:
  "unat (deal_amount (deals evm_funded ''d'')) = 40 \<and>
   (\<Sum>i | deal_state (deals evm_funded i) = Funded. unat (deal_amount (deals evm_funded i))) \<le> 40"
  using escrow_solvent [OF mock.erc20_axioms evm_funded_run] by (simp add: evm_funded_def)

text \<open>
  C14: Each deal is paid at most once, to the right party. In every state the events of a deal are its history:
  none for an id that was never funded; its funding; its funding and one release of the funded
  amount to the beneficiary; or its funding and one refund of that amount to the depositor.
\<close>

theorem deal_paid_once:
  assumes "erc20 ops good" "evm_run ops c good s"
  shows "filter (\<lambda>ev. ev_deal ev = i) (events s) = (let d = deals s i;
      f = FundedEv i (depositor d) (beneficiary d) (deal_amount d) (deadline d) in
    case deal_state d of NoDeal \<Rightarrow> [] | Funded \<Rightarrow> [f]
    | Released \<Rightarrow> [f, ReleasedEv i (beneficiary d) (deal_amount d)]
    | Refunded \<Rightarrow> [f, RefundedEv i (depositor d) (deal_amount d)])"
proof -
  have "escrow_inv ops c good s" using assms by (rule erc20.evm_run_inv)
  then show ?thesis by (simp add: escrow_inv_def deal_history_def Let_def)
qed

lemma deal_paid_once_witness:
  "filter (\<lambda>ev. ev_deal ev = ''d'') (events evm_funded) = [FundedEv ''d'' ''op'' ''b'' 40 1000]"
  using deal_paid_once [OF mock.erc20_axioms evm_funded_run, of "''d''"] by (simp add: evm_funded_def)

section \<open>Release or refund\<close>

lemma pay_success:
  assumes "erc20 ops good" "good (tok s)" "op_transfer ops (self c) to n (tok s) = Inr (True, t)"
  shows "\<exists>s'. pay ops c to n ev s = Inr s' \<and> deals s' = deals s \<and>
    (\<lambda>a. unat (op_balanceOf ops (tok s') a)) = moved (self c) to (unat n) (\<lambda>a. unat (op_balanceOf ops (tok s) a))"
  using erc20.transfer_law [OF assms] assms(3) by (simp add: pay_def)

text \<open>
  C20: A funded deal can always be ended, and release and refund exclude each other. Over a lawful token whose
  transfers out of the escrow succeed, up to and including
  the deadline the settler's release pays the beneficiary and a refund is refused; after it a refund, by
  anyone, pays the depositor and a release is refused. Nobody but the settler can release or cancel. The
  settler's cancel, which pays the depositor, is open beside either of them at every moment: the code
  does not look at the deadline there, although the comment on \<open>cancel\<close> says "before the deadline".
\<close>

theorem deal_way_out:
  assumes "erc20 ops good" "evm_run ops c good s" "deal_state (deals s i) = Funded"
    and "\<And>to. \<exists>t. op_transfer ops (self c) to (deal_amount (deals s i)) (tok s) = Inr (True, t)"
  shows "let d = deals s i; n = unat (deal_amount d);
      paid = (\<lambda>to st s'. deal_state (deals s' i) = st \<and>
        (\<lambda>a. unat (op_balanceOf ops (tok s') a)) = moved (self c) to n (\<lambda>a. unat (op_balanceOf ops (tok s) a))) in
    (if now \<le> time_of (deadline d)
     then (\<exists>s'. release ops c (settler c) now i s = Inr s' \<and> paid (beneficiary d) Released s') \<and>
       refund ops c any now i s = Inl DeadlineNotReached
     else release ops c (settler c) now i s = Inl DeadlinePassed \<and>
       (\<exists>s'. refund ops c any now i s = Inr s' \<and> paid (depositor d) Refunded s')) \<and>
    (\<exists>s'. cancel ops c (settler c) now i s = Inr s' \<and> paid (depositor d) Refunded s') \<and>
    (if other = settler c then True else release ops c other now i s = Inl NotSettler \<and>
       cancel ops c other now i s = Inl NotSettler)"
proof -
  let ?d = "deals s i"
  have "good (tok s)" using erc20.evm_run_inv [OF assms(1,2)] by (simp add: escrow_inv_def)
  then have pay: "\<exists>s'. pay ops c to (deal_amount ?d) ev (set_state i st s) = Inr s' \<and> deal_state (deals s' i) = st \<and>
      (\<lambda>a. unat (op_balanceOf ops (tok s') a)) =
        moved (self c) to (unat (deal_amount ?d)) (\<lambda>a. unat (op_balanceOf ops (tok s) a))" for to ev st
    using assms(4) [of to] pay_success [OF assms(1), of "set_state i st s" c to "deal_amount ?d"]
    by (fastforce simp: set_state_def)
  show ?thesis
    using assms(3) pay by (simp add: release_def refund_def cancel_def Let_def not_le)
qed

lemma deal_way_out_witness:
  "(\<exists>s'. release mock_ops demo_site ''op'' 1000 ''d'' evm_funded = Inr s' \<and> unat (balanceOf_map (tok s') ''b'') = 40) \<and>
   (\<exists>s'. refund mock_ops demo_site ''x'' 1001 ''d'' evm_funded = Inr s' \<and> unat (balanceOf_map (tok s') ''op'') = 100)"
proof -
  have st: "deal_state (deals evm_funded ''d'') = Funded" by (simp add: evm_funded_def)
  have pays: "\<exists>t. op_transfer mock_ops (self demo_site) to (deal_amount (deals evm_funded ''d'')) (tok evm_funded)
      = Inr (True, t)" for to
    by (simp add: evm_funded_def mock_transfer_def mock_move_def checked_add_def Let_def split: sum.split)
  note w = deal_way_out [OF mock.erc20_axioms evm_funded_run st pays]
  obtain s' where "release mock_ops demo_site ''op'' 1000 ''d'' evm_funded = Inr s'"
    "(\<lambda>a. unat (balanceOf_map (tok s') a)) = moved ''E'' ''b'' 40 (\<lambda>a. unat (balanceOf_map (tok evm_funded) a))"
    using w [where now = 1000 and any = "''x''" and other = "''x''"]
    by (auto simp: evm_funded_def time_of_def Let_def)
  moreover obtain s'' where "refund mock_ops demo_site ''x'' 1001 ''d'' evm_funded = Inr s''"
    "(\<lambda>a. unat (balanceOf_map (tok s'') a)) = moved ''E'' ''op'' 40 (\<lambda>a. unat (balanceOf_map (tok evm_funded) a))"
    using w [where now = 1001 and any = "''x''" and other = "''x''"]
    by (auto simp: evm_funded_def time_of_def Let_def)
  ultimately show ?thesis
    by (auto simp: moved_def evm_funded_def demo_tok_def fun_eq_iff)
qed

end
