(* ===== verification/DvpClaims.thy ===== *)
theory DvpClaims
  imports EscrowClaims HazardClaims
begin

text \<open>
  Properties of the DvP service over the escrow contract and the repository's token: what funding and
  releasing do on the chain and to the rail, and where the rail loses sight of them.
\<close>

section \<open>The calls on the token\<close>

definition deal_of :: "string \<Rightarrow> string \<Rightarrow> uint256 \<Rightarrow> uint64 \<Rightarrow> deal" where
  "deal_of dep ben n dl = \<lparr>depositor = dep, beneficiary = ben, deal_amount = n, deadline = dl, deal_state = Funded\<rparr>"

lemma mock_fund:
  assumes "n \<noteq> 0" "bt < time_of dl" "deal_state (deals s i) = NoDeal" "n \<le> allowance_map (tok s) op (self c)"
    "n \<le> balanceOf_map (tok s) op" "unat (balanceOf_map (tok s) (self c)) + unat n < 2 ^ 256" "op \<noteq> self c"
  shows "\<exists>s'. fund mock_ops c op bt i ben n dl s = Inr s' \<and> deals s' = (deals s)(i := deal_of op ben n dl) \<and>
    balanceOf_map (tok s') = (balanceOf_map (tok s))(op := balanceOf_map (tok s) op - n,
      self c := balanceOf_map (tok s) (self c) + n)"
  using assms
  by (auto simp: fund_def mock_transferFrom_def mock_move_def checked_add_def Let_def deal_of_def not_le not_less)

lemma mock_pay:
  assumes "n \<le> balanceOf_map (tok s) (self c)" "unat (balanceOf_map (tok s) to) + unat n < 2 ^ 256" "to \<noteq> self c"
  shows "\<exists>s'. pay mock_ops c to n ev s = Inr s' \<and> deals s' = deals s \<and>
    balanceOf_map (tok s') = (balanceOf_map (tok s))(self c := balanceOf_map (tok s) (self c) - n,
      to := balanceOf_map (tok s) to + n)"
  using assms by (auto simp: pay_def mock_transfer_def mock_move_def checked_add_def Let_def not_le not_less)

text \<open>
  The node hands out a hash for every transaction: none that is known already, and different ones to an
  approval and to the funding after it.
\<close>

definition fresh_hashes :: "env \<Rightarrow> string \<Rightarrow> (evm_call \<Rightarrow> nat \<Rightarrow> string) \<Rightarrow> pending_tx list \<Rightarrow> bool" where
  "fresh_hashes e sender hash ps \<longleftrightarrow> (\<forall>k c n. sendTx (rpc e k) sender c n = Inr (hash c n)) \<and>
     (\<forall>c n. hash c n \<notin> set (map pt_hash ps)) \<and>
     (\<forall>a n k i b x t k'. hash (Approve a n) k \<noteq> hash (Fund i b x t) k')"

lemma send_wait:
  assumes up: "chain_up e bt" and fr: "fresh_hashes e (operatorAddress w) hash ps"
    and c: "\<forall>p \<in> set (pool w). p \<in> set ps \<or> (\<forall>n. pt_hash p \<noteq> hash c n)"
    and ex: "exec (usdc e) (site_at addr e) (operatorAddress w) bt c (evm w) = Inr m"
  shows "\<exists>p k. await (send_call addr c) (\<lambda>h. andThen (wait1 addr h) (ret (f h))) e w =
    (Inr (f (pt_hash p)), w\<lparr>evm := m, pool := pool w @ [p], tick := k\<rparr>) \<and>
     pt_from p = operatorAddress w \<and> pt_call p = c \<and> pt_ok p = Some True \<and> pt_hash p = hash c (pt_nonce p)"
proof -
  have new: "hash c n \<notin> set (map pt_hash (pool w))" for n
  proof
    assume "hash c n \<in> set (map pt_hash (pool w))"
    then obtain p where p: "p \<in> set (pool w)" "pt_hash p = hash c n" by auto
    with c have "p \<in> set ps" by blast
    moreover have "hash c n \<notin> set (map pt_hash ps)" using fr by (simp add: fresh_hashes_def)
    ultimately show False unfolding p(2) [symmetric] by simp
  qed
  have "\<exists>h. sendTx (rpc e k) (operatorAddress w) c n = Inr h \<and> h \<notin> set (map pt_hash (pool w))" for k n
    using fr new by (simp add: fresh_hashes_def)
  from send_and_wait [OF up this ex, of f] fr show ?thesis by (fastforce simp: fresh_hashes_def)
qed

section \<open>Funding\<close>

lemma encode_run:
  "0 \<le> x \<Longrightarrow> x < 2 ^ LENGTH('a) \<Longrightarrow> encode x e w = (Inr (word_of_int x :: 'a :: len word), w)"
  by (simp add: encode_def run_simps)

lemma uint_in_range: "0 \<le> x \<Longrightarrow> x < 2 ^ LENGTH('a) \<Longrightarrow> uint (word_of_int x :: 'a :: len word) = x"
  by (simp add: uint_word_of_int_eq take_bit_int_eq_self_iff)

lemma uint_time_of: "uint (time_of dl) = uint dl"
proof -
  have "uint dl < 2 ^ 256" using uint_lt2p [of dl] by simp
  then show ?thesis by (simp add: time_of_def unsigned_ucast_eq take_bit_int_eq_self)
qed

lemma unat_sum_less:
  assumes "uint a + uint b < 2 ^ k"
  shows "unat a + unat b < 2 ^ k"
proof -
  have "int (unat a + unat b) < int (2 ^ k)" using assms by simp
  then show ?thesis by (simp only: of_nat_less_iff)
qed

text \<open>The approval, with what it leaves behind.\<close>

lemma approve_step:
  fixes addr :: string
  assumes up: "chain_up e bt" and fr: "fresh_hashes e (operatorAddress w) hash (pool w)" and ops: "usdc e = mock_ops"
    and units: "0 \<le> units" "units < 2 ^ 256"
  defines "short \<equiv> uint (allowance_map (tok (evm w)) (operatorAddress w) addr) < units"
  shows "\<exists>ap m ps k. approve_if_needed addr (operatorAddress w) units e w =
      (Inr ap, w\<lparr>evm := m, pool := pool w @ ps, tick := k\<rparr>) \<and> deals m = deals (evm w) \<and>
    balanceOf_map (tok m) = balanceOf_map (tok (evm w)) \<and>
    allowance_map (tok m) (operatorAddress w) addr = (if short then word_of_int units
      else allowance_map (tok (evm w)) (operatorAddress w) addr) \<and>
    map pt_call ps = (if short then [Approve addr (word_of_int units)] else []) \<and>
    (\<forall>p \<in> set ps. \<exists>n. pt_hash p = hash (Approve addr (word_of_int units)) n)"
proof -
  have q: "quiet e" and b: "\<And>k. ethCall (rpc e k) = None" using up by (auto simp: chain_up_def)
  let ?w1 = "w\<lparr>tick := Suc (Suc (tick w))\<rparr>" and ?n = "word_of_int units :: uint256"
  have read: "eth_call (\<lambda>e s. op_allowance (usdc e) (tok s) (operatorAddress w) addr) e w =
      (Inr (allowance_map (tok (evm w)) (operatorAddress w) addr), ?w1)"
    using q b ops by (simp add: quiet_eth_call)
  show ?thesis
  proof (cases short)
    case False
    then have "approve_if_needed addr (operatorAddress w) units e w = (Inr None, ?w1)"
      unfolding short_def by (simp add: approve_if_needed_def run_simps read)
    then show ?thesis using False
      by (intro exI [of _ None] exI [of _ "evm w"] exI [of _ "[]"] exI [of _ "Suc (Suc (tick w))"]) simp
  next
    case True
    let ?m = "(evm w)\<lparr>tok := (tok (evm w))\<lparr>allowance_map := (allowance_map (tok (evm w)))
      (operatorAddress w := (allowance_map (tok (evm w)) (operatorAddress w))(addr := ?n))\<rparr>\<rparr>"
    have ex: "exec (usdc e) (site_at addr e) (operatorAddress ?w1) bt (Approve addr ?n) (evm ?w1) = Inr ?m"
      by (simp add: ops token_call_def mock_approve_def)
    have "fresh_hashes e (operatorAddress ?w1) hash (pool w)" using fr by simp
    from send_wait [OF up this _ ex, of Some] obtain p k where
      s: "await (send_call addr (Approve addr ?n)) (\<lambda>h. andThen (wait1 addr h) (ret (Some h))) e ?w1 =
        (Inr (Some (pt_hash p)), ?w1\<lparr>evm := ?m, pool := pool w @ [p], tick := k\<rparr>)"
      and p: "pt_call p = Approve addr ?n" "pt_hash p = hash (Approve addr ?n) (pt_nonce p)" by auto
    have "approve_if_needed addr (operatorAddress w) units e w =
        (Inr (Some (pt_hash p)), w\<lparr>evm := ?m, pool := pool w @ [p], tick := k\<rparr>)"
      using True s units unfolding short_def
      by (simp add: approve_if_needed_def run_simps read encode_run)
    then show ?thesis using True p
      by (intro exI [of _ "Some (pt_hash p)"] exI [of _ ?m] exI [of _ "[p]"] exI [of _ k]) auto
  qed
qed

text \<open>What a request for a deal comes down to: a configured escrow, a key, base units and a deadline.\<close>

definition dvp_request :: "env \<Rightarrow> world \<Rightarrow> dvp_dto \<Rightarrow> string \<Rightarrow> string \<Rightarrow> int \<Rightarrow> int \<Rightarrow> bool" where
  "dvp_request e w dto addr i units dl \<longleftrightarrow> dvpEscrowAddress (cfg e) = Some addr \<and> addr \<noteq> [] \<and>
     keccakUtf8 (lib e) (dv_instructionId dto) = i \<and>
     parseUnits (lib e) (dv_amount dto) (decimals w) = Inr units \<and> 0 < units \<and> units < 2 ^ 256 \<and>
     0 \<le> dl \<and> dl < 2 ^ 64 \<and>
     (\<exists>t. getBlockTime (rpc e (Suc (tick w))) = Inr (Some t) \<and>
       dl = t + (case dv_deadlineSeconds dto of None \<Rightarrow> 3600 | Some s \<Rightarrow> s))"

lemma fund_prefix:
  assumes up: "chain_up e bt" and r: "dvp_request e w dto addr i units dl"
    and ap: "approve_if_needed addr (operatorAddress w) units e (w\<lparr>tick := Suc (Suc (tick w))\<rparr>) = (Inr ap, w2)"
  shows "dvp_fund dto e w = await (send_call addr (Fund i (dv_beneficiary dto) (word_of_int units) (word_of_int dl)))
     (\<lambda>h. andThen (wait1 addr h) (ret \<lparr>df_instructionId = dv_instructionId dto, df_dealId = i,
       df_beneficiary = dv_beneficiary dto, df_amount = dv_amount dto, df_deadline = dl, df_status = ''Funded'', df_approveTx = ap,
       df_fundTx = h\<rparr>)) e w2"
proof -
  have q: "quiet e" using up by (simp add: chain_up_def)
  from r obtain t c cs where t: "getBlockTime (rpc e (Suc (tick w))) = Inr (Some t)"
    "t + (case dv_deadlineSeconds dto of None \<Rightarrow> 3600 | Some s \<Rightarrow> s) = dl" and addr: "addr = c # cs"
    by (cases addr) (auto simp: dvp_request_def)
  have a: "escrowAddress e w = (Inr addr, w)" using r addr by (simp add: escrowAddress_def run_simps dvp_request_def)
  have enc: "encode units e w2 = (Inr (word_of_int units :: uint256), w2)" "encode dl e w2 = (Inr (word_of_int dl :: uint64), w2)"
    using r by (simp_all add: encode_run dvp_request_def)
  from r have k: "keccakUtf8 (lib e) (dv_instructionId dto) = i" "parseUnits (lib e) (dv_amount dto) (decimals w) = Inr units"
    by (simp_all add: dvp_request_def)
  show ?thesis
    by (simp add: dvp_fund_def dealId_def base_time_def Let_def run_simps(3,6) a k quiet_rpc_call [OF q] t ap enc)
qed

text \<open>The call itself, on the numbers behind the words.\<close>

lemma fund_exec:
  fixes units dl :: int
  assumes "usdc e = mock_ops" "oper \<noteq> addr" "0 < units" "units < 2 ^ 256" "0 \<le> dl" "dl < 2 ^ 64" "uint bt < dl"
    and "deal_state (deals m i) = NoDeal" "units \<le> uint (balanceOf_map (tok m) oper)"
    and "units \<le> uint (allowance_map (tok m) oper addr)" "uint (balanceOf_map (tok m) addr) + units < 2 ^ 256"
  shows "\<exists>m'. exec (usdc e) (site_at addr e) oper bt (Fund i ben (word_of_int units) (word_of_int dl)) m = Inr m' \<and>
    deals m' = (deals m)(i := deal_of oper ben (word_of_int units) (word_of_int dl)) \<and>
    (\<lambda>a. uint (balanceOf_map (tok m') a)) = (\<lambda>a. uint (balanceOf_map (tok m) a))
      (oper := uint (balanceOf_map (tok m) oper) - units, addr := uint (balanceOf_map (tok m) addr) + units)"
proof -
  let ?n = "word_of_int units :: uint256" and ?t = "word_of_int dl :: uint64"
  have un: "uint ?n = units" "uint ?t = dl" using assms(3-6) by (simp_all add: uint_in_range)
  have le: "?n \<le> balanceOf_map (tok m) oper" and al: "?n \<le> allowance_map (tok m) oper (self (site_at addr e))"
    using assms(9,10) un by (simp_all add: word_le_def)
  have nz: "?n \<noteq> 0" and tm: "bt < time_of ?t" and ne: "oper \<noteq> self (site_at addr e)"
    using un assms(2,3,7) by (auto simp: word_less_def uint_time_of)
  have sum: "unat (balanceOf_map (tok m) (self (site_at addr e))) + unat ?n < 2 ^ 256"
    by (rule unat_sum_less) (use assms(11) un(1) in simp)
  obtain m' where f: "fund mock_ops (site_at addr e) oper bt i ben ?n ?t m = Inr m'"
    and d: "deals m' = (deals m)(i := deal_of oper ben ?n ?t)"
    and b: "balanceOf_map (tok m') = (balanceOf_map (tok m))(oper := balanceOf_map (tok m) oper - ?n,
        addr := balanceOf_map (tok m) addr + ?n)"
    using mock_fund [OF nz tm assms(8) al le sum ne, of ben] by auto
  have "uint (balanceOf_map (tok m) addr + ?n) = uint (balanceOf_map (tok m) addr) + units"
    "uint (balanceOf_map (tok m) oper - ?n) = uint (balanceOf_map (tok m) oper) - units"
    using assms(11) le un(1) by (simp_all add: uint_plus_if' uint_sub_if' word_le_def)
  with f d b assms(1) show ?thesis by (intro exI [of _ m']) (simp add: fun_eq_iff)
qed

text \<open>
  C19: Funding locks the money on the chain and nowhere else. On a chain that serves and mines, a request for a new
  deal within the operator's balance approves exactly the amount if the allowance is short, then
  funds: the deal is recorded with the operator as depositor, and the amount moves from the operator to
  the escrow. The rail's database, its ledger, its available balance and the relayer's nonce are untouched.
\<close>

theorem dvp_fund_locks:
  assumes "chain_up e bt" "fresh_hashes e (operatorAddress w) hash (pool w)" "usdc e = mock_ops"
    and "dvp_request e w dto addr i units dl" "uint bt < dl" "operatorAddress w \<noteq> addr"
    and "deal_state (deals (evm w) i) = NoDeal" "units \<le> uint (balanceOf_map (tok (evm w)) (operatorAddress w))"
    and "uint (balanceOf_map (tok (evm w)) addr) + units < 2 ^ 256"
  shows "\<exists>r v. dvp_fund dto e w = (Inr r, v) \<and> df_dealId r = i \<and> df_deadline r = dl \<and>
    deals (evm v) = (deals (evm w))(i := \<lparr>depositor = operatorAddress w, beneficiary = dv_beneficiary dto,
      deal_amount = word_of_int units, deadline = word_of_int dl, deal_state = Funded\<rparr>) \<and>
    (\<lambda>a. uint (balanceOf_map (tok (evm v)) a)) = (\<lambda>a. uint (balanceOf_map (tok (evm w)) a))
      (operatorAddress w := uint (balanceOf_map (tok (evm w)) (operatorAddress w)) - units,
       addr := uint (balanceOf_map (tok (evm w)) addr) + units) \<and>
    map pt_call (pool v) = map pt_call (pool w) @
      (if uint (allowance_map (tok (evm w)) (operatorAddress w) addr) < units then [Approve addr (word_of_int units)] else []) @
      [Fund i (dv_beneficiary dto) (word_of_int units) (word_of_int dl)] \<and>
    db v = db w \<and> available_of (db v) = available_of (db w) \<and> localNonce v = localNonce w"
proof -
  let ?op = "operatorAddress w" and ?n = "word_of_int units :: uint256" and ?t = "word_of_int dl :: uint64"
  let ?w1 = "w\<lparr>tick := Suc (Suc (tick w))\<rparr>" and ?k = "Fund i (dv_beneficiary dto) (word_of_int units) (word_of_int dl)"
  from assms(4) have u: "0 < units" "units < 2 ^ 256" "0 \<le> dl" "dl < 2 ^ 64" by (simp_all add: dvp_request_def)
  have fr1: "fresh_hashes e (operatorAddress ?w1) hash (pool ?w1)" using assms(2) by simp
  from approve_step [OF assms(1) fr1 assms(3) less_imp_le [OF u(1)] u(2), of addr]
  obtain ap m ps k where ap: "approve_if_needed addr ?op units e ?w1 = (Inr ap, ?w1\<lparr>evm := m, pool := pool w @ ps, tick := k\<rparr>)"
    and d: "deals m = deals (evm w)" and b: "balanceOf_map (tok m) = balanceOf_map (tok (evm w))"
    and al: "allowance_map (tok m) ?op addr = (if uint (allowance_map (tok (evm w)) ?op addr) < units then ?n
        else allowance_map (tok (evm w)) ?op addr)"
    and ps: "map pt_call ps = (if uint (allowance_map (tok (evm w)) ?op addr) < units then [Approve addr ?n] else [])"
      "\<forall>p \<in> set ps. \<exists>n. pt_hash p = hash (Approve addr ?n) n" by auto
  let ?w2 = "?w1\<lparr>evm := m, pool := pool w @ ps, tick := k\<rparr>"
  have bal: "units \<le> uint (balanceOf_map (tok m) ?op)" "uint (balanceOf_map (tok m) addr) + units < 2 ^ 256"
    "units \<le> uint (allowance_map (tok m) ?op addr)" "deal_state (deals m i) = NoDeal"
    using assms(7-9) u by (simp_all add: b al d uint_in_range)
  obtain m' where ex: "exec (usdc e) (site_at addr e) (operatorAddress ?w2) bt ?k (evm ?w2) = Inr m'"
    and d': "deals m' = (deals m)(i := deal_of ?op (dv_beneficiary dto) ?n ?t)"
    and b': "(\<lambda>a. uint (balanceOf_map (tok m') a)) = (\<lambda>a. uint (balanceOf_map (tok m) a))
      (?op := uint (balanceOf_map (tok m) ?op) - units, addr := uint (balanceOf_map (tok m) addr) + units)"
    using fund_exec [OF assms(3,6) u assms(5) bal(4,1,3,2), of "dv_beneficiary dto"] by auto
  have fr2: "fresh_hashes e (operatorAddress ?w2) hash (pool w)" using assms(2) by simp
  have cs: "\<forall>p \<in> set (pool ?w2). p \<in> set (pool w) \<or> (\<forall>n. pt_hash p \<noteq> hash ?k n)"
  proof
    fix p assume "p \<in> set (pool ?w2)"
    with ps(2) consider "p \<in> set (pool w)" | k where "pt_hash p = hash (Approve addr ?n) k" by auto
    then show "p \<in> set (pool w) \<or> (\<forall>n. pt_hash p \<noteq> hash ?k n)"
      using assms(2) by cases (simp_all add: fresh_hashes_def)
  qed
  from send_wait [OF assms(1) fr2 cs ex, of "\<lambda>h. \<lparr>df_instructionId = dv_instructionId dto, df_dealId = i,
       df_beneficiary = dv_beneficiary dto, df_amount = dv_amount dto, df_deadline = dl, df_status = ''Funded'', df_approveTx = ap, df_fundTx = h\<rparr>"]
  obtain p k' where run: "dvp_fund dto e w = (Inr \<lparr>df_instructionId = dv_instructionId dto, df_dealId = i,
       df_beneficiary = dv_beneficiary dto, df_amount = dv_amount dto, df_deadline = dl, df_status = ''Funded'', df_approveTx = ap,
       df_fundTx = pt_hash p\<rparr>, ?w2\<lparr>evm := m', pool := pool ?w2 @ [p], tick := k'\<rparr>)" and p: "pt_call p = ?k"
    unfolding fund_prefix [OF assms(1,4) ap] by blast
  show ?thesis
    by (rule exI, rule exI, intro conjI, rule run) (simp_all add: d' d deal_of_def b' b ps(1) p)
qed


text \<open>The demo rail with an escrow whose settler is the operator, and a token in which it owns 100.\<close>

definition rich_evm :: "mock_erc20 evm" where
  "rich_evm = \<lparr>tok = \<lparr>balanceOf_map = (\<lambda>a. if a = ''op'' then 100000000 else 0), allowance_map = (\<lambda>_ _. 0),
       totalSupply = 100000000\<rparr>, deals = (\<lambda>_. zero_deal), events = []\<rparr>"

definition demo_dvp :: dvp_dto where
  "demo_dvp = \<lparr>dv_instructionId = ''d'', dv_beneficiary = ''b'', dv_amount = ''40'', dv_deadlineSeconds = Some 60\<rparr>"

lemma demo_chain_up: "chain_up calm_env 500"
  by (simp add: chain_up_def demo_rpc_def)

lemma demo_fresh: "fresh_hashes calm_env a (\<lambda>c n. case c of Approve _ _ \<Rightarrow> ''A'' | _ \<Rightarrow> ''F'') []"
  by (simp add: fresh_hashes_def demo_rpc_def)

abbreviation w_rich :: world where
  "w_rich \<equiv> w_ready\<lparr>evm := rich_evm\<rparr>"

lemma w_rich_sel [simp]:
  "operatorAddress w_rich = ''op''" "pool w_rich = []" "db w_rich = db_ready" "decimals w_rich = 6"
  by (simp_all add: w_ready_def w_open_def boot_world_def)

lemma dvp_fund_locks_witness:
  "\<exists>r v. dvp_fund demo_dvp calm_env w_rich = (Inr r, v) \<and> df_deadline r = 560 \<and>
     deal_state (deals (evm v) ''d'') = Funded \<and> uint (balanceOf_map (tok (evm v)) ''op'') = 60000000 \<and>
     uint (balanceOf_map (tok (evm v)) ''E'') = 40000000 \<and>
     map pt_call (pool v) = [Approve ''E'' 40000000, Fund ''d'' ''b'' 40000000 560]"
proof -
  have r: "dvp_request calm_env w_rich demo_dvp ''E'' ''d'' 40000000 560"
    by (simp add: dvp_request_def demo_dvp_def demo_cfg_def demo_rpc_def)
  have s: "deal_state (deals (evm w_rich) ''d'') = NoDeal" "uint (balanceOf_map (tok (evm w_rich)) ''op'') = 100000000"
    "uint (balanceOf_map (tok (evm w_rich)) ''E'') = 0" "uint (allowance_map (tok (evm w_rich)) ''op'' ''E'') = 0"
    by (simp_all add: rich_evm_def zero_deal_def)
  have fr: "fresh_hashes calm_env (operatorAddress w_rich) (\<lambda>c n. case c of Approve _ _ \<Rightarrow> ''A'' | _ \<Rightarrow> ''F'') (pool w_rich)"
    using demo_fresh by simp
  from dvp_fund_locks [OF demo_chain_up fr _ r] s show ?thesis by (fastforce simp: demo_dvp_def fun_eq_iff)
qed

section \<open>Refusals\<close>

lemma send_refused:
  assumes up: "chain_up e bt" and ex: "exec (usdc e) (site_at addr e) (operatorAddress w) bt c (evm w) = Inl x"
  shows "await (send_call addr c) m e w = (Inl call_exception, w\<lparr>tick := Suc (Suc (Suc (tick w)))\<rparr>)"
proof -
  have q: "quiet e" and b: "\<And>k. ethCall (rpc e k) = None" "\<And>k. blockTime (rpc e k) = bt"
    using up by (auto simp: chain_up_def)
  from up obtain n where "getTransactionCount (rpc e (Suc (tick w))) = Inr n" by (auto simp: chain_up_def)
  with ex show ?thesis
    by (simp add: send_call_def estimate_def exec_now_def run_simps quiet_rpc_call [OF q] quiet_yield [OF q] b)
qed

lemma fund_refused:
  "deal_state (deals s i) \<noteq> NoDeal \<Longrightarrow> \<exists>x. fund ops c sender t i ben n dl s = Inl x"
  by (simp add: fund_def)

text \<open>
  A deal cannot be funded twice. When the instruction has a deal already, in whatever state, the request
  fails with a call exception, and neither the deals nor any balance changes; an approval that the first
  step sent stays behind.
\<close>

theorem dvp_fund_twice:
  assumes "chain_up e bt" "fresh_hashes e (operatorAddress w) hash (pool w)" "usdc e = mock_ops"
    and "dvp_request e w dto addr i units dl" "deal_state (deals (evm w) i) \<noteq> NoDeal"
  shows "let (res, v) = dvp_fund dto e w in res = Inl call_exception \<and> deals (evm v) = deals (evm w) \<and>
    balanceOf_map (tok (evm v)) = balanceOf_map (tok (evm w)) \<and> db v = db w \<and>
    map pt_call (pool v) = map pt_call (pool w) @
      (if uint (allowance_map (tok (evm w)) (operatorAddress w) addr) < units then [Approve addr (word_of_int units)] else [])"
proof -
  let ?w1 = "w\<lparr>tick := Suc (Suc (tick w))\<rparr>" and ?k = "Fund i (dv_beneficiary dto) (word_of_int units) (word_of_int dl)"
  from assms(4) have u: "0 \<le> units" "units < 2 ^ 256" by (simp_all add: dvp_request_def)
  have fr1: "fresh_hashes e (operatorAddress ?w1) hash (pool ?w1)" using assms(2) by simp
  from approve_step [OF assms(1) fr1 assms(3) u, of addr] obtain ap m ps k where
    ap: "approve_if_needed addr (operatorAddress w) units e ?w1 = (Inr ap, ?w1\<lparr>evm := m, pool := pool w @ ps, tick := k\<rparr>)"
    and d: "deals m = deals (evm w)" "balanceOf_map (tok m) = balanceOf_map (tok (evm w))"
    and ps: "map pt_call ps = (if uint (allowance_map (tok (evm w)) (operatorAddress w) addr) < units
        then [Approve addr (word_of_int units)] else [])" by auto
  let ?w2 = "?w1\<lparr>evm := m, pool := pool w @ ps, tick := k\<rparr>"
  obtain x where ex: "exec (usdc e) (site_at addr e) (operatorAddress ?w2) bt ?k (evm ?w2) = Inl x"
    using fund_refused [of m i] assms(5) d(1) by fastforce
  show ?thesis unfolding fund_prefix [OF assms(1,4) ap] send_refused [OF assms(1) ex] by (simp add: d ps)
qed

text \<open>The demo rail with a deal of 40 in the escrow until time 1000.\<close>

definition dealt_evm :: "mock_erc20 evm" where
  "dealt_evm = rich_evm\<lparr>tok := (tok rich_evm)\<lparr>balanceOf_map := (\<lambda>a. if a = ''op'' then 60000000
       else if a = ''E'' then 40000000 else 0)\<rparr>,
     deals := (\<lambda>_. zero_deal)(''d'' := deal_of ''op'' ''b'' 40000000 1000)\<rparr>"

abbreviation w_dealt :: world where
  "w_dealt \<equiv> w_ready\<lparr>evm := dealt_evm\<rparr>"

lemma w_dealt_sel [simp]:
  "operatorAddress w_dealt = ''op''" "pool w_dealt = []" "db w_dealt = db_ready" "decimals w_dealt = 6"
  by (simp_all add: w_ready_def w_open_def boot_world_def)

lemma dvp_fund_twice_witness:
  "fst (dvp_fund demo_dvp calm_env w_dealt) = Inl call_exception \<and>
   map pt_call (pool (snd (dvp_fund demo_dvp calm_env w_dealt))) = [Approve ''E'' 40000000]"
proof -
  have r: "dvp_request calm_env w_dealt demo_dvp ''E'' ''d'' 40000000 560"
    by (simp add: dvp_request_def demo_dvp_def demo_cfg_def demo_rpc_def)
  have fr: "fresh_hashes calm_env (operatorAddress w_dealt) (\<lambda>c n. case c of Approve _ _ \<Rightarrow> ''A'' | _ \<Rightarrow> ''F'') (pool w_dealt)"
    using demo_fresh by simp
  have s: "deal_state (deals (evm w_dealt) ''d'') \<noteq> NoDeal" "uint (allowance_map (tok (evm w_dealt)) ''op'' ''E'') = 0"
    by (simp_all add: dealt_evm_def rich_evm_def deal_of_def)
  from dvp_fund_twice [OF demo_chain_up fr _ r s(1)] s(2) show ?thesis by (auto split: prod.splits)
qed

section \<open>Release\<close>

text \<open>
  A release is decided by the clock of the chain. For a funded deal whose settler the operator is, a
  request up to the deadline pays the beneficiary the whole amount and marks the deal released; after the
  deadline it fails with a call exception, nothing is sent and nothing changes. The database stays as it is.
\<close>

theorem dvp_release_decided:
  assumes "chain_up e bt" "fresh_hashes e (operatorAddress w) hash (pool w)" "usdc e = mock_ops"
    and "dvpEscrowAddress (cfg e) = Some addr" "addr \<noteq> []" "escrowSettler e = operatorAddress w"
    and "keccakUtf8 (lib e) instr = i" "deals (evm w) i = deal_of dep ben n dl" "ben \<noteq> addr"
    and "n \<le> balanceOf_map (tok (evm w)) addr" "unat (balanceOf_map (tok (evm w)) ben) + unat n < 2 ^ 256"
  shows "let (res, v) = dvp_release instr e w in db v = db w \<and>
    (if bt \<le> time_of dl
     then (\<exists>r. res = Inr r \<and> dr_dealId r = i) \<and> map pt_call (pool v) = map pt_call (pool w) @ [Release i] \<and>
       deals (evm v) = (deals (evm w))(i := (deals (evm w) i)\<lparr>deal_state := Released\<rparr>) \<and>
       balanceOf_map (tok (evm v)) = (balanceOf_map (tok (evm w)))(addr := balanceOf_map (tok (evm w)) addr - n,
         ben := balanceOf_map (tok (evm w)) ben + n)
     else res = Inl call_exception \<and> evm v = evm w \<and> pool v = pool w)"
proof -
  let ?op = "operatorAddress w" and ?s = "set_state i Released (evm w)"
  have a: "escrowAddress e w = (Inr addr, w)" using assms(4,5) by (cases addr) (simp_all add: escrowAddress_def run_simps)
  have run: "dvp_release instr e w = await (send_call addr (Release i)) (\<lambda>h. andThen (wait1 addr h)
      (ret \<lparr>dr_instructionId = instr, dr_dealId = i, dr_status = ''Released'', dr_releaseTx = h\<rparr>)) e w"
    using assms(7) by (simp add: dvp_release_def dealId_def run_simps(3,6) a)
  show ?thesis
  proof (cases "bt \<le> time_of dl")
    case True
    have "n \<le> balanceOf_map (tok ?s) (self (site_at addr e))" "unat (balanceOf_map (tok ?s) ben) + unat n < 2 ^ 256"
      "ben \<noteq> self (site_at addr e)" using assms(9-11) by (simp_all add: set_state_def)
    from mock_pay [OF this, of "ReleasedEv i ben n"] obtain m where
      p: "pay mock_ops (site_at addr e) ben n (ReleasedEv i ben n) ?s = Inr m" and m: "deals m = deals ?s"
        "balanceOf_map (tok m) = (balanceOf_map (tok (evm w)))(addr := balanceOf_map (tok (evm w)) addr - n,
           ben := balanceOf_map (tok (evm w)) ben + n)" by (auto simp: set_state_def)
    have ex: "exec (usdc e) (site_at addr e) ?op bt (Release i) (evm w) = Inr m"
      using True p assms(3,6,8) by (simp add: release_def Let_def deal_of_def not_less)
    have "\<forall>p \<in> set (pool w). p \<in> set (pool w) \<or> (\<forall>k. pt_hash p \<noteq> hash (Release i) k)" by blast
    from send_wait [OF assms(1,2) this ex, of "\<lambda>h. \<lparr>dr_instructionId = instr, dr_dealId = i,
       dr_status = ''Released'', dr_releaseTx = h\<rparr>"] run True m
    show ?thesis by (auto simp: set_state_def)
  next
    case False
    have "exec (usdc e) (site_at addr e) ?op bt (Release i) (evm w) = Inl DeadlinePassed"
      using False assms(3,6,8) by (simp add: release_def Let_def deal_of_def not_le)
    note no = send_refused [OF assms(1) this]
    show ?thesis unfolding run no using False by simp
  qed
qed

lemma dvp_release_decided_witness:
  "\<exists>v r. dvp_release ''d'' calm_env w_dealt = (Inr r, v) \<and> deal_state (deals (evm v) ''d'') = Released \<and>
     balanceOf_map (tok (evm v)) ''b'' = 40000000 \<and> map pt_call (pool v) = [Release ''d'']"
proof -
  have fr: "fresh_hashes calm_env (operatorAddress w_dealt) (\<lambda>c n. case c of Approve _ _ \<Rightarrow> ''A'' | _ \<Rightarrow> ''F'') (pool w_dealt)"
    using demo_fresh by simp
  have s: "deals (evm w_dealt) ''d'' = deal_of ''op'' ''b'' 40000000 1000" "(500 :: uint256) \<le> time_of 1000"
    "balanceOf_map (tok (evm w_dealt)) ''E'' = 40000000" "balanceOf_map (tok (evm w_dealt)) ''b'' = 0"
    by (simp_all add: dealt_evm_def rich_evm_def time_of_def)
  from dvp_release_decided [OF demo_chain_up fr, of "''E''" "''d''" "''d''" "''op''" "''b''" 40000000 1000] s
  show ?thesis by (auto simp: demo_cfg_def deal_of_def split: prod.splits)
qed

section \<open>What the rail does not see\<close>

text \<open>A node whose USDC balance of the operator is the token's, and whose pending count counts the pool.\<close>

definition token_env :: "world \<Rightarrow> env" where
  "token_env v = demo_env (\<lambda>_. demo_rpc\<lparr>balanceOf := Inr (uint (balanceOf_map (tok (evm v)) ''op'')),
     getTransactionCount := Inr (5 + length (pool v))\<rparr>)"

abbreviation w_after :: world where
  "w_after \<equiv> snd (dvp_fund demo_dvp calm_env w_rich)"

lemma fund_demo:
  "\<exists>ps k. w_after = w_rich\<lparr>evm := evm w_after, pool := ps, tick := k\<rparr> \<and> length ps = 2 \<and>
    balanceOf_map (tok (evm w_after)) ''op'' = 60000000"
proof -
  have q: "quiet calm_env" by simp
  show ?thesis
    by (simp add: dvp_fund_def escrowAddress_def dealId_def base_time_def approve_if_needed_def encode_def
        send_call_def estimate_def exec_now_def wait1_def mined_as_def fund_def token_call_def mock_approve_def mock_transferFrom_def
        mock_move_def checked_add_def time_of_def zero_deal_def
        rich_evm_def demo_dvp_def w_ready_def w_open_def boot_world_def Let_def demo_simps)
qed

lemma reconcile_ready:
  fixes n :: int
  assumes "n = 100000000 \<or> n = 60000000"
  defines "b \<equiv> (if n = 100000000 then 100 else 60)"
  shows "fst (reconcile (demo_env (\<lambda>_. demo_rpc\<lparr>balanceOf := Inr n, getTransactionCount := c\<rparr>))
      (w_ready\<lparr>evm := x, pool := ps, tick := k\<rparr>)) =
    Inr \<lparr>ledgerBalance = 100, chainBalance = b, pendingAmount = 0, diff = 100 - b,
      rr_status = (if n = 100000000 then MATCHED else MISMATCH), rr_createdAt = int (k + 11)\<rparr>"
proof -
  have m: "dec6 0 = 0" using dec6_micro [of 0] by simp
  show ?thesis using assms(1) unfolding b_def
    by (elim disjE) (simp_all add: m w_ready_def w_open_def db_stages boot_world_def reconcile_def getChainBalance_def
        newDecimal_io_def computeMinedPending_def PENDING_STATUSES_def insert_run_def Let_def EPSILON_def
        demo_simps state_simps ledger_simps)
qed

lemma w_rich_ready: "w_rich = w_ready\<lparr>evm := rich_evm, pool := [], tick := 25\<rparr>"
  by (simp add: w_ready_def w_open_def boot_world_def)

text \<open>
  Funding a deal breaks reconciliation. The escrowed amount leaves the operator's balance but no ledger entry
  or pending settlement accounts for it: a rail that reconciles before the request reports MISMATCH after it.
\<close>

theorem dvp_unreconciled:
  "(\<exists>run. fst (reconcile (token_env w_rich) w_rich) = Inr run \<and> rr_status run = MATCHED) \<and>
   (\<exists>run. fst (reconcile (token_env w_after) w_after) = Inr run \<and> rr_status run = MISMATCH \<and>
     ledgerBalance run = 100 \<and> chainBalance run = 60 \<and> pendingAmount run = 0)"
proof -
  obtain ps k where a: "w_after = w_rich\<lparr>evm := evm w_after, pool := ps, tick := k\<rparr>"
    and b: "balanceOf_map (tok (evm w_after)) ''op'' = 60000000" using fund_demo by blast
  have e: "token_env w_rich = demo_env (\<lambda>_. demo_rpc\<lparr>balanceOf := Inr 100000000, getTransactionCount := Inr 5\<rparr>)"
    "token_env w_after = demo_env (\<lambda>_. demo_rpc\<lparr>balanceOf := Inr 60000000, getTransactionCount := Inr (5 + length (pool w_after))\<rparr>)"
    by (simp add: token_env_def rich_evm_def w_ready_def w_open_def boot_world_def) (simp add: token_env_def b)
  have "fst (reconcile (token_env w_after) (w_ready\<lparr>evm := evm w_after, pool := ps, tick := k\<rparr>)) =
    Inr \<lparr>ledgerBalance = 100, chainBalance = 60, pendingAmount = 0, diff = 40, rr_status = MISMATCH, rr_createdAt = int (k + 11)\<rparr>"
    unfolding e by (simp add: reconcile_ready)
  moreover have "w_ready\<lparr>evm := evm w_after, pool := ps, tick := k\<rparr> = w_after" using a by simp
  moreover have "\<exists>run. fst (reconcile (token_env w_rich) (w_ready\<lparr>evm := rich_evm, pool := [], tick := 25\<rparr>)) = Inr run \<and> rr_status run = MATCHED"
    unfolding e by (simp add: reconcile_ready)
  ultimately show ?thesis unfolding w_rich_ready [symmetric] by auto
qed

text \<open>
  Funding a deal takes a nonce the relayer still counts on. The DvP transactions are sent by the same account
  outside the broadcast mutex, and the local nonce is not advanced: the next job is sent under a used
  nonce, and when no retry is allowed its settlement is FAILED though nothing was wrong with it.
\<close>

definition used_nonces :: "nat \<Rightarrow> env" where
  "used_nonces k = (demo_env (\<lambda>_. demo_rpc\<lparr>getTransactionCount := Inr k,
       rpc_transfer := (\<lambda>rq. if rq_nonce rq < k
         then Inl (Thrown (Some ''NONCE_EXPIRED'') ''nonce too low'') else Inr ''L'')\<rparr>))
     \<lparr>cfg := demo_cfg\<lparr>maxRetries := 0\<rparr>\<rparr>"

lemma job_after:
  assumes "k = 5 \<or> k = 7"
  shows "map (\<lambda>r. (status r, failureReason r)) (settlements (db (snd (processJob ''s'' (used_nonces k)
      (w_ready\<lparr>evm := x, pool := ps, tick := t\<rparr>))))) =
    [(FINAL, None), (if k = 5 then (SUBMITTED, None) else (FAILED, Some ''MAX_RETRIES_EXCEEDED:NONCE_EXPIRED''))]"
proof -
  have c: "classifyTxError (Thrown (Some ''NONCE_EXPIRED'') ''nonce too low'') =
       \<lparr>retryable = True, resyncNonce = True, reason = ''NONCE_EXPIRED''\<rparr>" by code_simp
  have e: "quiet (used_nonces m)" "lib (used_nonces m) = demo_lib" "cfg (used_nonces m) = demo_cfg\<lparr>maxRetries := 0\<rparr>"
    "now (used_nonces m) n = int n" "uuid (used_nonces m) n = demo_uuid n"
    "rpc (used_nonces m) n = demo_rpc\<lparr>getTransactionCount := Inr m, rpc_transfer := (\<lambda>rq. if rq_nonce rq < m
       then Inl (Thrown (Some ''NONCE_EXPIRED'') ''nonce too low'') else Inr ''L'')\<rparr>" for m n
    by (simp_all add: used_nonces_def demo_env_def quiet_def)
  show ?thesis using assms
    by (elim disjE) (simp_all add: e c w_ready_def w_open_def boot_world_def db_ready_def db_open_def
        approved_row_def trail_entry_def Let_def demo_rpc_def demo_cfg_def io_defs quiet_simps state_simps relayer_simps)
qed

text \<open>
  Funding a deal takes a nonce the relayer still counts on. The DvP transactions are sent by the same account
  outside the broadcast mutex, and the local nonce is not advanced: the next job is sent under a used
  nonce, and when no retry is allowed its settlement is FAILED though nothing was wrong with it.
\<close>

theorem dvp_takes_nonce:
  "let job = (\<lambda>w. map (\<lambda>r. (status r, failureReason r)) (settlements (db (snd
      (processJob ''s'' (used_nonces (5 + length (pool w))) w))))) in
   job w_rich = [(FINAL, None), (SUBMITTED, None)] \<and>
   job w_after = [(FINAL, None), (FAILED, Some ''MAX_RETRIES_EXCEEDED:NONCE_EXPIRED'')]"
proof -
  obtain ps k where a: "w_after = w_rich\<lparr>evm := evm w_after, pool := ps, tick := k\<rparr>" and l: "length ps = 2"
    using fund_demo by blast
  have "map (\<lambda>r. (status r, failureReason r)) (settlements (db (snd (processJob ''s'' (used_nonces 7)
      (w_ready\<lparr>evm := evm w_after, pool := ps, tick := k\<rparr>))))) = [(FINAL, None), (FAILED, Some ''MAX_RETRIES_EXCEEDED:NONCE_EXPIRED'')]"
    by (simp add: job_after)
  moreover have "w_ready\<lparr>evm := evm w_after, pool := ps, tick := k\<rparr> = w_after" using a by simp
  moreover have "pool w_after = ps" by (subst a) simp
  moreover have "map (\<lambda>r. (status r, failureReason r)) (settlements (db (snd (processJob ''s'' (used_nonces 5)
      (w_ready\<lparr>evm := rich_evm, pool := [], tick := 25\<rparr>))))) = [(FINAL, None), (SUBMITTED, None)]"
    by (simp add: job_after)
  ultimately show ?thesis unfolding w_rich_ready [symmetric] Let_def using l by simp
qed

end
