(* ===== verification/EscrowSystem.thy ===== *)
theory EscrowSystem
  imports System
begin

text \<open>
  The rail over the escrow. A predicate of the chain's part of the world (the contract, the pool, the
  operator address, the token's decimals, the calls of the token the node was given) that the environment keeps is kept by every task
  of \<open>System\<close>, because only broadcasts, the boot of the chain service and the calls of \<open>Dvp\<close> touch that part. \<open>safe Q e m\<close> says so of a handler; the locales collect what is asked of \<open>Q\<close>.
\<close>

named_theorems safe_rules

definition chain_same :: "world \<Rightarrow> world \<Rightarrow> bool" where
  "chain_same v w \<longleftrightarrow> evm v = evm w \<and> pool v = pool w \<and> operatorAddress v = operatorAddress w \<and>
     broadcastLog v = broadcastLog w \<and> decimals v = decimals w"

definition safe :: "(world \<Rightarrow> bool) \<Rightarrow> env \<Rightarrow> 'a io \<Rightarrow> bool" where
  "safe Q e m \<longleftrightarrow> (\<forall>w. Q w \<longrightarrow> Q (snd (m e w)))"

text \<open>What the environment has to keep: the steps of the others, the node's answers to a broadcast, the decimals it tells.\<close>

definition steady :: "(world \<Rightarrow> bool) \<Rightarrow> env \<Rightarrow> bool" where
  "steady Q e \<longleftrightarrow> (\<forall>n w. Q w \<longrightarrow> Q (others e n w)) \<and>
     (\<forall>w rq a k. Q w \<longrightarrow> (\<forall>h. a = Some h \<longrightarrow> rpc_transfer (rpc e k) rq = Inr h) \<longrightarrow>
        Q (w\<lparr>broadcastLog := broadcastLog w @ [(rq, a)]\<rparr>)) \<and>
     (\<forall>w n k. Q w \<longrightarrow> rpc_decimals (rpc e n) = Inr k \<longrightarrow> Q (w\<lparr>decimals := k\<rparr>))"

lemma steady_logged:
  "steady Q e \<Longrightarrow> Q w \<Longrightarrow> (\<And>h. a = Some h \<Longrightarrow> rpc_transfer (rpc e k) rq = Inr h) \<Longrightarrow>
   Q (w\<lparr>broadcastLog := broadcastLog w @ [(rq, a)]\<rparr>)"
  unfolding steady_def by blast

lemma safeD: "safe Q e m \<Longrightarrow> Q w \<Longrightarrow> m e w = (r, v) \<Longrightarrow> Q v"
  by (auto simp: safe_def dest!: spec [of _ w])

section \<open>The rules\<close>

locale world_inv =
  fixes Q :: "world \<Rightarrow> bool"
  assumes frame: "chain_same v w \<Longrightarrow> Q w \<Longrightarrow> Q v"
begin

lemma safe_step: "(\<And>w. chain_same (snd (m e w)) w) \<Longrightarrow> safe Q e m"
  by (auto simp: safe_def intro: frame)

lemma safe_ret [safe_rules]: "safe Q e (ret a)"
  and safe_throw [safe_rules]: "safe Q e (throw x)"
  and safe_gets [safe_rules]: "safe Q e (gets f)"
  by (simp_all add: safe_def run_simps)

lemma safe_modify [safe_rules]: "(\<And>w. chain_same (f w) w) \<Longrightarrow> safe Q e (modify f)"
  by (rule safe_step) (simp add: run_simps)

lemma safe_await_dep:
  assumes "safe Q e m" "\<And>w a v. Q w \<Longrightarrow> m e w = (Inr a, v) \<Longrightarrow> safe Q e (k a)"
  shows "safe Q e (await m k)"
  unfolding safe_def
proof (intro allI impI)
  fix w assume w: "Q w"
  obtain r v where r: "m e w = (r, v)" by fastforce
  with assms(1) w have "Q v" by (rule safeD)
  with assms(2) [OF w] r show "Q (snd (await m k e w))"
    by (cases r) (auto simp: run_simps safe_def)
qed

lemma safe_await [safe_rules]: "safe Q e m \<Longrightarrow> (\<And>a. safe Q e (k a)) \<Longrightarrow> safe Q e (await m k)"
  by (rule safe_await_dep)

lemma safe_andThen [safe_rules]: "safe Q e m \<Longrightarrow> safe Q e k \<Longrightarrow> safe Q e (andThen m k)"
  by (simp add: andThen_def safe_await)

lemma safe_tryCatch [safe_rules]:
  assumes "safe Q e m" "\<And>x. safe Q e (h x)"
  shows "safe Q e (tryCatch m h)"
  unfolding safe_def
proof (intro allI impI)
  fix w assume w: "Q w"
  obtain r v where r: "m e w = (r, v)" by fastforce
  with assms(1) w have "Q v" by (rule safeD)
  with assms(2) r show "Q (snd (tryCatch m h e w))" by (cases r) (auto simp: run_simps safe_def)
qed

lemma safe_tryFinally [safe_rules]:
  assumes "safe Q e m" "\<And>w. chain_same (f w) w"
  shows "safe Q e (tryFinally m f)"
  unfolding safe_def
proof (intro allI impI)
  fix w assume w: "Q w"
  obtain r v where r: "m e w = (r, v)" by fastforce
  with assms(1) w have "Q v" by (rule safeD)
  with frame [OF assms(2)] r show "Q (snd (tryFinally m f e w))" by (cases r) (auto simp: tryFinally_def)
qed

lemma safe_if [safe_rules]: "(b \<Longrightarrow> safe Q e m) \<Longrightarrow> (\<not> b \<Longrightarrow> safe Q e k) \<Longrightarrow> safe Q e (if b then m else k)"
  by simp

lemma safe_option [safe_rules]:
  "safe Q e m \<Longrightarrow> (\<And>a. safe Q e (k a)) \<Longrightarrow> safe Q e (case x of None \<Rightarrow> m | Some a \<Rightarrow> k a)"
  by (cases x) simp_all

lemma safe_sum [safe_rules]:
  "(\<And>a. safe Q e (m a)) \<Longrightarrow> (\<And>a. safe Q e (k a)) \<Longrightarrow> safe Q e (case x of Inl a \<Rightarrow> m a | Inr a \<Rightarrow> k a)"
  by (cases x) simp_all

lemma safe_list [safe_rules]:
  "safe Q e m \<Longrightarrow> (\<And>a b. safe Q e (k a b)) \<Longrightarrow> safe Q e (case x of [] \<Rightarrow> m | a # b \<Rightarrow> k a b)"
  by (cases x) simp_all

lemma safe_prod [safe_rules]: "(\<And>a b. safe Q e (k a b)) \<Longrightarrow> safe Q e (case x of (a, b) \<Rightarrow> k a b)"
  by (cases x) simp

lemma safe_let [safe_rules]: "(\<And>a. safe Q e (k a)) \<Longrightarrow> safe Q e (let a = x in k a)"
  by simp

lemma safe_for_each [safe_rules]: "(\<And>x. safe Q e (body x)) \<Longrightarrow> safe Q e (for_each xs body)"
  by (induction xs) (simp_all add: safe_ret safe_andThen)

lemma safe_yield [safe_rules]: "steady Q e \<Longrightarrow> safe Q e yield"
proof -
  assume s: "steady Q e"
  have "Q (w\<lparr>tick := k\<rparr>)" if "Q w" for w k using that by (rule frame [rotated]) (simp add: chain_same_def)
  with s show "safe Q e yield" by (auto simp: safe_def yield_def steady_def)
qed

lemma safe_rpc_call [safe_rules]: "steady Q e \<Longrightarrow> safe Q e (rpc_call f)"
  unfolding rpc_call_def by (intro safe_rules safe_step) (simp_all add: chain_same_def)

lemma safe_run_tx: "safe Q e (run_tx f)"
  by (rule safe_step) (simp add: run_tx_def chain_same_def split: option.split sum.split prod.split)

lemma safe_db_tx [safe_rules]: "steady Q e \<Longrightarrow> safe Q e (db_tx f)"
  unfolding db_tx_def by (intro safe_rules safe_run_tx)

lemma safe_db_read [safe_rules]: "steady Q e \<Longrightarrow> safe Q e (db_read f)"
  unfolding db_read_def by (rule safe_db_tx)

section \<open>The tasks of the rail proper\<close>

lemma safe_pure_reads [safe_rules]:
  "safe Q e (newDecimal_io t)" "safe Q e (toBaseUnits a)" "safe Q e one_gwei"
  by (rule safe_step, simp add: newDecimal_io_def toBaseUnits_def one_gwei_def chain_same_def split: option.split)+

lemma safe_state [safe_rules]:
  assumes "steady Q e"
  shows "safe Q e (findById i)" "safe Q e (findByInstructionId i)" "safe Q e (findByStatuses sts)"
    "safe Q e (findByTxHash h)" "safe Q e (state_getTransitions i)" "safe Q e listRecent" "safe Q e (sumByStatuses sts)"
    "safe Q e countByStatus" "safe Q e (state_create instr to a st)" "safe Q e (transition i st2 opts)"
    "safe Q e (recordResend i h n)"
  unfolding findById_def findByInstructionId_def findByStatuses_def findByTxHash_def state_getTransitions_def
    listRecent_def sumByStatuses_def countByStatus_def state_create_def transition_def recordResend_def
  using assms by (intro safe_rules; assumption)+

lemma safe_money [safe_rules]:
  assumes "steady Q e"
  shows "safe Q e getOperatorBalance" "safe Q e availableBalance" "safe Q e getChainBalance" "safe Q e getCurrentBlock"
    "safe Q e ensureOpeningSnapshot" "safe Q e (recordSettlementFinalized i a)" "safe Q e (fromBaseUnits n)"
  unfolding getOperatorBalance_def getOpeningBalance_def availableBalance_def getChainBalance_def getCurrentBlock_def
    ensureOpeningSnapshot_def recordSettlementFinalized_def fromBaseUnits_def
  using assms by (intro safe_rules; assumption)+

lemma safe_memory [safe_rules]:
  "safe Q e (enqueueId i)" "safe Q e (track i n g f r)" "safe Q e relayer_onModuleDestroy" "safe Q e (onTransfer h)"
  unfolding enqueueId_def track_def relayer_onModuleDestroy_def onTransfer_def
  by (intro safe_rules; simp add: chain_same_def updateQueueDepth_def)+

lemma safe_fail [safe_rules]: "steady Q e \<Longrightarrow> safe Q e (fail i why n)"
  unfolding fail_def by (intro safe_rules) (simp_all add: chain_same_def forget_def)

lemma safe_transfer [safe_rules]:
  assumes "steady Q e"
  shows "safe Q e (usdc_transfer rq)"
proof -
  have "safe Q e (\<lambda>e w. case rpc_transfer (rpc e (tick w)) rq of
       Inl x \<Rightarrow> (Inl x, w\<lparr>broadcastLog := broadcastLog w @ [(rq, None)]\<rparr>)
     | Inr h \<Rightarrow> (Inr h, w\<lparr>broadcastLog := broadcastLog w @ [(rq, Some h)]\<rparr>))"
    by (auto simp: safe_def intro!: steady_logged [OF assms] split: sum.split)
  with assms show ?thesis unfolding usdc_transfer_def by (intro safe_rules)
qed

lemma safe_broadcast [safe_rules]: "steady Q e \<Longrightarrow> safe Q e (broadcast to units n g f)"
  unfolding broadcast_def runExclusive_def by (intro safe_rules) (simp_all add: chain_same_def)

lemma safe_fees [safe_rules]:
  assumes "steady Q e"
  shows "safe Q e (estimateGas to units)" "safe Q e buildFees" "safe Q e (feesFromTx h)"
  unfolding estimateGas_def buildFees_def feesFromTx_def using assms by (intro safe_rules; assumption)+

lemma safe_send_once [safe_rules]: "steady Q e \<Longrightarrow> safe Q e (send_once s rs units g n f r)"
  unfolding send_once_def by (intro safe_rules) (simp_all add: chain_same_def)

lemma safe_resync [safe_rules]: "steady Q e \<Longrightarrow> safe Q e (resync b rs n)"
  unfolding resync_def by (intro safe_rules) (simp_all add: chain_same_def)

lemma safe_sleep [safe_rules]: "steady Q e \<Longrightarrow> safe Q e (sleep ms)"
  unfolding sleep_def by (intro safe_rules) (simp_all add: chain_same_def)

lemma safe_sendLoop [safe_rules]: "steady Q e \<Longrightarrow> safe Q e (sendLoop s rs units g maxR k n f r)"
proof (induction s rs units g maxR k n f r rule: sendLoop.induct)
  case (1 s rs units g maxR k n f r)
  have again: "safe Q e (sendLoop s rs units g maxR (k + 1) n' (if reason (classifyTxError err) = ''UNDERPRICED''
      then bumpFees f else f) (r + 1))" if "retryable (classifyTxError err)" "\<not> maxR < r + 1" for err n'
    by (rule 1(1)) (use that 1(2) in auto)
  show ?case
    unfolding sendLoop.simps [of s rs units g maxR k n f r] Let_def
    by (intro safe_rules again 1(2)) auto
qed

lemma safe_processJob [safe_rules]: "steady Q e \<Longrightarrow> safe Q e (processJob i)"
  unfolding processJob_def by (intro safe_rules)

lemma safe_worker [safe_rules]: "steady Q e \<Longrightarrow> safe Q e (runWorker fuel)"
proof -
  assume s: "steady Q e"
  have "safe Q e (workerLoop n)" for n
    by (induction n) (simp_all, (intro safe_rules s; simp add: chain_same_def updateQueueDepth_def)+)
  then show ?thesis unfolding runWorker_def by (intro safe_rules) (simp_all add: chain_same_def)
qed

lemma safe_sweep [safe_rules]: "steady Q e \<Longrightarrow> safe Q e watcher_sweep"
  unfolding watcher_sweep_def sweepStuckTransactions_def sweep_one_def bumpAndResend_def
  by (intro safe_rules) (simp_all add: chain_same_def forget_def)

lemma safe_recovery [safe_rules]: "steady Q e \<Longrightarrow> safe Q e relayer_onApplicationBootstrap"
  unfolding relayer_onApplicationBootstrap_def recoverInFlight_def recover_one_def
  by (intro safe_rules) (simp_all add: chain_same_def)

lemma safe_receipt [safe_rules]: "steady Q e \<Longrightarrow> safe Q e (processReceipt s b)"
  unfolding processReceipt_def handleReorg_def finalize_def
  by (intro safe_rules) (simp_all add: chain_same_def)

lemma safe_listener [safe_rules]:
  assumes "steady Q e"
  shows "safe Q e pollConfirmations" "safe Q e (processByTxHash h)"
  unfolding pollConfirmations_def processByTxHash_def
  using assms by (intro safe_rules; simp add: chain_same_def)+

lemma safe_create [safe_rules]: "steady Q e \<Longrightarrow> safe Q e (create provider dto)"
  unfolding create_def insert_received_def screen_def enqueue_def by (intro safe_rules)

lemma safe_reconcile [safe_rules]: "steady Q e \<Longrightarrow> safe Q e reconcile"
proof -
  assume s: "steady Q e"
  have "safe Q e (sum_mined ss acc)" for ss acc
    by (induction ss arbitrary: acc) (simp_all, (intro safe_rules s; assumption?)+)
  with s show ?thesis unfolding reconcile_def computeMinedPending_def
    by (intro safe_rules) (simp_all add: chain_same_def count_run_def Let_def)
qed

lemma safe_relay [safe_rules]: "steady Q e \<Longrightarrow> safe Q e (relay broker)"
  unfolding relay_def relay_row_def publish_def
  by (intro safe_rules safe_step) (simp_all add: chain_same_def split: option.split)

lemma safe_presentMany [safe_rules]: "steady Q e \<Longrightarrow> safe Q e (presentMany ss)"
proof -
  assume s: "steady Q e"
  have "safe Q e (confirm_all b xs m)" for b xs m
    by (induction xs arbitrary: m) (simp_all, (intro safe_rules s; assumption?)+)
  with s show ?thesis unfolding presentMany_def by (intro safe_rules)
qed

lemma safe_queries [safe_rules]:
  assumes "steady Q e"
  shows "safe Q e list_settlements" "safe Q e (get_settlement i)" "safe Q e (get_transitions i)" "safe Q e get_balance"
    "safe Q e collector_refresh"
  unfolding list_settlements_def get_settlement_def present_def get_transitions_def getTransitions_def getById_def
    get_balance_def balanceView_def collector_refresh_def
  using assms by (intro safe_rules; simp add: chain_same_def set_gauges_def)+

lemma safe_chain_init [safe_rules]:
  assumes s: "steady Q e"
  shows "safe Q e chain_onModuleInit"
  unfolding chain_onModuleInit_def
proof (rule safe_tryCatch [OF safe_await_dep [OF safe_rpc_call [OF s]] safe_ret])
  fix w k v assume "rpc_call rpc_decimals e w = (Inr k, v)"
  then obtain n where "rpc_decimals (rpc e n) = Inr k" using rpc_call_answer [of rpc_decimals e w k] by auto
  with s show "safe Q e (modify (\<lambda>w. w\<lparr>decimals := k\<rparr>))" by (auto simp: safe_def run_simps steady_def)
qed

lemma safe_withTimeout:
  fixes p :: "'a io"
  assumes s: "steady Q e" "safe Q e p"
  shows "safe Q e (withTimeout late p)"
proof -
  have "safe Q e (andThen yield (throw x) :: 'a io)" for x by (intro safe_rules s)
  with s(2) show ?thesis by (simp add: withTimeout_def safe_def)
qed

lemma safe_health [safe_rules]: "steady Q e \<Longrightarrow> safe Q e (health_ready late)"
  unfolding health_ready_def checkDb_def checkRpc_def reachable_def by (intro safe_rules safe_withTimeout)

end

section \<open>The DvP service\<close>

text \<open>The environment talks to the escrow \<open>c\<close> and the token \<open>ops\<close>, if to any.\<close>

definition linked :: "mock_erc20 erc20_ops \<Rightarrow> escrow_site \<Rightarrow> env \<Rightarrow> bool" where
  "linked ops c e \<longleftrightarrow> usdc e = ops \<and> escrowSettler e = settler c \<and>
     (case dvpEscrowAddress (cfg e) of None \<Rightarrow> True | Some a \<Rightarrow> a = self c)"

text \<open>The calls of the service: an allowance for the escrow, a deal, a release.\<close>

fun dvp_call :: "string \<Rightarrow> evm_call \<Rightarrow> bool" where
  "dvp_call addr (Approve sp n) = (sp = addr)"
| "dvp_call addr (Fund i ben n dl) = True"
| "dvp_call addr (Release i) = True"
| "dvp_call addr k = False"

text \<open>
  The calls a task makes: for a request to fund a deal, an allowance and a deal under the id of the
  instruction, for the beneficiary of the request, over its amount in base units, as the decimals at that
  time make them; for a request to release, a release under the id of the instruction.
\<close>

definition task_calls :: "(world \<Rightarrow> bool) \<Rightarrow> escrow_site \<Rightarrow> (evm_call \<Rightarrow> bool) \<Rightarrow> env \<Rightarrow> task \<Rightarrow> bool" where
  "task_calls Q c calls e t \<longleftrightarrow> (case t of
     DvpFund dto \<Rightarrow> (\<forall>w n dl. Q w \<longrightarrow> parseUnits (lib e) (dv_amount dto) (decimals w) = Inr (uint n) \<longrightarrow>
       calls (Approve (self c) n) \<and> calls (Fund (keccakUtf8 (lib e) (dv_instructionId dto)) (dv_beneficiary dto) n dl))
   | DvpRelease i \<Rightarrow> calls (Release (keccakUtf8 (lib e) i))
   | _ \<Rightarrow> True)"

lemma task_calls_dvp: "task_calls Q c (dvp_call (self c)) e t"
  by (simp add: task_calls_def split: task.split)

lemma gets_value: "gets f e w = (Inr x, v) \<Longrightarrow> x = f e w"
  by (auto simp: run_simps)

lemma encode_word: "encode x e w = (Inr (n :: 'a :: len word), v) \<Longrightarrow> uint n = x"
  by (auto simp: encode_def run_simps uint_word_of_int take_bit_eq_mod split: if_splits)

locale escrow_client = world_inv +
  fixes ops :: "mock_erc20 erc20_ops" and c :: escrow_site and calls :: "evm_call \<Rightarrow> bool"
  assumes sent: "Q u \<Longrightarrow> Q w \<Longrightarrow> pt_from p = operatorAddress u \<Longrightarrow> calls (pt_call p) \<Longrightarrow>
      Q (w\<lparr>pool := pool w @ [p]\<rparr>)"
    and mined: "Q w \<Longrightarrow> p \<in> set (pool w) \<Longrightarrow> exec ops c (pt_from p) t (pt_call p) (evm w) = Inr m \<Longrightarrow>
      Q (w\<lparr>evm := m, pool := mined_as True h (pool w)\<rparr>)"
    and dropped: "Q w \<Longrightarrow> Q (w\<lparr>pool := mined_as False h (pool w)\<rparr>)"
begin

lemma safe_eth_call [safe_rules]: "steady Q e \<Longrightarrow> safe Q e (eth_call f)"
  unfolding eth_call_def by (intro safe_rules safe_step) (simp_all add: chain_same_def split: option.split)

lemma safe_estimate: "steady Q e \<Longrightarrow> safe Q e (estimate addr sender k)"
  unfolding estimate_def by (intro safe_rules safe_step) (simp_all add: chain_same_def split: option.split sum.split)

lemma safe_encode [safe_rules]: "safe Q e (encode x)"
  unfolding encode_def by (intro safe_rules)

lemma safe_send_call [safe_rules]:
  assumes "steady Q e" and call: "calls k"
  shows "safe Q e (send_call addr k)"
  unfolding send_call_def
proof (rule safe_await_dep [OF safe_gets])
  fix u sender v assume u: "Q u" "gets (\<lambda>e w. operatorAddress w) e u = (Inr sender, v)"
  then have who: "sender = operatorAddress u" by (auto simp: run_simps)
  have "safe Q e (\<lambda>e w. case sendTx (rpc e (tick w)) sender k n of Inl x \<Rightarrow> (Inl x, w)
      | Inr h \<Rightarrow> (Inr h, w\<lparr>pool := pool w @ [\<lparr>pt_hash = h, pt_from = sender, pt_nonce = n, pt_call = k, pt_ok = None\<rparr>]\<rparr>))" for n
    using sent [OF u(1)] who call by (auto simp: safe_def split: sum.split)
  with assms(1) show "safe Q e (await (rpc_call getTransactionCount) (\<lambda>n. andThen (estimate addr sender k) (
     andThen yield (await (\<lambda>e w. case sendTx (rpc e (tick w)) sender k n of Inl x \<Rightarrow> (Inl x, w)
      | Inr h \<Rightarrow> (Inr h, w\<lparr>pool := pool w @ [\<lparr>pt_hash = h, pt_from = sender, pt_nonce = n, pt_call = k, pt_ok = None\<rparr>]\<rparr>))
       (\<lambda>h. andThen yield (ret h))))))"
    by (intro safe_rules safe_estimate)
qed

lemma safe_wait1:
  assumes "steady Q e" "linked ops c e"
  shows "safe Q e (wait1 (self c) h)"
proof -
  have site: "site_at (self c) e = c" "usdc e = ops" using assms(2) by (simp_all add: linked_def site_at_def)
  show ?thesis
    unfolding wait1_def
    by (intro safe_rules assms(1))
       (auto simp: safe_def exec_now_def site dropped find_Some_iff intro: mined dest: nth_mem
         split: option.split sum.split bool.split)
qed

lemma escrowAddress_linked:
  "linked ops c e \<Longrightarrow> escrowAddress e w = (Inr a, v) \<Longrightarrow> a = self c"
  by (auto simp: escrowAddress_def linked_def run_simps split: option.splits list.splits)

lemma safe_escrowAddress: "safe Q e escrowAddress"
  unfolding escrowAddress_def by (intro safe_rules)

lemma safe_approve:
  assumes "steady Q e" "linked ops c e" and call: "\<And>n. uint n = units \<Longrightarrow> calls (Approve (self c) n)"
  shows "safe Q e (approve_if_needed (self c) operator units)"
proof -
  have "safe Q e (await (encode units) (\<lambda>n. await (send_call (self c) (Approve (self c) n)) (\<lambda>h.
      andThen (wait1 (self c) h) (ret (Some h)))))"
    by (rule safe_await_dep [OF safe_encode], drule encode_word) (intro safe_rules safe_wait1 assms)
  note raise = this
  show ?thesis
    unfolding approve_if_needed_def
    by (intro safe_await [OF safe_eth_call [OF assms(1)]] safe_if raise safe_ret)
qed

lemma safe_dvp_fund [safe_rules]:
  assumes s: "steady Q e" "linked ops c e" and t: "task_calls Q c calls e (DvpFund dto)"
  shows "safe Q e (dvp_fund dto)"
proof -
  let ?i = "keccakUtf8 (lib e) (dv_instructionId dto)"
  have tail: "safe Q e (await (encode units) (\<lambda>n. await (encode dl) (\<lambda>dt.
      await (send_call (self c) (Fund ?i (dv_beneficiary dto) n dt)) (\<lambda>h. andThen (wait1 (self c) h) (k h)))))"
    if "Q w" "parseUnits (lib e) (dv_amount dto) (decimals w) = Inr units" "\<And>h. safe Q e (k h)" for w units dl k
  proof (rule safe_await_dep [OF safe_encode], drule encode_word)
    fix n :: uint256 assume "uint n = units"
    with t that(1,2) have "calls (Fund ?i (dv_beneficiary dto) n dt)" for dt by (auto simp: task_calls_def)
    with that(3) show "safe Q e (await (encode dl) (\<lambda>dt. await (send_call (self c) (Fund ?i (dv_beneficiary dto) n dt))
        (\<lambda>h. andThen (wait1 (self c) h) (k h))))"
      by (intro safe_rules safe_wait1 s)
  qed
  have rest: "safe Q e (await (rpc_call getBlockTime) (\<lambda>latest. await (base_time latest) (\<lambda>baseTime.
      let dl = baseTime + (case dv_deadlineSeconds dto of None \<Rightarrow> 3600 | Some s \<Rightarrow> s) in
      await (approve_if_needed (self c) operator units) (\<lambda>approveTx. await (encode units) (\<lambda>n. await (encode dl) (\<lambda>dt.
        await (send_call (self c) (Fund ?i (dv_beneficiary dto) n dt)) (\<lambda>h. andThen (wait1 (self c) h)
          (ret (f baseTime dl approveTx h)))))))))"
    if "Q w" "parseUnits (lib e) (dv_amount dto) (decimals w) = Inr units" for w units operator f
    unfolding base_time_def Let_def
    by (intro safe_await safe_rpc_call safe_gets safe_approve s tail [OF that] safe_ret)
       (use t that in \<open>auto simp: task_calls_def\<close>)
  show ?thesis
    unfolding dvp_fund_def dealId_def
    by (rule safe_await_dep [OF safe_escrowAddress], drule escrowAddress_linked [OF s(2)], hypsubst,
        rule safe_await [OF safe_gets],
        rule safe_await_dep [OF safe_gets], drule gets_value, hypsubst,
        rule safe_await_dep [OF safe_step], simp add: chain_same_def, rule rest, assumption, simp)
qed

lemma safe_dvp [safe_rules]:
  assumes "steady Q e" "linked ops c e"
  shows "task_calls Q c calls e (DvpRelease i) \<Longrightarrow> safe Q e (dvp_release i)" "safe Q e (dvp_getDeal i)"
proof -
  note site = safe_await_dep [OF safe_escrowAddress]
  show "safe Q e (dvp_release i)" if t: "task_calls Q c calls e (DvpRelease i)"
  proof -
    have "safe Q e (await (send_call (self c) (Release (keccakUtf8 (lib e) i))) (\<lambda>h. andThen (wait1 (self c) h) (ret (f h))))" for f
      using t by (intro safe_rules safe_wait1 assms) (simp add: task_calls_def)
    then show ?thesis
      unfolding dvp_release_def dealId_def
      by (intro site) (drule escrowAddress_linked [OF assms(2)], hypsubst,
        rule safe_await_dep [OF safe_gets], drule gets_value, hypsubst, assumption)
  qed
  show "safe Q e (dvp_getDeal i)"
    unfolding dvp_getDeal_def dealId_def
    by (rule site, drule escrowAddress_linked [OF assms(2)], hypsubst, intro safe_rules assms)
qed

lemma safe_task: "steady Q e \<Longrightarrow> linked ops c e \<Longrightarrow> task_calls Q c calls e t \<Longrightarrow> safe Q e (run_task t)"
  by (cases t) (simp_all add: discard_result_def, (intro safe_rules; assumption?)+)

end

section \<open>The rail and the escrow together\<close>

text \<open>
  What the contract's invariant asks of the world: the escrow is in a state its calls lead to, and
  neither the operator nor a sender of a known transaction is the escrow itself.
\<close>

definition escrow_world :: "mock_erc20 erc20_ops \<Rightarrow> escrow_site \<Rightarrow> (mock_erc20 \<Rightarrow> bool) \<Rightarrow> world \<Rightarrow> bool" where
  "escrow_world ops c good w \<longleftrightarrow> evm_run ops c good (evm w) \<and> operatorAddress w \<noteq> self c \<and>
     self c \<notin> set (map pt_from (pool w))"

lemma mined_as_senders [simp]: "map pt_from (mined_as ok h ps) = map pt_from ps"
  by (induction ps) (auto simp: mined_as_def)

interpretation escrow_rail: escrow_client "escrow_world ops c good" ops c "dvp_call (self c)" for ops c good
proof
  fix v w assume "chain_same v w" "escrow_world ops c good w"
  then show "escrow_world ops c good v" by (simp add: escrow_world_def chain_same_def)
next
  fix u w :: world and p :: pending_tx
  assume "escrow_world ops c good u" "escrow_world ops c good w" "pt_from p = operatorAddress u"
  then show "escrow_world ops c good (w\<lparr>pool := pool w @ [p]\<rparr>)" by (auto simp: escrow_world_def)
next
  fix w p t m h
  assume w: "escrow_world ops c good w" and p: "p \<in> set (pool w)"
    and x: "exec ops c (pt_from p) t (pt_call p) (evm w) = Inr m"
  from p have "pt_from p \<in> set (map pt_from (pool w))" by simp
  with w have "pt_from p \<noteq> self c" unfolding escrow_world_def by metis
  with w x have "evm_run ops c good m" unfolding escrow_world_def by (blast intro: evm_run.call)
  with w show "escrow_world ops c good (w\<lparr>evm := m, pool := mined_as True h (pool w)\<rparr>)"
    by (simp add: escrow_world_def del: set_map)
next
  fix w h assume "escrow_world ops c good w"
  then show "escrow_world ops c good (w\<lparr>pool := mined_as False h (pool w)\<rparr>)"
    by (simp add: escrow_world_def del: set_map)
qed

text \<open>
  The worlds the rail and the others on the chain can reach together: tasks in environments whose
  interference is again of this kind, restarts, calls of other accounts, and transactions that are dropped or
  mined unseen.
\<close>

inductive rail_reach :: "mock_erc20 erc20_ops \<Rightarrow> escrow_site \<Rightarrow> world \<Rightarrow> world \<Rightarrow> bool" for ops c where
  start: "rail_reach ops c w w"
| task: "rail_reach ops c w v \<Longrightarrow> linked ops c e \<Longrightarrow> (\<And>n u. rail_reach ops c u (others e n u)) \<Longrightarrow>
    rail_reach ops c w (snd (run_task t e v))"
| reboot: "rail_reach ops c w v \<Longrightarrow> rail_reach ops c w (restart v)"
| outside: "rail_reach ops c w v \<Longrightarrow> sender \<noteq> self c \<Longrightarrow> exec ops c sender bt k (evm v) = Inr m \<Longrightarrow>
    rail_reach ops c w (v\<lparr>evm := m\<rparr>)"
| lost: "rail_reach ops c w v \<Longrightarrow> set (map pt_from ps) \<subseteq> set (map pt_from (pool v)) \<Longrightarrow>
    rail_reach ops c w (v\<lparr>pool := ps\<rparr>)"

lemma rail_reach_escrow:
  "rail_reach ops c w v \<Longrightarrow> escrow_world ops c good w \<Longrightarrow> escrow_world ops c good v"
proof (induction rule: rail_reach.induct)
  case (task w v e t)
  then have "steady (escrow_world ops c good) e" by (simp add: steady_def escrow_world_def)
  from escrow_rail.safe_task [OF this task.hyps(2) task_calls_dvp] task show ?case by (auto simp: safe_def)
next
  case (reboot w v)
  then show ?case by (simp add: restart_def boot_world_def escrow_world_def)
next
  case (outside w v sender bt k m)
  then show ?case unfolding escrow_world_def by (auto intro: evm_run.call)
next
  case (lost w v ps)
  then show ?case unfolding escrow_world_def by auto
qed

section \<open>What was asked for\<close>

text \<open>
  \<open>F\<close> and \<open>G\<close> are the requests to fund and to release. The calls they stand for: an allowance for the escrow
  over the amount of a request in units of the sixth decimal, the deal of a request, a release of a requested id.
\<close>

definition asked :: "escrow_site \<Rightarrow> lib \<Rightarrow> dvp_dto set \<Rightarrow> string set \<Rightarrow> evm_call \<Rightarrow> bool" where
  "asked c lb F G k \<longleftrightarrow> (case k of
     Approve sp n \<Rightarrow> sp = self c \<and> (\<exists>dto \<in> F. parseUnits lb (dv_amount dto) 6 = Inr (uint n))
   | Fund i ben n dl \<Rightarrow> (\<exists>dto \<in> F. i = keccakUtf8 lb (dv_instructionId dto) \<and> ben = dv_beneficiary dto \<and>
       parseUnits lb (dv_amount dto) 6 = Inr (uint n))
   | Release i \<Rightarrow> i \<in> keccakUtf8 lb ` G
   | _ \<Rightarrow> False)"

text \<open>The settler's deals and releases on the contract were asked for.\<close>

definition deals_asked :: "escrow_site \<Rightarrow> lib \<Rightarrow> dvp_dto set \<Rightarrow> string set \<Rightarrow> 'tok evm \<Rightarrow> bool" where
  "deals_asked c lb F G m \<longleftrightarrow> (\<forall>i.
     (deal_state (deals m i) \<noteq> NoDeal \<and> depositor (deals m i) = settler c \<longrightarrow>
       asked c lb F G (Fund i (beneficiary (deals m i)) (deal_amount (deals m i)) (deadline (deals m i)))) \<and>
     (deal_state (deals m i) = Released \<longrightarrow> asked c lb F G (Release i)))"

lemma asked_fund: "asked c lb F G (Fund i ben n dl) = asked c lb F G (Fund i ben n dl')"
  by (simp add: asked_def)

lemma exec_asked:
  assumes "deals_asked c lb F G s" "exec ops c sender bt k s = Inr m" "sender = settler c \<Longrightarrow> asked c lb F G k"
  shows "deals_asked c lb F G m"
proof (cases k)
  case (Fund i ben n dl)
  with assms show ?thesis by (auto simp: deals_asked_def fund_def Let_def split: if_splits sum.splits)
next
  case (Release i)
  with assms(2) have "sender = settler c" by (auto simp: release_def Let_def split: if_splits)
  with assms Release show ?thesis
    by (auto simp: deals_asked_def release_def pay_def set_state_def Let_def split: if_splits sum.splits)
next
  case (Refund i)
  with assms show ?thesis
    by (auto simp: deals_asked_def refund_def pay_def set_state_def Let_def split: if_splits sum.splits)
next
  case (Cancel i)
  with assms show ?thesis
    by (auto simp: deals_asked_def cancel_def pay_def set_state_def Let_def split: if_splits sum.splits)
qed (use assms in \<open>auto simp: deals_asked_def token_call_def split: sum.splits\<close>)

text \<open>The world: the operator is the settler, and its transactions the node knows of were asked for, too.\<close>

definition rail_asked :: "escrow_site \<Rightarrow> lib \<Rightarrow> dvp_dto set \<Rightarrow> string set \<Rightarrow> world \<Rightarrow> bool" where
  "rail_asked c lb F G w \<longleftrightarrow> operatorAddress w = settler c \<and> decimals w = 6 \<and> deals_asked c lb F G (evm w) \<and>
     (\<forall>p \<in> set (pool w). pt_from p = settler c \<longrightarrow> asked c lb F G (pt_call p))"

lemma mined_as_mem: "q \<in> set (mined_as ok h ps) \<Longrightarrow> \<exists>p \<in> set ps. pt_from q = pt_from p \<and> pt_call q = pt_call p"
  by (auto simp: mined_as_def upd_where_def)

lemma rail_asked_mined:
  "rail_asked c lb F G w \<Longrightarrow> deals_asked c lb F G m \<Longrightarrow> rail_asked c lb F G (w\<lparr>evm := m, pool := mined_as ok h (pool w)\<rparr>)"
  by (auto simp: rail_asked_def dest!: mined_as_mem)

interpretation asked_rail: escrow_client "rail_asked c lb F G" ops c "asked c lb F G" for c lb F G ops
proof
  fix v w assume "chain_same v w" "rail_asked c lb F G w"
  then show "rail_asked c lb F G v" by (simp add: rail_asked_def chain_same_def)
next
  fix u w :: world and p :: pending_tx
  assume "rail_asked c lb F G w" "asked c lb F G (pt_call p)"
  then show "rail_asked c lb F G (w\<lparr>pool := pool w @ [p]\<rparr>)" by (auto simp: rail_asked_def)
next
  fix w p t m h
  assume w: "rail_asked c lb F G w" and p: "p \<in> set (pool w)"
    and x: "exec ops c (pt_from p) t (pt_call p) (evm w) = Inr m"
  have "deals_asked c lb F G m" using exec_asked [OF _ x] w p by (simp add: rail_asked_def)
  with w show "rail_asked c lb F G (w\<lparr>evm := m, pool := mined_as True h (pool w)\<rparr>)" by (rule rail_asked_mined)
next
  fix w h assume w: "rail_asked c lb F G w"
  then have "deals_asked c lb F G (evm w)" by (simp add: rail_asked_def)
  from rail_asked_mined [OF w this, of False h] show "rail_asked c lb F G (w\<lparr>pool := mined_as False h (pool w)\<rparr>)"
    by simp
qed

text \<open>
  The worlds the rail and the others on the chain reach together while the operator's account is used by the
  service only: tasks, of which the DvP requests are among \<open>F\<close> and \<open>G\<close>, in environments whose interference
  is again of this kind, restarts, calls of other accounts, and transactions the node knows of that are
  mined unseen or dropped.
\<close>

inductive dvp_run :: "mock_erc20 erc20_ops \<Rightarrow> escrow_site \<Rightarrow> lib \<Rightarrow> dvp_dto set \<Rightarrow> string set \<Rightarrow> world \<Rightarrow> world \<Rightarrow> bool"
  for ops c lb F G where
  start: "dvp_run ops c lb F G w w"
| task: "dvp_run ops c lb F G w v \<Longrightarrow> linked ops c e \<Longrightarrow> (\<And>n u. dvp_run ops c lb F G u (others e n u)) \<Longrightarrow>
    lib e = lb \<Longrightarrow> (\<And>n k. rpc_decimals (rpc e n) = Inr k \<Longrightarrow> k = 6) \<Longrightarrow>
    (\<And>dto. t = DvpFund dto \<Longrightarrow> dto \<in> F) \<Longrightarrow> (\<And>i. t = DvpRelease i \<Longrightarrow> i \<in> G) \<Longrightarrow>
    dvp_run ops c lb F G w (snd (run_task t e v))"
| reboot: "dvp_run ops c lb F G w v \<Longrightarrow> dvp_run ops c lb F G w (restart v)"
| outside: "dvp_run ops c lb F G w v \<Longrightarrow> sender \<noteq> settler c \<Longrightarrow> exec ops c sender bt k (evm v) = Inr m \<Longrightarrow>
    dvp_run ops c lb F G w (v\<lparr>evm := m\<rparr>)"
| unseen: "dvp_run ops c lb F G w v \<Longrightarrow> p \<in> set (pool v) \<Longrightarrow> exec ops c (pt_from p) bt (pt_call p) (evm v) = Inr m \<Longrightarrow>
    dvp_run ops c lb F G w (v\<lparr>evm := m\<rparr>)"
| lost: "dvp_run ops c lb F G w v \<Longrightarrow>
    (\<lambda>p. (pt_from p, pt_call p)) ` set ps \<subseteq> (\<lambda>p. (pt_from p, pt_call p)) ` set (pool v) \<Longrightarrow>
    dvp_run ops c lb F G w (v\<lparr>pool := ps\<rparr>)"

lemma dvp_run_asked: "dvp_run ops c lb F G w v \<Longrightarrow> rail_asked c lb F G w \<Longrightarrow> rail_asked c lb F G v"
proof (induction rule: dvp_run.induct)
  case (task w v e t)
  have "decimals u = 6" if "rail_asked c lb F G u" for u using that by (simp add: rail_asked_def)
  with task.hyps(4,6,7) have calls: "task_calls (rail_asked c lb F G) c (asked c lb F G) e t"
    by (auto simp: task_calls_def asked_def split: task.split)
  have "steady (rail_asked c lb F G) e"
    using task by (auto simp: steady_def) (auto simp: rail_asked_def)
  from asked_rail.safe_task [OF this task.hyps(2) calls] task show ?case by (auto simp: safe_def)
next
  case (reboot w v)
  then show ?case by (simp add: restart_def boot_world_def rail_asked_def)
next
  case (outside w v sender bt k m)
  then have "deals_asked c lb F G m" using exec_asked [OF _ outside.hyps(3)] by (auto simp: rail_asked_def)
  with outside show ?case by (simp add: rail_asked_def)
next
  case (unseen w v p bt m)
  then have "deals_asked c lb F G m" using exec_asked [OF _ unseen.hyps(3)] by (auto simp: rail_asked_def)
  with unseen show ?case by (simp add: rail_asked_def)
next
  case (lost w v ps)
  have "asked c lb F G (pt_call p)" if "p \<in> set ps" "pt_from p = settler c" for p
  proof -
    have "(pt_from p, pt_call p) \<in> (\<lambda>p. (pt_from p, pt_call p)) ` set (pool v)"
      using lost.hyps(2) that(1) by blast
    then obtain q where "q \<in> set (pool v)" "pt_from q = pt_from p" "pt_call q = pt_call p" by auto
    with lost that(2) show ?thesis by (auto simp: rail_asked_def)
  qed
  with lost show ?case by (simp add: rail_asked_def)
qed simp

end
