(* ===== verification/EscrowSystemClaims.thy ===== *)
theory EscrowSystemClaims
  imports DvpClaims EscrowSystem
begin

text \<open>What the running rail does on the contract, and what the contract's invariant gives for it.\<close>



text \<open>
  The running rail keeps the escrow solvent. From a deployed escrow on, whatever requests, jobs, sweeps and
  restarts the rail goes through in any interleaving, with any failures, and whatever other accounts
  call, the escrow holds at least the sum of its open deals, and each deal was paid at most once, to the
  party it was due to.
\<close>

theorem rail_keeps_escrow:
  assumes "erc20 ops good" "evm_run ops c good (evm w)" "operatorAddress w \<noteq> self c" "pool w = []"
    and "rail_reach ops c w v"
  shows "(\<Sum>i | deal_state (deals (evm v) i) = Funded. unat (deal_amount (deals (evm v) i)))
      \<le> unat (op_balanceOf ops (tok (evm v)) (self c)) \<and>
    filter (\<lambda>ev. ev_deal ev = i) (events (evm v)) = deal_history i (deals (evm v) i)"
proof -
  have "escrow_world ops c good w" using assms(2-4) by (simp add: escrow_world_def)
  with assms(5) have "evm_run ops c good (evm v)"
    using rail_reach_escrow by (auto simp: escrow_world_def)
  with assms(1) have "escrow_inv ops c good (evm v)" by (rule erc20.evm_run_inv)
  then show ?thesis by (simp add: escrow_inv_def locked_def funded_def)
qed

lemma rail_keeps_escrow_witness:
  "(\<Sum>i | deal_state (deals (evm w_after) i) = Funded. unat (deal_amount (deals (evm w_after) i)))
      \<le> unat (balanceOf_map (tok (evm w_after)) ''E'')"
proof -
  have run: "evm_run mock_ops demo_site (\<lambda>t. True) (evm w_rich)"
    unfolding rich_evm_def by (simp add: evm_run.deployed)
  have "w_after = snd (run_task (DvpFund demo_dvp) calm_env w_rich)"
    by (simp add: discard_result_def run_simps split: prod.split sum.split)
  moreover have "linked mock_ops demo_site calm_env" by (simp add: linked_def demo_cfg_def)
  ultimately have "rail_reach mock_ops demo_site w_rich w_after"
    by (simp only:) (rule rail_reach.task [OF rail_reach.start], simp_all add: rail_reach.start)
  with rail_keeps_escrow [OF mock.erc20_axioms run] show ?thesis by simp
qed

end
