(* ===== verification/AmountClaims.thy ===== *)
theory AmountClaims
  imports Scenario
begin

text \<open>
  Properties of amounts on their way from a request to base units and back, and of the bodies the
  validators let through.
\<close>

section \<open>A library to instantiate the parameters with\<close>

text \<open>
  Numerals are read as they are written; any other value is written in a notation of its own, with the
  numerator and the denominator in unary.
\<close>

definition unary_text :: "rat \<Rightarrow> string" where
  "unary_text a = (case quotient_of a of (p, q) \<Rightarrow>
     (if p < 0 then CHR ''-'' else CHR ''+'') # replicate (nat \<bar>p\<bar>) CHR ''x'' @ replicate (nat q) CHR ''y'')"

definition unary_val :: "string \<Rightarrow> rat" where
  "unary_val s = (if take 1 s = ''-'' then -1 else 1) * of_nat (count_list s CHR ''x'') / of_nat (count_list s CHR ''y'')"

definition read_text :: "string \<Rightarrow> rat option" where
  "read_text s = Some (if takeWhile is_digit s = [] then unary_val s
     else decimal_val (takeWhile is_digit s) (drop 1 (dropWhile is_digit s)))"

definition unary_lib :: lib where
  "unary_lib = \<lparr>dround = (\<lambda>x. x), newDecimal = read_text, decToString = unary_text,
     parseUnits = (\<lambda>s k. Inr \<lfloor>unary_val s * 10 ^ k\<rfloor>), formatUnits = (\<lambda>n k. unary_text (of_int n / 10 ^ k)),
     getAddress = Some, keccakUtf8 = (\<lambda>s. s)\<rparr>"

lemma count_list_replicate: "count_list (replicate n x) y = (if x = y then n else 0)"
  by (induction n) auto

lemma unary_val_text: "unary_val (unary_text a) = a"
proof -
  obtain p q where pq: "quotient_of a = (p, q)" by fastforce
  have q: "0 < q" and a: "a = of_int p / of_int q" using quotient_of_denom_pos [OF pq] quotient_of_div [OF pq] by simp_all
  have t: "unary_text a = (if p < 0 then CHR ''-'' else CHR ''+'') # replicate (nat \<bar>p\<bar>) CHR ''x'' @ replicate (nat q) CHR ''y''"
    by (simp add: unary_text_def pq)
  have "unary_val (unary_text a) = of_int p / of_int q"
    using q by (simp add: t unary_val_def count_list_append count_list_replicate of_nat_nat)
  with a show ?thesis by simp
qed

lemma unary_text_no_digit: "takeWhile is_digit (unary_text a) = []"
  by (simp add: unary_text_def is_digit_def split: prod.split)

lemma unary_lib_units: "units_ok unary_lib"
  by (simp add: units_ok_def unary_lib_def read_text_def unary_text_no_digit unary_val_text)

lemma unary_lib_numerals: "parses_numerals unary_lib"
proof -
  have "newDecimal unary_lib (numeral_text ds fs) = Some (decimal_val ds fs)"
    if "ds \<noteq> []" "digits ds" "digits fs" for ds fs
    using that by (simp add: unary_lib_def read_text_def numeral_text_def takeWhile_digits)
  then show ?thesis by (simp add: parses_numerals_def)
qed

section \<open>Base units\<close>

text \<open>
  Base units and amounts convert without loss. Up to 10^27 base units in either direction, reading the
  amount of a count of base units and turning it back gives the count, and the other way round.
\<close>

theorem units_roundtrip:
  assumes "units_ok (lib e)" "decimals w \<le> 6" "\<bar>n\<bar> < 10 ^ (21 + decimals w)"
  shows "await (fromBaseUnits n) toBaseUnits e w = (Inr n, w) \<and>
    await (toBaseUnits (of_int n / 10 ^ decimals w)) fromBaseUnits e w = (Inr (of_int n / 10 ^ decimals w), w)"
  using assms by (simp add: toBaseUnits_def fromBaseUnits_def newDecimal_io_def units_ok_def run_simps)

definition unary_env :: env where
  "unary_env = calm_env\<lparr>lib := unary_lib\<rparr>"

lemma unary_env_sel [simp]: "lib unary_env = unary_lib"
  by (simp add: unary_env_def)

lemma units_roundtrip_witness:
  "await (fromBaseUnits 1500000) toBaseUnits unary_env w_ready = (Inr 1500000, w_ready)"
proof -
  have "decimals w_ready = 6" by (simp add: w_ready_def w_open_def boot_world_def)
  with units_roundtrip [of unary_env w_ready 1500000] show ?thesis by (simp add: unary_lib_units)
qed

section \<open>Bodies\<close>

text \<open>The contract of the two validators of a submission, in terms of what the strings are.\<close>

definition amount_text :: "string \<Rightarrow> nat \<Rightarrow> bool" where
  "amount_text s n \<longleftrightarrow> (\<exists>ds fs. s = numeral_text ds fs \<and> ds \<noteq> [] \<and> digits ds \<and> digits fs \<and> length fs \<le> 6 \<and>
     decimal_val ds fs = of_nat n / 1000000)"

lemma positive_decimal_iff:
  assumes "parses_numerals l"
  shows "isPositiveDecimal l 6 v \<longleftrightarrow> (\<exists>s n. v = JString s \<and> amount_text s n \<and> 0 < n)"
proof
  assume p: "isPositiveDecimal l 6 v"
  then obtain s where s: "v = JString s" "matches_decimal 6 s"
    by (auto simp: isPositiveDecimal_def split: json.splits)
  then obtain ds fs where t: "s = numeral_text ds fs" "ds \<noteq> []" "digits ds" "digits fs" "length fs \<le> 6"
    by (auto simp: matches_decimal_iff)
  obtain n :: nat where n: "decimal_val ds fs = of_nat n / 1000000" using decimal_val_micro [OF t(5)] by blast
  have "0 < decimal_val ds fs"
    using p assms t s by (simp add: isPositiveDecimal_def parses_numerals_def)
  with n have "0 < n" by (cases n) simp_all
  with s t n show "\<exists>s n. v = JString s \<and> amount_text s n \<and> 0 < n" unfolding amount_text_def by blast
next
  assume "\<exists>s n. v = JString s \<and> amount_text s n \<and> 0 < n"
  then obtain s n ds fs where t: "v = JString s" "0 < n" "s = numeral_text ds fs" "ds \<noteq> []" "digits ds" "digits fs"
    "length fs \<le> 6" "decimal_val ds fs = of_nat n / 1000000" unfolding amount_text_def by blast
  then have "matches_decimal 6 s" unfolding matches_decimal_iff by blast
  moreover have "newDecimal l s = Some (of_nat n / 1000000)" using assms t by (simp add: parses_numerals_def)
  ultimately show "isPositiveDecimal l 6 v" using t(1,2) by (simp add: isPositiveDecimal_def)
qed

lemma accepted_fields:
  assumes "parses_numerals l" "validate_create l b = Some dto"
  shows "\<exists>n > 0. map_of b ''instructionId'' = Some (JString (d_instructionId dto)) \<and>
       map_of b ''toAddress'' = Some (JString (d_toAddress dto)) \<and>
       map_of b ''amount'' = Some (JString (d_amount dto)) \<and>
       set (map fst b) = {''instructionId'', ''toAddress'', ''amount''} \<and>
       d_instructionId dto \<noteq> [] \<and> length (d_instructionId dto) \<le> 64 \<and>
       getAddress l (d_toAddress dto) = Some (d_toAddress dto) \<and> amount_text (d_amount dto) n"
proof -
  from assms(2) have r: "holds_at b ''instructionId'' isInstructionId" "holds_at b ''toAddress'' (isChecksummedAddress l)"
    "holds_at b ''amount'' (isPositiveDecimal l 6)" "set (map fst b) \<subseteq> {''instructionId'', ''toAddress'', ''amount''}"
    and dto: "dto = \<lparr>d_instructionId = str_at b ''instructionId'', d_toAddress = str_at b ''toAddress'',
      d_amount = str_at b ''amount''\<rparr>"
    unfolding validate_create_def by (auto split: if_splits)
  from r(1) obtain i where i: "map_of b ''instructionId'' = Some (JString i)" "i \<noteq> []" "length i \<le> 64"
    by (auto simp: holds_at_def isInstructionId_def split: option.splits json.splits)
  from r(2) obtain a where a: "map_of b ''toAddress'' = Some (JString a)" "getAddress l a = Some a"
    by (auto simp: holds_at_def isChecksummedAddress_def split: option.splits json.splits)
  from r(3) obtain s n where s: "map_of b ''amount'' = Some (JString s)" "amount_text s n" "0 < n"
    by (auto simp: holds_at_def positive_decimal_iff [OF assms(1)] split: option.splits)
  have "set (map fst b) = {''instructionId'', ''toAddress'', ''amount''}"
    using r(4) i(1) a(1) s(1) by (force dest!: map_of_SomeD)
  with i a s dto show ?thesis by (auto simp: str_at_def)
qed

text \<open>
  C22: A submission is accepted exactly when it is well formed: it has the three properties and no other, each a
  string; the instruction id has 1 to 64 characters, the address is its own checksummed form, and the
  amount is a numeral with at most six decimals that denotes a positive number.
\<close>

theorem create_body_accepted:
  assumes "parses_numerals l"
  shows "validate_create l b = Some dto \<longleftrightarrow>
    (\<exists>n > 0. map_of b ''instructionId'' = Some (JString (d_instructionId dto)) \<and>
       map_of b ''toAddress'' = Some (JString (d_toAddress dto)) \<and>
       map_of b ''amount'' = Some (JString (d_amount dto)) \<and>
       set (map fst b) = {''instructionId'', ''toAddress'', ''amount''} \<and>
       d_instructionId dto \<noteq> [] \<and> length (d_instructionId dto) \<le> 64 \<and>
       getAddress l (d_toAddress dto) = Some (d_toAddress dto) \<and> amount_text (d_amount dto) n)"
proof
  assume "validate_create l b = Some dto"
  with assms show "\<exists>n > 0. map_of b ''instructionId'' = Some (JString (d_instructionId dto)) \<and>
       map_of b ''toAddress'' = Some (JString (d_toAddress dto)) \<and>
       map_of b ''amount'' = Some (JString (d_amount dto)) \<and>
       set (map fst b) = {''instructionId'', ''toAddress'', ''amount''} \<and>
       d_instructionId dto \<noteq> [] \<and> length (d_instructionId dto) \<le> 64 \<and>
       getAddress l (d_toAddress dto) = Some (d_toAddress dto) \<and> amount_text (d_amount dto) n" by (rule accepted_fields)
next
  assume "\<exists>n > 0. map_of b ''instructionId'' = Some (JString (d_instructionId dto)) \<and>
       map_of b ''toAddress'' = Some (JString (d_toAddress dto)) \<and>
       map_of b ''amount'' = Some (JString (d_amount dto)) \<and>
       set (map fst b) = {''instructionId'', ''toAddress'', ''amount''} \<and>
       d_instructionId dto \<noteq> [] \<and> length (d_instructionId dto) \<le> 64 \<and>
       getAddress l (d_toAddress dto) = Some (d_toAddress dto) \<and> amount_text (d_amount dto) n"
  then obtain n where n: "0 < n" "amount_text (d_amount dto) n" and h:
    "map_of b ''instructionId'' = Some (JString (d_instructionId dto))"
    "map_of b ''toAddress'' = Some (JString (d_toAddress dto))" "map_of b ''amount'' = Some (JString (d_amount dto))"
    "d_instructionId dto \<noteq> []" "length (d_instructionId dto) \<le> 64" "getAddress l (d_toAddress dto) = Some (d_toAddress dto)"
    and k: "set (map fst b) \<subseteq> {''instructionId'', ''toAddress'', ''amount''}" by blast
  have "holds_at b ''instructionId'' isInstructionId" "holds_at b ''toAddress'' (isChecksummedAddress l)"
    by (simp_all add: holds_at_def h isInstructionId_def isChecksummedAddress_def)
  moreover have "holds_at b ''amount'' (isPositiveDecimal l 6)"
    unfolding holds_at_def h option.case positive_decimal_iff [OF assms] using n by blast
  ultimately show "validate_create l b = Some dto"
    unfolding validate_create_def using k by (simp only: simp_thms if_True) (simp add: str_at_def h)
qed

definition demo_body :: body where
  "demo_body = [(''instructionId'', JString ''i''), (''toAddress'', JString ''a''), (''amount'', JString ''40.5'')]"

lemma demo_amount: "amount_text ''40.5'' 40500000"
  unfolding amount_text_def
  by (intro exI [of _ "''40''"] exI [of _ "''5''"])
     (simp add: numeral_text_def digits_def is_digit_def decimal_val_def digits_val_def digit_val_def)

lemma create_body_accepted_witness:
  "validate_create unary_lib demo_body = Some \<lparr>d_instructionId = ''i'', d_toAddress = ''a'', d_amount = ''40.5''\<rparr>"
  unfolding create_body_accepted [OF unary_lib_numerals]
  by (rule exI [of _ 40500000]) (simp add: demo_amount, simp add: demo_body_def unary_lib_def insert_commute)

text \<open>
  What a \<open>DECIMAL(38,6)\<close> column makes of an amount: it is rounded to six decimals, and refused when more
  than 32 digits remain before the point.
\<close>

definition numeric_38_6 :: "rat \<Rightarrow> rat option" where
  "numeric_38_6 a = (if \<bar>dec6 a\<bar> < 10 ^ 32 then Some (dec6 a) else None)"

lemma numeric_38_6_micro:
  "numeric_38_6 (of_nat n / 1000000) = (if n < 10 ^ 38 then Some (of_nat n / 1000000) else None)"
proof -
  have "dec6 (of_nat n / 1000000) = of_nat n / 1000000" using dec6_micro [of "int n"] by simp
  moreover have "of_nat n / 1000000 < (10 ^ 32 :: rat) \<longleftrightarrow> n < 10 ^ 38"
  proof -
    have "of_nat n / 1000000 < (10 ^ 32 :: rat) \<longleftrightarrow> of_nat n < (of_nat (10 ^ 38) :: rat)"
      by (simp add: divide_less_eq)
    then show ?thesis by (simp only: of_nat_less_iff)
  qed
  ultimately show ?thesis by (simp add: numeric_38_6_def)
qed

text \<open>
  C23: The amount of an accepted submission is exact. It is a positive number \<open>n\<close> of millionths. The numeric column,
  which has 38 digits, stores it unchanged when it is below 10^32 and refuses it otherwise; and where it is
  below 10^21, the base units sent on a chain with six decimals are exactly those millionths.
\<close>

theorem accepted_amount_exact:
  assumes "validate_create (lib e) b = Some dto" "parses_numerals (lib e)" "units_ok (lib e)" "decimals w = 6"
  shows "\<exists>n > 0. newDecimal_io (d_amount dto) e w = (Inr (of_nat n / 1000000), w) \<and>
    numeric_38_6 (of_nat n / 1000000) = (if n < 10 ^ 38 then Some (of_nat n / 1000000) else None) \<and>
    dec6 (of_nat n / 1000000) = of_nat n / 1000000 \<and>
    (if n < 10 ^ 27 then toBaseUnits (of_nat n / 1000000) e w = (Inr (int n), w) else True)"
proof -
  have "holds_at b ''amount'' (isPositiveDecimal (lib e) 6)" and a: "d_amount dto = str_at b ''amount''"
    using assms(1) unfolding validate_create_def by (auto split: if_splits)
  then obtain s n where s: "map_of b ''amount'' = Some (JString s)" "amount_text s n" "0 < n"
    by (auto simp: holds_at_def positive_decimal_iff [OF assms(2)] split: option.splits)
  have parse: "newDecimal (lib e) (d_amount dto) = Some (of_nat n / 1000000)"
    using s a assms(2) by (auto simp: str_at_def amount_text_def parses_numerals_def)
  have "toBaseUnits (of_nat n / 1000000) e w = (Inr (int n), w)" if "n < 10 ^ 27"
  proof -
    have "int n < 10 ^ 27" using that by (metis of_nat_less_iff of_nat_numeral of_nat_power)
    then have "\<bar>int n\<bar> < 10 ^ (21 + 6)" by simp
    with assms(3) have "parseUnits (lib e) (decToString (lib e) (of_int (int n) / 10 ^ 6)) 6 = Inr (int n)"
      unfolding units_ok_def by (metis order_refl)
    then show ?thesis by (simp add: toBaseUnits_def assms(4))
  qed
  moreover have "dec6 (of_nat n / 1000000) = of_nat n / 1000000" using dec6_micro [of "int n"] by simp
  ultimately show ?thesis using s(3) parse numeric_38_6_micro [of n]
    by (intro exI [of _ n]) (simp add: newDecimal_io_def)
qed

lemma accepted_amount_exact_witness:
  "\<exists>n > (0 :: nat). newDecimal_io ''40.5'' unary_env w_ready = (Inr (of_nat n / 1000000), w_ready)"
proof -
  have v: "validate_create unary_lib demo_body = Some \<lparr>d_instructionId = ''i'', d_toAddress = ''a'', d_amount = ''40.5''\<rparr>"
    by code_simp
  have "decimals w_ready = 6" by (simp add: w_ready_def w_open_def boot_world_def)
  with accepted_amount_exact [of unary_env demo_body _ w_ready] v show ?thesis
    by (fastforce simp: unary_lib_units unary_lib_numerals)
qed

end
