(* ===== verification/Throws.thy ===== *)
theory Throws
  imports Http
begin

text \<open>
  Which exceptions a handler can end with. \<open>throws P e m\<close> says that in the environment \<open>e\<close>, from any world,
  \<open>m\<close> throws only exceptions that satisfy \<open>P\<close>; the rules follow the combinators of \<open>Io\<close>.
\<close>

named_theorems throws_rules

definition throws :: "(exn \<Rightarrow> bool) \<Rightarrow> env \<Rightarrow> 'a io \<Rightarrow> bool" where
  "throws P e m \<longleftrightarrow> (\<forall>w x v. m e w = (Inl x, v) \<longrightarrow> P x)"

lemma throwsD: "throws P e m \<Longrightarrow> m e w = (Inl x, v) \<Longrightarrow> P x"
  by (auto simp: throws_def)

text \<open>The exceptions of the libraries and of the database, and the death of the process: no HTTP exception.\<close>

fun plain :: "exn \<Rightarrow> bool" where
  "plain (HttpExn st er msg) = False"
| "plain _ = True"

text \<open>What the node, the database and the libraries throw is plain.\<close>

definition plain_env :: "env \<Rightarrow> bool" where
  "plain_env e \<longleftrightarrow> (\<forall>n x. dbErr e n = Some x \<longrightarrow> plain x) \<and>
     (\<forall>n x. getBlockNumber (rpc e n) = Inl x \<longrightarrow> plain x) \<and>
     (\<forall>n h x. getTransactionReceipt (rpc e n) h = Inl x \<longrightarrow> plain x)"

locale exceptions =
  fixes P :: "exn \<Rightarrow> bool"
  assumes plain_ok: "plain x \<Longrightarrow> P x"
begin

lemma throws_ret [throws_rules]: "throws P e (ret a)"
  by (simp add: throws_def run_simps)

lemma throws_gets [throws_rules]: "throws P e (gets f)"
  by (simp add: throws_def run_simps)

lemma throws_modify [throws_rules]: "throws P e (modify f)"
  by (simp add: throws_def run_simps)

lemma throws_throw: "P x \<Longrightarrow> throws P e (throw x)"
  by (simp add: throws_def run_simps)

lemma throws_await [throws_rules]:
  assumes "throws P e m" "\<And>a. throws P e (k a)"
  shows "throws P e (await m k)"
  unfolding throws_def
proof (intro allI impI)
  fix w x v assume "await m k e w = (Inl x, v)"
  then consider "m e w = (Inl x, v)" | a w' where "m e w = (Inr a, w')" "k a e w' = (Inl x, v)"
    by (auto simp: run_simps split: prod.splits sum.splits)
  then show "P x" using assms by cases (auto dest: throwsD)
qed

lemma throws_andThen [throws_rules]: "throws P e m \<Longrightarrow> throws P e k \<Longrightarrow> throws P e (andThen m k)"
  by (simp add: andThen_def throws_await)

lemma throws_tryCatch:
  assumes "throws P e m" "\<And>x. P x \<Longrightarrow> throws P e (h x)"
  shows "throws P e (tryCatch m h)"
  unfolding throws_def
proof (intro allI impI)
  fix w x v assume "tryCatch m h e w = (Inl x, v)"
  then consider "x = Crash" | y w' where "m e w = (Inl y, w')" "h y e w' = (Inl x, v)"
    by (auto simp: run_simps split: prod.splits sum.splits if_splits)
  then show "P x"
  proof cases
    case (2 y w')
    with assms(1) have "P y" by (auto dest: throwsD)
    with assms(2) 2(2) show ?thesis by (auto dest: throwsD)
  qed (simp add: plain_ok)
qed

lemma throws_yield [throws_rules]: "throws P e yield"
  by (auto simp: throws_def yield_def plain_ok)

lemma throws_rpc_call:
  assumes "\<And>n x. f (rpc e n) = Inl x \<Longrightarrow> plain x"
  shows "throws P e (rpc_call f)"
  unfolding rpc_call_def
  by (intro throws_rules) (use assms in \<open>auto simp: throws_def intro: plain_ok\<close>)

lemma throws_db_tx:
  assumes "plain_env e" "\<And>n d x. f e n d = Inl x \<Longrightarrow> plain x"
  shows "throws P e (db_tx f)"
  unfolding db_tx_def
  by (intro throws_rules)
     (use assms in \<open>auto simp: throws_def run_tx_def plain_env_def intro: plain_ok split: option.splits sum.splits prod.splits\<close>)

lemma throws_db_read [throws_rules]: "plain_env e \<Longrightarrow> throws P e (db_read f)"
  unfolding db_read_def by (rule throws_db_tx) simp_all

text \<open>The parts of a submission and of the queries.\<close>

lemma throws_newDecimal [throws_rules]: "throws P e (newDecimal_io s)"
  by (auto simp: throws_def newDecimal_io_def plain_ok split: option.splits)

lemma throws_availableBalance [throws_rules]: "plain_env e \<Longrightarrow> throws P e availableBalance"
  unfolding availableBalance_def getOperatorBalance_def getOpeningBalance_def sumByStatuses_def
  by (intro throws_rules)

lemma throws_findById [throws_rules]: "plain_env e \<Longrightarrow> throws P e (findById i)"
  and throws_findByInstructionId [throws_rules]: "plain_env e \<Longrightarrow> throws P e (findByInstructionId i)"
  unfolding findById_def findByInstructionId_def by (intro throws_rules; assumption)+

lemma throws_state_create [throws_rules]: "plain_env e \<Longrightarrow> throws P e (state_create instr to a st)"
  unfolding state_create_def
  by (rule throws_db_tx) (auto simp: create_tx_def P2002_def Let_def split: if_splits)

lemma throws_transition [throws_rules]: "plain_env e \<Longrightarrow> throws P e (transition i to opts)"
  unfolding transition_def
  by (rule throws_db_tx) (auto simp: transition_tx_def P2002_def split: if_splits option.splits)

lemma throws_enqueue [throws_rules]: "throws P e (enqueue s)"
  unfolding enqueue_def enqueueId_def by (intro throws_rules)

lemma throws_insert_received [throws_rules]: "plain_env e \<Longrightarrow> throws P e (insert_received dto a)"
  unfolding insert_received_def
  by (intro throws_tryCatch throws_rules) (auto split: option.splits if_splits intro!: throws_rules throws_throw)

lemma throws_screen [throws_rules]: "plain_env e \<Longrightarrow> throws P e (screen provider dto s)"
  unfolding screen_def Let_def by (intro throws_rules) (auto intro!: throws_rules)

lemma throws_confirm_all: "plain_env e \<Longrightarrow> throws P e (confirm_all b ss m)"
  by (induction ss arbitrary: m) (auto intro!: throws_rules throws_rpc_call simp: plain_env_def)

lemma throws_presentMany [throws_rules]: "plain_env e \<Longrightarrow> throws P e (presentMany ss)"
  unfolding presentMany_def Let_def getCurrentBlock_def
  by (auto intro!: throws_rules throws_rpc_call throws_confirm_all simp: plain_env_def)

lemma throws_present [throws_rules]: "plain_env e \<Longrightarrow> throws P e (present s)"
  unfolding present_def by (intro throws_rules)

lemma throws_create:
  assumes "plain_env e" "\<And>l a b. P (insufficient l a b)"
  shows "throws P e (create provider dto)"
proof -
  have refused: "throws P e (await (gets (\<lambda>e w. insufficient (lib e) a b)) (throw :: _ \<Rightarrow> create_result io))" for a b
    using assms(2) by (simp add: throws_def run_simps)
  have "throws P e (case ins of Inl raced \<Rightarrow> ret \<lparr>cr_settlement = raced, cr_created = False\<rparr>
      | Inr s \<Rightarrow> screen provider dto s)" for ins
    using assms(1) by (cases ins) (simp_all add: throws_rules)
  then have "throws P e (if b < a then await (gets (\<lambda>e w. insufficient (lib e) a b)) throw
      else await (insert_received dto a) (\<lambda>inserted. case inserted of
        Inl raced \<Rightarrow> ret \<lparr>cr_settlement = raced, cr_created = False\<rparr> | Inr s \<Rightarrow> screen provider dto s))" for a b
    using refused assms(1) by (simp add: throws_rules)
  then show ?thesis
    unfolding create_def using assms(1) by (auto intro!: throws_rules split: option.split)
qed

end

text \<open>A submission may also be refused for the balance.\<close>

definition post_exn :: "exn \<Rightarrow> bool" where
  "post_exn x \<longleftrightarrow> plain x \<or> (\<exists>l a b. x = insufficient l a b)"

interpretation post_exceptions: exceptions post_exn
  by unfold_locales (simp add: post_exn_def)

end
