(* ===== verification/HttpClaims.thy ===== *)
theory HttpClaims
  imports Scenario Throws
begin

text \<open>
  Properties of the HTTP surface: what the answers of the API tell, and which answers there can be.
\<close>

section \<open>The exception filter\<close>

definition generic_500 :: "int \<Rightarrow> error_body" where
  "generic_500 st = \<lparr>statusCode = st, error = ''Internal Server Error'', message = One ''Internal server error''\<rparr>"

lemma filter_server_error: "500 \<le> statusCode (filter_catch v) \<Longrightarrow> filter_catch v = generic_500 (statusCode (filter_catch v))"
  by (auto simp: filter_catch_def generic_500_def Let_def split: thrown_value.splits http_response.splits)

text \<open>
  A server error tells a client nothing but its status. The bodies of any two exceptions that are answered
  with the same status of 500 or more are equal, whatever their messages; and what is not an
  \<open>HttpException\<close> is answered with 500.
\<close>

theorem filter_hides_internals:
  assumes "500 \<le> statusCode (filter_catch u)" "statusCode (filter_catch v) = statusCode (filter_catch u)"
  shows "filter_catch v = filter_catch u \<and> statusCode (filter_catch (NoHttp x)) = 500"
proof -
  have "filter_catch v = filter_catch u"
    using filter_server_error [of u] filter_server_error [of v] assms by simp
  then show ?thesis by (simp add: filter_catch_def)
qed

lemma filter_hides_internals_witness:
  "filter_catch (NoHttp (Thrown None ''password of the database'')) = filter_catch (NoHttp (Thrown None ''timeout''))"
  by (rule conjunct1 [OF filter_hides_internals]) (simp_all add: filter_catch_def)

section \<open>The presenter\<close>

text \<open>The reference: one row, its status and its receipt.\<close>

definition confirmations_of :: "int \<Rightarrow> (string \<Rightarrow> receipt option) \<Rightarrow> settlement \<Rightarrow> int option" where
  "confirmations_of head seen s = (if status s \<in> {SUBMITTED, CONFIRMED}
     then Some (case txHash s of None \<Rightarrow> 0 | Some h \<Rightarrow> if h = [] then 0
       else (case seen h of Some r \<Rightarrow> head - rc_blockNumber r + 1 | None \<Rightarrow> 0)) else None)"

lemma quiet_confirm_all:
  assumes "quiet e" "\<And>k h. getTransactionReceipt (rpc e k) h = Inr (seen h)" "distinct (map sid ss)"
    and "\<And>s. s \<in> set ss \<Longrightarrow> needs_confirmations s"
  shows "\<exists>k m'. confirm_all head ss m e w = (Inr m', w\<lparr>tick := k\<rparr>) \<and>
    map_of m' = map_of m ++ (\<lambda>i. case find (\<lambda>s. sid s = i) ss of
      Some s \<Rightarrow> confirmations_of head seen s | None \<Rightarrow> None)"
  using assms(3,4)
proof (induction ss arbitrary: m w)
  case Nil
  show ?case by (intro exI [of _ "tick w"] exI [of _ m]) (simp add: run_simps map_add_def)
next
  case (Cons s ss)
  from Cons.prems(2) [of s] obtain h where h: "txHash s = Some h" "h \<noteq> []" "status s \<in> {SUBMITTED, CONFIRMED}"
    by (auto simp: needs_confirmations_def IN_FLIGHT_def split: option.splits)
  let ?n = "case seen h of Some r \<Rightarrow> head - rc_blockNumber r + 1 | None \<Rightarrow> 0"
  let ?w = "w\<lparr>tick := Suc (Suc (tick w))\<rparr>"
  have c: "confirmations_of head seen s = Some ?n" using h by (simp add: confirmations_of_def)
  have run: "confirm_all head (s # ss) m e w = confirm_all head ss (AList.update (sid s) ?n m) e ?w"
    using h by (simp add: run_simps quiet_rpc_call [OF assms(1)] assms(2))
  from Cons.IH [of "AList.update (sid s) ?n m" ?w] Cons.prems obtain k m' where
    k: "confirm_all head ss (AList.update (sid s) ?n m) e ?w = (Inr m', ?w\<lparr>tick := k\<rparr>)"
    and m': "map_of m' = map_of (AList.update (sid s) ?n m) ++ (\<lambda>i. case find (\<lambda>s. sid s = i) ss of
      Some s \<Rightarrow> confirmations_of head seen s | None \<Rightarrow> None)" by auto
  have "find (\<lambda>t. sid t = sid s) ss = None" using Cons.prems(1) by (simp add: find_None_iff) (metis image_eqI)
  then have "map_of m' = map_of m ++ (\<lambda>i. case find (\<lambda>t. sid t = i) (s # ss) of
      Some s \<Rightarrow> confirmations_of head seen s | None \<Rightarrow> None)"
    unfolding m' update_conv' using c by (auto simp: fun_eq_iff map_add_def split: option.splits)
  with k run show ?case by (intro exI [of _ k] exI [of _ m']) simp
qed

text \<open>
  The presenter shows each row by itself. On a node with steady receipts, the batched computation gives for
  every row, in order, the row with its own confirmations: the depth of its receipt while it is in
  flight, 0 where no receipt is known, nothing when it is not in flight. The database is only read.
\<close>

theorem present_pointwise:
  assumes "quiet e" "\<And>k. getBlockNumber (rpc e k) = Inr head"
    and "\<And>k h. getTransactionReceipt (rpc e k) h = Inr (seen h)" "distinct (map sid ss)"
  shows "\<exists>rs k. presentMany ss e w = (Inr rs, w\<lparr>tick := k\<rparr>) \<and> length rs = length ss \<and>
    map sr_confirmations rs = map (confirmations_of head seen) ss \<and> map sr_id rs = map sid ss \<and>
    map sr_status rs = map status ss \<and> map sr_amount rs = map (\<lambda>s. decToString (lib e) (amount s)) ss \<and>
    map sr_txHash rs = map txHash ss"
proof -
  let ?needs = "filter needs_confirmations ss"
  let ?find = "\<lambda>i. case find (\<lambda>s. sid s = i) ?needs of Some s \<Rightarrow> confirmations_of head seen s | None \<Rightarrow> None"
  have d: "distinct (map sid ?needs)" using assms(4) by (rule distinct_map_filter)
  obtain k m where run: "(if ?needs = [] then ret [] else await getCurrentBlock (\<lambda>b. confirm_all b ?needs [])) e w =
      (Inr m, w\<lparr>tick := k\<rparr>)" and m: "map_of m = ?find"
  proof (cases "?needs = []")
    case True
    then show ?thesis by (intro that [of "[]" "tick w"]) (simp_all add: run_simps)
  next
    case False
    let ?w = "w\<lparr>tick := Suc (Suc (tick w))\<rparr>"
    obtain k m where "confirm_all head ?needs [] e ?w = (Inr m, ?w\<lparr>tick := k\<rparr>)" "map_of m = Map.empty ++ ?find"
      using quiet_confirm_all [OF assms(1,3) d, where head = head and m = "[]" and w = ?w] by auto
    then show ?thesis using False
      by (intro that [of m k]) (simp_all add: getCurrentBlock_def run_simps quiet_rpc_call [OF assms(1)] assms(2))
  qed
  have conf: "(if status s \<in> IN_FLIGHT then Some (case map_of m (sid s) of Some n \<Rightarrow> n | None \<Rightarrow> 0) else None) =
      confirmations_of head seen s" if "s \<in> set ss" for s
  proof (cases "needs_confirmations s")
    case True
    then have "find (\<lambda>t. sid t = sid s) ?needs = Some s" using that d by (intro find_key_unique) auto
    then show ?thesis by (simp add: m confirmations_of_def IN_FLIGHT_def split: option.splits)
  next
    case False
    then have "find (\<lambda>t. sid t = sid s) ?needs = None"
      using that assms(4) by (auto simp: find_None_iff distinct_map dest: inj_onD)
    then show ?thesis using False
      by (auto simp: m confirmations_of_def IN_FLIGHT_def needs_confirmations_def split: option.splits)
  qed
  have "presentMany ss e w = (Inr (map (shape (decToString (lib e)) m) ss), w\<lparr>tick := k\<rparr>)"
    using run by (simp add: presentMany_def Let_def run_simps(3,6))
  with conf show ?thesis by (intro exI [of _ "map (shape (decToString (lib e)) m) ss"] exI [of _ k]) (simp add: shape_def)
qed

lemma present_pointwise_witness:
  "\<exists>rs k. presentMany [sent_row, approved_row\<lparr>sid := ''z''\<rparr>] calm_env w_sent = (Inr rs, w_sent\<lparr>tick := k\<rparr>) \<and>
     map sr_confirmations rs = [Some 5, None]"
proof -
  have n: "getBlockNumber (rpc calm_env k) = Inr 14" "getTransactionReceipt (rpc calm_env k) h = Inr (Some demo_receipt)" for k h
    by (simp_all add: demo_rpc_def)
  have "distinct (map sid [sent_row, approved_row\<lparr>sid := ''z''\<rparr>])"
    by (simp add: sent_row_def approved_row_def)
  moreover have "map (confirmations_of 14 (\<lambda>_. Some demo_receipt)) [sent_row, approved_row\<lparr>sid := ''z''\<rparr>] = [Some 5, None]"
    by (simp add: confirmations_of_def sent_row_def approved_row_def demo_receipt_def)
  ultimately show ?thesis using present_pointwise [OF demo_quiet n] by metis
qed

section \<open>The answers of a submission\<close>

lemma plain_body: "plain x \<Longrightarrow> filter_catch (thrown_of x) = generic_500 500"
  by (cases x) (simp_all add: filter_catch_def thrown_of_def generic_500_def)

lemma refused_bodies:
  "filter_catch (bad_request ms) = \<lparr>statusCode = 400, error = ''Bad Request'', message = Many ms\<rparr>"
  "filter_catch (thrown_of (insufficient l a b)) = \<lparr>statusCode = 422, error = ''InsufficientBalance'',
     message = One (''amount '' @ decToString l a @ '' exceeds available balance '' @ decToString l b)\<rparr>"
  by (simp_all add: filter_catch_def thrown_of_def bad_request_def insufficient_def)

text \<open>
  A submission has five answers. When the libraries throw no HTTP exceptions of their own, the route
  \<open>POST /settlements\<close> answers 201 or 200 with the settlement, 400 exactly when the body is not valid, and then nothing has
  changed, 422 when the amount exceeds the balance, or 500 with the generic body; and it is left
  unanswered only when the process dies.
\<close>

theorem post_answers:
  assumes "plain_env e" "post_settlements provider msgs b e w = (answer, v)"
  shows "case answer of
      None \<Rightarrow> validate_create (lib e) b \<noteq> None
    | Some (Answer st p) \<Rightarrow> st \<in> {200, 201} \<and> validate_create (lib e) b \<noteq> None
    | Some (Failure f) \<Rightarrow> (if validate_create (lib e) b = None
        then v = w \<and> f = \<lparr>statusCode = 400, error = ''Bad Request'', message = Many (msgs b)\<rparr>
        else f = generic_500 500 \<or> statusCode f = 422 \<and> error f = ''InsufficientBalance'')"
proof (cases "validate_create (lib e) b")
  case None
  with assms(2) show ?thesis by (auto simp: post_settlements_def refused_bodies)
next
  case (Some dto)
  let ?m = "await (create provider dto) (\<lambda>r. await (present (cr_settlement r)) (\<lambda>p. ret (r, p)))"
  have t: "throws post_exn e ?m"
    using assms(1) by (intro throws_rules post_exceptions.throws_create) (auto simp: post_exn_def)
  have f: "filter_catch (thrown_of x) = generic_500 500 \<or> statusCode (filter_catch (thrown_of x)) = 422 \<and>
      error (filter_catch (thrown_of x)) = ''InsufficientBalance''" if "post_exn x" for x
    using that by (auto simp: post_exn_def plain_body refused_bodies)
  show ?thesis
  proof (cases "?m e w")
    case (Pair res w')
    show ?thesis
    proof (cases res)
      case (Inl x)
      with Pair t have "post_exn x" by (auto dest: throwsD)
      with f Inl Pair Some assms(2) show ?thesis by (auto simp: post_settlements_def serve_def split: if_splits)
    next
      case (Inr rp)
      with Pair Some assms(2) show ?thesis
        by (auto simp: post_settlements_def serve_def create_status_def split: prod.splits if_splits)
    qed
  qed
qed

lemma post_answers_witness:
  "(case fst (post_settlements (compliance_check demo_lib) (\<lambda>_. [''amount'']) [] calm_env w_ready) of
     Some (Failure f) \<Rightarrow> statusCode f = 400 | _ \<Rightarrow> False)"
proof -
  have p: "plain_env calm_env" by (simp add: plain_env_def demo_rpc_def)
  obtain a v where r: "post_settlements (compliance_check demo_lib) (\<lambda>_. [''amount'']) [] calm_env w_ready = (a, v)"
    by fastforce
  have "validate_create (lib calm_env) [] = None" by (simp add: validate_create_def holds_at_def)
  with post_answers [OF p r] show ?thesis by (auto simp: r split: option.splits answer.splits)
qed

section \<open>Without an escrow\<close>

text \<open>
  Without an escrow address there is no DvP. When the address is unset or empty, every DvP request with a valid
  body is answered 503 with the generic body, and nothing is read, sent or changed.
\<close>

theorem dvp_needs_escrow:
  assumes "dvpEscrowAddress (cfg e) = None \<or> dvpEscrowAddress (cfg e) = Some []" "validate_dvp (lib e) b = Some dto"
  shows "post_dvp msgs b e w = (Some (Failure (generic_500 503)), w) \<and>
    serve (post_dvp_release i) st e w = (Some (Failure (generic_500 503)), w) \<and>
    serve (get_dvp i) st' e w = (Some (Failure (generic_500 503)), w)"
proof -
  let ?x = "HttpExn 503 ''Service Unavailable'' ''DvP escrow not configured (DVP_ESCROW_ADDRESS unset)''"
  have "escrowAddress e w = (Inl ?x, w)" using assms(1) by (auto simp: escrowAddress_def run_simps)
  then have "dvp_fund dto e w = (Inl ?x, w)" "dvp_release i e w = (Inl ?x, w)" "dvp_getDeal i e w = (Inl ?x, w)"
    by (simp_all add: dvp_fund_def dvp_release_def dvp_getDeal_def run_simps(3))
  then show ?thesis using assms(2)
    by (simp add: post_dvp_def post_dvp_release_def get_dvp_def serve_def filter_catch_def thrown_of_def generic_500_def)
qed

lemma dvp_needs_escrow_witness:
  "serve (get_dvp ''d'') (\<lambda>_. 200) (calm_env\<lparr>cfg := demo_cfg\<lparr>dvpEscrowAddress := None\<rparr>\<rparr>) w_ready =
     (Some (Failure (generic_500 503)), w_ready)"
proof -
  let ?b = "[(''instructionId'', JString ''d''), (''beneficiary'', JString ''b''), (''amount'', JString ''40'')]"
  have "\<exists>dto. validate_dvp demo_lib ?b = Some dto"
    by (simp add: validate_dvp_def holds_at_def isInstructionId_def isChecksummedAddress_def isPositiveDecimal_def
        matches_decimal_def is_digit_def isDeadlineSeconds_def)
  then obtain dto where "validate_dvp (lib (calm_env\<lparr>cfg := demo_cfg\<lparr>dvpEscrowAddress := None\<rparr>\<rparr>)) ?b = Some dto"
    by auto
  from dvp_needs_escrow [OF _ this, where msgs = "\<lambda>_. []" and st = "\<lambda>_. 201"] show ?thesis by simp
qed

end
