(* ===== verification/EnvConfig.thy ===== *)
theory EnvConfig
  imports Io
begin

text \<open>
  The configuration: the boot-time schema (\<open>src/config/env.validation.ts\<close>) and the typed accessors
  (\<open>src/config/app-config.service.ts\<close>). How Joi reads a number from a string, and whether a string is a
  URI, are parameters; the patterns, bounds, defaults and the cross-field rule are the code's.
\<close>

type_synonym env_vars = "string \<Rightarrow> string option"

record joi =
  joi_number :: "string \<Rightarrow> int option" \<comment> \<open>\<open>Joi.number().integer()\<close> after conversion\<close>
  joi_uri :: "string list \<Rightarrow> string \<Rightarrow> bool" \<comment> \<open>with the schemes allowed; none means any\<close>

section \<open>Rules\<close>

definition hex_digit :: "char \<Rightarrow> bool" where
  "hex_digit c \<longleftrightarrow> c \<in> set ''0123456789abcdefABCDEF''"

text \<open>\<open>^(0x)?[0-9a-fA-F]{64}$\<close> and \<open>^0x[0-9a-fA-F]{40}$\<close>.\<close>

definition hex_string :: "nat \<Rightarrow> string \<Rightarrow> bool" where
  "hex_string n s \<longleftrightarrow> length s = n \<and> list_all hex_digit s"

definition private_key_ok :: "string \<Rightarrow> bool" where
  "private_key_ok s \<longleftrightarrow> hex_string 64 s \<or> (take 2 s = ''0x'' \<and> hex_string 64 (drop 2 s))"

definition address_ok :: "string \<Rightarrow> bool" where
  "address_ok s \<longleftrightarrow> take 2 s = ''0x'' \<and> hex_string 40 (drop 2 s)"

definition required :: "env_vars \<Rightarrow> string \<Rightarrow> (string \<Rightarrow> bool) \<Rightarrow> string option" where
  "required vars k rule = (case vars k of Some s \<Rightarrow> if rule s then Some s else None | None \<Rightarrow> None)"

text \<open>An optional value: absent is fine, present must obey the rule.\<close>

definition optional :: "env_vars \<Rightarrow> string \<Rightarrow> (string \<Rightarrow> bool) \<Rightarrow> string option option" where
  "optional vars k rule = (case vars k of None \<Rightarrow> Some None | Some s \<Rightarrow> if rule s then Some (Some s) else None)"

definition int_var :: "joi \<Rightarrow> env_vars \<Rightarrow> string \<Rightarrow> int \<Rightarrow> int option \<Rightarrow> int \<Rightarrow> int option" where
  "int_var j vars k lo hi dflt = (case vars k of
     None \<Rightarrow> Some dflt
   | Some s \<Rightarrow> (case joi_number j s of
       None \<Rightarrow> None
     | Some n \<Rightarrow> if lo \<le> n \<and> (case hi of None \<Rightarrow> True | Some h \<Rightarrow> n \<le> h) then Some n else None))"

definition str_var :: "env_vars \<Rightarrow> string \<Rightarrow> string \<Rightarrow> string option" where
  "str_var vars k dflt = (case vars k of None \<Rightarrow> Some dflt | Some s \<Rightarrow> if s = [] then None else Some s)"

section \<open>The validated environment\<close>

record settings =
  operatorPrivateKey :: string
  rpcHttpUrl :: string
  rpcWssUrl :: string
  usdcContractAddress :: string
  databaseUrl :: string
  sConfirmationsConfirmed :: int
  sConfirmationsFinal :: int
  sStuckTxSeconds :: int
  sMaxRetries :: int
  reconCron :: string
  allowedOrigin :: string
  throttleTtlSeconds :: int
  throttleLimit :: int
  redisUrl :: "string option"
  sDvpEscrowAddress :: "string option"
  port :: int

definition envValidationSchema :: "joi \<Rightarrow> env_vars \<Rightarrow> settings option" where
  "envValidationSchema j vars =
     Option.bind (required vars ''OPERATOR_PRIVATE_KEY'' private_key_ok) (\<lambda>key.
     Option.bind (required vars ''RPC_HTTP_URL'' (joi_uri j [''http'', ''https''])) (\<lambda>http.
     Option.bind (required vars ''RPC_WSS_URL'' (joi_uri j [''ws'', ''wss''])) (\<lambda>ws.
     Option.bind (required vars ''USDC_CONTRACT_ADDRESS'' address_ok) (\<lambda>usdcAddr.
     Option.bind (required vars ''DATABASE_URL'' (joi_uri j [])) (\<lambda>dburl.
     Option.bind (int_var j vars ''CONFIRMATIONS_CONFIRMED'' 1 None 1) (\<lambda>cc.
     Option.bind (int_var j vars ''CONFIRMATIONS_FINAL'' 1 None 5) (\<lambda>cf.
     Option.bind (int_var j vars ''STUCK_TX_SECONDS'' 1 None 60) (\<lambda>stuck.
     Option.bind (int_var j vars ''MAX_RETRIES'' 0 None 3) (\<lambda>retries.
     Option.bind (str_var vars ''RECON_CRON'' ''*/5 * * * *'') (\<lambda>cron.
     Option.bind (str_var vars ''ALLOWED_ORIGIN'' ''http://localhost:3001'') (\<lambda>origin.
     Option.bind (int_var j vars ''THROTTLE_TTL_SECONDS'' 1 None 60) (\<lambda>ttl.
     Option.bind (int_var j vars ''THROTTLE_LIMIT'' 1 None 10) (\<lambda>limit.
     Option.bind (optional vars ''REDIS_URL'' (joi_uri j [''redis'', ''rediss''])) (\<lambda>redis.
     Option.bind (optional vars ''DVP_ESCROW_ADDRESS'' address_ok) (\<lambda>escrow.
     Option.bind (int_var j vars ''PORT'' 1 (Some 65535) 3000) (\<lambda>p.
       if cf < cc then None
       else Some \<lparr>operatorPrivateKey = key, rpcHttpUrl = http, rpcWssUrl = ws, usdcContractAddress = usdcAddr,
         databaseUrl = dburl, sConfirmationsConfirmed = cc, sConfirmationsFinal = cf, sStuckTxSeconds = stuck,
         sMaxRetries = retries, reconCron = cron, allowedOrigin = origin, throttleTtlSeconds = ttl,
         throttleLimit = limit, redisUrl = redis, sDvpEscrowAddress = escrow, port = p\<rparr>))))))))))))))))"

text \<open>What the services read of it.\<close>

definition app_config :: "settings \<Rightarrow> config" where
  "app_config s = \<lparr>confirmationsConfirmed = sConfirmationsConfirmed s,
     confirmationsFinal = sConfirmationsFinal s, stuckTxSeconds = sStuckTxSeconds s,
     maxRetries = nat (sMaxRetries s), dvpEscrowAddress = sDvpEscrowAddress s\<rparr>"

section \<open>The origins\<close>

fun split_on :: "char \<Rightarrow> string \<Rightarrow> string list" where
  "split_on c [] = [[]]"
| "split_on c (x # xs) = (if x = c then [] # split_on c xs
     else (case split_on c xs of y # ys \<Rightarrow> (x # y) # ys | [] \<Rightarrow> [[x]]))"

definition is_space :: "char \<Rightarrow> bool" where
  "is_space c \<longleftrightarrow> c \<in> {CHR '' '', CHR 0x09, CHR 0x0A, CHR 0x0B, CHR 0x0C, CHR 0x0D}"

definition js_trim :: "string \<Rightarrow> string" where
  "js_trim s = rev (dropWhile is_space (rev (dropWhile is_space s)))"

definition allowedOrigins :: "settings \<Rightarrow> string list" where
  "allowedOrigins s = filter (\<lambda>o1. 0 < length o1) (map js_trim (split_on (CHR '','') (allowedOrigin s)))"

section \<open>What a validated environment guarantees\<close>

lemma int_var_bounds: "int_var j vars k lo hi dflt = Some n \<Longrightarrow> lo \<le> dflt \<Longrightarrow> lo \<le> n"
  by (auto simp: int_var_def split: option.splits if_splits)

lemma schema_vars:
  assumes "envValidationSchema j vars = Some s"
  shows "int_var j vars ''CONFIRMATIONS_CONFIRMED'' 1 None 1 = Some (sConfirmationsConfirmed s) \<and>
    int_var j vars ''CONFIRMATIONS_FINAL'' 1 None 5 = Some (sConfirmationsFinal s) \<and>
    int_var j vars ''STUCK_TX_SECONDS'' 1 None 60 = Some (sStuckTxSeconds s) \<and>
    int_var j vars ''MAX_RETRIES'' 0 None 3 = Some (sMaxRetries s) \<and>
    optional vars ''DVP_ESCROW_ADDRESS'' address_ok = Some (sDvpEscrowAddress s) \<and>
    sConfirmationsConfirmed s \<le> sConfirmationsFinal s"
  using assms unfolding envValidationSchema_def bind_eq_Some_conv
  by (elim exE conjE) (simp split: if_splits, clarsimp)

lemma schema_confirmations:
  assumes "envValidationSchema j vars = Some s"
  shows "1 \<le> sConfirmationsConfirmed s \<and> sConfirmationsConfirmed s \<le> sConfirmationsFinal s \<and>
    1 \<le> sStuckTxSeconds s \<and> 0 \<le> sMaxRetries s"
proof -
  note v = schema_vars [OF assms]
  from v have "sConfirmationsConfirmed s \<le> sConfirmationsFinal s" by blast
  moreover from v have "1 \<le> sConfirmationsConfirmed s" "1 \<le> sStuckTxSeconds s" "0 \<le> sMaxRetries s"
    using int_var_bounds by (force, force, force)
  ultimately show ?thesis by blast
qed

lemma schema_escrow:
  "envValidationSchema j vars = Some s \<Longrightarrow> case sDvpEscrowAddress s of None \<Rightarrow> True | Some a \<Rightarrow> address_ok a"
  by (drule schema_vars) (auto simp: optional_def split: if_splits option.splits)

lemma split_on_no_sep: "x \<in> set (split_on c s) \<Longrightarrow> c \<notin> set x"
  by (induction s arbitrary: x rule: split_on.induct) (auto split: list.splits if_splits)

lemma set_js_trim: "x \<in> set (js_trim s) \<Longrightarrow> x \<in> set s"
  unfolding js_trim_def set_rev by (drule set_dropWhileD, simp, drule set_dropWhileD, simp)

end
