(* ===== verification/OperationsClaims.thy ===== *)
theory OperationsClaims
  imports Scenario EnvConfig
begin

text \<open>
  Properties of what operators see and set: the gauges, the health probe and the configuration.
\<close>

section \<open>Gauges\<close>

text \<open>
  The gauges show the database. A refresh sets the gauge of every status to the number of settlements in
  it, the opening row not counted and statuses without a row set to 0; when the database refuses
  the query the gauges stay as they are and nothing is thrown.
\<close>

theorem gauges_show_database:
  assumes "\<And>n w. others e n w = w" "\<And>n. \<not> crash e n" "\<And>n. dbErr e n = refused" "refused \<noteq> Some Crash"
  shows "\<exists>v. collector_refresh e w = (Inr (), v) \<and> db v = db w \<and>
    m_settlementsByStatus (metrics v) = (if refused = None
      then (\<lambda>st. length (filter (\<lambda>r. status r = st \<and> instructionId r \<noteq> GENESIS_INSTRUCTION_ID) (settlements (db w))))
      else m_settlementsByStatus (metrics w))"
proof (cases refused)
  case None
  then have q: "quiet e" using assms by (simp add: quiet_def)
  have "(case counts d st of None \<Rightarrow> 0 | Some n \<Rightarrow> n) =
      length (filter (\<lambda>r. status r = st \<and> instructionId r \<noteq> GENESIS_INSTRUCTION_ID) (settlements d))" for d st
    by (simp add: counts_def GENESIS_INSTRUCTION_ID_def Let_def)
  then have g: "m_settlementsByStatus (metrics (set_gauges (counts d) u)) =
      (\<lambda>st. length (filter (\<lambda>r. status r = st \<and> instructionId r \<noteq> GENESIS_INSTRUCTION_ID) (settlements d)))" for d u
    by (simp add: fun_eq_iff gauges_all)
  show ?thesis
    by (simp add: collector_refresh_def countByStatus_def run_simps quiet_db_read [OF q] g None) (simp add: set_gauges_def)
next
  case (Some x)
  then show ?thesis using assms
    by (simp add: collector_refresh_def countByStatus_def db_read_def db_tx_def run_tx_def yield_def run_simps)
qed

lemma gauges_show_database_witness:
  "\<exists>v. collector_refresh calm_env w_ready = (Inr (), v) \<and> m_settlementsByStatus (metrics v) COMPLIANCE_APPROVED = 1 \<and>
     m_settlementsByStatus (metrics v) FINAL = 0"
proof -
  have "db w_ready = db_ready" by (simp add: w_ready_def w_open_def boot_world_def)
  with gauges_show_database [of calm_env None w_ready] show ?thesis
    by (auto simp: db_stages GENESIS_INSTRUCTION_ID_def)
qed

section \<open>Health\<close>

definition never_dies :: "env \<Rightarrow> bool" where
  "never_dies e \<longleftrightarrow> (\<forall>n. \<not> crash e n) \<and> (\<forall>n. dbErr e n \<noteq> Some Crash) \<and> (\<forall>n. getBlockNumber (rpc e n) \<noteq> Inl Crash)"

lemma reachable_total:
  assumes "\<And>v. p e w \<noteq> (Inl Crash, v)"
  shows "\<exists>b v. reachable p e w = (Inr b, v)"
  using assms by (auto simp: reachable_def run_simps split: prod.split sum.split)

lemma probe_alive:
  assumes "never_dies e"
  shows "withTimeout late (db_read f) e w \<noteq> (Inl Crash, v)"
    "withTimeout late (rpc_call getBlockNumber) e w \<noteq> (Inl Crash, v)"
  using assms
  by (auto simp: never_dies_def withTimeout_def db_read_def db_tx_def run_tx_def rpc_call_def yield_def run_simps
      split: option.splits sum.splits prod.splits if_splits)

text \<open>
  The readiness probe always reports. As long as the process lives it answers, however the database and the node
  fail or hang: 200 and "ok" exactly when both are reachable within the time limit, else 503 and "degraded"
  with the part that failed; a probe whose timer wins counts as unreachable.
\<close>

theorem health_reports:
  assumes "never_dies e"
  shows "\<exists>r v. health_ready late e w = (Inr r, v) \<and> hr_code r = (if hr_db r \<and> hr_rpc r then 200 else 503) \<and>
    hr_status r = (if hr_code r = 200 then ''ok'' else ''degraded'') \<and>
    (if late = (\<lambda>_. True) then \<not> hr_db r \<and> \<not> hr_rpc r else True)"
proof -
  obtain a v where a: "checkDb late e w = (Inr a, v)"
    using reachable_total [of "withTimeout late (db_read (\<lambda>e d. 1 :: int))"] probe_alive(1) [OF assms]
    unfolding checkDb_def by blast
  obtain b u where b: "checkRpc late e v = (Inr b, u)"
    using reachable_total [of "withTimeout late (rpc_call getBlockNumber)"] probe_alive(2) [OF assms]
    unfolding checkRpc_def by blast
  have "\<not> a \<and> \<not> b" if "late = (\<lambda>_. True)"
    using a b that assms
    by (auto simp: checkDb_def checkRpc_def reachable_def withTimeout_def yield_def never_dies_def run_simps split: prod.splits)
  with a b show ?thesis by (simp add: health_ready_def run_simps Let_def)
qed

lemma health_reports_witness:
  "\<exists>r v. health_ready (\<lambda>_. True) calm_env w_ready = (Inr r, v) \<and> hr_code r = 503"
proof -
  have "never_dies calm_env" by (simp add: never_dies_def demo_rpc_def)
  from health_reports [OF this, of "\<lambda>_. True" w_ready] show ?thesis by auto
qed

section \<open>Configuration\<close>

text \<open>
  A configuration that passes the schema can be run with. The confirmation thresholds are positive
  and ordered, the stuck time positive, the number of retries not negative; the operator key is 64 hexadecimal
  digits with or without prefix, an escrow address that is set is not empty and has 42 characters, and the
  allowed origins are non-empty strings without commas.
\<close>

theorem config_valid:
  assumes "envValidationSchema j vars = Some s"
  shows "let c = app_config s in 1 \<le> confirmationsConfirmed c \<and> confirmationsConfirmed c \<le> confirmationsFinal c \<and>
    1 \<le> stuckTxSeconds c \<and> int (maxRetries c) = sMaxRetries s \<and>
    length (operatorPrivateKey s) \<in> {64, 66} \<and>
    (case dvpEscrowAddress c of None \<Rightarrow> vars ''DVP_ESCROW_ADDRESS'' = None | Some a \<Rightarrow> length a = 42) \<and>
    list_all (\<lambda>x. x \<noteq> [] \<and> CHR '','' \<notin> set x) (allowedOrigins s)"
proof -
  from assms have key: "private_key_ok (operatorPrivateKey s)"
    unfolding envValidationSchema_def bind_eq_Some_conv
    by (elim exE conjE) (auto simp: required_def split: option.splits if_splits)
  have "list_all (\<lambda>x. x \<noteq> [] \<and> CHR '','' \<notin> set x) (allowedOrigins s)"
    by (auto simp: list_all_iff allowedOrigins_def dest!: set_js_trim dest: split_on_no_sep)
  moreover have "length (operatorPrivateKey s) \<in> {64, 66}"
    using key by (auto simp: private_key_ok_def hex_string_def)
  moreover have "case sDvpEscrowAddress s of None \<Rightarrow> vars ''DVP_ESCROW_ADDRESS'' = None | Some a \<Rightarrow> length a = 42"
    using schema_vars [OF assms] by (cases "vars ''DVP_ESCROW_ADDRESS''")
      (auto simp: optional_def address_ok_def hex_string_def eq_commute [of _ "sDvpEscrowAddress s"] split: if_splits)
  ultimately show ?thesis using schema_confirmations [OF assms] by (simp add: app_config_def Let_def)
qed

definition demo_joi :: joi where
  "demo_joi = \<lparr>joi_number = (\<lambda>s. if s = ''7'' then Some 7 else None), joi_uri = (\<lambda>schemes s. s \<noteq> [])\<rparr>"

definition demo_vars :: env_vars where
  "demo_vars = map_of [(''OPERATOR_PRIVATE_KEY'', replicate 64 CHR ''a''), (''RPC_HTTP_URL'', ''http://n''),
     (''RPC_WSS_URL'', ''ws://n''), (''USDC_CONTRACT_ADDRESS'', ''0x'' @ replicate 40 CHR ''1''),
     (''DATABASE_URL'', ''postgres://d''), (''CONFIRMATIONS_FINAL'', ''7''), (''ALLOWED_ORIGIN'', ''http://a, http://b,'')]"

lemma config_valid_witness:
  "\<exists>s. envValidationSchema demo_joi demo_vars = Some s \<and> 1 \<le> confirmationsConfirmed (app_config s) \<and>
     confirmationsFinal (app_config s) = 7 \<and> allowedOrigins s = [''http://a'', ''http://b'']"
proof -
  obtain s where s: "envValidationSchema demo_joi demo_vars = Some s" "sConfirmationsFinal s = 7"
    "allowedOrigin s = ''http://a, http://b,''"
    by (simp add: envValidationSchema_def demo_joi_def demo_vars_def required_def optional_def int_var_def str_var_def
        private_key_ok_def address_ok_def hex_string_def hex_digit_def list_all_iff)
  have "allowedOrigins s = [''http://a'', ''http://b'']"
    unfolding allowedOrigins_def s(3) by code_simp
  with config_valid [OF s(1)] s show ?thesis by (auto simp: app_config_def Let_def)
qed

end
