(* ===== verification/Accounting.thy ===== *)
theory Accounting
  imports ReconSpec
begin

text \<open>
  The accounts of the rail beside the chain. The operator's account on the chain is its opening balance
  less the units of the accepted calls that were mined with success; \<open>books\<close> relates it to the rows and
  the ledger. The lemmas give the effect of each step of the database, and of the chain, on it.
\<close>

section \<open>The operator's account on the chain\<close>

text \<open>The calls the node accepted, with their hashes; the hashes the chain shows as successful.\<close>

definition accepted :: "(tx_request \<times> string option) list \<Rightarrow> (string \<times> int) list" where
  "accepted bl = concat (map (\<lambda>(rq, h). case h of Some x \<Rightarrow> [(x, rq_units rq)] | None \<Rightarrow> []) bl)"

lemma accepted_simps [simp]:
  "accepted [] = []" "accepted (bl @ bl') = accepted bl @ accepted bl'"
  "accepted [(rq, None)] = []" "accepted [(rq, Some h)] = [(h, rq_units rq)]"
  by (simp_all add: accepted_def)

definition success :: "(string \<Rightarrow> receipt option) \<Rightarrow> string \<Rightarrow> bool" where
  "success seen h \<longleftrightarrow> (case seen h of Some r \<Rightarrow> rc_status r = 1 | None \<Rightarrow> False)"

definition chain_units :: "(string \<Rightarrow> receipt option) \<Rightarrow> int \<Rightarrow> (string \<times> int) list \<Rightarrow> int" where
  "chain_units seen opening calls = opening - (\<Sum>(h, u) \<leftarrow> calls. if success seen h then u else 0)"

lemma mined_success: "mined seen s \<longleftrightarrow> (\<exists>h. txHash s = Some h \<and> h \<noteq> [] \<and> success seen h)"
  by (auto simp: mined_def success_def split: option.splits)

definition units_of :: "rat \<Rightarrow> int" where
  "units_of a = \<lfloor>a * 1000000\<rfloor>"

lemma units_of_micro: "micro a \<Longrightarrow> of_int (units_of a) = a * 1000000"
  by (auto simp: micro_def units_of_def)

section \<open>The accounts\<close>

text \<open>
  A settlement is in the ledger exactly when it is FINAL, and then its call was mined; an open one has
  been sent; one that failed has not been paid; before it is sent it has no hash.
\<close>

definition row_ok :: "(string \<Rightarrow> receipt option) \<Rightarrow> (string \<Rightarrow> bool) \<Rightarrow> settlement \<Rightarrow> bool" where
  "row_ok seen bk r \<longleftrightarrow> 0 \<le> amount r \<and> txHash r \<noteq> Some [] \<and>
     (if instructionId r = GENESIS_INSTRUCTION_ID then status r = FINAL \<and> txHash r = None \<and> \<not> bk (sid r)
      else (bk (sid r) \<longleftrightarrow> status r = FINAL) \<and>
        (status r \<in> {SUBMITTED, CONFIRMED} \<longrightarrow> txHash r \<noteq> None) \<and>
        (status r = FINAL \<longrightarrow> mined seen r) \<and> (status r = FAILED \<longrightarrow> \<not> mined seen r) \<and>
        (status r \<in> {RECEIVED, REJECTED_COMPLIANCE, COMPLIANCE_APPROVED} \<longrightarrow> txHash r = None))"

definition owed :: "settlement \<Rightarrow> bool" where
  "owed r \<longleftrightarrow> instructionId r \<noteq> GENESIS_INSTRUCTION_ID \<and> status r \<notin> {REJECTED_COMPLIANCE, FAILED}"

definition call_of :: "settlement \<Rightarrow> string \<times> int" where
  "call_of r = (the (txHash r), units_of (amount r))"

definition sent_calls :: "settlement multiset \<Rightarrow> (string \<times> int) multiset" where
  "sent_calls R = image_mset call_of (filter_mset (\<lambda>r. txHash r \<noteq> None) R)"

text \<open>
  The accepted calls are those whose hash a row holds, and some that were given up for a resend and
  never succeed. What is promised or paid does not exceed the opening balance.
\<close>

definition opened :: "rat \<Rightarrow> database \<Rightarrow> bool" where
  "opened op d \<longleftrightarrow> (\<exists>l. genesis_entry d = Some l \<and> le_amount l = op)"

lemma opened_opening: "opened op d \<Longrightarrow> opening_of d = op"
  by (auto simp: opened_def opening_of_def)

lemma opened_cong: "ledgerEntries d' = ledgerEntries d \<Longrightarrow> opened op d' = opened op d"
  by (simp add: opened_def genesis_entry_def)

definition books :: "rat \<Rightarrow> (string \<Rightarrow> receipt option) \<Rightarrow> (string \<times> int) list \<Rightarrow> database \<Rightarrow> bool" where
  "books op seen calls d \<longleftrightarrow> db_inv d \<and> opened op d \<and>
     GENESIS_INSTRUCTION_ID \<in> instructionId ` set (settlements d) \<and>
     (\<forall>r \<in> set (settlements d). row_ok seen (booked d) r) \<and>
     (\<Sum>r \<in># filter_mset owed (mset (settlements d)). amount r) \<le> op \<and>
     distinct (map fst calls) \<and>
     (\<exists>A. mset calls = sent_calls (mset (settlements d)) + A \<and> (\<forall>c \<in># A. \<not> success seen (fst c)))"

lemma booksD:
  assumes "books op seen calls d"
  shows "db_inv d" "opening_of d = op" "distinct (map sid (settlements d))" "ledger_wf d"
    "row d i = Some r \<Longrightarrow> row_ok seen (booked d) r" "row d i = Some r \<Longrightarrow> micro (amount r)"
    "r \<in> set (settlements d) \<Longrightarrow> row_ok seen (booked d) r" "r \<in> set (settlements d) \<Longrightarrow> micro (amount r)"
  using assms by (auto simp: books_def db_inv_def uniq_ok_def amounts_ok_def opened_opening dest: row_SomeD)

section \<open>What the accounts say\<close>

lemma booked_iff_final:
  assumes "db_inv d"
  shows "mset (bookings OPERATOR d) =
    image_mset (\<lambda>r. (sid r, amount r)) (filter_mset (\<lambda>r. booked d (sid r)) (mset (settlements d)))"
proof -
  let ?rows = "filter (\<lambda>r. booked d (sid r)) (settlements d)"
  have "distinct (map fst (bookings OPERATOR d))" using assms by (auto simp: db_inv_def ledger_wf_def)
  then have "distinct (bookings OPERATOR d)" by (rule distinct_map [THEN iffD1, THEN conjunct1])
  moreover have dist: "distinct (map sid (settlements d))" using assms by (simp add: db_inv_def uniq_ok_def)
  then have "distinct (map fst (map (\<lambda>r. (sid r, amount r)) ?rows))"
    by (simp add: comp_def distinct_map inj_on_def)
  then have "distinct (map (\<lambda>r. (sid r, amount r)) ?rows)" by (rule distinct_map [THEN iffD1, THEN conjunct1])
  moreover have "set (bookings OPERATOR d) = set (map (\<lambda>r. (sid r, amount r)) ?rows)"
  proof (intro set_eqI iffI)
    fix p
    assume p: "p \<in> set (bookings OPERATOR d)"
    with assms have "known_amount d (fst p) (snd p)" by (auto simp: db_inv_def bookings_ok_def)
    with p show "p \<in> set (map (\<lambda>r. (sid r, amount r)) ?rows)"
      by (force simp: known_amount_def booked_def)
  next
    fix p
    assume "p \<in> set (map (\<lambda>r. (sid r, amount r)) ?rows)"
    then obtain r where r: "r \<in> set (settlements d)" "booked d (sid r)" "p = (sid r, amount r)" by auto
    then obtain a where a: "(sid r, a) \<in> set (bookings OPERATOR d)" by (auto simp: booked_def)
    with assms have "known_amount d (sid r) a" by (auto simp: db_inv_def bookings_ok_def)
    then obtain r' where "r' \<in> set (settlements d)" "sid r' = sid r" "amount r' = a"
      by (auto simp: known_amount_def)
    with r(1) dist have "a = amount r" by (auto simp: distinct_map inj_on_def)
    with a r(3) show "p \<in> set (bookings OPERATOR d)" by simp
  qed
  ultimately have "mset (bookings OPERATOR d) = mset (map (\<lambda>r. (sid r, amount r)) ?rows)"
    by (subst set_eq_iff_mset_eq_distinct [symmetric])
  then show ?thesis by simp
qed

lemma operator_rows:
  assumes "db_inv d"
  shows "operator_balance d = opening_of d -
    (\<Sum>r \<in># filter_mset (\<lambda>r. booked d (sid r)) (mset (settlements d)). amount r)"
proof -
  have "sum_list (map snd (bookings OPERATOR d)) = sum_mset (image_mset snd (mset (bookings OPERATOR d)))"
    by (metis mset_map sum_mset_sum_list)
  then show ?thesis
    by (simp add: operator_balance_def booked_iff_final [OF assms] multiset.map_comp comp_def)
qed

text \<open>Two sums over disjoint kinds of rows.\<close>

lemma sum_rows_split:
  fixes f :: "'a \<Rightarrow> 'b::comm_monoid_add"
  assumes "\<And>r. r \<in># R \<Longrightarrow> P r \<longleftrightarrow> Q r \<or> S r" "\<And>r. r \<in># R \<Longrightarrow> \<not> (Q r \<and> S r)"
  shows "(\<Sum>r \<in># filter_mset P R. f r) = (\<Sum>r \<in># filter_mset Q R. f r) + (\<Sum>r \<in># filter_mset S R. f r)"
  using assms
proof (induction R)
  case (add x R)
  then have "P x \<longleftrightarrow> Q x \<or> S x" "\<not> (Q x \<and> S x)" by simp_all
  with add show ?case by (auto simp: ac_simps)
qed simp

lemma sum_filter_rows: "(\<Sum>r \<leftarrow> filter P rs. f r) = (\<Sum>r \<in># filter_mset P (mset rs). f r)"
  for f :: "'a \<Rightarrow> 'b::comm_monoid_add"
  by (induction rs) simp_all

lemma sum_in_rows: "sum_in d sts = (\<Sum>r \<in># filter_mset (\<lambda>r. status r \<in> set sts) (mset (settlements d)). amount r)"
  by (simp add: sum_in_sum_list by_statuses_def sum_filter_rows)

text \<open>The available balance is what is not owed.\<close>

lemma books_available:
  assumes "books op seen calls d"
  shows "available_of d = op - (\<Sum>r \<in># filter_mset owed (mset (settlements d)). amount r)"
proof -
  note b = booksD [OF assms]
  have "(\<Sum>r \<in># filter_mset owed (mset (settlements d)). amount r) =
    (\<Sum>r \<in># filter_mset (\<lambda>r. booked d (sid r)) (mset (settlements d)). amount r) +
    (\<Sum>r \<in># filter_mset (\<lambda>r. status r \<in> set IN_FLIGHT_STATUSES) (mset (settlements d)). amount r)"
  proof (rule sum_rows_split)
    fix r
    assume "r \<in># mset (settlements d)"
    then have r: "row_ok seen (booked d) r" using b(7) by simp
    then show "owed r \<longleftrightarrow> booked d (sid r) \<or> status r \<in> set IN_FLIGHT_STATUSES"
      by (cases "status r") (auto simp: row_ok_def owed_def IN_FLIGHT_STATUSES_def split: if_splits)
    from r show "\<not> (booked d (sid r) \<and> status r \<in> set IN_FLIGHT_STATUSES)"
      by (auto simp: row_ok_def IN_FLIGHT_STATUSES_def split: if_splits)
  qed
  then show ?thesis
    by (simp add: available_of_def operator_rows [OF b(1)] b(2) sum_in_rows)
qed

text \<open>The successful calls are those of the mined rows.\<close>

lemma books_paid:
  assumes "books op seen calls d"
  shows "of_int (\<Sum>(h, u) \<leftarrow> calls. if success seen h then u else 0) =
    1000000 * (\<Sum>r \<in># filter_mset (mined seen) (mset (settlements d)). amount r)"
proof -
  note b = booksD [OF assms]
  let ?f = "\<lambda>c. if success seen (fst c) then snd c else (0 :: int)"
  from assms obtain A where A: "mset calls = sent_calls (mset (settlements d)) + A"
    "\<And>c. c \<in># A \<Longrightarrow> \<not> success seen (fst c)" by (auto simp: books_def)
  have zero: "sum_mset (image_mset ?f B) = 0" if "\<And>c. c \<in># B \<Longrightarrow> \<not> success seen (fst c)" for B
    using that by (induction B) auto
  have "(\<Sum>(h, u) \<leftarrow> calls. if success seen h then u else 0) = sum_mset (image_mset ?f (mset calls))"
    by (simp add: case_prod_unfold flip: sum_mset_sum_list)
  also have "\<dots> = sum_mset (image_mset ?f (sent_calls (mset (settlements d))))"
    using zero [of A] A by simp
  finally have sum: "(\<Sum>(h, u) \<leftarrow> calls. if success seen h then u else 0) =
    sum_mset (image_mset ?f (sent_calls (mset (settlements d))))" .
  have rows: "of_int (sum_mset (image_mset ?f (sent_calls R))) =
      1000000 * (\<Sum>r \<in># filter_mset (mined seen) R. amount r)"
    if "\<And>r. r \<in># R \<Longrightarrow> row_ok seen (booked d) r \<and> micro (amount r)" for R
    using that
  proof (induction R)
    case (add r R)
    then have "row_ok seen (booked d) r" "micro (amount r)" by simp_all
    then have "of_int (sum_mset (image_mset ?f (sent_calls {#r#}))) =
        (if mined seen r then 1000000 * amount r else 0)"
      by (auto simp: sent_calls_def call_of_def mined_success row_ok_def units_of_micro)
    with add show ?case by (auto simp: sent_calls_def algebra_simps)
  qed (simp add: sent_calls_def)
  show ?thesis unfolding sum using b(7,8) by (intro rows) simp
qed

text \<open>
  Ledger and chain agree: the ledger's balance less what is mined but not final is the chain's balance.
\<close>

lemma books_agree:
  assumes "books (of_int opening / 1000000) seen calls d"
  shows "operator_balance d - mined_pending seen d = of_int (chain_units seen opening calls) / 1000000"
proof -
  note b = booksD [OF assms]
  have "(\<Sum>r \<in># filter_mset (mined seen) (mset (settlements d)). amount r) =
    (\<Sum>r \<in># filter_mset (\<lambda>r. booked d (sid r)) (mset (settlements d)). amount r) +
    (\<Sum>r \<in># filter_mset (\<lambda>r. status r \<in> set PENDING_STATUSES \<and> mined seen r) (mset (settlements d)). amount r)"
  proof (rule sum_rows_split)
    fix r
    assume "r \<in># mset (settlements d)"
    then have r: "row_ok seen (booked d) r" using b(7) by simp
    then show "mined seen r \<longleftrightarrow> booked d (sid r) \<or> status r \<in> set PENDING_STATUSES \<and> mined seen r"
      by (cases "status r") (auto simp: row_ok_def PENDING_STATUSES_def mined_success split: if_splits)
    from r show "\<not> (booked d (sid r) \<and> status r \<in> set PENDING_STATUSES \<and> mined seen r)"
      by (auto simp: row_ok_def PENDING_STATUSES_def split: if_splits)
  qed
  moreover have "mined_pending seen d =
    (\<Sum>r \<in># filter_mset (\<lambda>r. status r \<in> set PENDING_STATUSES \<and> mined seen r) (mset (settlements d)). amount r)"
    by (simp add: mined_pending_def by_statuses_def sum_filter_rows conj_commute)
  ultimately show ?thesis
    using books_paid [OF assms] by (simp add: chain_units_def operator_rows [OF b(1)] b(2) field_simps)
qed

section \<open>Steps\<close>

lemma upd_rows:
  assumes "distinct (map sid rs)" "cur \<in> set rs"
  obtains R where "mset rs = add_mset cur R"
    "mset (upd_where (\<lambda>r. sid r = sid cur) f rs) = add_mset (f cur) R" "set_mset R \<subseteq> set rs"
    "\<And>r. r \<in># R \<Longrightarrow> sid r \<noteq> sid cur"
proof -
  from assms have "\<exists>R. mset rs = add_mset cur R \<and>
      mset (upd_where (\<lambda>r. sid r = sid cur) f rs) = add_mset (f cur) R \<and> set_mset R \<subseteq> set rs \<and>
      (\<forall>r \<in># R. sid r \<noteq> sid cur)"
  proof (induction rs)
    case (Cons r rs)
    show ?case
    proof (cases "cur = r")
      case True
      with Cons.prems have "\<And>x. x \<in> set rs \<Longrightarrow> sid x \<noteq> sid r" by (auto simp: image_iff)
      with True show ?thesis by (intro exI [of _ "mset rs"]) (auto simp: upd_where_id)
    next
      case False
      with Cons obtain R where R: "mset rs = add_mset cur R"
        "mset (upd_where (\<lambda>r. sid r = sid cur) f rs) = add_mset (f cur) R" "set_mset R \<subseteq> set rs"
        "\<forall>r \<in># R. sid r \<noteq> sid cur" by auto
      have "sid r \<noteq> sid cur" using Cons.prems False by (auto simp: image_iff)
      with R show ?thesis by (intro exI [of _ "add_mset r R"]) auto
    qed
  qed simp
  with that show thesis by blast
qed

text \<open>A step that keeps the hash of a row, and one that stores the hash of a new call.\<close>

definition sends :: "(string \<Rightarrow> receipt option) \<Rightarrow> settlement \<Rightarrow> settlement \<Rightarrow> (string \<times> int) list
    \<Rightarrow> (string \<times> int) list \<Rightarrow> bool" where
  "sends seen cur nxt calls calls' \<longleftrightarrow> (txHash nxt = txHash cur \<and> calls' = calls) \<or>
     (\<exists>h. txHash nxt = Some h \<and> h \<notin> fst ` set calls \<and> calls' = calls @ [(h, units_of (amount cur))] \<and>
       (\<forall>h0. txHash cur = Some h0 \<longrightarrow> \<not> success seen h0))"

text \<open>A step of one row.\<close>

lemma books_row:
  assumes b: "books op seen calls d" and cur: "row d i = Some cur" and inv: "db_inv d'"
    and rows: "settlements d' = upd_where (\<lambda>r. sid r = sid cur) f (settlements d)"
    and key: "\<And>r. skey (f r) = skey r"
    and bk: "opened op d'" "\<And>j. j \<noteq> i \<Longrightarrow> booked d' j = booked d j"
    and ok: "row_ok seen (booked d') (f cur)" and less: "owed (f cur) \<Longrightarrow> owed cur"
    and sent: "sends seen cur (f cur) calls calls'"
  shows "books op seen calls' d'"
proof -
  note B = booksD [OF b]
  from cur have c: "cur \<in> set (settlements d)" "sid cur = i" by (auto dest: row_SomeD)
  from key [of cur] have k: "amount (f cur) = amount cur" by (simp add: skey_def)
  obtain R where R: "mset (settlements d) = add_mset cur R" "mset (settlements d') = add_mset (f cur) R"
    "set_mset R \<subseteq> set (settlements d)" "\<And>r. r \<in># R \<Longrightarrow> sid r \<noteq> i"
    using upd_rows [OF B(3) c(1), of f] c(2) unfolding rows by metis
  have gen: "instructionId ` set (settlements d') = instructionId ` set (settlements d)"
    unfolding rows by (metis (no_types, lifting) key map_upd_where_same set_map skey_def fst_conv snd_conv)
  have "row_ok seen (booked d') r" if "r \<in> set (settlements d')" for r
  proof -
    from that have "r = f cur \<or> r \<in># R" using R(2) by (metis insert_iff set_mset_add_mset_insert set_mset_mset)
    then show ?thesis
    proof
      assume "r \<in># R"
      with R(3,4) B(7) [of r] bk(2) [of "sid r"] show ?thesis by (auto simp: row_ok_def)
    qed (use ok in simp)
  qed
  moreover have "(\<Sum>r \<in># filter_mset owed (mset (settlements d')). amount r) \<le> op"
  proof -
    have "0 \<le> amount cur" using B(7) [OF c(1)] by (simp add: row_ok_def)
    then have "(\<Sum>r \<in># filter_mset owed (mset (settlements d')). amount r) \<le>
        (\<Sum>r \<in># filter_mset owed (mset (settlements d)). amount r)"
      using less k by (simp add: R(1,2))
    with b show ?thesis by (simp add: books_def)
  qed
  moreover have "\<exists>A. mset calls' = sent_calls (mset (settlements d')) + A \<and> (\<forall>c \<in># A. \<not> success seen (fst c))"
  proof -
    from b obtain A where A: "mset calls = sent_calls (mset (settlements d)) + A"
      "\<forall>c \<in># A. \<not> success seen (fst c)" by (auto simp: books_def)
    show ?thesis
    proof (cases "txHash (f cur) = txHash cur \<and> calls' = calls")
      case True
      with A k show ?thesis by (intro exI [of _ A]) (auto simp: R(1,2) sent_calls_def call_of_def)
    next
      case False
      with sent obtain h where h: "txHash (f cur) = Some h" "calls' = calls @ [(h, units_of (amount cur))]"
        "\<And>h0. txHash cur = Some h0 \<Longrightarrow> \<not> success seen h0" by (auto simp: sends_def)
      define old where "old = (if txHash cur = None then {#} else {#call_of cur#})"
      have "mset calls' = sent_calls (mset (settlements d')) + (old + A)"
        using h A(1) k by (auto simp: R(1,2) sent_calls_def call_of_def old_def)
      moreover have "\<forall>c \<in># old + A. \<not> success seen (fst c)"
        using A(2) h(3) by (auto simp: old_def call_of_def)
      ultimately show ?thesis by blast
    qed
  qed
  moreover have "distinct (map fst calls')" using b sent by (auto simp: books_def sends_def)
  ultimately show ?thesis
    using inv bk(1) b by (simp add: books_def gen)
qed

text \<open>A settlement beyond screening was approved.\<close>

lemma books_cleared:
  assumes "books op seen calls d" "row d i = Some cur" "status cur \<in> {COMPLIANCE_APPROVED, SUBMITTED, CONFIRMED}"
  shows "cleared d i"
proof -
  have "cur \<in> set (settlements d)" "sid cur = i" using assms(2) by (auto dest: row_SomeD)
  moreover have "screened_ok d" using assms(1) by (simp add: books_def db_inv_def)
  ultimately show ?thesis using assms(3) by (auto simp: screened_ok_def)
qed

text \<open>A change of status, but to FINAL.\<close>

lemma books_write:
  assumes b: "books op seen calls d" and cur: "row d i = Some cur"
    and tx: "transition_tx str t ev i to opts d = Inr (res, d')"
    and guard: "\<And>fs. expectedFrom opts = Some fs \<Longrightarrow> status cur \<in> set fs"
    and st: "to \<noteq> FINAL" "to = COMPLIANCE_APPROVED \<or> to = REJECTED_COMPLIANCE \<or>
      status cur \<in> {COMPLIANCE_APPROVED, SUBMITTED, CONFIRMED}"
    and ok: "row_ok seen (booked d) (apply_opts t to opts cur)"
      "owed (apply_opts t to opts cur) \<Longrightarrow> owed cur" "sends seen cur (apply_opts t to opts cur) calls calls'"
  shows "books op seen calls' d' \<and> row d' = (row d)(i \<mapsto> apply_opts t to opts cur)"
proof -
  note B = booksD [OF b]
  have o: "opened op d" using b by (simp add: books_def)
  have i: "sid cur = i" using cur by (auto dest: row_SomeD)
  have d': "d' = write_transition str t ev to opts cur d"
    using tx cur guard by (cases rule: transition_tx_cases) auto
  have led: "ledgerEntries d' = ledgerEntries d" by (simp add: d')
  have bk: "booked d' = booked d" by (rule ext) (rule booked_cong [OF led])
  have "db_inv d'"
    using st books_cleared [OF b cur] by (intro inv_transition [OF B(1) tx]) auto
  then have "books op seen calls' d'"
    using ok i
    by (intro books_row [OF b cur _ settlements_write_transition [of str t ev to opts cur d, folded d'] skey_apply_opts])
       (simp_all add: bk opened_cong [OF led] o)
  moreover have "row d' = (row d)(i \<mapsto> apply_opts t to opts cur)" using cur i by (auto simp: d' fun_eq_iff)
  ultimately show ?thesis by simp
qed

text \<open>The booking and the change to FINAL together.\<close>

lemma books_final:
  assumes b: "books op seen calls d" and cur: "row d i = Some cur"
    and st: "status cur \<in> {SUBMITTED, CONFIRMED}" and m: "mined seen cur"
    and d1: "d1 = d\<lparr>ledgerEntries := ledgerEntries d @ booking_pair t1 i (amount cur)\<rparr>"
    and tx: "transition_tx str t ev i FINAL opts d1 = Inr (res, d')"
    and guard: "\<And>fs. expectedFrom opts = Some fs \<Longrightarrow> status cur \<in> set fs"
    and h: "txHash (apply_opts t FINAL opts cur) = txHash cur"
  shows "books op seen calls d' \<and> row d' = (row d)(i \<mapsto> apply_opts t FINAL opts cur)"
proof -
  note B = booksD [OF b]
  have o: "opened op d" using b by (simp add: books_def)
  have i: "sid cur = i" and c: "cur \<in> set (settlements d)" using cur by (auto dest: row_SomeD)
  have cur1: "row d1 i = Some cur" using cur by (simp add: d1)
  have d': "d' = write_transition str t ev FINAL opts cur d1"
    using tx cur1 guard by (cases rule: transition_tx_cases) auto
  have led: "ledgerEntries d' = ledgerEntries d1" by (simp add: d')
  have ops: "bookings OPERATOR d' = bookings OPERATOR d @ [(i, amount cur)]"
    using B(6) [OF cur] by (simp add: bookings_cong [OF led] d1 bookings_pair dec6_fix)
  then have bk: "booked d' j \<longleftrightarrow> booked d j \<or> j = i" for j by (auto simp: booked_def)
  have nb: "\<not> booked d i" "instructionId cur \<noteq> GENESIS_INSTRUCTION_ID"
    using B(5) [OF cur] st i by (auto simp: row_ok_def split: if_splits)
  have "book_tx t1 i (amount cur) d = Inr ((), d1)"
    using B(4) nb(1) cur by (simp add: book_tx_eq ledger_wf_def d1)
  moreover have "known_amount d i (amount cur)" using c i by (auto simp: known_amount_def)
  moreover have cl: "cleared d i" using b cur st by (intro books_cleared) auto
  ultimately have "db_inv d1" using inv_book [OF B(1)] by blast
  moreover have "booked d1 i" using bk [of i] by (simp add: booked_cong [OF led, symmetric])
  moreover have "cleared d1 i" using cl by (simp add: d1 cleared_def)
  ultimately have inv: "db_inv d'" by (intro inv_transition [OF _ tx]) auto
  have "opened op d'"
    using o genesis_entry_pair by (simp add: opened_cong [OF led]) (simp add: d1 opened_def genesis_entry_pair)
  moreover have "row_ok seen (booked d') (apply_opts t FINAL opts cur)"
    using B(5) [OF cur] st m nb h bk i by (simp add: row_ok_def mined_success)
  moreover have "owed cur" using st nb by (auto simp: owed_def)
  moreover have "settlements d1 = settlements d" by (simp add: d1)
  ultimately have "books op seen calls d'"
    using inv bk h i settlements_write_transition [of str t ev FINAL opts cur d1, folded d']
    by (intro books_row [OF b cur inv _ skey_apply_opts]) (simp_all add: sends_def)
  moreover have "row d' = (row d)(i \<mapsto> apply_opts t FINAL opts cur)"
    using cur i by (auto simp: d' d1 fun_eq_iff)
  ultimately show ?thesis by simp
qed

text \<open>A resend: a call whose hash was not mined gives way to a new one.\<close>

lemma books_resend:
  assumes b: "books op seen calls d" and cur: "row d i = Some cur" "status cur \<in> {SUBMITTED, CONFIRMED}"
    and tx: "resend_tx t i h n d = Inr (r, d')" and new: "h \<noteq> []" "h \<notin> fst ` set calls"
    and old: "\<And>h0. txHash cur = Some h0 \<Longrightarrow> \<not> success seen h0"
  shows "books op seen (calls @ [(h, units_of (amount cur))]) d' \<and>
    row d' = (row d)(i \<mapsto> cur\<lparr>txHash := Some h, retryCount := n, updatedAt := t\<rparr>)"
proof -
  let ?f = "\<lambda>r. r\<lparr>txHash := Some h, retryCount := n, updatedAt := t\<rparr>"
  note B = booksD [OF b]
  have o: "opened op d" using b by (simp add: books_def)
  have i: "sid cur = i" using cur(1) by (auto dest: row_SomeD)
  have d': "d' = d\<lparr>settlements := upd_where (\<lambda>r. sid r = i) ?f (settlements d)\<rparr>"
    using tx by (cases rule: resend_tx_cases) simp
  then have led: "ledgerEntries d' = ledgerEntries d"
    and rows: "settlements d' = upd_where (\<lambda>r. sid r = sid cur) ?f (settlements d)" by (simp_all add: i)
  have key: "\<And>r. skey (?f r) = skey r" by (simp add: skey_def)
  have "row_ok seen (booked d') (?f cur)"
    using B(5) [OF cur(1)] cur(2) new(1) by (auto simp: booked_cong [OF led] fun_eq_iff row_ok_def split: if_splits)
  moreover have "owed (?f cur) \<Longrightarrow> owed cur" by (simp add: owed_def)
  moreover have "sends seen cur (?f cur) calls (calls @ [(h, units_of (amount cur))])"
    using new(2) old by (simp add: sends_def)
  ultimately have "books op seen (calls @ [(h, units_of (amount cur))]) d'"
    using inv_resend [OF B(1) tx] by (intro books_row [OF b cur(1) _ rows key]) (simp_all add: booked_cong [OF led] opened_cong [OF led] o)
  moreover have "row d' = (row d)(i \<mapsto> ?f cur)"
    using cur(1) by (auto simp: d' row_def fun_eq_iff find_upd_where_key find_upd_where_other)
  ultimately show ?thesis by simp
qed

text \<open>A new settlement within the available balance.\<close>

lemma books_create:
  assumes b: "books op seen calls d" and tx: "create_tx t new instr addr a (Some RECEIVED) d = Inr (r, d')"
    and a: "0 \<le> a" "micro a" "a \<le> available_of d"
  shows "books op seen calls d' \<and> row d' = (row d)(sid r \<mapsto> r) \<and> row d (sid r) = None \<and> status r = RECEIVED"
  using tx
proof (cases rule: create_tx_cases)
  case 1
  note B = booksD [OF b]
  have o: "opened op d" using b by (simp add: books_def)
  have led: "ledgerEntries d' = ledgerEntries d" by (simp add: 1(1))
  have "txHash r = None" using tx by (auto simp: create_tx_def Let_def split: if_splits)
  with 1(5) a(2) have r: "amount r = a" "txHash r = None" by (simp_all add: dec6_fix)
  have gen: "instr \<noteq> GENESIS_INSTRUCTION_ID" using b 1(8) by (auto simp: books_def)
  have nb: "\<not> booked d (sid r)"
  proof
    assume "booked d (sid r)"
    then obtain x where "(sid r, x) \<in> set (bookings OPERATOR d)" by (auto simp: booked_def)
    with B(1) have "known_amount d (sid r) x" by (auto simp: db_inv_def bookings_ok_def)
    with 1(2,7) show False by (auto simp: known_amount_def image_iff)
  qed
  have "row_ok seen (booked d') r"
    using 1(3,6) r a gen nb by (simp add: booked_cong [OF led] row_ok_def)
  moreover have "row_ok seen (booked d') x" if "x \<in> set (settlements d)" for x
    using B(7) [OF that] by (simp add: row_ok_def booked_cong [OF led])
  moreover have "(\<Sum>x \<in># filter_mset owed (mset (settlements d')). amount x) \<le> op"
    using books_available [OF b] a(1,3) r(1) by (simp add: 1(1))
  moreover have "sent_calls (mset (settlements d')) = sent_calls (mset (settlements d))"
    using r(2) by (simp add: 1(1) sent_calls_def)
  moreover have "db_inv d'" using inv_create [OF B(1) tx] by simp
  ultimately have "books op seen calls d'"
    using b by (simp add: books_def 1(1) opened_cong [OF led, unfolded 1(1)])
  moreover have "row d (sid r) = None" using 1(2,7) by (auto simp: row_def find_None_all image_iff)
  moreover have "row d' = (row d)(sid r \<mapsto> r)" using row_create [OF tx] 1(2) by (auto simp: fun_eq_iff)
  ultimately show ?thesis using 1(6) by simp
qed

text \<open>Steps on the other tables.\<close>

lemma books_frame:
  assumes "books op seen calls d" "db_inv d'" "settlements d' = settlements d" "ledgerEntries d' = ledgerEntries d"
  shows "books op seen calls d'"
  using assms by (simp add: books_def opened_cong [OF assms(4)] booked_cong [OF assms(4)] fun_eq_iff [of "booked d'"] row_ok_def)

text \<open>
  The chain moves on, by blocks or by a reorganisation. It keeps the transfers of FINAL settlements, and
  pays no call that the service has given up: one replaced by a resend, or of a FAILED settlement.
\<close>

definition chain_step :: "database \<Rightarrow> (string \<times> int) list \<Rightarrow> (string \<Rightarrow> receipt option) \<Rightarrow> (string \<Rightarrow> receipt option) \<Rightarrow> bool" where
  "chain_step d calls seen seen' \<longleftrightarrow>
     (\<forall>r \<in> set (settlements d). status r = FINAL \<longrightarrow> mined seen r \<longrightarrow> mined seen' r) \<and>
     (\<forall>h \<in> fst ` set calls. success seen' h \<longrightarrow> (\<exists>r \<in> set (settlements d). txHash r = Some h \<and> status r \<noteq> FAILED))"

lemma books_chain:
  assumes b: "books op seen calls d" and c: "chain_step d calls seen seen'"
  shows "books op seen' calls d"
proof -
  from b obtain A where A: "mset calls = sent_calls (mset (settlements d)) + A"
    "\<forall>c \<in># A. \<not> success seen (fst c)" by (auto simp: books_def)
  have dist: "distinct (map fst calls)" using b by (simp add: books_def)
  have "mset (map fst calls) = image_mset fst (sent_calls (mset (settlements d))) + image_mset fst A"
    by (simp add: A(1))
  with dist have one: "count (image_mset fst (sent_calls (mset (settlements d))) + image_mset fst A) h \<le> 1" for h
    by (metis distinct_count_atmost_1 le_refl zero_le_one)
  have held: "h \<in># image_mset fst (sent_calls (mset rs))" if "r \<in> set rs" "txHash r = Some h" for r h rs
    using that by (force simp: sent_calls_def call_of_def)
  have "\<not> success seen' (fst c)" if c': "c \<in># A" for c
  proof
    assume "success seen' (fst c)"
    moreover have "fst c \<in> fst ` set calls" using c' A(1) by (metis image_eqI set_mset_mset union_iff)
    ultimately obtain r where "r \<in> set (settlements d)" "txHash r = Some (fst c)" using c by (auto simp: chain_step_def)
    then have "fst c \<in># image_mset fst (sent_calls (mset (settlements d)))" by (rule held)
    moreover have "fst c \<in># image_mset fst A" using c' by simp
    ultimately show False
      using one [of "fst c"] unfolding count_greater_zero_iff [symmetric] count_union by linarith
  qed
  moreover have "row_ok seen' (booked d) r" if r: "r \<in> set (settlements d)" for r
  proof -
    have ok: "row_ok seen (booked d) r" by (rule booksD(7) [OF b r])
    have "\<not> mined seen' r" if "status r = FAILED"
    proof
      assume "mined seen' r"
      then obtain h where h: "txHash r = Some h" "success seen' h" by (auto simp: mined_success)
      have "h \<in> fst ` set calls"
        using held [OF r h(1)] A(1) by (metis (no_types, lifting) image_eqI in_image_mset set_mset_mset union_iff imageE)
      with c h obtain r' where r': "r' \<in> set (settlements d)" "txHash r' = Some h" "status r' \<noteq> FAILED"
        by (auto simp: chain_step_def)
      with that r obtain R where "mset (settlements d) = add_mset r (add_mset r' R)"
        by (metis add_mset_remove_trivial insert_DiffM2 insert_noteq_member set_mset_mset multi_member_split)
      with h(1) r'(2) have "2 \<le> count (image_mset fst (sent_calls (mset (settlements d)))) h"
        by (simp add: sent_calls_def call_of_def)
      with one [of h] show False by simp
    qed
    with ok r c show ?thesis by (auto simp: row_ok_def chain_step_def)
  qed
  ultimately show ?thesis using b A(1) by (auto simp: books_def)
qed

end
