(* ===== verification/Quiet.thy ===== *)
theory Quiet
  imports Io
begin

text \<open>
  A program logic for the runs of a handler that nothing interferes with. \<open>runs e P m Q X\<close>: started in a
  world with \<open>P\<close>, the handler either returns in a world with \<open>Q\<close> or throws in a world with \<open>X\<close>. Unlike
  the rely logic of \<open>Rely\<close> it speaks of the whole world, and of what holds between two awaits of one task.
\<close>

definition runs :: "env \<Rightarrow> (world \<Rightarrow> bool) \<Rightarrow> 'a io \<Rightarrow> ('a \<Rightarrow> world \<Rightarrow> bool) \<Rightarrow> (world \<Rightarrow> bool) \<Rightarrow> bool" where
  "runs e P m Q X \<longleftrightarrow> (\<forall>w. P w \<longrightarrow> (case m e w of (Inr a, v) \<Rightarrow> Q a v | (Inl x, v) \<Rightarrow> X v))"

text \<open>What a property of the world has to bear at an await: time passes.\<close>

definition steady :: "(world \<Rightarrow> bool) \<Rightarrow> bool" where
  "steady P \<longleftrightarrow> (\<forall>w k. P w \<longrightarrow> tick w \<le> k \<longrightarrow> P (w\<lparr>tick := k\<rparr>))"

named_theorems runs_intros \<comment> \<open>rules of the logic of quiet runs\<close>

lemma runsI: "(\<And>w. P w \<Longrightarrow> case m e w of (Inr a, v) \<Rightarrow> Q a v | (Inl x, v) \<Rightarrow> X v) \<Longrightarrow> runs e P m Q X"
  by (simp add: runs_def)

lemma runs_at: "runs e P m Q X \<Longrightarrow> P w \<Longrightarrow> (case m e w of (Inr a, v) \<Rightarrow> Q a v | (Inl x, v) \<Rightarrow> X v)"
  by (simp add: runs_def)

lemma runs_out:
  assumes "runs e P m Q X" "P w"
  obtains a v where "m e w = (Inr a, v)" "Q a v" | x v where "m e w = (Inl x, v)" "X v"
  using assms by (cases "m e w"; cases "fst (m e w)") (auto simp: runs_def)

lemma runsD: "runs e P m Q X \<Longrightarrow> P w \<Longrightarrow> (\<And>a v. Q a v \<Longrightarrow> Z v) \<Longrightarrow> (\<And>v. X v \<Longrightarrow> Z v) \<Longrightarrow> Z (snd (m e w))"
  by (erule runs_out) auto

lemma runs_conseq:
  "runs e P' m Q' X' \<Longrightarrow> (\<And>w. P w \<Longrightarrow> P' w) \<Longrightarrow> (\<And>a w. Q' a w \<Longrightarrow> Q a w) \<Longrightarrow> (\<And>w. X' w \<Longrightarrow> X w) \<Longrightarrow>
   runs e P m Q X"
  by (rule runsI, erule runs_out) auto

lemma runs_pre: "runs e P' m Q X \<Longrightarrow> (\<And>w. P w \<Longrightarrow> P' w) \<Longrightarrow> runs e P m Q X"
  by (simp add: runs_def)

text \<open>A precondition that does not depend on the world is a hypothesis.\<close>

lemma runs_assume: "(A \<Longrightarrow> runs e P m Q X) \<Longrightarrow> runs e (\<lambda>w. P w \<and> A) m Q X"
  by (simp add: runs_def)

lemma runs_known: "(\<And>w. P w \<Longrightarrow> A) \<Longrightarrow> (A \<Longrightarrow> runs e P m Q X) \<Longrightarrow> runs e P m Q X"
  by (cases "\<exists>w. P w") (auto simp: runs_def)

lemma runs_exists: "(\<And>x. runs e (P x) m Q X) \<Longrightarrow> runs e (\<lambda>w. \<exists>x. P x w) m Q X"
proof (rule runsI)
  fix w
  assume a: "\<And>x. runs e (P x) m Q X" "\<exists>x. P x w"
  then obtain x where "P x w" by blast
  with a(1) show "case m e w of (Inr a, v) \<Rightarrow> Q a v | (Inl x, v) \<Rightarrow> X v" by (rule runs_at)
qed

lemma runs_ret: "(\<And>w. P w \<Longrightarrow> Q x w) \<Longrightarrow> runs e P (ret x) Q X"
  by (simp add: runs_def run_simps)

lemma runs_throw: "(\<And>w. P w \<Longrightarrow> X w) \<Longrightarrow> runs e P (throw x) Q X"
  by (simp add: runs_def run_simps)

lemma runs_gets: "(\<And>w. P w \<Longrightarrow> Q (f e w) w) \<Longrightarrow> runs e P (gets f) Q X"
  by (simp add: runs_def run_simps)

lemma runs_modify: "(\<And>w. P w \<Longrightarrow> Q () (f w)) \<Longrightarrow> runs e P (modify f) Q X"
  by (simp add: runs_def run_simps)

lemma runs_await: "runs e P m R X \<Longrightarrow> (\<And>a. runs e (R a) (f a) Q X) \<Longrightarrow> runs e P (await m f) Q X"
proof (rule runsI)
  fix w
  assume a: "runs e P m R X" "\<And>a. runs e (R a) (f a) Q X" "P w"
  from a(1,3) show "case await m f e w of (Inr a, v) \<Rightarrow> Q a v | (Inl x, v) \<Rightarrow> X v"
  proof (cases rule: runs_out)
    case (1 x v)
    with a(2) [of x, THEN runs_at] show ?thesis by (simp add: run_simps)
  qed (simp add: run_simps)
qed

lemma runs_andThen: "runs e P m (\<lambda>_. R) X \<Longrightarrow> runs e R n Q X \<Longrightarrow> runs e P (andThen m n) Q X"
  unfolding andThen_def by (rule runs_await)

lemma runs_tryCatch:
  assumes "runs e P m Q Y" "\<And>x. runs e Y (h x) Q X" "\<And>w. Y w \<Longrightarrow> X w"
  shows "runs e P (tryCatch m h) Q X"
proof (rule runsI)
  fix w
  assume "P w"
  with assms(1) show "case tryCatch m h e w of (Inr a, v) \<Rightarrow> Q a v | (Inl x, v) \<Rightarrow> X v"
  proof (cases rule: runs_out)
    case (2 x v)
    with assms(2) [of x, THEN runs_at] assms(3) show ?thesis by (cases "x = Crash") (simp_all add: run_simps)
  qed (simp add: run_simps)
qed

lemma runs_tryFinally:
  assumes "runs e P m (\<lambda>a w. Q a (f w)) (\<lambda>w. X w \<and> X (f w))"
  shows "runs e P (tryFinally m f) Q X"
proof (rule runsI)
  fix w
  assume "P w"
  with assms show "case tryFinally m f e w of (Inr a, v) \<Rightarrow> Q a v | (Inl x, v) \<Rightarrow> X v"
    by (cases rule: runs_out) (auto simp: tryFinally_def)
qed

text \<open>A loop over the rows of a query, with what still holds of those to come.\<close>

lemma runs_for_each:
  assumes "\<And>x xs. runs e (I (x # xs)) (body x) (\<lambda>_. I xs) X"
  shows "runs e (I xs) (for_each xs body) (\<lambda>_. I []) X"
proof (induction xs)
  case Nil
  show ?case by (simp add: runs_def run_simps)
next
  case (Cons x xs)
  with assms show ?case by (auto intro: runs_andThen)
qed

section \<open>Awaits\<close>

lemma steadyD: "steady P \<Longrightarrow> P w \<Longrightarrow> tick w \<le> k \<Longrightarrow> P (w\<lparr>tick := k\<rparr>)"
  by (simp add: steady_def)

lemma steady_conj [intro]: "steady P \<Longrightarrow> steady Q \<Longrightarrow> steady (\<lambda>w. P w \<and> Q w)"
  by (simp add: steady_def)

lemma steady_const [simp, intro]: "steady (\<lambda>w. A)"
  by (simp add: steady_def)

lemma steady_db [simp, intro]: "steady (\<lambda>w. R (db w))"
  by (simp add: steady_def)

lemma runs_yield: "quiet e \<Longrightarrow> steady P \<Longrightarrow> runs e P yield (\<lambda>_. P) X"
  by (simp add: runs_def quiet_yield steadyD)

lemma runs_rpc:
  assumes "quiet e" "steady P"
  shows "runs e P (rpc_call f) (\<lambda>a w. P w \<and> (\<exists>k. f (rpc e k) = Inr a)) P"
  using assms by (auto simp: runs_def quiet_rpc_call split: sum.split intro: steadyD)

lemma runs_db_read:
  assumes "quiet e" "steady P"
  shows "runs e P (db_read f) (\<lambda>a w. P w \<and> a = f e (db w)) X"
  using assms by (auto simp: runs_def quiet_db_read intro: steadyD)

text \<open>A step of the database may be refused by its own checks; what it writes has to give \<open>Q\<close>.\<close>

lemma runs_db_tx:
  assumes "quiet e" "steady P"
    and "\<And>w a d. P w \<Longrightarrow> f e (tick w) (db w) = Inr (a, d) \<Longrightarrow> Q a (w\<lparr>db := d, tick := Suc (tick w)\<rparr>)"
    and "\<And>w. P w \<Longrightarrow> X w"
  shows "runs e P (db_tx f) Q X"
proof (rule runsI)
  fix w
  assume "P w"
  with assms(2) have p: "P (w\<lparr>tick := Suc (tick w)\<rparr>)" by (simp add: steadyD)
  show "case db_tx f e w of (Inr a, v) \<Rightarrow> Q a v | (Inl x, v) \<Rightarrow> X v"
  proof (cases "f e (Suc (tick w)) (db w)")
    case (Inl x)
    with assms(1,4) p show ?thesis by (simp add: quiet_db_tx)
  next
    case (Inr y)
    then show ?thesis using assms(1) assms(3) [OF p] by (cases y) (simp add: quiet_db_tx)
  qed
qed

text \<open>Reads of the node and of the database keep what is steady.\<close>

lemma runs_rpc_keep [runs_intros]: "quiet e \<Longrightarrow> steady P \<Longrightarrow> runs e P (rpc_call f) (\<lambda>_. P) P"
  by (rule runs_conseq [OF runs_rpc]) simp_all

lemma runs_db_read_keep [runs_intros]: "quiet e \<Longrightarrow> steady P \<Longrightarrow> runs e P (db_read f) (\<lambda>_. P) P"
  by (rule runs_conseq [OF runs_db_read]) simp_all

lemma runs_gets_keep [runs_intros]: "runs e P (gets f) (\<lambda>_. P) P"
  by (rule runs_gets)

lemma runs_ret_keep [runs_intros]: "runs e P (ret x) (\<lambda>_. P) P"
  by (rule runs_ret)

lemma runs_throw_keep [runs_intros]: "runs e P (throw x) (\<lambda>_. P) P"
  by (rule runs_throw)

lemma runs_yield_keep [runs_intros]: "quiet e \<Longrightarrow> steady P \<Longrightarrow> runs e P yield (\<lambda>_. P) P"
  by (rule runs_yield)

lemma runs_seq_keep [runs_intros]:
  "runs e P m (\<lambda>_. P) P \<Longrightarrow> (\<And>a. runs e P (f a) (\<lambda>_. P) P) \<Longrightarrow> runs e P (await m f) (\<lambda>_. P) P"
  "runs e P m (\<lambda>_. P) P \<Longrightarrow> runs e P n (\<lambda>_. P) P \<Longrightarrow> runs e P (andThen m n) (\<lambda>_. P) P"
  "runs e P m (\<lambda>_. P) P \<Longrightarrow> (\<And>x. runs e P (h x) (\<lambda>_. P) P) \<Longrightarrow> runs e P (tryCatch m h) (\<lambda>_. P) P"
proof -
  show "runs e P m (\<lambda>_. P) P \<Longrightarrow> (\<And>a. runs e P (f a) (\<lambda>_. P) P) \<Longrightarrow> runs e P (await m f) (\<lambda>_. P) P"
    by (rule runs_await)
  show "runs e P m (\<lambda>_. P) P \<Longrightarrow> runs e P n (\<lambda>_. P) P \<Longrightarrow> runs e P (andThen m n) (\<lambda>_. P) P"
    by (rule runs_andThen)
  show "runs e P m (\<lambda>_. P) P \<Longrightarrow> (\<And>x. runs e P (h x) (\<lambda>_. P) P) \<Longrightarrow> runs e P (tryCatch m h) (\<lambda>_. P) P"
    by (rule runs_tryCatch)
qed

lemma runs_if_keep [runs_intros]:
  "(b \<Longrightarrow> runs e P m Q X) \<Longrightarrow> (\<not> b \<Longrightarrow> runs e P n Q X) \<Longrightarrow> runs e P (if b then m else n) Q X"
  by simp

lemma runs_option [runs_intros]:
  "(x = None \<Longrightarrow> runs e P m Q X) \<Longrightarrow> (\<And>a. x = Some a \<Longrightarrow> runs e P (f a) Q X) \<Longrightarrow>
   runs e P (case x of None \<Rightarrow> m | Some a \<Rightarrow> f a) Q X"
  by (cases x) simp_all

text \<open>A step that changes neither the time nor anything \<open>P\<close> looks at.\<close>

lemma runs_local: "(\<And>w. P w \<Longrightarrow> P (snd (m e w))) \<Longrightarrow> runs e P m (\<lambda>_. P) P"
proof (rule runsI)
  fix w
  assume "\<And>w. P w \<Longrightarrow> P (snd (m e w))" "P w"
  then have "P (snd (m e w))" by blast
  then show "case m e w of (Inr a, v) \<Rightarrow> P v | (Inl x, v) \<Rightarrow> P v"
    by (cases "m e w"; cases "fst (m e w)") auto
qed

end
