(* ===== verification/AccountRuns.thy ===== *)
theory AccountRuns
  imports Accounting Quiet ListenerSpec
begin

text \<open>
  The handlers on an honest node keep the accounts. \<open>account\<close> is \<open>books\<close> on the world of the process,
  with what a task needs beside it: new keys and hashes, and a queue of approved settlements.
\<close>

section \<open>The account of the process\<close>

text \<open>The hashes the node is still to give are new.\<close>

definition fresh_hashes :: "env \<Rightarrow> nat \<Rightarrow> (string \<times> int) list \<Rightarrow> bool" where
  "fresh_hashes e n calls \<longleftrightarrow> (\<forall>k \<ge> n. \<forall>rq h. rpc_transfer (rpc e k) rq = Inr h \<longrightarrow> h \<notin> fst ` set calls)"

lemma fresh_hashes_later: "fresh_hashes e n calls \<Longrightarrow> n \<le> m \<Longrightarrow> fresh_hashes e m calls"
  unfolding fresh_hashes_def by (meson order_trans)

text \<open>
  The node tells the truth about receipts when it answers, gives each accepted call a hash of its own, and
  keys are drawn once. The libraries are exact, a query returns the rows in some order.
\<close>

definition honest :: "(string \<Rightarrow> receipt option) \<Rightarrow> env \<Rightarrow> bool" where
  "honest seen e \<longleftrightarrow> quiet e \<and> inj (uuid e) \<and> units_ok (lib e) \<and> dround_ok (lib e) \<and>
     (\<forall>xs. mset (scan e xs) = mset xs) \<and>
     (\<forall>k h r. getTransactionReceipt (rpc e k) h = Inr r \<longrightarrow> r = seen h) \<and>
     (\<forall>k rq h. rpc_transfer (rpc e k) rq = Inr h \<longrightarrow> h \<noteq> [] \<and>
       (\<forall>k' rq'. rpc_transfer (rpc e k') rq' = Inr h \<longrightarrow> k' = k))"

text \<open>\<open>past\<close> are the calls of earlier lives of the process; \<open>F\<close> are rows that stay as they are.\<close>

definition calls_of :: "(tx_request \<times> string option) list \<Rightarrow> world \<Rightarrow> (string \<times> int) list" where
  "calls_of past w = accepted (past @ broadcastLog w)"

definition queue_ok :: "world \<Rightarrow> bool" where
  "queue_ok w \<longleftrightarrow> distinct (queue w) \<and>
     (\<forall>i \<in> set (queue w). \<exists>r. row (db w) i = Some r \<and> status r = COMPLIANCE_APPROVED)"

definition account :: "env \<Rightarrow> rat \<Rightarrow> (string \<Rightarrow> receipt option) \<Rightarrow> (tx_request \<times> string option) list
    \<Rightarrow> (string \<rightharpoonup> settlement) \<Rightarrow> world \<Rightarrow> bool" where
  "account e op seen past F w \<longleftrightarrow> books op seen (calls_of past w) (db w) \<and> F \<subseteq>\<^sub>m row (db w) \<and> decimals w = 6 \<and>
     fresh_ids e w \<and> fresh_hashes e (tick w) (calls_of past w) \<and> queue_ok w"

lemma account_irrelevant [simp]:
  "account e op seen past F (w\<lparr>metrics := m\<rparr>) = account e op seen past F w"
  "account e op seen past F (w\<lparr>inflight := fl\<rparr>) = account e op seen past F w"
  "account e op seen past F (w\<lparr>localNonce := n\<rparr>) = account e op seen past F w"
  "account e op seen past F (w\<lparr>sleeps := sl\<rparr>) = account e op seen past F w"
  "account e op seen past F (w\<lparr>spawned := sp\<rparr>) = account e op seen past F w"
  "account e op seen past F (w\<lparr>published := pb\<rparr>) = account e op seen past F w"
  "account e op seen past F (w\<lparr>draining := b\<rparr>) = account e op seen past F w"
  "account e op seen past F (w\<lparr>workerRunning := b\<rparr>) = account e op seen past F w"
  "account e op seen past F (w\<lparr>sweepRunning := b\<rparr>) = account e op seen past F w"
  "account e op seen past F (w\<lparr>polling := b\<rparr>) = account e op seen past F w"
  "account e op seen past F (w\<lparr>relayRunning := b\<rparr>) = account e op seen past F w"
  by (simp_all add: account_def calls_of_def fresh_ids_def queue_ok_def)

lemma steady_account [simp, intro]: "steady (account e op seen past F)"
  unfolding steady_def
proof (intro allI impI)
  fix w k
  assume "account e op seen past F w" "tick w \<le> k"
  then show "account e op seen past F (w\<lparr>tick := k\<rparr>)"
    using fresh_later [of e w "w\<lparr>tick := k\<rparr>"] fresh_hashes_later [of e "tick w" "calls_of past w" k]
    by (simp add: account_def calls_of_def queue_ok_def)
qed

lemma steady_with [simp, intro]:
  "steady (\<lambda>w. account e op seen past F w \<and> R (db w) (queue w))"
  by (auto simp: steady_def dest: steadyD [OF steady_account])

lemma account_books: "account e op seen past F w \<Longrightarrow> books op seen (calls_of past w) (db w)"
  by (simp add: account_def)

lemma honest_hash:
  assumes "honest seen e" "rpc_transfer (rpc e k) rq = Inr h"
  shows "h \<noteq> []" "rpc_transfer (rpc e k') rq' = Inr h \<Longrightarrow> k' = k"
  using assms unfolding honest_def by blast+

lemma fresh_ids_write:
  assumes "honest seen e" "fresh_ids e w"
    and "set (map ob_id (outboxEvents d)) \<subseteq> insert (uuid e (tick w)) (set (map ob_id (outboxEvents (db w))))"
  shows "fresh_ids e (w\<lparr>db := d, tick := Suc (tick w)\<rparr>)"
  unfolding fresh_ids_def
proof (intro allI impI)
  fix k
  assume k: "tick (w\<lparr>db := d, tick := Suc (tick w)\<rparr>) \<le> k"
  then have "uuid e k \<noteq> uuid e (tick w)" using assms(1) by (auto simp: honest_def inj_eq)
  moreover have "uuid e k \<notin> set (map ob_id (outboxEvents (db w)))"
    using assms(2) k by (simp add: fresh_ids_def)
  ultimately show "uuid e k \<notin> set (map ob_id (outboxEvents (db (w\<lparr>db := d, tick := Suc (tick w)\<rparr>))))"
    using assms(3) by auto
qed

text \<open>A write of one row.\<close>

lemma account_write:
  assumes a: "account e op seen past F w" and "honest seen e"
    and b: "books op seen (calls_of past w) d" and row: "row d = (row (db w))(i \<mapsto> r)"
    and F: "F i = None" and q: "i \<notin> set (queue w)"
    and ids: "set (map ob_id (outboxEvents d)) \<subseteq> insert (uuid e (tick w)) (set (map ob_id (outboxEvents (db w))))"
  shows "account e op seen past F (w\<lparr>db := d, tick := Suc (tick w)\<rparr>)"
proof -
  have "fresh_ids e (w\<lparr>db := d, tick := Suc (tick w)\<rparr>)"
    using a by (intro fresh_ids_write [OF assms(2) _ ids]) (simp add: account_def)
  moreover have "F \<subseteq>\<^sub>m row d" using a F by (auto simp: account_def row map_le_def dom_def)
  moreover have "queue_ok (w\<lparr>db := d, tick := Suc (tick w)\<rparr>)" using a q by (auto simp: account_def queue_ok_def row)
  ultimately show ?thesis
    using a b fresh_hashes_later [of e "tick w" "calls_of past w" "Suc (tick w)"] by (simp add: account_def calls_of_def)
qed

lemma write_ids:
  "transition_tx str t ev i to opts d = Inr (res, d') \<Longrightarrow>
   set (map ob_id (outboxEvents d')) \<subseteq> insert ev (set (map ob_id (outboxEvents d)))"
  by (erule transition_tx_cases) (auto simp: write_transition_def Let_def split: option.splits)

text \<open>A change of status but to FINAL, that keeps the hash.\<close>

lemma runs_move:
  assumes h: "honest seen e" and F: "F i = None"
    and st: "to \<noteq> FINAL" "to = COMPLIANCE_APPROVED \<or> to = REJECTED_COMPLIANCE \<or>
      status s \<in> {COMPLIANCE_APPROVED, SUBMITTED, CONFIRMED}"
    and guard: "\<And>fs. expectedFrom opts = Some fs \<Longrightarrow> status s \<in> set fs"
    and keep: "\<And>t. txHash (apply_opts t to opts s) = txHash s"
    and ok: "\<And>bk t. row_ok seen bk s \<Longrightarrow> row_ok seen bk (apply_opts t to opts s)"
      "\<And>t. owed (apply_opts t to opts s) \<Longrightarrow> owed s"
  shows "runs e (\<lambda>w. account e op seen past F w \<and> row (db w) i = Some s \<and> i \<notin> set (queue w))
    (transition i to opts)
    (\<lambda>res w. account e op seen past F w \<and> i \<notin> set (queue w) \<and>
      (\<exists>t. res = Some (apply_opts t to opts s) \<and> row (db w) i = Some (apply_opts t to opts s)))
    (account e op seen past F)"
  unfolding transition_def
proof (rule runs_db_tx)
  show "quiet e" using h by (simp add: honest_def)
  show "steady (\<lambda>w. account e op seen past F w \<and> row (db w) i = Some s \<and> i \<notin> set (queue w))"
    by (rule steady_with)
next
  fix w res d'
  assume w: "account e op seen past F w \<and> row (db w) i = Some s \<and> i \<notin> set (queue w)"
    and tx: "transition_tx (decToString (lib e)) (now e (tick w)) (uuid e (tick w)) i to opts (db w) = Inr (res, d')"
  then have b: "books op seen (calls_of past w) (db w)" and row: "row (db w) i = Some s" by (simp_all add: account_def)
  have s: "row_ok seen (booked (db w)) s" by (rule booksD(5) [OF b row])
  have w': "books op seen (calls_of past w) d' \<and> row d' = (row (db w))(i \<mapsto> apply_opts (now e (tick w)) to opts s)"
    using st guard ok s keep by (intro books_write [OF b row tx]) (auto simp: sends_def)
  then have "account e op seen past F (w\<lparr>db := d', tick := Suc (tick w)\<rparr>)"
    using w F by (intro account_write [OF _ h _ _ _ _ write_ids [OF tx]]) auto
  moreover have "res = Some (apply_opts (now e (tick w)) to opts s)"
    using tx row guard by (cases rule: transition_tx_cases) auto
  ultimately show "account e op seen past F (w\<lparr>db := d', tick := Suc (tick w)\<rparr>) \<and>
      i \<notin> set (queue (w\<lparr>db := d', tick := Suc (tick w)\<rparr>)) \<and>
      (\<exists>t. res = Some (apply_opts t to opts s) \<and>
        row (db (w\<lparr>db := d', tick := Suc (tick w)\<rparr>)) i = Some (apply_opts t to opts s))"
    using w w' by (auto intro!: exI [of _ "now e (tick w)"])
qed simp

lemma open_not_queued:
  "account e op seen past F w \<Longrightarrow> row (db w) i = Some s \<Longrightarrow> open_status s \<Longrightarrow> i \<notin> set (queue w)"
  by (auto simp: account_def queue_ok_def open_status_def)

text \<open>A change of status of an open settlement.\<close>

lemma runs_open_move:
  assumes h: "honest seen e" and F: "F (sid s) = None" and s: "open_status s"
    and to: "to \<in> {SUBMITTED, CONFIRMED} \<or> to = FAILED \<and> \<not> mined seen s"
    and guard: "\<And>fs. expectedFrom opts = Some fs \<Longrightarrow> status s \<in> set fs"
    and keep: "o_txHash opts = None \<or> o_txHash opts = Some (txHash s)"
  shows "runs e (\<lambda>w. account e op seen past F w \<and> row (db w) (sid s) = Some s)
    (await (transition (sid s) to opts) (\<lambda>_. ret ())) (\<lambda>_. account e op seen past F) (account e op seen past F)"
proof (rule runs_await)
  have hash: "\<And>t. txHash (apply_opts t to opts s) = txHash s" using keep by (auto simp: apply_opts_def)
  show "runs e (\<lambda>w. account e op seen past F w \<and> row (db w) (sid s) = Some s) (transition (sid s) to opts)
    (\<lambda>_. account e op seen past F) (account e op seen past F)"
  proof (rule runs_conseq [OF runs_move [where i = "sid s" and F = F, OF h F]])
    show "row_ok seen bk s \<Longrightarrow> row_ok seen bk (apply_opts t to opts s)" for bk t
      using to s hash by (auto simp: row_ok_def open_status_def mined_success split: if_splits)
    show "owed (apply_opts t to opts s) \<Longrightarrow> owed s" for t using s by (auto simp: owed_def open_status_def)
    show "\<And>w. account e op seen past F w \<and> row (db w) (sid s) = Some s \<Longrightarrow>
        account e op seen past F w \<and> row (db w) (sid s) = Some s \<and> sid s \<notin> set (queue w)"
      using s open_not_queued by blast
    show "to \<noteq> FINAL" "to = COMPLIANCE_APPROVED \<or> to = REJECTED_COMPLIANCE \<or>
        status s \<in> {COMPLIANCE_APPROVED, SUBMITTED, CONFIRMED}" using to s by (auto simp: open_status_def)
  qed (use guard hash in auto)
qed (rule runs_ret)

section \<open>The listener\<close>

lemma runs_handleReorg:
  assumes h: "honest seen e" and F: "F (sid s) = None" and s: "open_status s" "status s = CONFIRMED"
  shows "runs e (\<lambda>w. account e op seen past F w \<and> row (db w) (sid s) = Some s) (handleReorg s)
    (\<lambda>_. account e op seen past F) (account e op seen past F)"
  unfolding handleReorg_def
  by (rule runs_andThen [OF runs_modify runs_open_move [where F = F and s = s, OF h F s(1)]]) (use s in auto)

text \<open>A row that is SUBMITTED has no effect of a reorg to undo.\<close>

lemma runs_reorg:
  assumes h: "honest seen e" and F: "F (sid s) = None" and s: "open_status s"
  shows "runs e (\<lambda>w. account e op seen past F w \<and> row (db w) (sid s) = Some s) (handleReorg s)
    (\<lambda>_. account e op seen past F) (account e op seen past F)"
proof (cases "status s = CONFIRMED")
  case True
  show ?thesis by (rule runs_handleReorg [where F = F and s = s, OF h F s True])
next
  case False
  with s have st: "status s = SUBMITTED" by (simp add: open_status_def)
  have q: "quiet e" using h by (simp add: honest_def)
  have tx: "transition_tx str t ev (sid s) SUBMITTED (no_opts\<lparr>expectedFrom := Some [CONFIRMED],
      o_confirmedBlockHash := Some None, o_confirmedBlockNumber := Some None\<rparr>) d = Inr (None, d)"
    if "row d (sid s) = Some s" for str t ev d
    using that st by (intro transition_tx_guarded [where cur = s and fs = "[CONFIRMED]"]) simp_all
  let ?P = "\<lambda>w. account e op seen past F w \<and> row (db w) (sid s) = Some s"
  have st: "steady ?P" using steady_with [of e op seen past F "\<lambda>d q. row d (sid s) = Some s"] by simp
  show ?thesis
    unfolding handleReorg_def transition_def
  proof (rule runs_andThen [where R = ?P, OF runs_modify])
    show "runs e ?P (await (db_tx (\<lambda>e n. transition_tx (decToString (lib e)) (now e n) (uuid e n) (sid s) SUBMITTED
        (no_opts\<lparr>expectedFrom := Some [CONFIRMED], o_confirmedBlockHash := Some None,
          o_confirmedBlockNumber := Some None\<rparr>))) (\<lambda>_. ret ()))
        (\<lambda>_. account e op seen past F) (account e op seen past F)"
      by (rule runs_await [OF runs_db_tx [where Q = "\<lambda>_. account e op seen past F", OF q st] runs_ret])
         (auto simp: tx intro: steadyD [OF steady_account])
  qed simp
qed

text \<open>\<open>finalize\<close> books and then moves the row.\<close>

lemma runs_finalize:
  assumes h: "honest seen e" and F: "F (sid s) = None" and s: "open_status s" "mined seen s"
  shows "runs e (\<lambda>w. account e op seen past F w \<and> row (db w) (sid s) = Some s) (finalize s rcpt)
    (\<lambda>_. account e op seen past F) (account e op seen past F)"
proof (rule runsI)
  fix w
  assume w: "account e op seen past F w \<and> row (db w) (sid s) = Some s"
  then have a: "account e op seen past F w" and row: "row (db w) (sid s) = Some s" by simp_all
  note B = booksD [OF account_books [OF a]]
  have q: "quiet e" using h by (simp add: honest_def)
  have open_s: "status s \<in> {SUBMITTED, CONFIRMED}" using s(1) by (auto simp: open_status_def)
  have nb: "\<not> booked (db w) (sid s)" using B(5) [OF row] open_s by (auto simp: row_ok_def split: if_splits)
  let ?d1 = "(db w)\<lparr>ledgerEntries := ledgerEntries (db w) @ booking_pair (now e (Suc (tick w))) (sid s) (amount s)\<rparr>"
  let ?n = "Suc (Suc (Suc (tick w)))"
  have book: "recordSettlementFinalized (sid s) (amount s) e w = (Inr True, w\<lparr>db := ?d1, tick := Suc (Suc (tick w))\<rparr>)"
    using quiet_book [OF q B(4), of "sid s"] row nb by simp
  have "fresh_ids e w" using a by (simp add: account_def)
  then have "uuid e ?n \<notin> set (map ob_id (outboxEvents ?d1))" by (simp add: fresh_ids_def)
  then have tx: "transition_tx (decToString (lib e)) (now e ?n) (uuid e ?n) (sid s) FINAL (final_opts s) ?d1 =
      Inr (Some (apply_opts (now e ?n) FINAL (final_opts s) s),
        write_transition (decToString (lib e)) (now e ?n) (uuid e ?n) FINAL (final_opts s) s ?d1)"
    using row open_s by (intro transition_tx_ok) (auto simp: final_opts_def)
  let ?d2 = "write_transition (decToString (lib e)) (now e ?n) (uuid e ?n) FINAL (final_opts s) s ?d1"
  have d2: "books op seen (calls_of past w) ?d2 \<and> row ?d2 = (row (db w))(sid s \<mapsto> apply_opts (now e ?n) FINAL (final_opts s) s)"
    using open_s by (intro books_final [OF account_books [OF a] row open_s s(2) refl tx])
      (auto simp: final_opts_def apply_opts_def)
  have later: "account e op seen past F (w\<lparr>tick := ?n\<rparr>)" by (rule steadyD [OF steady_account a]) simp
  have "account e op seen past F (w\<lparr>db := ?d2, tick := Suc ?n\<rparr>)"
    using account_write [OF later h, of ?d2 "sid s"] d2 F open_not_queued [OF a row s(1)] write_ids [OF tx]
    by (simp add: calls_of_def)
  moreover have "finalize s rcpt e w = (Inr (), w\<lparr>db := ?d2, tick := Suc ?n,
      metrics := (metrics w)\<lparr>m_gasWei := m_gasWei (metrics w) + rc_gasUsed rcpt * rc_gasPrice rcpt\<rparr>\<rparr>)"
    using tx by (simp add: finalize_def run_simps book final_opts_def [symmetric] quiet_transition [OF q])
  ultimately show "case finalize s rcpt e w of (Inr a, v) \<Rightarrow> account e op seen past F v
      | (Inl x, v) \<Rightarrow> account e op seen past F v"
    using account_irrelevant(1) by simp
qed

text \<open>The chain shows a success or a revert.\<close>

definition plain_receipts :: "(string \<Rightarrow> receipt option) \<Rightarrow> bool" where
  "plain_receipts seen \<longleftrightarrow> (\<forall>h r. seen h = Some r \<longrightarrow> rc_status r = 0 \<or> rc_status r = 1)"

text \<open>What \<open>processReceipt\<close> does with the answer of the node.\<close>

definition on_receipt :: "settlement \<Rightarrow> int \<Rightarrow> receipt option \<Rightarrow> unit io" where
  "on_receipt s block rcpt = (case rcpt of
     None \<Rightarrow> (case confirmedBlockHash s of Some b \<Rightarrow> if b = [] then ret () else handleReorg s | None \<Rightarrow> ret ())
   | Some r \<Rightarrow>
       if rc_status r = 0 then
         await (transition (sid s) FAILED (no_opts\<lparr>o_failureReason := Some (Some ''REVERTED_ONCHAIN''),
            expectedFrom := Some [SUBMITTED, CONFIRMED]\<rparr>)) (\<lambda>_. ret ())
       else if (case confirmedBlockHash s of Some b \<Rightarrow> b \<noteq> [] \<and> b \<noteq> rc_blockHash r | None \<Rightarrow> False)
       then handleReorg s
       else await (gets (\<lambda>e w. cfg e)) (\<lambda>c.
         let confirmations = block - rc_blockNumber r + 1 in
         if confirmationsFinal c \<le> confirmations then finalize s r
         else if confirmationsConfirmed c \<le> confirmations \<and> status s = SUBMITTED then
           await (transition (sid s) CONFIRMED (no_opts\<lparr>o_txHash := Some (txHash s),
              expectedFrom := Some [SUBMITTED],
              o_confirmedBlockHash := Some (Some (rc_blockHash r)),
              o_confirmedBlockNumber := Some (Some (rc_blockNumber r))\<rparr>)) (\<lambda>_. ret ())
         else ret ()))"

lemma processReceipt_on:
  "txHash s = Some x \<Longrightarrow> x \<noteq> [] \<Longrightarrow>
   processReceipt s block = await (rpc_call (\<lambda>r. getTransactionReceipt r x)) (on_receipt s block)"
  by (simp add: processReceipt_def on_receipt_def [abs_def])

lemma runs_on_receipt:
  assumes h: "honest seen e" "plain_receipts seen" and F: "F (sid s) = None" and s: "open_status s"
    and x: "txHash s = Some x" "x \<noteq> []"
  shows "runs e (\<lambda>w. account e op seen past F w \<and> row (db w) (sid s) = Some s) (on_receipt s block (seen x))
    (\<lambda>_. account e op seen past F) (account e op seen past F)"
proof -
  let ?P = "\<lambda>w. account e op seen past F w \<and> row (db w) (sid s) = Some s"
  have keep: "runs e ?P (ret ()) (\<lambda>_. account e op seen past F) (account e op seen past F)"
    by (rule runs_ret) simp
  note reorg = runs_reorg [where F = F and s = s and op = op and past = past, OF h(1) F s]
  show ?thesis
  proof (cases "seen x")
    case None
    then show ?thesis using keep reorg by (auto simp: on_receipt_def split: option.split)
  next
    case (Some r)
    have st: "rc_status r = 1" if "rc_status r \<noteq> 0" using h(2) Some that by (metis plain_receipts_def)
    have m: "mined seen s" if "rc_status r \<noteq> 0" using st [OF that] Some x by (simp add: mined_success success_def)
    have failed: "runs e ?P (await (transition (sid s) FAILED (no_opts\<lparr>o_failureReason :=
        Some (Some ''REVERTED_ONCHAIN''), expectedFrom := Some [SUBMITTED, CONFIRMED]\<rparr>)) (\<lambda>_. ret ()))
        (\<lambda>_. account e op seen past F) (account e op seen past F)" if "rc_status r = 0"
      using s that Some x
      by (intro runs_open_move [where F = F and s = s, OF h(1) F s])
         (auto simp: open_status_def mined_success success_def)
    have confirmed: "runs e ?P (await (transition (sid s) CONFIRMED (no_opts\<lparr>o_txHash := Some (txHash s),
        expectedFrom := Some [SUBMITTED], o_confirmedBlockHash := Some (Some (rc_blockHash r)),
        o_confirmedBlockNumber := Some (Some (rc_blockNumber r))\<rparr>)) (\<lambda>_. ret ()))
        (\<lambda>_. account e op seen past F) (account e op seen past F)" if "status s = SUBMITTED"
      using that by (intro runs_open_move [where F = F and s = s, OF h(1) F s]) auto
    have fin: "runs e ?P (finalize s r) (\<lambda>_. account e op seen past F) (account e op seen past F)"
      if "rc_status r \<noteq> 0" by (rule runs_finalize [where F = F and s = s, OF h(1) F s m [OF that]])
    show ?thesis
      unfolding on_receipt_def Some option.case Let_def
      by (intro runs_if_keep failed reorg runs_await [OF runs_gets [where Q = "\<lambda>_. ?P"]] fin keep confirmed) simp_all
  qed
qed

lemma runs_processReceipt:
  assumes h: "honest seen e" "plain_receipts seen" and F: "F (sid s) = None" and s: "open_status s"
  shows "runs e (\<lambda>w. account e op seen past F w \<and> row (db w) (sid s) = Some s) (processReceipt s block)
    (\<lambda>_. account e op seen past F) (account e op seen past F)"
proof (cases "txHash s = None \<or> txHash s = Some []")
  case True
  then show ?thesis by (auto simp: processReceipt_def intro: runs_ret)
next
  case False
  then obtain x where x: "txHash s = Some x" "x \<noteq> []" by auto
  let ?P = "\<lambda>w. account e op seen past F w \<and> row (db w) (sid s) = Some s"
  have st: "steady ?P" using steady_with [of e op seen past F "\<lambda>d q. row d (sid s) = Some s"] by simp
  have "runs e ?P (rpc_call (\<lambda>r. getTransactionReceipt r x)) (\<lambda>rcpt w. ?P w \<and> rcpt = seen x) (account e op seen past F)"
    by (rule runs_conseq [OF runs_rpc [OF _ st]]) (use h(1) in \<open>auto simp: honest_def\<close>)
  then show ?thesis
    unfolding processReceipt_on [OF x]
    by (rule runs_await, intro runs_assume)
       (simp add: runs_on_receipt [where F = F and s = s, OF h F s x])
qed

end
