(* ===== verification/AccountTasks.thy ===== *)
theory AccountTasks
  imports AccountRuns Surface
begin

text \<open>The tasks of the process on an honest node keep the accounts.\<close>

abbreviation acct :: "env \<Rightarrow> rat \<Rightarrow> (string \<Rightarrow> receipt option) \<Rightarrow> (tx_request \<times> string option) list \<Rightarrow> world \<Rightarrow> bool" where
  "acct e op seen past \<equiv> account e op seen past Map.empty"

section \<open>Loops over the rows of a query\<close>

definition rows_map :: "settlement list \<Rightarrow> (string \<rightharpoonup> settlement)" where
  "rows_map rows = map_of (map (\<lambda>s. (sid s, s)) rows)"

lemma rows_map_Nil [simp]: "rows_map [] = Map.empty"
  by (simp add: rows_map_def)

lemma account_weaken: "account e op seen past F w \<Longrightarrow> acct e op seen past w"
  by (simp add: account_def)

lemma account_frame: "account e op seen past F w \<longleftrightarrow> acct e op seen past w \<and> F \<subseteq>\<^sub>m row (db w)"
  by (auto simp: account_def)

lemma account_cons:
  assumes "sid s \<notin> sid ` set rows"
  shows "account e op seen past (rows_map (s # rows)) w \<Longrightarrow>
    account e op seen past (rows_map rows) w \<and> row (db w) (sid s) = Some s"
    "rows_map rows (sid s) = None"
proof -
  show none: "rows_map rows (sid s) = None" using assms by (auto simp: rows_map_def map_of_eq_None_iff)
  assume "account e op seen past (rows_map (s # rows)) w"
  then have "acct e op seen past w" and sub: "(rows_map rows)(sid s \<mapsto> s) \<subseteq>\<^sub>m row (db w)"
    by (simp_all add: account_frame [of e op seen past "rows_map (s # rows)"]) (simp add: rows_map_def)
  moreover have "rows_map rows \<subseteq>\<^sub>m row (db w)"
    using sub none by (auto simp: map_le_def dom_def split: if_splits)
  moreover have "row (db w) (sid s) = Some s" using sub by (auto simp: map_le_def)
  ultimately show "account e op seen past (rows_map rows) w \<and> row (db w) (sid s) = Some s"
    by (simp add: account_frame [of e op seen past "rows_map rows"])
qed

lemma rows_map_le:
  assumes "distinct (map sid (settlements d))" "set rows \<subseteq> set (settlements d)"
  shows "rows_map rows \<subseteq>\<^sub>m row d"
  using assms(2)
proof (induction rows)
  case (Cons s rows)
  then have "row d (sid s) = Some s" using assms(1) by (intro row_unique) simp_all
  with Cons show ?case by (auto simp: rows_map_def map_le_def)
qed simp

lemma runs_findByStatuses:
  assumes h: "honest seen e"
  shows "runs e (acct e op seen past) (findByStatuses sts)
    (\<lambda>rows w. account e op seen past (rows_map rows) w \<and> (distinct (map sid rows) \<and> (\<forall>s \<in> set rows. status s \<in> set sts)))
    (acct e op seen past)"
  unfolding findByStatuses_def
proof (rule runs_conseq [OF runs_db_read])
  show "quiet e" using h by (simp add: honest_def)
next
  fix rows w
  assume w: "acct e op seen past w \<and> rows = scan e (by_statuses (db w) sts)"
  have m: "mset rows = mset (by_statuses (db w) sts)" using h w by (simp add: honest_def)
  then have rows: "set rows = set (by_statuses (db w) sts)" by (rule mset_eq_setD)
  have "mset (map sid rows) = mset (map sid (by_statuses (db w) sts))" using m by simp
  moreover have dist: "distinct (map sid (settlements (db w)))"
    using w booksD(3) [OF account_books] by blast
  ultimately have "distinct (map sid rows)"
    by (metis by_statuses_def distinct_map_filter mset_eq_imp_distinct_iff)
  moreover have "rows_map rows \<subseteq>\<^sub>m row (db w)"
    using rows by (intro rows_map_le [OF dist]) (auto simp: by_statuses_def)
  ultimately show "account e op seen past (rows_map rows) w \<and>
      (distinct (map sid rows) \<and> (\<forall>s \<in> set rows. status s \<in> set sts))"
    using w rows account_frame [of e op seen past "rows_map rows" w] by (auto simp: by_statuses_def)
qed simp_all

lemma runs_rows:
  assumes body: "\<And>F s. F (sid s) = None \<Longrightarrow> status s \<in> set sts \<Longrightarrow>
      runs e (\<lambda>w. account e op seen past F w \<and> row (db w) (sid s) = Some s) (body s)
        (\<lambda>_. account e op seen past F) (acct e op seen past)"
    and rows: "distinct (map sid rows)" "\<And>s. s \<in> set rows \<Longrightarrow> status s \<in> set sts"
  shows "runs e (account e op seen past (rows_map rows)) (for_each rows body) (\<lambda>_. acct e op seen past)
    (acct e op seen past)"
  using rows
proof (induction rows)
  case Nil
  show ?case by (auto intro: runs_ret)
next
  case (Cons s rows)
  from Cons.prems(1) have new: "sid s \<notin> sid ` set rows" by simp
  have "runs e (account e op seen past (rows_map (s # rows))) (body s)
      (\<lambda>_. account e op seen past (rows_map rows)) (acct e op seen past)"
    using account_cons [OF new] Cons.prems(2) [of s]
    by (intro runs_pre [OF body [where F = "rows_map rows" and s = s]]) simp_all
  moreover have "runs e (account e op seen past (rows_map rows)) (for_each rows body) (\<lambda>_. acct e op seen past)
      (acct e op seen past)" using Cons.prems by (intro Cons.IH) simp_all
  ultimately show ?case by (auto intro: runs_andThen)
qed

section \<open>The listener\<close>

lemma runs_receipt_row:
  assumes "honest seen e" "plain_receipts seen" "F (sid s) = None" "status s \<in> set [SUBMITTED, CONFIRMED]"
  shows "runs e (\<lambda>w. account e op seen past F w \<and> row (db w) (sid s) = Some s) (processReceipt s block)
    (\<lambda>_. account e op seen past F) (acct e op seen past)"
proof (rule runs_conseq [OF runs_processReceipt [where F = F and s = s, OF assms(1-3)]])
  show "open_status s" using assms(4) by (auto simp: open_status_def)
qed (auto dest: account_weaken)

lemma runs_poll:
  assumes h: "honest seen e" "plain_receipts seen"
  shows "runs e (acct e op seen past) pollConfirmations (\<lambda>_. acct e op seen past) (acct e op seen past)"
proof -
  have q: "quiet e" using h(1) by (simp add: honest_def)
  let ?A = "acct e op seen past"
  have "runs e ?A (await (findByStatuses [SUBMITTED, CONFIRMED]) (\<lambda>open_rows.
      if open_rows = [] then ret ()
      else await getCurrentBlock (\<lambda>currentBlock. for_each open_rows (\<lambda>s. processReceipt s currentBlock))))
      (\<lambda>_. ?A) ?A"
  proof (rule runs_await [OF runs_findByStatuses [OF h(1)]], rule runs_assume)
    fix rows :: "settlement list"
    assume rows: "distinct (map sid rows) \<and> (\<forall>s \<in> set rows. status s \<in> set [SUBMITTED, CONFIRMED])"
    have block: "runs e (account e op seen past (rows_map rows)) getCurrentBlock
        (\<lambda>_. account e op seen past (rows_map rows)) ?A"
      unfolding getCurrentBlock_def
      by (rule runs_conseq [OF runs_rpc_keep [OF q steady_account [of e op seen past "rows_map rows"]]])
         (auto dest: account_weaken)
    have loop: "runs e (account e op seen past (rows_map rows)) (for_each rows (\<lambda>s. processReceipt s b)) (\<lambda>_. ?A) ?A" for b
      using rows by (intro runs_rows [OF runs_receipt_row [OF h]]) blast+
    show "runs e (account e op seen past (rows_map rows)) (if rows = [] then ret () else await getCurrentBlock
        (\<lambda>currentBlock. for_each rows (\<lambda>s. processReceipt s currentBlock))) (\<lambda>_. ?A) ?A"
      by (intro runs_if_keep runs_await [OF block loop]) (auto intro: runs_ret dest: account_weaken)
  qed
  then have body: "runs e ?A (tryCatch (await (findByStatuses [SUBMITTED, CONFIRMED]) (\<lambda>open_rows.
      if open_rows = [] then ret ()
      else await getCurrentBlock (\<lambda>currentBlock. for_each open_rows (\<lambda>s. processReceipt s currentBlock))))
      (\<lambda>err. ret ())) (\<lambda>_. ?A) ?A" by (rule runs_tryCatch) (auto intro: runs_ret)
  show ?thesis
    unfolding pollConfirmations_def
    by (rule runs_await [OF runs_gets_keep], intro runs_if_keep runs_ret_keep,
        rule runs_andThen [OF runs_modify [where Q = "\<lambda>_. ?A"] runs_tryFinally [OF runs_conseq [OF body]]]) simp_all
qed

lemma runs_byTxHash:
  assumes h: "honest seen e" "plain_receipts seen"
  shows "runs e (acct e op seen past) (processByTxHash x) (\<lambda>_. acct e op seen past) (acct e op seen past)"
  unfolding processByTxHash_def findByTxHash_def
proof (rule runs_await)
  have q: "quiet e" using h(1) by (simp add: honest_def)
  let ?A = "acct e op seen past"
  let ?R = "\<lambda>found w. ?A w \<and> (\<forall>s. found = Some s \<longrightarrow> row (db w) (sid s) = Some s)"
  show "runs e ?A (db_read (\<lambda>e d. case scan e (filter (\<lambda>r. txHash r = Some x) (settlements d)) of
      [] \<Rightarrow> None | r # _ \<Rightarrow> Some r)) ?R ?A"
  proof (rule runs_conseq [OF runs_db_read [OF q steady_account]])
    fix found w
    assume w: "?A w \<and> found = (case scan e (filter (\<lambda>r. txHash r = Some x) (settlements (db w))) of
      [] \<Rightarrow> None | r # _ \<Rightarrow> Some r)"
    have "row (db w) (sid s) = Some s" if "found = Some s" for s
    proof -
      have "s \<in> set (scan e (filter (\<lambda>r. txHash r = Some x) (settlements (db w))))"
        using w that by (auto split: list.splits)
      moreover have "mset (scan e (filter (\<lambda>r. txHash r = Some x) (settlements (db w)))) =
        mset (filter (\<lambda>r. txHash r = Some x) (settlements (db w)))" using h(1) by (simp add: honest_def)
      ultimately have "s \<in> set (settlements (db w))" by (metis filter_is_subset mset_eq_setD subsetD)
      then show ?thesis using w booksD(3) [OF account_books] by (intro row_unique) blast+
    qed
    with w show "?R found w" by simp
  qed simp_all
  fix found
  show "runs e (?R found) (case found of None \<Rightarrow> ret () | Some s \<Rightarrow>
       if status s \<noteq> SUBMITTED \<and> status s \<noteq> CONFIRMED then ret ()
       else await getCurrentBlock (\<lambda>currentBlock. processReceipt s currentBlock)) (\<lambda>_. ?A) ?A"
  proof (cases found)
    case None
    then show ?thesis by (auto intro: runs_ret)
  next
    case (Some s)
    have st: "steady (?R found)" using Some steady_with [of e op seen past Map.empty "\<lambda>d q. row d (sid s) = Some s"] by simp
    have block: "runs e (?R found) getCurrentBlock (\<lambda>_. ?R found) ?A"
      unfolding getCurrentBlock_def by (rule runs_conseq [OF runs_rpc_keep [OF q st]]) simp_all
    have "runs e (?R found) (processReceipt s b) (\<lambda>_. ?A) ?A" if "\<not> (status s \<noteq> SUBMITTED \<and> status s \<noteq> CONFIRMED)" for b
      using that by (intro runs_pre [OF runs_receipt_row [OF h, of Map.empty s]]) (auto simp: Some)
    then show ?thesis unfolding Some option.case by (intro runs_if_keep runs_await [OF block [unfolded Some]]) (auto intro: runs_ret simp: Some)
  qed
qed

end
