(* ===== verification/AccountSends.thy ===== *)
theory AccountSends
  imports AccountTasks
begin

text \<open>Sending keeps the accounts: the worker's jobs and the resends of the sweep.\<close>

section \<open>Units\<close>

lemma books_bound:
  assumes "books op seen calls d" "row d i = Some r" "owed r"
  shows "0 \<le> amount r \<and> amount r \<le> op"
proof -
  from assms(2) have r: "r \<in> set (settlements d)" by (auto dest: row_SomeD)
  have nonneg: "0 \<le> amount x" if "x \<in> set (settlements d)" for x
    using booksD(7) [OF assms(1) that] by (simp add: row_ok_def)
  from r assms(3) have "r \<in># filter_mset owed (mset (settlements d))" by simp
  then obtain R where R: "filter_mset owed (mset (settlements d)) = add_mset r R"
    by (blast dest: multi_member_split)
  have "\<And>x. x \<in># R \<Longrightarrow> 0 \<le> amount x"
  proof -
    fix x
    assume "x \<in># R"
    then have "x \<in># filter_mset owed (mset (settlements d))" by (simp add: R)
    then show "0 \<le> amount x" by (intro nonneg) simp
  qed
  then have "0 \<le> (\<Sum>x \<in># R. amount x)" by (induction R) auto
  with assms(1) R nonneg [OF r] show ?thesis by (simp add: books_def)
qed

lemma units_exact:
  assumes "units_ok l" "micro a" "0 \<le> a" "a < 100000000000000"
  shows "parseUnits l (decToString l a) 6 = Inr (units_of a)"
proof -
  from assms(2) obtain n :: int where n: "a = of_int n / 1000000" by (auto simp: micro_def)
  with assms(3,4) have "0 \<le> n" "of_int n < (of_int 100000000000000000000 :: rat)" by simp_all
  then have "\<bar>n\<bar> < 10 ^ (21 + 6)" by (simp only: of_int_less_iff) simp
  then have "parseUnits l (decToString l (of_int n / 10 ^ 6)) 6 = Inr n"
    using assms(1) unfolding units_ok_def by (metis order_refl)
  moreover have "units_of a = n" by (simp add: n units_of_def)
  ultimately show ?thesis by (simp add: n)
qed

section \<open>A call and its record\<close>

text \<open>A settlement to be sent, and one whose accepted call is not yet in its row.\<close>

definition ready :: "env \<Rightarrow> rat \<Rightarrow> (string \<Rightarrow> receipt option) \<Rightarrow> (tx_request \<times> string option) list
    \<Rightarrow> (string \<rightharpoonup> settlement) \<Rightarrow> settlement \<Rightarrow> world \<Rightarrow> bool" where
  "ready e op seen past F s w \<longleftrightarrow> account e op seen past F w \<and> row (db w) (sid s) = Some s \<and> sid s \<notin> set (queue w)"

definition unsaved :: "env \<Rightarrow> rat \<Rightarrow> (string \<Rightarrow> receipt option) \<Rightarrow> (tx_request \<times> string option) list
    \<Rightarrow> (string \<rightharpoonup> settlement) \<Rightarrow> settlement \<Rightarrow> string \<Rightarrow> world \<Rightarrow> bool" where
  "unsaved e op seen past F s h w \<longleftrightarrow> (\<exists>bl rq. broadcastLog w = bl @ [(rq, Some h)] \<and>
     rq_units rq = units_of (amount s) \<and> ready e op seen past F s (w\<lparr>broadcastLog := bl\<rparr>) \<and> h \<noteq> [] \<and>
     h \<notin> fst ` set (accepted (past @ bl)) \<and> fresh_hashes e (tick w) (calls_of past w))"

lemma ready_irrelevant [simp]:
  "ready e op seen past F s (w\<lparr>metrics := m\<rparr>) = ready e op seen past F s w"
  "ready e op seen past F s (w\<lparr>inflight := fl\<rparr>) = ready e op seen past F s w"
  "ready e op seen past F s (w\<lparr>localNonce := n\<rparr>) = ready e op seen past F s w"
  "ready e op seen past F s (w\<lparr>sleeps := sl\<rparr>) = ready e op seen past F s w"
  by (simp_all add: ready_def)

lemma unsaved_irrelevant [simp]:
  "unsaved e op seen past F s h (w\<lparr>inflight := fl\<rparr>) = unsaved e op seen past F s h w"
  "unsaved e op seen past F s h (w\<lparr>localNonce := n\<rparr>) = unsaved e op seen past F s h w"
  by (simp_all add: unsaved_def ready_def account_def calls_of_def fresh_ids_def queue_ok_def)

lemma steady_ready [simp, intro]: "steady (ready e op seen past F s)"
  unfolding ready_def [abs_def] by (rule steady_with)

lemma ready_account: "ready e op seen past F s w \<Longrightarrow> account e op seen past F w"
  by (simp add: ready_def)

lemma runs_broadcast:
  assumes h: "honest seen e" and u: "units = units_of (amount s)"
  shows "runs e (ready e op seen past F s) (broadcast to units n g f) (unsaved e op seen past F s)
    (ready e op seen past F s)"
proof (rule runsI)
  fix w
  assume r: "ready e op seen past F s w"
  have q: "quiet e" using h by (simp add: honest_def)
  let ?rq = "request_of to units n g f"
  let ?t = "Suc (Suc (tick w))"
  have later: "ready e op seen past F s (w\<lparr>tick := k\<rparr>)" if "tick w \<le> k" for k
    by (rule steadyD [OF steady_ready r that])
  show "case broadcast to units n g f e w of (Inr h, v) \<Rightarrow> unsaved e op seen past F s h v
      | (Inl x, v) \<Rightarrow> ready e op seen past F s v"
  proof (cases "rpc_transfer (rpc e ?t) ?rq")
    case (Inl x)
    have "ready e op seen past F s (w\<lparr>broadcastLog := broadcastLog w @ [(?rq, None)], tick := ?t\<rparr>)"
      using later [of ?t] by (simp add: ready_def account_def calls_of_def fresh_ids_def queue_ok_def)
    with Inl show ?thesis by (simp add: quiet_broadcast [OF q])
  next
    case (Inr x)
    let ?v = "w\<lparr>broadcastLog := broadcastLog w @ [(?rq, Some x)],
      metrics := (metrics w)\<lparr>m_broadcasts := Suc (m_broadcasts (metrics w))\<rparr>, tick := Suc ?t\<rparr>"
    have fresh: "fresh_hashes e (tick w) (calls_of past w)" using r by (simp add: ready_def account_def)
    have "x \<noteq> []" and uniq: "\<And>k' rq'. rpc_transfer (rpc e k') rq' = Inr x \<Longrightarrow> k' = ?t"
      using honest_hash [OF h Inr] by blast+
    moreover have "x \<notin> fst ` set (calls_of past w)" using fresh [unfolded fresh_hashes_def, rule_format, OF _ Inr] by simp
    moreover have "fresh_hashes e (Suc ?t) (calls_of past ?v)"
      unfolding fresh_hashes_def
    proof (intro allI impI)
      fix k rq y
      assume k: "Suc ?t \<le> k" "rpc_transfer (rpc e k) rq = Inr y"
      then have "y \<noteq> x" using uniq [of k rq] by auto
      moreover have "y \<notin> fst ` set (calls_of past w)" using fresh [unfolded fresh_hashes_def, rule_format, OF _ k(2)] k(1) by simp
      ultimately show "y \<notin> fst ` set (calls_of past ?v)" by (auto simp: calls_of_def)
    qed
    moreover have "ready e op seen past F s (?v\<lparr>broadcastLog := broadcastLog w\<rparr>)"
      using later [of "Suc ?t"] by (simp add: ready_def account_def calls_of_def fresh_ids_def queue_ok_def)
    ultimately have "unsaved e op seen past F s x ?v"
      using u unfolding unsaved_def
      by (intro exI [of _ "broadcastLog w"] exI [of _ ?rq]) (simp add: request_of_def calls_of_def)
    with Inr show ?thesis by (simp add: quiet_broadcast [OF q])
  qed
qed

text \<open>The write of the hash makes the accounts whole again.\<close>

lemma account_save:
  assumes "unsaved e op seen past F s h w" "honest seen e" "F (sid s) = None"
    and "\<And>calls. books op seen calls (db w) \<Longrightarrow> h \<notin> fst ` set calls \<Longrightarrow> h \<noteq> [] \<Longrightarrow>
      books op seen (calls @ [(h, units_of (amount s))]) d \<and> row d = (row (db w))(sid s \<mapsto> r)"
    and "set (map ob_id (outboxEvents d)) \<subseteq> insert (uuid e (tick w)) (set (map ob_id (outboxEvents (db w))))"
  shows "account e op seen past F (w\<lparr>db := d, tick := Suc (tick w)\<rparr>)"
proof -
  from assms(1) obtain bl rq where bl: "broadcastLog w = bl @ [(rq, Some h)]" "rq_units rq = units_of (amount s)"
    "ready e op seen past F s (w\<lparr>broadcastLog := bl\<rparr>)" "h \<noteq> []" "h \<notin> fst ` set (accepted (past @ bl))"
    "fresh_hashes e (tick w) (calls_of past w)" unfolding unsaved_def by blast
  then have b: "books op seen (accepted (past @ bl)) (db w)" by (simp add: ready_def account_def calls_of_def)
  have calls: "calls_of past w = accepted (past @ bl) @ [(h, units_of (amount s))]"
    using bl(1,2) by (simp add: calls_of_def)
  from assms(4) [OF b bl(5,4)] have d: "books op seen (calls_of past w) d" "row d = (row (db w))(sid s \<mapsto> r)"
    unfolding calls by simp_all
  let ?w = "w\<lparr>broadcastLog := bl\<rparr>"
  have a: "account e op seen past F ?w" "sid s \<notin> set (queue w)" using bl(3) by (simp_all add: ready_def)
  have "fresh_ids e (w\<lparr>db := d, tick := Suc (tick w)\<rparr>)"
    using fresh_ids_write [OF assms(2) _ assms(5)] a(1) by (simp add: account_def fresh_ids_def)
  moreover have "F \<subseteq>\<^sub>m row d" using a assms(3) by (auto simp: account_def d(2) map_le_def dom_def)
  moreover have "queue_ok (w\<lparr>db := d, tick := Suc (tick w)\<rparr>)" using a by (auto simp: account_def queue_ok_def d(2))
  moreover have "fresh_hashes e (Suc (tick w)) (calls_of past w)" using bl(6) by (rule fresh_hashes_later) simp
  ultimately show ?thesis using a d(1) by (simp add: account_def calls_of_def)
qed

lemma steady_unsaved [simp, intro]: "steady (unsaved e op seen past F s h)"
  unfolding steady_def
proof (intro allI impI)
  fix w k
  assume u: "unsaved e op seen past F s h w" and k: "tick w \<le> k"
  then obtain bl rq where bl: "broadcastLog w = bl @ [(rq, Some h)]" "rq_units rq = units_of (amount s)"
    "ready e op seen past F s (w\<lparr>broadcastLog := bl\<rparr>)" "h \<noteq> []" "h \<notin> fst ` set (accepted (past @ bl))"
    "fresh_hashes e (tick w) (calls_of past w)" unfolding unsaved_def by blast
  have swap: "w\<lparr>tick := k, broadcastLog := bl\<rparr> = w\<lparr>broadcastLog := bl, tick := k\<rparr>" by simp
  have "ready e op seen past F s (w\<lparr>tick := k, broadcastLog := bl\<rparr>)"
    unfolding swap by (rule steadyD [OF steady_ready bl(3)]) (simp add: k)
  with bl k fresh_hashes_later [OF bl(6) k] show "unsaved e op seen past F s h (w\<lparr>tick := k\<rparr>)"
    unfolding unsaved_def by (intro exI [of _ bl] exI [of _ rq]) (simp add: calls_of_def)
qed

lemma unsaved_row: "unsaved e op seen past F s h w \<Longrightarrow> row (db w) (sid s) = Some s \<and> fresh_ids e w"
  by (auto simp: unsaved_def ready_def account_def fresh_ids_def)

lemma runs_save:
  assumes h: "honest seen e" and F: "F (sid s) = None" and s: "status s = COMPLIANCE_APPROVED"
  shows "runs e (unsaved e op seen past F s x) (transition (sid s) SUBMITTED (sent_opts x n k))
    (\<lambda>_. account e op seen past F) X"
proof (rule runsI)
  fix w
  assume u: "unsaved e op seen past F s x w"
  have q: "quiet e" using h by (simp add: honest_def)
  let ?w = "w\<lparr>tick := Suc (tick w)\<rparr>"
  have u': "unsaved e op seen past F s x ?w" by (rule steadyD [OF steady_unsaved u]) simp
  note row = unsaved_row [OF u', THEN conjunct1] and ids = unsaved_row [OF u', THEN conjunct2]
  let ?tx = "transition_tx (decToString (lib e)) (now e (Suc (tick w))) (uuid e (Suc (tick w))) (sid s) SUBMITTED
      (sent_opts x n k) (db w)"
  let ?r = "apply_opts (now e (Suc (tick w))) SUBMITTED (sent_opts x n k) s"
  have "\<exists>d. ?tx = Inr (Some ?r, d)"
    using row ids by (subst transition_tx_ok [where cur = s]) (auto simp: sent_opts_def fresh_ids_def)
  then obtain d where tx: "?tx = Inr (Some ?r, d)" by blast
  have "account e op seen past F (?w\<lparr>db := d, tick := Suc (tick ?w)\<rparr>)"
  proof (rule account_save [OF u' h F])
    fix calls
    assume b: "books op seen calls (db ?w)" "x \<notin> fst ` set calls" "x \<noteq> []"
    then have "row_ok seen (booked (db w)) s" using booksD(5) [OF b(1) row] by simp
    then have none: "txHash s = None" "instructionId s \<noteq> GENESIS_INSTRUCTION_ID" "0 \<le> amount s" "\<not> booked (db w) (sid s)"
      using s by (auto simp: row_ok_def split: if_splits)
    then show "books op seen (calls @ [(x, units_of (amount s))]) d \<and> row d = (row (db ?w))(sid s \<mapsto> ?r)"
      using b row s tx
      by (intro books_write) (auto simp: sent_opts_def apply_opts_def row_ok_def owed_def sends_def)
  next
    show "set (map ob_id (outboxEvents d)) \<subseteq> insert (uuid e (tick ?w)) (set (map ob_id (outboxEvents (db ?w))))"
      using write_ids [OF tx] by simp
  qed
  with tx show "case transition (sid s) SUBMITTED (sent_opts x n k) e w of (Inr a, v) \<Rightarrow> account e op seen past F v
      | (Inl y, v) \<Rightarrow> X v"
    by (simp add: quiet_transition [OF q])
qed

section \<open>The worker\<close>

lemma runs_send_once:
  assumes h: "honest seen e" and F: "F (sid s) = None" and s: "status s = COMPLIANCE_APPROVED"
    and u: "units = units_of (amount s)"
  shows "runs e (ready e op seen past F s) (send_once s isResume units g n f k)
    (\<lambda>_. account e op seen past F) (ready e op seen past F s)"
  unfolding send_once_def
proof (rule runs_await)
  show "runs e (ready e op seen past F s) (broadcast (toAddress s) units n g f) (unsaved e op seen past F s)
      (ready e op seen past F s)"
    by (rule runs_broadcast [OF h u])
  fix x
  let ?U = "unsaved e op seen past F s x"
  have "runs e ?U (track (sid s) n g f k) (\<lambda>_. ?U) (ready e op seen past F s)"
    unfolding track_def by (rule runs_await [OF runs_gets [where Q = "\<lambda>_. ?U"] runs_modify]) simp_all
  moreover have "runs e ?U (modify (\<lambda>w. if \<not> isResume \<and> n = localNonce w then w\<lparr>localNonce := localNonce w + 1\<rparr> else w))
      (\<lambda>_. ?U) (ready e op seen past F s)" by (rule runs_modify) simp
  moreover have "runs e ?U (await (transition (sid s) SUBMITTED (sent_opts x n k)) (\<lambda>_. ret ()))
      (\<lambda>_. account e op seen past F) (ready e op seen past F s)"
    by (rule runs_await [OF runs_save [where F = F and s = s, OF h F s]]) (rule runs_ret)
  ultimately show "runs e ?U (andThen (modify (\<lambda>w. if \<not> isResume \<and> n = localNonce w
        then w\<lparr>localNonce := localNonce w + 1\<rparr> else w)) (andThen (track (sid s) n g f k)
      (await (transition (sid s) SUBMITTED (no_opts\<lparr>o_txHash := Some (Some x), o_nonce := Some (Some n),
        o_retryCount := Some k\<rparr>)) (\<lambda>_. ret ())))) (\<lambda>_. account e op seen past F) (ready e op seen past F s)"
    unfolding sent_opts_def by (intro runs_andThen)
qed

lemma runs_fail:
  assumes h: "honest seen e" and F: "F (sid s) = None"
    and s: "status s \<in> {COMPLIANCE_APPROVED, SUBMITTED, CONFIRMED}" "\<not> mined seen s"
  shows "runs e (ready e op seen past F s) (fail (sid s) why k) (\<lambda>_. account e op seen past F) (account e op seen past F)"
  unfolding fail_def
proof (rule runs_andThen [OF runs_modify [where Q = "\<lambda>_. ready e op seen past F s"] runs_await])
  show "runs e (ready e op seen past F s) (transition (sid s) FAILED (no_opts\<lparr>o_failureReason := Some (Some why),
      o_retryCount := Some k\<rparr>)) (\<lambda>_. account e op seen past F) (account e op seen past F)"
    by (rule runs_conseq [OF runs_move [where i = "sid s" and F = F and s = s, OF h F]])
       (use s in \<open>auto simp: ready_def row_ok_def owed_def apply_opts_def mined_success split: if_splits\<close>)
qed (auto simp: forget_def intro: runs_ret)

lemma runs_resync:
  assumes "quiet e"
  shows "runs e (ready e op seen past F s) (resync needed isResume n) (\<lambda>_. ready e op seen past F s)
    (ready e op seen past F s)"
  unfolding resync_def
  by (intro runs_if_keep runs_seq_keep runs_ret_keep runs_rpc_keep [OF assms] steady_ready runs_modify) simp

lemma runs_sleep:
  assumes "quiet e"
  shows "runs e (ready e op seen past F s) (sleep ms) (\<lambda>_. ready e op seen past F s) (ready e op seen past F s)"
  unfolding sleep_def
  by (intro runs_seq_keep runs_yield_keep [OF assms] steady_ready runs_modify) simp

lemma runs_sendLoop:
  assumes h: "honest seen e" and F: "F (sid s) = None" and s: "status s = COMPLIANCE_APPROVED" "txHash s = None"
    and u: "units = units_of (amount s)"
  shows "runs e (ready e op seen past F s) (sendLoop s isResume units g maxR attempt n f k)
    (\<lambda>_. account e op seen past F) (account e op seen past F)"
proof (induction "Suc maxR - k" arbitrary: attempt n f k rule: less_induct)
  case less
  have q: "quiet e" using h by (simp add: honest_def)
  let ?R = "ready e op seen past F s" and ?A = "account e op seen past F"
  have bad: "runs e ?R (fail (sid s) why k') (\<lambda>_. ?A) ?A" for why k'
    by (rule runs_fail [where F = F and s = s, OF h F]) (use s in \<open>auto simp: mined_success\<close>)
  have retry: "runs e ?R (await (resync needed isResume n) (\<lambda>n'. andThen (sleep ms)
      (sendLoop s isResume units g maxR (attempt + 1) n' f' (k + 1)))) (\<lambda>_. ?A) ?A"
    if "\<not> maxR < k + 1" for needed f' ms
  proof -
    from that have "Suc maxR - (k + 1) < Suc maxR - k" by linarith
    note ih = less.hyps [OF this]
    have weak: "\<And>w. ?R w \<Longrightarrow> ?A w" by (rule ready_account)
    show ?thesis
      by (rule runs_await [OF runs_conseq [OF runs_resync [OF q, of op seen past F s]]
            runs_andThen [OF runs_conseq [OF runs_sleep [OF q, of op seen past F s]] ih]])
         (use weak in auto)
  qed
  show ?case
    by (subst sendLoop.simps, unfold Let_def)
       (intro runs_tryCatch [OF runs_send_once [where F = F and s = s, OF h F s(1) u]] runs_if_keep bad retry
         ready_account)
qed

lemma runs_toBaseUnits:
  assumes h: "honest seen e" and small: "op < 100000000000000" and s: "owed s"
  shows "runs e (ready e op seen past F s) (toBaseUnits (amount s))
    (\<lambda>u w. ready e op seen past F s w \<and> u = units_of (amount s)) X"
proof (rule runsI)
  fix w
  assume r: "ready e op seen past F s w"
  then have b: "books op seen (calls_of past w) (db w)" "row (db w) (sid s) = Some s" "decimals w = 6"
    by (simp_all add: ready_def account_def)
  have "parseUnits (lib e) (decToString (lib e) (amount s)) 6 = Inr (units_of (amount s))"
    using books_bound [OF b(1,2) s] booksD(6) [OF b(1,2)] small h by (intro units_exact) (auto simp: honest_def)
  with r b(3) show "case toBaseUnits (amount s) e w of (Inr u, v) \<Rightarrow> ready e op seen past F s v \<and> u = units_of (amount s)
      | (Inl x, v) \<Rightarrow> X v" by (simp add: toBaseUnits_def)
qed

lemma runs_estimateGas:
  "quiet e \<Longrightarrow> steady P \<Longrightarrow> runs e P (estimateGas to units) (\<lambda>_. P) P"
  unfolding estimateGas_def by (intro runs_seq_keep runs_rpc_keep runs_ret_keep)

lemma runs_buildFees: "quiet e \<Longrightarrow> steady P \<Longrightarrow> runs e P buildFees (\<lambda>_. P) P"
  unfolding buildFees_def one_gwei_def
  by (intro runs_seq_keep runs_rpc_keep runs_ret_keep runs_option) (auto intro: runs_ret_keep runs_local)

lemma runs_processJob:
  assumes h: "honest seen e" and small: "op < 100000000000000"
  shows "runs e (\<lambda>w. acct e op seen past w \<and> (\<exists>r. row (db w) i = Some r \<and> status r = COMPLIANCE_APPROVED) \<and> i \<notin> set (queue w))
    (processJob i) (\<lambda>_. acct e op seen past) (acct e op seen past)"
  unfolding processJob_def findById_def
proof (rule runs_await)
  have q: "quiet e" using h by (simp add: honest_def)
  let ?P = "\<lambda>w. acct e op seen past w \<and> (\<exists>r. row (db w) i = Some r \<and> status r = COMPLIANCE_APPROVED) \<and> i \<notin> set (queue w)"
  let ?G = "\<lambda>s. sid s = i \<and> status s = COMPLIANCE_APPROVED \<and> txHash s = None \<and> owed s"
  have st: "steady ?P"
    using steady_with [of e op seen past Map.empty "\<lambda>d q. (\<exists>r. row d i = Some r \<and> status r = COMPLIANCE_APPROVED) \<and> i \<notin> set q"]
    by simp
  show "runs e ?P (db_read (\<lambda>e d. row d i))
    (\<lambda>found w. \<exists>s. found = Some s \<and> ready e op seen past Map.empty s w \<and> ?G s) (acct e op seen past)"
  proof (rule runs_conseq [OF runs_db_read [OF q st]])
    fix found w
    assume w: "?P w \<and> found = row (db w) i"
    then obtain s where s: "found = Some s" "row (db w) i = Some s" "status s = COMPLIANCE_APPROVED" by auto
    then have "row_ok seen (booked (db w)) s" using w booksD(5) [OF account_books] by blast
    with s(3) have "txHash s = None" "owed s" by (auto simp: row_ok_def owed_def split: if_splits)
    moreover have "sid s = i" using s(2) by (auto dest: row_SomeD)
    ultimately show "\<exists>s. found = Some s \<and> ready e op seen past Map.empty s w \<and> ?G s"
      using w s by (auto simp: ready_def)
  qed simp_all
  fix found
  show "runs e (\<lambda>w. \<exists>s. found = Some s \<and> ready e op seen past Map.empty s w \<and> ?G s)
    (case found of None \<Rightarrow> ret ()
     | Some s \<Rightarrow> if status s \<noteq> COMPLIANCE_APPROVED \<and> status s \<noteq> SUBMITTED then ret ()
       else await (gets (\<lambda>e w. case (is_resume s, nonce s) of (True, Some n) \<Rightarrow> n | _ \<Rightarrow> localNonce w))
         (\<lambda>n. await (toBaseUnits (amount s)) (\<lambda>units. await (estimateGas (toAddress s) units) (\<lambda>gasLimit.
           await buildFees (\<lambda>f. await (gets (\<lambda>e w. maxRetries (cfg e))) (\<lambda>maxR.
             sendLoop s (is_resume s) units gasLimit maxR 0 n f (retryCount s)))))))
    (\<lambda>_. acct e op seen past) (acct e op seen past)"
  proof (cases found)
    case None
    then show ?thesis by (auto intro: runs_ret)
  next
    case (Some s)
    let ?R = "ready e op seen past Map.empty s" and ?A = "acct e op seen past"
    have weak: "\<And>w. ?R w \<Longrightarrow> ?A w" by (rule ready_account)
    have "runs e ?R (await (gets (\<lambda>e w. case (is_resume s, nonce s) of (True, Some n) \<Rightarrow> n | _ \<Rightarrow> localNonce w))
         (\<lambda>n. await (toBaseUnits (amount s)) (\<lambda>units. await (estimateGas (toAddress s) units) (\<lambda>gasLimit.
           await buildFees (\<lambda>f. await (gets (\<lambda>e w. maxRetries (cfg e))) (\<lambda>maxR.
             sendLoop s (is_resume s) units gasLimit maxR 0 n f (retryCount s))))))) (\<lambda>_. ?A) ?A" if g: "?G s"
    proof (rule runs_await [OF runs_gets [where Q = "\<lambda>_. ?R"] runs_await [OF runs_toBaseUnits [where s = s, OF h small] runs_assume]])
      fix units
      assume u: "units = units_of (amount s)"
      have est: "runs e ?R (estimateGas (toAddress s) units) (\<lambda>_. ?R) ?A"
        by (rule runs_conseq [OF runs_estimateGas [OF q steady_ready [of e op seen past Map.empty s]]]) (use weak in auto)
      have fees: "runs e ?R buildFees (\<lambda>_. ?R) ?A"
        by (rule runs_conseq [OF runs_buildFees [OF q steady_ready [of e op seen past Map.empty s]]]) (use weak in auto)
      have loop: "runs e ?R (sendLoop s (is_resume s) units gl maxR 0 n f k) (\<lambda>_. ?A) ?A" for gl maxR n f k
        using g by (intro runs_sendLoop [OF h _ _ _ u]) simp_all
      show "runs e ?R (await (estimateGas (toAddress s) units) (\<lambda>gasLimit. await buildFees (\<lambda>f.
          await (gets (\<lambda>e w. maxRetries (cfg e))) (\<lambda>maxR.
            sendLoop s (is_resume s) units gasLimit maxR 0 n f (retryCount s))))) (\<lambda>_. ?A) ?A" for n
        by (rule runs_await [OF est runs_await [OF fees runs_await [OF runs_gets [where Q = "\<lambda>_. ?R"] loop]]])
    qed (use g in simp_all)
    note job = this
    show ?thesis
      unfolding Some option.case
    proof (rule runs_pre [OF runs_assume, OF runs_if_keep])
      show "?G s \<Longrightarrow> status s \<noteq> COMPLIANCE_APPROVED \<and> status s \<noteq> SUBMITTED \<Longrightarrow>
          runs e ?R (ret ()) (\<lambda>_. ?A) ?A" by simp
    qed (rule job, auto)
  qed
qed

lemma runs_workerLoop:
  assumes h: "honest seen e" and small: "op < 100000000000000"
  shows "runs e (acct e op seen past) (workerLoop fuel) (\<lambda>_. acct e op seen past) (acct e op seen past)"
proof (induction fuel)
  case 0
  show ?case by (auto intro: runs_ret)
next
  case (Suc fuel)
  let ?A = "acct e op seen past"
  have job: "runs e (\<lambda>w. ?A w \<and> queue w = i # rest) (andThen (modify (\<lambda>w. w\<lparr>queue := rest\<rparr>)) (
       andThen (tryCatch (processJob i) (\<lambda>err. ret ())) (
       andThen (modify updateQueueDepth) (workerLoop fuel)))) (\<lambda>_. ?A) ?A" for i rest
  proof (rule runs_andThen [OF runs_modify runs_andThen [OF runs_tryCatch [OF runs_processJob [OF h small]]
        runs_andThen [OF runs_modify Suc.IH]]])
    fix w
    assume w: "?A w \<and> queue w = i # rest"
    then have "queue_ok (w\<lparr>queue := rest\<rparr>)" by (auto simp: account_def queue_ok_def)
    with w show "?A (w\<lparr>queue := rest\<rparr>) \<and> (\<exists>r. row (db (w\<lparr>queue := rest\<rparr>)) i = Some r \<and> status r = COMPLIANCE_APPROVED) \<and>
        i \<notin> set (queue (w\<lparr>queue := rest\<rparr>))"
      by (auto simp: account_def calls_of_def fresh_ids_def queue_ok_def)
  qed (auto simp: updateQueueDepth_def intro: runs_ret)
  show ?case
    unfolding workerLoop.simps
  proof (rule runs_await [OF runs_gets [where Q = "\<lambda>q w. ?A w \<and> (q = [] \<or> queue w = q)"]])
    fix q
    show "runs e (\<lambda>w. ?A w \<and> (q = [] \<or> queue w = q)) (case q of [] \<Rightarrow> ret True
      | i # rest \<Rightarrow> andThen (modify (\<lambda>w. w\<lparr>queue := rest\<rparr>)) (andThen (tryCatch (processJob i) (\<lambda>err. ret ())) (
       andThen (modify updateQueueDepth) (workerLoop fuel)))) (\<lambda>_. ?A) ?A"
      using job by (cases q) (auto intro: runs_ret)
  qed simp
qed

lemma runs_worker:
  assumes h: "honest seen e" and small: "op < 100000000000000"
  shows "runs e (acct e op seen past) (runWorker fuel) (\<lambda>_. acct e op seen past) (acct e op seen past)"
  unfolding runWorker_def
  by (rule runs_await [OF runs_gets_keep], intro runs_if_keep runs_ret_keep,
      rule runs_andThen [OF runs_modify [where Q = "\<lambda>_. acct e op seen past"]
        runs_tryFinally [OF runs_conseq [OF runs_workerLoop [OF h small, of past fuel]]]]) simp_all

end
