(* ===== verification/AccountRest.thy ===== *)
theory AccountRest
  imports AccountSends
begin

text \<open>The sweep, restart recovery, submissions and the remaining tasks keep the accounts.\<close>

section \<open>Resends\<close>

lemma runs_resave:
  assumes h: "honest seen e" and F: "F (sid s) = None" and s: "open_status s"
    and old: "\<And>h0. txHash s = Some h0 \<Longrightarrow> \<not> success seen h0"
  shows "runs e (unsaved e op seen past F s x) (recordResend (sid s) x n) (\<lambda>_. account e op seen past F) X"
proof (rule runsI)
  fix w
  assume u: "unsaved e op seen past F s x w"
  have q: "quiet e" using h by (simp add: honest_def)
  let ?w = "w\<lparr>tick := Suc (tick w)\<rparr>"
  have u': "unsaved e op seen past F s x ?w" by (rule steadyD [OF steady_unsaved u]) simp
  note row = unsaved_row [OF u', THEN conjunct1]
  obtain r d where tx: "resend_tx (now e (Suc (tick w))) (sid s) x n (db w) = Inr (r, d)"
    using row by (auto simp: resend_tx_def Let_def)
  have "account e op seen past F (?w\<lparr>db := d, tick := Suc (tick ?w)\<rparr>)"
  proof (rule account_save [OF u' h F])
    fix calls
    assume "books op seen calls (db ?w)" "x \<notin> fst ` set calls" "x \<noteq> []"
    then show "books op seen (calls @ [(x, units_of (amount s))]) d \<and>
        row d = (row (db ?w))(sid s \<mapsto> s\<lparr>txHash := Some x, retryCount := n, updatedAt := now e (Suc (tick w))\<rparr>)"
      using row s tx old by (intro books_resend) (auto simp: open_status_def)
  next
    show "set (map ob_id (outboxEvents d)) \<subseteq> insert (uuid e (tick ?w)) (set (map ob_id (outboxEvents (db ?w))))"
      using tx by (cases rule: resend_tx_cases) auto
  qed
  with tx show "case recordResend (sid s) x n e w of (Inr a, v) \<Rightarrow> account e op seen past F v | (Inl y, v) \<Rightarrow> X v"
    by (simp add: recordResend_def quiet_db_tx [OF q])
qed

text \<open>An open settlement that the chain shows no receipt of.\<close>

definition unmined :: "(string \<Rightarrow> receipt option) \<Rightarrow> settlement \<Rightarrow> bool" where
  "unmined seen s \<longleftrightarrow> status s = SUBMITTED \<and> owed s \<and> (\<forall>h. txHash s = Some h \<longrightarrow> \<not> success seen h)"

lemma runs_resend:
  assumes h: "honest seen e" and F: "F (sid s) = None" and s: "unmined seen s" and small: "op < 100000000000000"
  shows "runs e (ready e op seen past F s)
    (tryCatch (await (toBaseUnits (amount s)) (\<lambda>units. await (broadcast (toAddress s) units n g f) (\<lambda>h'.
        andThen (track (sid s) n g f k) (await (recordResend (sid s) h' k) (\<lambda>_. ret ())))))
      (\<lambda>err. let cls = classifyTxError err in
          if resyncNonce cls then ret ()
          else if \<not> retryable cls then fail (sid s) (''RESEND_'' @ reason cls) k else ret ()))
    (\<lambda>_. account e op seen past F) (account e op seen past F)"
proof -
  let ?R = "ready e op seen past F s" and ?A = "account e op seen past F"
  have o: "owed s" "open_status s" "\<not> mined seen s" using s by (auto simp: unmined_def open_status_def mined_success)
  have save: "runs e (unsaved e op seen past F s x) (andThen (track (sid s) n g f k)
      (await (recordResend (sid s) x k) (\<lambda>_. ret ()))) (\<lambda>_. ?A) ?R" for x
    unfolding track_def
    by (rule runs_andThen [OF runs_await [OF runs_gets [where Q = "\<lambda>_. unsaved e op seen past F s x"]
          runs_modify [where Q = "\<lambda>_. unsaved e op seen past F s x"]]
          runs_await [OF runs_resave [where F = F and s = s, OF h F o(2)] runs_ret]])
       (use s in \<open>auto simp: unmined_def\<close>)
  have send: "runs e ?R (await (toBaseUnits (amount s)) (\<lambda>units. await (broadcast (toAddress s) units n g f) (\<lambda>h'.
        andThen (track (sid s) n g f k) (await (recordResend (sid s) h' k) (\<lambda>_. ret ()))))) (\<lambda>_. ?A) ?R"
    by (rule runs_await [OF runs_toBaseUnits [where s = s, OF h small o(1)] runs_assume],
        rule runs_await [OF runs_broadcast [OF h] save])
  have bad: "runs e ?R (fail (sid s) why k) (\<lambda>_. ?A) ?A" for why
    by (rule runs_fail [where F = F and s = s, OF h F]) (use s o in \<open>auto simp: unmined_def\<close>)
  show ?thesis
    by (rule runs_tryCatch [OF send], unfold Let_def)
       (auto intro!: runs_if_keep bad intro: runs_ret dest: ready_account)
qed

lemma runs_bump:
  assumes h: "honest seen e" and F: "F (sid s) = None" and s: "unmined seen s" and small: "op < 100000000000000"
  shows "runs e (ready e op seen past F s) (bumpAndResend s x n info)
    (\<lambda>_. account e op seen past F) (account e op seen past F)"
proof -
  have q: "quiet e" using h by (simp add: honest_def)
  let ?R = "ready e op seen past F s" and ?A = "account e op seen past F"
  note keep = steady_ready [of e op seen past F s]
  have weak: "\<And>w. ?R w \<Longrightarrow> ?A w" by (rule ready_account)
  have o: "owed s" using s by (simp add: unmined_def)
  have fees: "runs e ?R (case info of
         Some t \<Rightarrow> ret \<lparr>maxFeePerGas = if_maxFeePerGas t, maxPriorityFeePerGas = if_maxPriorityFeePerGas t\<rparr>
       | None \<Rightarrow> await (feesFromTx x) (\<lambda>found. case found of Some f \<Rightarrow> ret f | None \<Rightarrow> buildFees)) (\<lambda>_. ?R) ?A"
    unfolding feesFromTx_def
    by (rule runs_conseq [where P' = ?R and Q' = "\<lambda>_. ?R" and X' = ?R])
       (intro runs_option runs_seq_keep runs_ret_keep runs_rpc_keep [OF q keep] runs_buildFees [OF q keep], auto simp: weak)
  have gas: "runs e ?R (case info of Some t \<Rightarrow> ret (if_gasLimit t)
       | None \<Rightarrow> await (toBaseUnits (amount s)) (\<lambda>units. estimateGas (toAddress s) units)) (\<lambda>_. ?R) ?A"
    by (rule runs_conseq [where P' = ?R and Q' = "\<lambda>_. ?R" and X' = ?R])
       (intro runs_option runs_ret_keep runs_await [OF runs_conseq [OF runs_toBaseUnits [where s = s, OF h small o, of past F]]
          runs_estimateGas [OF q keep]], auto simp: weak)
  show ?thesis
    unfolding bumpAndResend_def Let_def
    by (rule runs_await [OF fees runs_await [OF gas runs_resend [unfolded Let_def, where F = F and s = s, OF h F s small]]])
qed

text \<open>What the sweep does with the answer of the node.\<close>

definition sweep_on :: "int \<Rightarrow> settlement \<Rightarrow> string \<Rightarrow> nat \<Rightarrow> receipt option \<Rightarrow> unit io" where
  "sweep_on ms s x n rcpt = (case rcpt of
     Some _ \<Rightarrow> modify (forget (sid s))
   | None \<Rightarrow> await (gets (\<lambda>e w. (map_of (inflight w) (sid s), now e (tick w), maxRetries (cfg e))))
       (\<lambda>(info, t, maxR).
         let lastAt = (case info of Some x \<Rightarrow> if_lastSubmittedAt x | None \<Rightarrow> updatedAt s) in
         if t - lastAt < ms then ret ()
         else if maxR \<le> retryCount s
         then andThen (fail (sid s) ''STUCK_MAX_RETRIES'' (retryCount s)) (modify (forget (sid s)))
         else bumpAndResend s x n info))"

lemma sweep_one_on:
  "txHash s = Some x \<Longrightarrow> x \<noteq> [] \<Longrightarrow> nonce s = Some n \<Longrightarrow>
   sweep_one ms s = await (rpc_call (\<lambda>r. getTransactionReceipt r x)) (sweep_on ms s x n)"
  by (simp add: sweep_one_def sweep_on_def [abs_def])

text \<open>The answer of an honest node is what the chain shows.\<close>

lemma runs_receipt:
  assumes h: "honest seen e" and P: "steady P" and f: "runs e P (f (seen x)) Q X" and X: "\<And>w. P w \<Longrightarrow> X w"
  shows "runs e P (await (rpc_call (\<lambda>r. getTransactionReceipt r x)) f) Q X"
proof (rule runs_await)
  show "runs e P (rpc_call (\<lambda>r. getTransactionReceipt r x)) (\<lambda>rcpt w. P w \<and> rcpt = seen x) X"
    by (rule runs_conseq [OF runs_rpc [OF _ P]]) (use h X in \<open>auto simp: honest_def\<close>)
  show "runs e (\<lambda>w. P w \<and> rcpt = seen x) (f rcpt) Q X" for rcpt
    by (rule runs_assume) (simp add: f)
qed

lemma ready_unmined:
  assumes "ready e op seen past F s w" "status s = SUBMITTED" "txHash s = Some x" "seen x = None"
  shows "unmined seen s"
  using assms booksD(5) [OF account_books, of e op seen past F w "sid s" s]
  by (auto simp: unmined_def success_def row_ok_def owed_def ready_def split: if_splits)

lemma runs_sweep_on:
  assumes h: "honest seen e" and small: "op < 100000000000000" and F: "F (sid s) = None" and s: "status s = SUBMITTED"
    and x: "txHash s = Some x"
  shows "runs e (ready e op seen past F s) (sweep_on ms s x n (seen x)) (\<lambda>_. account e op seen past F)
    (account e op seen past F)"
proof -
  let ?R = "ready e op seen past F s" and ?A = "account e op seen past F"
  have weak: "\<And>w. ?R w \<Longrightarrow> ?A w" by (rule ready_account)
  show ?thesis
    unfolding sweep_on_def
  proof (rule runs_option)
    show "runs e ?R (modify (forget (sid s))) (\<lambda>_. ?A) ?A" by (rule runs_modify) (simp add: forget_def weak)
    assume none: "seen x = None"
    have bump: "runs e ?R (bumpAndResend s x n info) (\<lambda>_. ?A) ?A" for info
      by (rule runs_known, erule ready_unmined [where s = s and x = x and seen = seen]) (rule s, rule x, rule none, rule runs_bump [where F = F and s = s, OF h F _ small])
    have bad: "runs e ?R (andThen (fail (sid s) why k) (modify (forget (sid s)))) (\<lambda>_. ?A) ?A" for why k
      by (rule runs_andThen [OF runs_fail [where F = F and s = s, OF h F] runs_modify])
         (use s none x in \<open>auto simp: forget_def mined_success success_def\<close>)
    show "runs e ?R (await (gets (\<lambda>e w. (map_of (inflight w) (sid s), now e (tick w), maxRetries (cfg e))))
         (\<lambda>(info, t, maxR).
           let lastAt = (case info of Some x \<Rightarrow> if_lastSubmittedAt x | None \<Rightarrow> updatedAt s) in
           if t - lastAt < ms then ret ()
           else if maxR \<le> retryCount s
           then andThen (fail (sid s) ''STUCK_MAX_RETRIES'' (retryCount s)) (modify (forget (sid s)))
           else bumpAndResend s x n info)) (\<lambda>_. ?A) ?A"
      by (rule runs_await [OF runs_gets [where Q = "\<lambda>_. ?R"]])
         (auto simp: Let_def intro!: runs_if_keep bump bad runs_ret weak)
  qed
qed

text \<open>A row that is still as it was read, and open.\<close>

lemma ready_open:
  "account e op seen past F w \<and> row (db w) (sid s) = Some s \<Longrightarrow> open_status s \<Longrightarrow> ready e op seen past F s w"
  using open_not_queued by (auto simp: ready_def)

lemma runs_sweep_one:
  assumes h: "honest seen e" and small: "op < 100000000000000" and F: "F (sid s) = None" and s: "status s = SUBMITTED"
  shows "runs e (\<lambda>w. account e op seen past F w \<and> row (db w) (sid s) = Some s) (sweep_one ms s)
    (\<lambda>_. account e op seen past F) (acct e op seen past)"
proof (cases "\<exists>x n. txHash s = Some x \<and> x \<noteq> [] \<and> nonce s = Some n")
  case False
  then show ?thesis
    by (cases "txHash s"; cases "nonce s") (auto simp: sweep_one_def intro: runs_ret)
next
  case True
  then obtain x n where x: "txHash s = Some x" "x \<noteq> []" "nonce s = Some n" by blast
  have "runs e (ready e op seen past F s) (sweep_one ms s) (\<lambda>_. account e op seen past F) (account e op seen past F)"
    unfolding sweep_one_on [OF x]
    by (rule runs_receipt [where x = x, OF h steady_ready])
       (rule runs_sweep_on [where F = F and s = s, OF h small F s x(1)], rule ready_account)
  then show ?thesis
    by (rule runs_conseq) (use s in \<open>auto simp: open_status_def intro: ready_open account_weaken\<close>)
qed

lemma runs_sweep:
  assumes h: "honest seen e" and small: "op < 100000000000000"
  shows "runs e (acct e op seen past) watcher_sweep (\<lambda>_. acct e op seen past) (acct e op seen past)"
proof -
  let ?A = "acct e op seen past"
  have loop: "runs e ?A (await (findByStatuses [SUBMITTED]) (\<lambda>submitted.
      await (gets (\<lambda>e w. stuckTxSeconds (cfg e) * 1000)) (\<lambda>ms. for_each submitted (sweep_one ms)))) (\<lambda>_. ?A) ?A"
  proof (rule runs_await [OF runs_findByStatuses [OF h]], rule runs_assume)
    fix rows :: "settlement list"
    assume rows: "distinct (map sid rows) \<and> (\<forall>s \<in> set rows. status s \<in> set [SUBMITTED])"
    have body: "runs e (\<lambda>w. account e op seen past F w \<and> row (db w) (sid s) = Some s) (sweep_one ms s)
        (\<lambda>_. account e op seen past F) ?A" if "F (sid s) = None" "status s \<in> set [SUBMITTED]" for F s ms
      using that by (intro runs_sweep_one [where F = F and s = s, OF h small]) simp_all
    have loop: "runs e (account e op seen past (rows_map rows)) (for_each rows (sweep_one ms)) (\<lambda>_. ?A) ?A" for ms
      by (rule runs_rows [where sts = "[SUBMITTED]", OF body]) (use rows in auto)
    show "runs e (account e op seen past (rows_map rows)) (await (gets (\<lambda>e w. stuckTxSeconds (cfg e) * 1000))
        (\<lambda>ms. for_each rows (sweep_one ms))) (\<lambda>_. ?A) ?A"
      by (rule runs_await [OF runs_gets [where Q = "\<lambda>_. account e op seen past (rows_map rows)"] loop])
  qed
  have sweep: "runs e ?A sweepStuckTransactions (\<lambda>_. ?A) ?A"
    unfolding sweepStuckTransactions_def
    by (rule runs_await [OF runs_gets_keep], intro runs_if_keep runs_ret_keep loop)
  have body: "runs e ?A (tryCatch sweepStuckTransactions (\<lambda>err. ret ())) (\<lambda>_. ?A) ?A"
    by (rule runs_tryCatch [OF sweep]) (auto intro: runs_ret)
  show ?thesis
    unfolding watcher_sweep_def
    by (rule runs_await [OF runs_gets_keep], intro runs_if_keep runs_ret_keep,
        rule runs_andThen [OF runs_modify [where Q = "\<lambda>_. ?A"] runs_tryFinally [OF runs_conseq [OF body]]]) simp_all
qed

section \<open>Restart recovery\<close>

definition recover_on :: "settlement \<Rightarrow> string \<Rightarrow> receipt option \<Rightarrow> unit io" where
  "recover_on s x rcpt = (case rcpt of
     Some r \<Rightarrow> if rc_status r = 0 then fail (sid s) ''REVERTED_ON_RECOVERY'' (retryCount s) else ret ()
   | None \<Rightarrow> await (rpc_call (\<lambda>r. getTransaction r x)) (\<lambda>tx. case tx of
       Some t \<Rightarrow> track (sid s) (case nonce s of Some n \<Rightarrow> n | None \<Rightarrow> ti_nonce t)
         (case ti_gasLimit t of Some g \<Rightarrow> g | None \<Rightarrow> FALLBACK_GAS_LIMIT)
         \<lparr>maxFeePerGas = (case ti_maxFeePerGas t of Some m \<Rightarrow> m | None \<Rightarrow> 0),
          maxPriorityFeePerGas = (case ti_maxPriorityFeePerGas t of Some p \<Rightarrow> p | None \<Rightarrow> 0)\<rparr>
         (retryCount s)
     | None \<Rightarrow> enqueueId (sid s)))"

lemma recover_one_on:
  "txHash s = Some x \<Longrightarrow> x \<noteq> [] \<Longrightarrow>
   recover_one s = await (rpc_call (\<lambda>r. getTransactionReceipt r x)) (recover_on s x)"
  by (simp add: recover_one_def recover_on_def [abs_def])

text \<open>The node still knows the transactions it took.\<close>

lemma runs_recover_on:
  assumes h: "honest seen e" and F: "F (sid s) = None" and s: "status s = SUBMITTED" and x: "txHash s = Some x"
    and tx: "\<And>k x. getTransaction (rpc e k) x \<noteq> Inr None"
  shows "runs e (ready e op seen past F s) (recover_on s x (seen x)) (\<lambda>_. account e op seen past F)
    (account e op seen past F)"
proof -
  have q: "quiet e" using h by (simp add: honest_def)
  let ?R = "ready e op seen past F s" and ?A = "account e op seen past F"
  have weak: "\<And>w. ?R w \<Longrightarrow> ?A w" by (rule ready_account)
  have track: "runs e ?R (track (sid s) n g f k) (\<lambda>_. ?A) ?A" for n g f k
    unfolding track_def by (rule runs_await [OF runs_gets [where Q = "\<lambda>_. ?R"] runs_modify]) (auto dest: weak)
  have known: "runs e ?R (rpc_call (\<lambda>r. getTransaction r x)) (\<lambda>t w. ?R w \<and> t \<noteq> None) ?A"
    by (rule runs_conseq [OF runs_rpc [OF q steady_ready [of e op seen past F s]]]) (use tx weak in \<open>simp, metis\<close>, rule weak)
  have reverted: "runs e ?R (fail (sid s) why k) (\<lambda>_. ?A) ?A" if "seen x = Some r" "rc_status r = 0" for r why k
    by (rule runs_fail [where F = F and s = s, OF h F])
       (use that x s in \<open>auto simp: mined_success success_def\<close>)
  show ?thesis
    unfolding recover_on_def
  proof (rule runs_option)
    show "runs e ?R (await (rpc_call (\<lambda>r. getTransaction r x)) (\<lambda>tx. case tx of
       Some t \<Rightarrow> track (sid s) (case nonce s of Some n \<Rightarrow> n | None \<Rightarrow> ti_nonce t)
         (case ti_gasLimit t of Some g \<Rightarrow> g | None \<Rightarrow> FALLBACK_GAS_LIMIT)
         \<lparr>maxFeePerGas = (case ti_maxFeePerGas t of Some m \<Rightarrow> m | None \<Rightarrow> 0),
          maxPriorityFeePerGas = (case ti_maxPriorityFeePerGas t of Some p \<Rightarrow> p | None \<Rightarrow> 0)\<rparr>
         (retryCount s)
     | None \<Rightarrow> enqueueId (sid s))) (\<lambda>_. ?A) ?A"
      by (rule runs_await [OF known], rule runs_assume) (auto intro: track)
  qed (auto intro!: runs_if_keep reverted intro: runs_ret weak)
qed

lemma runs_recover_one:
  assumes h: "honest seen e" and F: "F (sid s) = None" and s: "status s = SUBMITTED"
    and tx: "\<And>k x. getTransaction (rpc e k) x \<noteq> Inr None"
  shows "runs e (\<lambda>w. account e op seen past F w \<and> row (db w) (sid s) = Some s) (recover_one s)
    (\<lambda>_. account e op seen past F) (acct e op seen past)"
proof (rule runs_known)
  fix w
  assume "account e op seen past F w \<and> row (db w) (sid s) = Some s"
  then show "\<exists>x. txHash s = Some x \<and> x \<noteq> []"
    using s booksD(5) [OF account_books] by (fastforce simp: row_ok_def split: if_splits)
next
  assume "\<exists>x. txHash s = Some x \<and> x \<noteq> []"
  then obtain x where x: "txHash s = Some x" "x \<noteq> []" by blast
  have "runs e (ready e op seen past F s) (recover_one s) (\<lambda>_. account e op seen past F) (account e op seen past F)"
    unfolding recover_one_on [OF x]
    by (rule runs_receipt [where x = x, OF h steady_ready])
       (rule runs_recover_on [where F = F and s = s, OF h F s x(1) tx], rule ready_account)
  then show "runs e (\<lambda>w. account e op seen past F w \<and> row (db w) (sid s) = Some s) (recover_one s)
      (\<lambda>_. account e op seen past F) (acct e op seen past)"
    by (rule runs_conseq) (use s in \<open>auto simp: open_status_def intro: ready_open account_weaken\<close>)
qed

lemma runs_bootstrap:
  assumes h: "honest seen e" and tx: "\<And>k x. getTransaction (rpc e k) x \<noteq> Inr None"
  shows "runs e (acct e op seen past) relayer_onApplicationBootstrap (\<lambda>_. acct e op seen past) (acct e op seen past)"
proof -
  have q: "quiet e" using h by (simp add: honest_def)
  let ?A = "acct e op seen past"
  have rec: "runs e ?A recoverInFlight (\<lambda>_. ?A) ?A"
    unfolding recoverInFlight_def
  proof (rule runs_await [OF runs_findByStatuses [OF h]], rule runs_assume)
    fix rows :: "settlement list"
    assume rows: "distinct (map sid rows) \<and> (\<forall>s \<in> set rows. status s \<in> set [SUBMITTED])"
    have body: "runs e (\<lambda>w. account e op seen past F w \<and> row (db w) (sid s) = Some s) (recover_one s)
        (\<lambda>_. account e op seen past F) ?A" if "F (sid s) = None" "status s \<in> set [SUBMITTED]" for F s
      using that by (intro runs_recover_one [where F = F and s = s, OF h _ _ tx]) simp_all
    show "runs e (account e op seen past (rows_map rows)) (for_each rows recover_one) (\<lambda>_. ?A) ?A"
      by (rule runs_rows [where sts = "[SUBMITTED]", OF body]) (use rows in auto)
  qed
  show ?thesis
    unfolding relayer_onApplicationBootstrap_def
    by (rule runs_await [OF runs_rpc_keep [OF q steady_account]],
        rule runs_andThen [OF runs_modify [where Q = "\<lambda>_. ?A"] rec]) simp
qed

end
