(* ===== verification/QuietReads.thy ===== *)
theory QuietReads
  imports Quiet Http Observability
begin

text \<open>
  The handlers that only read: without interference they keep whatever bears the passing of time.
\<close>

section \<open>Queries of the API\<close>

lemma runs_getById: "quiet e \<Longrightarrow> steady P \<Longrightarrow> runs e P (getById i) (\<lambda>_. P) P"
  unfolding getById_def findById_def
  by (intro runs_seq_keep runs_db_read_keep runs_option runs_throw_keep runs_ret_keep)

lemma runs_presentMany:
  assumes "quiet e" "steady P"
  shows "runs e P (presentMany ss) (\<lambda>_. P) P"
proof -
  have all: "runs e P (confirm_all b needs m) (\<lambda>_. P) P" for b needs m
    by (induction needs arbitrary: m) (auto intro!: runs_seq_keep runs_rpc_keep assms intro: runs_ret)
  show ?thesis
    unfolding presentMany_def Let_def getCurrentBlock_def
    by (intro runs_seq_keep runs_if_keep runs_rpc_keep assms all runs_gets_keep runs_ret_keep)
qed

lemma runs_present: "quiet e \<Longrightarrow> steady P \<Longrightarrow> runs e P (present s) (\<lambda>_. P) P"
  unfolding present_def by (intro runs_seq_keep runs_presentMany runs_ret_keep)

lemma runs_queries:
  assumes "quiet e" "steady P"
  shows "runs e P list_settlements (\<lambda>_. P) P" "runs e P (get_settlement i) (\<lambda>_. P) P"
    "runs e P (get_transitions i) (\<lambda>_. P) P" "runs e P get_balance (\<lambda>_. P) P"
  unfolding list_settlements_def listRecent_def get_settlement_def get_transitions_def getTransitions_def
    state_getTransitions_def get_balance_def balanceView_def getOperatorBalance_def getOpeningBalance_def sumByStatuses_def
  by (intro runs_seq_keep runs_db_read_keep runs_getById runs_present runs_presentMany runs_gets_keep runs_ret_keep assms)+

lemma runs_newDecimal: "runs e P (newDecimal_io s) (\<lambda>_. P) P"
  by (rule runs_local) (simp add: newDecimal_io_def split: option.split)

lemma runs_getDeal:
  assumes "quiet e" "steady P"
  shows "runs e P (dvp_getDeal i) (\<lambda>_. P) P"
proof -
  have call: "runs e P (eth_call f) (\<lambda>_. P) P" for f :: "env \<Rightarrow> mock_erc20 evm \<Rightarrow> 'a"
    unfolding eth_call_def by (intro runs_seq_keep runs_yield_keep runs_local assms) (simp_all add: run_simps split: option.split)
  have addr: "runs e P escrowAddress (\<lambda>_. P) P"
    unfolding escrowAddress_def
    by (intro runs_seq_keep runs_gets_keep) (auto split: option.split list.split intro: runs_ret_keep runs_throw_keep)
  show ?thesis
    unfolding dvp_getDeal_def dealId_def fromBaseUnits_def
    by (intro runs_seq_keep runs_gets_keep runs_ret_keep call runs_newDecimal addr)
qed

section \<open>Probes\<close>

lemma runs_health:
  assumes "quiet e" "steady P"
  shows "runs e P (health_ready late) (\<lambda>_. P) P"
proof -
  have late: "runs e P (withTimeout late p) (\<lambda>_. P) P" if "runs e P p (\<lambda>_. P) P" for p :: "'a io"
  proof (rule runsI)
    fix w
    assume w: "P w"
    have "runs e P (andThen yield (throw (Thrown None ''timeout'')) :: 'a io) (\<lambda>_. P) P"
      by (intro runs_seq_keep runs_yield_keep runs_throw_keep assms)
    from runs_at [OF this w] runs_at [OF that w]
    show "case withTimeout late p e w of (Inr a, v) \<Rightarrow> P v | (Inl x, v) \<Rightarrow> P v"
      by (simp add: withTimeout_def)
  qed
  show ?thesis
    unfolding health_ready_def checkDb_def checkRpc_def reachable_def Let_def
    by (intro runs_seq_keep late runs_db_read_keep runs_rpc_keep runs_ret_keep assms)
qed

section \<open>The reads of reconciliation\<close>

lemma runs_sum_mined: "quiet e \<Longrightarrow> steady P \<Longrightarrow> runs e P (sum_mined ss acc) (\<lambda>_. P) P"
  by (induction ss arbitrary: acc)
     (auto intro!: runs_option runs_if_keep runs_seq_keep runs_rpc_keep runs_gets_keep intro: runs_ret)

lemma runs_recon_reads:
  assumes "quiet e" "steady P"
  shows "runs e P getOperatorBalance (\<lambda>_. P) P" "runs e P getChainBalance (\<lambda>_. P) P"
    "runs e P computeMinedPending (\<lambda>_. P) P"
  unfolding getOperatorBalance_def getOpeningBalance_def getChainBalance_def computeMinedPending_def findByStatuses_def
  by (intro runs_seq_keep runs_db_read_keep runs_rpc_keep runs_gets_keep runs_newDecimal runs_sum_mined runs_ret_keep assms)+

end
