(* ===== verification/AccountService.thy ===== *)
theory AccountService
  imports AccountRest QuietReads
begin

text \<open>Submissions, reconciliation, the outbox relay and the queries keep the accounts.\<close>

section \<open>Submissions\<close>

text \<open>Below the precision of the decimals library the balances are exact.\<close>

lemma sum_rows_nonneg: "(\<And>r. r \<in># R \<Longrightarrow> 0 \<le> f r) \<Longrightarrow> 0 \<le> (\<Sum>r \<in># filter_mset P R. f r)"
  for f :: "'a \<Rightarrow> rat"
  by (induction R) auto

lemma books_exact:
  assumes b: "books op seen calls d" and l: "dround_ok l" and op: "op < 100000000000000"
  shows "exact_available l d" "0 \<le> available_of d" "available_of d \<le> op" "0 \<le> operator_balance d" "operator_balance d \<le> op"
proof -
  note B = booksD [OF b]
  have nonneg: "0 \<le> amount r" if "r \<in># mset (settlements d)" for r using B(7) that by (simp add: row_ok_def)
  have owe: "(\<Sum>r \<in># filter_mset owed (mset (settlements d)). amount r) \<le> op" using b by (simp add: books_def)
  with sum_rows_nonneg [of "mset (settlements d)" amount owed, OF nonneg] show avail: "0 \<le> available_of d" "available_of d \<le> op"
    by (simp_all add: books_available [OF b])
  have infl: "0 \<le> sum_in d IN_FLIGHT_STATUSES" unfolding sum_in_rows by (rule sum_rows_nonneg) (rule nonneg)
  with avail(1) show bal: "0 \<le> operator_balance d" by (simp add: available_of_def)
  show le: "operator_balance d \<le> op"
    using sum_rows_nonneg [of "mset (settlements d)" amount "\<lambda>r. booked d (sid r)", OF nonneg] by (simp add: operator_rows [OF B(1)] B(2))
  have "micro (sum_in d IN_FLIGHT_STATUSES)"
    unfolding sum_in_sum_list by (intro micro_sum_list) (use B(8) in \<open>auto simp: by_statuses_def\<close>)
  then have "micro (available_of d)" using balance_micro [OF B(4)] by (simp add: available_of_def)
  with l avail op have "dround l (available_of d) = available_of d" by (simp add: dround_ok_def)
  moreover have "exact_ledger l d"
    using sum_rows_nonneg [of "mset (settlements d)" amount owed, OF nonneg] owe op bal le by (intro exact_small [OF l B(4)]) (simp_all add: B(2))
  ultimately show "exact_available l d" using B(4) by (simp add: exact_available_def)
qed

lemma runs_insert:
  assumes h: "honest seen e" and a: "0 \<le> a" "micro a"
  shows "runs e (\<lambda>w. acct e op seen past w \<and> a \<le> available_of (db w)) (insert_received dto a)
    (\<lambda>res w. case res of Inl s \<Rightarrow> acct e op seen past w
      | Inr s \<Rightarrow> ready e op seen past Map.empty s w \<and> status s = RECEIVED) (acct e op seen past)"
proof -
  have q: "quiet e" using h by (simp add: honest_def)
  let ?P = "\<lambda>w. acct e op seen past w \<and> a \<le> available_of (db w)"
  have st: "steady ?P" using steady_with [of e op seen past Map.empty "\<lambda>d q. a \<le> available_of d"] by simp
  have ins: "runs e ?P (state_create (d_instructionId dto) (d_toAddress dto) a (Some RECEIVED))
    (\<lambda>s w. ready e op seen past Map.empty s w \<and> status s = RECEIVED) (acct e op seen past)"
    unfolding state_create_def
  proof (rule runs_db_tx [OF q st])
    fix w s d
    assume w: "?P w" and tx: "create_tx (now e (tick w)) (uuid e (tick w)) (d_instructionId dto) (d_toAddress dto) a
        (Some RECEIVED) (db w) = Inr (s, d)"
    have b: "books op seen (calls_of past w) d \<and> row d = (row (db w))(sid s \<mapsto> s) \<and> row (db w) (sid s) = None \<and> status s = RECEIVED"
      by (rule books_create [OF account_books tx a]) (use w in auto)
    moreover have new: "sid s \<notin> set (queue w)" using b w by (auto simp: account_def queue_ok_def)
    moreover have "outboxEvents d = outboxEvents (db w)" using tx by (cases rule: create_tx_cases) simp
    ultimately have "acct e op seen past (w\<lparr>db := d, tick := Suc (tick w)\<rparr>)"
      using w by (intro account_write [where i = "sid s" and r = s, OF _ h]) auto
    with b new show "ready e op seen past Map.empty s (w\<lparr>db := d, tick := Suc (tick w)\<rparr>) \<and> status s = RECEIVED"
      by (simp add: ready_def)
  qed simp
  note keep = steady_account [of e op seen past Map.empty]
  show ?thesis
    unfolding insert_received_def findByInstructionId_def
    by (rule runs_tryCatch [OF runs_await [OF ins runs_ret]],
        simp, intro runs_if_keep runs_throw, rule runs_await [OF runs_db_read_keep [OF q keep]])
       (auto intro!: runs_option intro: runs_throw runs_ret)
qed

lemma runs_screen:
  assumes h: "honest seen e" and s: "status s = RECEIVED"
  shows "runs e (ready e op seen past Map.empty s) (screen provider dto s) (\<lambda>_. acct e op seen past) (acct e op seen past)"
proof -
  have q: "quiet e" using h by (simp add: honest_def)
  let ?R = "ready e op seen past Map.empty s" and ?A = "acct e op seen past"
  have weak: "\<And>w. ?R w \<Longrightarrow> ?A w" by (rule ready_account)
  have move: "runs e ?R (transition (sid s) to opts) (\<lambda>res w. \<exists>t. res = Some (apply_opts t to opts s) \<and>
      ready e op seen past Map.empty (apply_opts t to opts s) w) ?A"
    if "to = COMPLIANCE_APPROVED \<or> to = REJECTED_COMPLIANCE" "expectedFrom opts = None" "o_txHash opts = None" for to opts
    by (rule runs_conseq [OF runs_move [where i = "sid s" and F = Map.empty and s = s, OF h]])
       (use that s in \<open>auto simp: ready_def row_ok_def owed_def apply_opts_def split: if_splits\<close>)
  have "runs e ?R (await (transition (sid s) REJECTED_COMPLIANCE (no_opts\<lparr>o_failureReason := Some (Some why)\<rparr>))
      (\<lambda>rejected. ret \<lparr>cr_settlement = (case rejected of None \<Rightarrow> s | Some r \<Rightarrow> r), cr_created = True\<rparr>)) (\<lambda>_. ?A) ?A" for why
    by (rule runs_await [OF move runs_ret]) (auto dest: ready_account)
  moreover have "runs e ?R (await (transition (sid s) COMPLIANCE_APPROVED no_opts) (\<lambda>appr.
      let rd = (case appr of None \<Rightarrow> s | Some r \<Rightarrow> r) in
      andThen (enqueue rd) (ret \<lparr>cr_settlement = rd, cr_created = True\<rparr>))) (\<lambda>_. ?A) ?A"
  proof (rule runs_await [OF move])
    fix appr
    have "?A (if draining w then w else (updateQueueDepth (w\<lparr>queue := queue w @ [sid r]\<rparr>))\<lparr>spawned := sp\<rparr>)"
      if "ready e op seen past Map.empty r w" "status r = COMPLIANCE_APPROVED" for w r sp
      using that by (auto simp: ready_def account_def calls_of_def fresh_ids_def queue_ok_def updateQueueDepth_def)
    then show "runs e (\<lambda>w. \<exists>t. appr = Some (apply_opts t COMPLIANCE_APPROVED no_opts s) \<and>
        ready e op seen past Map.empty (apply_opts t COMPLIANCE_APPROVED no_opts s) w)
      (let rd = (case appr of None \<Rightarrow> s | Some r \<Rightarrow> r) in
        andThen (enqueue rd) (ret \<lparr>cr_settlement = rd, cr_created = True\<rparr>)) (\<lambda>_. ?A) ?A"
      unfolding Let_def enqueue_def enqueueId_def
      by (intro runs_exists runs_andThen [OF runs_modify [where Q = "\<lambda>_. ?A"] runs_ret]) auto
  qed simp_all
  ultimately show ?thesis
    unfolding screen_def
    by (intro runs_await [OF runs_andThen [OF runs_conseq [OF runs_yield_keep [OF q steady_ready [of e op seen past Map.empty s]]]
          runs_ret [where Q = "\<lambda>_. ?R"]]]) (auto intro!: runs_if_keep dest: weak)
qed

lemma runs_create:
  assumes h: "honest seen e" and op: "op < 100000000000000"
    and a: "\<And>a. newDecimal (lib e) (d_amount dto) = Some a \<Longrightarrow> 0 \<le> a \<and> micro a"
  shows "runs e (acct e op seen past) (create provider dto) (\<lambda>_. acct e op seen past) (acct e op seen past)"
proof -
  have q: "quiet e" and l: "dround_ok (lib e)" using h by (simp_all add: honest_def)
  let ?A = "acct e op seen past"
  note keep = steady_account [of e op seen past Map.empty]
  have dec: "runs e ?A (newDecimal_io (d_amount dto)) (\<lambda>x w. ?A w \<and> (0 \<le> x \<and> micro x)) ?A"
    by (rule runsI) (use a in \<open>auto simp: newDecimal_io_def split: option.split\<close>)
  have avail: "runs e ?A availableBalance (\<lambda>b w. ?A w \<and> b = available_of (db w)) ?A"
    by (rule runsI)
       (use quiet_available [OF q books_exact(1) [OF account_books l op]] in \<open>auto intro: steadyD [OF keep]\<close>)
  have rest: "runs e (\<lambda>w. ?A w \<and> avl = available_of (db w)) (if avl < x
         then await (gets (\<lambda>e w. insufficient (lib e) x avl)) throw
         else await (insert_received dto x) (\<lambda>inserted. case inserted of
             Inl raced \<Rightarrow> ret \<lparr>cr_settlement = raced, cr_created = False\<rparr>
           | Inr s \<Rightarrow> screen provider dto s)) (\<lambda>_. ?A) ?A" if x: "0 \<le> x" "micro x" for x avl
  proof (rule runs_if_keep)
    show "runs e (\<lambda>w. ?A w \<and> avl = available_of (db w)) (await (gets (\<lambda>e w. insufficient (lib e) x avl)) throw) (\<lambda>_. ?A) ?A"
      by (rule runs_await [OF runs_gets [where Q = "\<lambda>_. ?A"] runs_throw]) simp_all
    assume "\<not> avl < x"
    then have ins: "runs e (\<lambda>w. ?A w \<and> avl = available_of (db w)) (insert_received dto x)
      (\<lambda>res w. case res of Inl s \<Rightarrow> ?A w | Inr s \<Rightarrow> ready e op seen past Map.empty s w \<and> status s = RECEIVED) ?A"
      by (intro runs_pre [OF runs_insert [OF h x]]) auto
    show "runs e (\<lambda>w. ?A w \<and> avl = available_of (db w)) (await (insert_received dto x) (\<lambda>inserted. case inserted of
             Inl raced \<Rightarrow> ret \<lparr>cr_settlement = raced, cr_created = False\<rparr>
           | Inr s \<Rightarrow> screen provider dto s)) (\<lambda>_. ?A) ?A"
    proof (rule runs_await [OF ins])
      fix res
      show "runs e (\<lambda>w. case res of Inl s \<Rightarrow> ?A w | Inr s \<Rightarrow> ready e op seen past Map.empty s w \<and> status s = RECEIVED)
        (case res of Inl raced \<Rightarrow> ret \<lparr>cr_settlement = raced, cr_created = False\<rparr>
           | Inr s \<Rightarrow> screen provider dto s) (\<lambda>_. ?A) ?A"
        by (cases res) (auto intro: runs_ret runs_assume runs_screen [OF h])
    qed
  qed
  show ?thesis
    unfolding create_def findByInstructionId_def
    by (rule runs_await [OF runs_db_read_keep [OF q keep]], rule runs_option, rule runs_await [OF dec], rule runs_assume,
        rule runs_await [OF avail], rule rest) (auto intro: runs_ret)
qed

section \<open>Tasks that write no settlement\<close>

lemma account_other:
  assumes a: "acct e op seen past w" and inv: "db_inv d" and same: "settlements d = settlements (db w)"
    "ledgerEntries d = ledgerEntries (db w)" "map ob_id (outboxEvents d) = map ob_id (outboxEvents (db w))"
  shows "acct e op seen past (w\<lparr>db := d, tick := Suc (tick w)\<rparr>)"
proof -
  have "row d = row (db w)" by (simp add: row_def same(1) fun_eq_iff)
  moreover have "fresh_ids e (w\<lparr>db := d, tick := Suc (tick w)\<rparr>)"
    using a unfolding account_def fresh_ids_def by (simp add: same(3) flip: set_map)
  moreover have "books op seen (calls_of past w) d" by (rule books_frame [OF account_books [OF a] inv same(1,2)])
  ultimately show ?thesis
    using a fresh_hashes_later [of e "tick w" "calls_of past w" "Suc (tick w)"]
    by (simp add: account_def calls_of_def queue_ok_def)
qed

lemma runs_reconcile:
  assumes h: "honest seen e"
  shows "runs e (acct e op seen past) reconcile (\<lambda>_. acct e op seen past) (acct e op seen past)"
proof -
  have q: "quiet e" using h by (simp add: honest_def)
  let ?A = "acct e op seen past"
  note keep = steady_account [of e op seen past Map.empty]
  have save: "runs e ?A (db_tx (\<lambda>e n. insert_run (rr e n))) (\<lambda>_. ?A) ?A" for rr
  proof (rule runs_db_tx [OF q keep])
    fix w r d
    assume w: "?A w" and tx: "insert_run (rr e (tick w)) (db w) = Inr (r, d)"
    have "db_inv d" by (rule inv_run [OF booksD(1) [OF account_books [OF w]] tx])
    then show "?A (w\<lparr>db := d, tick := Suc (tick w)\<rparr>)"
      using tx by (intro account_other [OF w]) (auto simp: insert_run_def Let_def)
  qed simp
  show ?thesis
    unfolding reconcile_def Let_def
    by (intro runs_seq_keep runs_recon_reads [OF q keep] runs_gets_keep save runs_ret_keep runs_modify)
       (simp add: count_run_def Let_def)
qed

lemma runs_relay:
  assumes h: "honest seen e"
  shows "runs e (acct e op seen past) (relay broker) (\<lambda>_. acct e op seen past) (acct e op seen past)"
proof -
  have q: "quiet e" using h by (simp add: honest_def)
  let ?A = "acct e op seen past"
  note keep = steady_account [of e op seen past Map.empty]
  have pub: "runs e ?A (\<lambda>e w. case broker (tick w) ev of Some x \<Rightarrow> (Inl x, w)
     | None \<Rightarrow> (Inr (), w\<lparr>published := published w @ [ev]\<rparr>)) (\<lambda>_. ?A) ?A" for ev
    by (rule runsI) (simp split: option.split)
  have mark: "runs e ?A (db_tx (\<lambda>e n. mark_tx (now e n) i)) (\<lambda>_. ?A) ?A" for i
  proof (rule runs_db_tx [OF q keep])
    fix w u d
    assume w: "?A w" and tx: "mark_tx (now e (tick w)) i (db w) = Inr (u, d)"
    have "db_inv d" by (rule inv_mark [OF booksD(1) [OF account_books [OF w]] tx])
    then show "?A (w\<lparr>db := d, tick := Suc (tick w)\<rparr>)"
      using tx by (intro account_other [OF w]) (auto simp: mark_tx_def map_upd_where_same split: if_splits)
  qed simp
  have rows: "runs e ?A (for_each rows (relay_row broker)) (\<lambda>_. ?A) ?A" for rows
    unfolding relay_row_def publish_def
    by (rule runs_for_each [where I = "\<lambda>_. ?A"]) (intro runs_seq_keep runs_yield_keep [OF q keep] pub mark)
  have body: "runs e ?A (tryCatch (await (db_read (\<lambda>e d. batch d)) (\<lambda>rows. for_each rows (relay_row broker))) (\<lambda>err. ret ()))
      (\<lambda>_. ?A) ?A" by (intro runs_seq_keep runs_db_read_keep [OF q keep] rows runs_ret_keep)
  show ?thesis
    unfolding relay_def
    by (rule runs_await [OF runs_gets_keep], intro runs_if_keep runs_ret_keep,
        rule runs_andThen [OF runs_modify [where Q = "\<lambda>_. ?A"] runs_tryFinally [OF runs_conseq [OF body]]]) simp_all
qed

end
