(* ===== verification/AccountSystem.thy ===== *)
theory AccountSystem
  imports AccountService System QuietReads
begin

text \<open>
  Runs of the service whose tasks do not overlap, on an honest node and a chain that moves on between
  them, and the agreement of ledger and chain in all of them.
\<close>

section \<open>Tasks\<close>

text \<open>
  The tasks of the payment rail, and what each needs of its environment beyond an honest node: an amount
  of whole micro-units, the true decimals of the token, a node that still knows the transactions it took.
  The DvP service moves the operator's USDC outside the ledger and is not among them.
\<close>

fun rail_task :: "env \<Rightarrow> task \<Rightarrow> bool" where
  "rail_task e (Post provider dto) = (\<forall>a. newDecimal (lib e) (d_amount dto) = Some a \<longrightarrow> 0 \<le> a \<and> micro a)"
| "rail_task e Bootstrap = (\<forall>k x. getTransaction (rpc e k) x \<noteq> Inr None)"
| "rail_task e ChainInit = (\<forall>k n. rpc_decimals (rpc e k) = Inr n \<longrightarrow> n = 6)"
| "rail_task e (DvpFund dto) = False"
| "rail_task e (DvpRelease i) = False"
| "rail_task e _ = True"

lemma runs_discard: "runs e P m (\<lambda>_. P) P \<Longrightarrow> runs e P (discard_result m) (\<lambda>_. P) P"
  unfolding discard_result_def by (intro runs_seq_keep runs_ret_keep)

lemma runs_chain_init:
  assumes h: "honest seen e" and six: "\<And>k n. rpc_decimals (rpc e k) = Inr n \<Longrightarrow> n = 6"
  shows "runs e (acct e op seen past) chain_onModuleInit (\<lambda>_. acct e op seen past) (acct e op seen past)"
proof -
  have q: "quiet e" using h by (simp add: honest_def)
  let ?A = "acct e op seen past"
  have "?A (w\<lparr>decimals := 6\<rparr>)" if "?A w" for w
    using that by (simp add: account_def calls_of_def fresh_ids_def queue_ok_def)
  then have "runs e ?A (await (rpc_call rpc_decimals) (\<lambda>n. modify (\<lambda>w. w\<lparr>decimals := n\<rparr>))) (\<lambda>_. ?A) ?A"
    by (rule_tac runs_await [OF runs_rpc [OF q steady_account] runs_modify]) (use six in auto)
  then show ?thesis
    unfolding chain_onModuleInit_def by (rule runs_tryCatch) (auto intro: runs_ret)
qed

lemma runs_opening:
  assumes h: "honest seen e"
  shows "runs e (acct e op seen past) ensureOpeningSnapshot (\<lambda>_. acct e op seen past) (acct e op seen past)"
  unfolding ensureOpeningSnapshot_def
proof (rule runs_await)
  show "runs e (acct e op seen past) (db_read (\<lambda>e d. genesis_entry d)) (\<lambda>g w. acct e op seen past w \<and> g \<noteq> None)
      (acct e op seen past)"
    by (rule runs_conseq [OF runs_db_read [OF _ steady_account [of e op seen past Map.empty]]])
       (use h in \<open>auto simp: honest_def account_def books_def opened_def\<close>)
qed (rule runs_assume, simp, rule runs_ret)

lemma runs_task:
  assumes h: "honest seen e" "plain_receipts seen" and op: "op < 100000000000000" and t: "rail_task e t"
  shows "runs e (acct e op seen past) (run_task t) (\<lambda>_. acct e op seen past) (acct e op seen past)"
proof -
  have q: "quiet e" using h by (simp add: honest_def)
  note keep = steady_account [of e op seen past Map.empty]
  note reads = runs_queries [OF q keep] runs_getDeal [OF q keep] runs_health [OF q keep]
  have gauges: "runs e (acct e op seen past) collector_refresh (\<lambda>_. acct e op seen past) (acct e op seen past)"
    unfolding collector_refresh_def countByStatus_def
    by (intro runs_seq_keep runs_db_read_keep q keep runs_modify runs_ret_keep) (simp add: set_gauges_def)
  have event: "runs e (acct e op seen past) (onTransfer x) (\<lambda>_. acct e op seen past) (acct e op seen past)" for x
    unfolding onTransfer_def by (intro runs_option runs_if_keep runs_ret_keep runs_modify) simp
  have stop: "runs e (acct e op seen past) relayer_onModuleDestroy (\<lambda>_. acct e op seen past) (acct e op seen past)"
    unfolding relayer_onModuleDestroy_def by (rule runs_modify) simp
  show ?thesis
    using t
    by (cases t)
       (auto intro!: runs_discard reads gauges event stop runs_chain_init [OF h(1)] runs_opening [OF h(1)]
         runs_bootstrap [OF h(1)] runs_worker [OF h(1) op] runs_sweep [OF h(1) op] runs_poll [OF h] runs_byTxHash [OF h]
         runs_create [OF h(1) op] runs_reconcile [OF h(1)] runs_relay [OF h(1)])
qed

section \<open>Runs\<close>

text \<open>
  A run starts with the opening snapshot of \<open>funds\<close> base units. A task runs to its end in an environment of
  its own that is honest about the chain as it is then, with new keys and hashes; between tasks the chain
  moves on, and the process may be stopped and started again (\<open>past\<close> keeps the calls it had made).
\<close>

inductive honest_run :: "int \<Rightarrow> (tx_request \<times> string option) list \<Rightarrow> (string \<Rightarrow> receipt option) \<Rightarrow> world \<Rightarrow> bool"
    for funds where
  start: "honest (\<lambda>_. None) e \<Longrightarrow> (\<And>k. balanceOf (rpc e k) = Inr funds) \<Longrightarrow> 0 \<le> funds \<Longrightarrow>
    honest_run funds [] (\<lambda>_. None) (snd (run_task Opening e (boot_world oper empty_db)))"
| task: "honest_run funds past seen w \<Longrightarrow> honest seen e \<Longrightarrow> rail_task e t \<Longrightarrow> fresh_ids e w \<Longrightarrow>
    fresh_hashes e (tick w) (calls_of past w) \<Longrightarrow> honest_run funds past seen (snd (run_task t e w))"
| chain: "honest_run funds past seen w \<Longrightarrow> plain_receipts seen' \<Longrightarrow>
    chain_step (db w) (calls_of past w) seen seen' \<Longrightarrow> honest_run funds past seen' w"
| reboot: "honest_run funds past seen w \<Longrightarrow> honest_run funds (past @ broadcastLog w) seen (restart w)"

text \<open>What such a run keeps.\<close>

definition accounted :: "int \<Rightarrow> (tx_request \<times> string option) list \<Rightarrow> (string \<Rightarrow> receipt option) \<Rightarrow> world \<Rightarrow> bool" where
  "accounted funds past seen w \<longleftrightarrow> books (of_int funds / 1000000) seen (calls_of past w) (db w) \<and>
     decimals w = 6 \<and> queue_ok w \<and> plain_receipts seen"

lemma accounted_acct:
  "accounted funds past seen w \<Longrightarrow> fresh_ids e w \<Longrightarrow> fresh_hashes e (tick w) (calls_of past w) \<Longrightarrow>
   acct e (of_int funds / 1000000) seen past w"
  by (simp add: accounted_def account_def)

lemma acct_accounted:
  "acct e (of_int funds / 1000000) seen past w \<Longrightarrow> plain_receipts seen \<Longrightarrow> accounted funds past seen w"
  by (simp add: accounted_def account_def)

lemma opening_db:
  assumes h: "honest seen e" and b: "\<And>k. balanceOf (rpc e k) = Inr funds"
  shows "\<exists>k g. snd (run_task Opening e (boot_world oper empty_db)) = (boot_world oper empty_db)\<lparr>tick := k,
    db := empty_db\<lparr>settlements := [g], ledgerEntries := [\<lparr>le_settlementId = sid g, le_account = GENESIS,
      le_direction = CREDIT, le_amount = of_int funds / 1000000, le_createdAt = createdAt g\<rparr>]\<rparr>\<rparr> \<and>
    status g = FINAL \<and> instructionId g = GENESIS_INSTRUCTION_ID \<and> txHash g = None \<and> amount g = of_int funds / 1000000"
proof -
  have q: "quiet e" and u: "units_ok (lib e)" using h by (simp_all add: honest_def)
  have "newDecimal (lib e) (formatUnits (lib e) funds 6) = Some (of_int funds / 10 ^ 6)"
    using u by (simp add: units_ok_def)
  then have dec: "newDecimal (lib e) (formatUnits (lib e) funds 6) = Some (of_int funds / 1000000)" by simp
  show ?thesis
    by (simp add: ensureOpeningSnapshot_def getChainBalance_def newDecimal_io_def run_simps quiet_db_read [OF q]
        quiet_rpc_call [OF q] quiet_db_tx [OF q] b dec boot_world_def empty_db_def genesis_entry_def
        snapshot_tx_def upsert_genesis_def insert_entry_def create_tx_def
        by_instruction_def dec6_micro row_def Let_def)
qed

lemma accounted_start:
  assumes h: "honest (\<lambda>_. None) e" and b: "\<And>k. balanceOf (rpc e k) = Inr funds" and op: "0 \<le> funds"
  shows "accounted funds [] (\<lambda>_. None) (snd (run_task Opening e (boot_world oper empty_db)))"
proof -
  let ?w = "snd (run_task Opening e (boot_world oper empty_db))"
  obtain k g where w: "?w = (boot_world oper empty_db)\<lparr>tick := k,
    db := empty_db\<lparr>settlements := [g], ledgerEntries := [\<lparr>le_settlementId = sid g, le_account = GENESIS,
      le_direction = CREDIT, le_amount = of_int funds / 1000000, le_createdAt = createdAt g\<rparr>]\<rparr>\<rparr>"
    "status g = FINAL" "instructionId g = GENESIS_INSTRUCTION_ID" "txHash g = None" "amount g = of_int funds / 1000000"
    using opening_db [OF h b] by blast
  have "quiet e" and "\<And>xs. set (scan e xs) \<subseteq> set xs"
    using h unfolding honest_def by (blast, metis mset_eq_setD order_refl)
  then have "reach (\<lambda>_. True) (boot_world oper empty_db) ?w"
    by (intro reach.task reach.start) (auto simp: quiet_def intro: reach.start)
  then have inv: "db_inv (db ?w)"
    using reach_inv [of "\<lambda>_. True" "boot_world oper empty_db" ?w] db_inv_for_all [OF db_inv_empty]
    by (simp add: boot_world_def db_inv_for_def)
  then show ?thesis
    using op w by (simp add: accounted_def books_def opened_def genesis_entry_def row_ok_def booked_def bookings_def
        owed_def sent_calls_def calls_of_def boot_world_def queue_ok_def plain_receipts_def)
qed

lemma run_accounted:
  assumes "honest_run funds past seen w" "funds < 100000000000000000000"
  shows "accounted funds past seen w"
  using assms(1)
proof (induction rule: honest_run.induct)
  case (start e oper)
  then show ?case by (rule accounted_start)
next
  case (task past seen w e t)
  have op: "of_int funds / 1000000 < (100000000000000 :: rat)"
  proof -
    have "of_int funds < (of_int 100000000000000000000 :: rat)" using assms(2) by (simp only: of_int_less_iff)
    then show ?thesis by simp
  qed
  have seen: "plain_receipts seen" using task.IH by (simp add: accounted_def)
  have "acct e (of_int funds / 1000000) seen past (snd (run_task t e w))"
    by (rule runsD [OF runs_task [OF task.hyps(2) seen op task.hyps(3)] accounted_acct [OF task.IH task.hyps(4,5)]])
  then show ?case using seen by (rule acct_accounted)
next
  case (chain past seen w seen')
  then show ?case by (auto simp: accounted_def intro: books_chain)
next
  case (reboot past seen w)
  then show ?case by (simp add: accounted_def calls_of_def restart_def boot_world_def queue_ok_def)
qed

end
