(* ===== verification/AccountClaims.thy ===== *)
theory AccountClaims
  imports AccountSystem AmountClaims ReconClaims
begin

text \<open>Properties of the runs of the rail against the chain.\<close>

section \<open>A run\<close>

definition key :: "nat \<Rightarrow> string" where
  "key n = replicate n CHR ''k''"

definition hash :: "nat \<Rightarrow> string" where
  "hash n = CHR ''H'' # replicate n CHR ''h''"

lemma key_eq [simp]: "key m = key n \<longleftrightarrow> m = n"
  by (simp add: key_def replicate_eq_replicate)

lemma hash_eq [simp]: "hash m = hash n \<longleftrightarrow> m = n" "hash m \<noteq> []"
  by (simp_all add: hash_def replicate_eq_replicate)

definition run_env :: "(string \<Rightarrow> receipt option) \<Rightarrow> int \<Rightarrow> env" where
  "run_env seen bal = calm_env\<lparr>lib := unary_lib, uuid := key,
     rpc := (\<lambda>k. demo_rpc\<lparr>getTransactionReceipt := (\<lambda>h. Inr (seen h)), balanceOf := Inr bal,
       rpc_transfer := (\<lambda>rq. Inr (hash k))\<rparr>)\<rparr>"

lemma run_env_sel [simp]:
  "lib (run_env seen bal) = unary_lib" "cfg (run_env seen bal) = demo_cfg" "now (run_env seen bal) n = int n"
  "uuid (run_env seen bal) n = key n" "scan (run_env seen bal) xs = xs"
  "rpc (run_env seen bal) k = demo_rpc\<lparr>getTransactionReceipt := (\<lambda>h. Inr (seen h)), balanceOf := Inr bal,
       rpc_transfer := (\<lambda>rq. Inr (hash k))\<rparr>"
  "quiet (run_env seen bal)"
  "usdc (run_env seen bal) = mock_ops" "escrowSettler (run_env seen bal) = ''op''"
  by (simp_all add: run_env_def quiet_def)

lemma unary_lib_sel [simp]:
  "dround unary_lib x = x" "newDecimal unary_lib (formatUnits unary_lib n k) = Some (of_int n / 10 ^ k)"
  "parseUnits unary_lib (decToString unary_lib a) k = Inr \<lfloor>a * 10 ^ k\<rfloor>"
  "getAddress unary_lib x1 = Some x1"
  by (simp_all add: unary_lib_def read_text_def unary_text_no_digit unary_val_text)

lemma run_env_honest: "honest seen (run_env seen bal)"
proof -
  have "inj (uuid (run_env seen bal))"
    by (rule injI) simp
  then show ?thesis
    by (simp add: honest_def unary_lib_units dround_ok_def)
qed

text \<open>100 USDC at the start; a submission of 40, sent, mined, final.\<close>

definition no_receipts :: "string \<Rightarrow> receipt option" where
  "no_receipts = (\<lambda>_. None)"

definition all_mined :: "string \<Rightarrow> receipt option" where
  "all_mined = (\<lambda>_. Some demo_receipt)"

definition run_open :: world where
  "run_open = snd (run_task Opening (run_env no_receipts 100000000) (boot_world ''op'' empty_db))"

definition run_posted :: world where
  "run_posted = snd (run_task (Post (compliance_check unary_lib) demo_dto) (run_env no_receipts 100000000) run_open)"

definition run_sent :: world where
  "run_sent = snd (run_task (Worker (Suc (Suc 0))) (run_env no_receipts 100000000) run_posted)"

definition run_final :: world where
  "run_final = snd (run_task Poll (run_env all_mined 60000000) run_sent)"

definition opening_row :: settlement where
  "opening_row = \<lparr>sid = key 5, instructionId = GENESIS_INSTRUCTION_ID, toAddress = ''op'',
       amount = 100, status = FINAL, txHash = None, nonce = None, failureReason = None, retryCount = 0,
       confirmedBlockHash = None, confirmedBlockNumber = None, createdAt = 5, updatedAt = 5\<rparr>"

lemma dec6_100: "dec6 100 = 100"
  using dec6_micro [of 100000000] by simp

lemma run_open_eq: "run_open = (boot_world ''op'' empty_db)\<lparr>tick := 6, db := empty_db\<lparr>settlements := [opening_row],
     ledgerEntries := [\<lparr>le_settlementId = sid opening_row, le_account = GENESIS, le_direction = CREDIT,
       le_amount = 100, le_createdAt = 5\<rparr>]\<rparr>\<rparr>"
  by (simp add: run_open_def opening_row_def boot_world_def empty_db_def ensureOpeningSnapshot_def getChainBalance_def
      newDecimal_io_def Let_def demo_simps state_simps ledger_simps)

lemma unary_forty [simp]: "newDecimal unary_lib ''40'' = Some 40"
  by (simp add: unary_lib_def read_text_def decimal_val_def is_digit_def digit_val_def digits_val_def)

definition run_row :: settlement where
  "run_row = \<lparr>sid = key 17, instructionId = ''i'', toAddress = ''a'', amount = 40, status = COMPLIANCE_APPROVED,
     txHash = None, nonce = None, failureReason = None, retryCount = 0, confirmedBlockHash = None,
     confirmedBlockNumber = None, createdAt = 17, updatedAt = 20\<rparr>"

definition run_db :: "settlement \<Rightarrow> database" where
  "run_db r = \<lparr>settlements = [opening_row, r],
     ledgerEntries = [\<lparr>le_settlementId = key 5, le_account = GENESIS, le_direction = CREDIT, le_amount = 100,
       le_createdAt = 5\<rparr>],
     statusTransitions = [\<lparr>st_settlementId = key 17, fromStatus = RECEIVED, toStatus = COMPLIANCE_APPROVED,
       st_txHash = None, st_createdAt = 20\<rparr>], reconciliationRuns = [], outboxEvents = []\<rparr>"

lemma run_posted_eq: "run_posted = (boot_world ''op'' (run_db run_row))\<lparr>queue := [key 17], spawned := [RunWorker],
    metrics := fresh_metrics\<lparr>m_queueDepth := 1\<rparr>, tick := 21\<rparr>"
  by (simp add: run_posted_def run_open_eq opening_row_def boot_world_def empty_db_def discard_result_def create_def
      demo_dto_def newDecimal_io_def availableBalance_def sumByStatuses_def sum_in_def IN_FLIGHT_STATUSES_def
      insert_received_def screen_def compliance_check_def blocklist_def enqueue_def enqueueId_def
      updateQueueDepth_def Let_def demo_simps state_simps ledger_simps run_row_def run_db_def)

lemma run_sent_facts:
  "settlements (db run_sent) = [opening_row, run_row\<lparr>status := SUBMITTED, txHash := Some (hash 29), nonce := Some 0, updatedAt := 31\<rparr>]"
  "map rq_units (map fst (broadcastLog run_sent)) = [40000000]" "map snd (broadcastLog run_sent) = [Some (hash 29)]"
  "tick run_sent = 32" "map ob_id (outboxEvents (db run_sent)) = [key 31]" "bookings OPERATOR (db run_sent) = []"
  by (simp_all add: run_sent_def run_posted_eq run_row_def opening_row_def run_db_def boot_world_def fresh_metrics_def
      discard_result_def runWorker_def Let_def demo_simps state_simps relayer_simps bookings_def)

lemma run_sent_calls: "calls_of [] run_sent = [(hash 29, 40000000)]"
proof -
  from run_sent_facts(2,3) obtain rq where "broadcastLog run_sent = [(rq, Some (hash 29))]" "rq_units rq = 40000000"
    by (cases "broadcastLog run_sent") auto
  then show ?thesis by (simp add: calls_of_def)
qed

lemma run_start: "honest_run 100000000 [] no_receipts run_open"
  unfolding run_open_def no_receipts_def
  by (rule honest_run.start [OF run_env_honest [of "\<lambda>_. None"]]) simp_all

text \<open>The run up to the point where the transfer is mined and not yet final.\<close>

lemma run_mid: "honest_run 100000000 [] all_mined run_sent"
proof -
  have "honest_run 100000000 [] no_receipts run_posted"
    unfolding run_posted_def
    by (rule honest_run.task [OF run_start run_env_honest])
       (auto simp: fresh_ids_def fresh_hashes_def calls_of_def run_open_eq boot_world_def empty_db_def demo_dto_def
          intro: micro_of_int [of 40000000, simplified])
  then have "honest_run 100000000 [] no_receipts run_sent"
    unfolding run_sent_def
    by (rule honest_run.task [OF _ run_env_honest])
       (auto simp: fresh_ids_def fresh_hashes_def calls_of_def run_posted_eq boot_world_def run_db_def)
  then show ?thesis
    by (rule honest_run.chain)
       (auto simp: plain_receipts_def all_mined_def demo_receipt_def chain_step_def run_sent_facts(1) run_sent_calls
          opening_row_def run_row_def success_def mined_def)
qed

section \<open>Ledger and chain\<close>

lemma sum_rows_mono:
  fixes f :: "'a \<Rightarrow> rat"
  assumes "\<And>r. r \<in># R \<Longrightarrow> P r \<Longrightarrow> Q r" "\<And>r. r \<in># R \<Longrightarrow> 0 \<le> f r"
  shows "(\<Sum>r \<in># filter_mset P R. f r) \<le> (\<Sum>r \<in># filter_mset Q R. f r)"
  using assms
proof (induction R)
  case (add x R)
  then have "P x \<Longrightarrow> Q x" "0 \<le> f x" "(\<Sum>r \<in># filter_mset P R. f r) \<le> (\<Sum>r \<in># filter_mset Q R. f r)" by auto
  then show ?case by (cases "P x"; cases "Q x") simp_all
qed simp

text \<open>What is mined and pending is pending, and all of it is covered by the opening balance.\<close>

lemma pending_bounds:
  assumes "books op seen calls d"
  shows "0 \<le> mined_pending seen d" "mined_pending seen d \<le> sum_in d PENDING_STATUSES" "sum_in d PENDING_STATUSES \<le> op"
proof -
  note B = booksD [OF assms]
  have nonneg: "\<And>r. r \<in># mset (settlements d) \<Longrightarrow> 0 \<le> amount r" using B(7) by (simp add: row_ok_def)
  have mp: "mined_pending seen d =
      (\<Sum>r \<in># filter_mset (\<lambda>r. status r \<in> set PENDING_STATUSES \<and> mined seen r) (mset (settlements d)). amount r)"
    by (simp add: mined_pending_def by_statuses_def sum_filter_rows conj_commute)
  show "0 \<le> mined_pending seen d" unfolding mp by (rule sum_rows_nonneg) (rule nonneg)
  show "mined_pending seen d \<le> sum_in d PENDING_STATUSES"
    unfolding mp sum_in_rows by (rule sum_rows_mono [OF _ nonneg]) simp_all
  have "sum_in d PENDING_STATUSES \<le> (\<Sum>r \<in># filter_mset owed (mset (settlements d)). amount r)"
    unfolding sum_in_rows
  proof (rule sum_rows_mono [OF _ nonneg])
    fix r
    assume "r \<in># mset (settlements d)" "status r \<in> set PENDING_STATUSES"
    then show "owed r" using B(7) [of r] by (auto simp: owed_def row_ok_def PENDING_STATUSES_def split: if_splits)
  qed simp
  then show "sum_in d PENDING_STATUSES \<le> op" using assms by (simp add: books_def)
qed

text \<open>The pending amount is covered by the ledger's balance.\<close>

lemma pending_covered:
  assumes b: "books op seen calls d"
  shows "mined_pending seen d \<le> operator_balance d"
proof -
  note B = booksD [OF b]
  have nonneg: "\<And>r. r \<in># mset (settlements d) \<Longrightarrow> 0 \<le> amount r" using B(7) by (simp add: row_ok_def)
  have "sum_in d PENDING_STATUSES \<le> sum_in d IN_FLIGHT_STATUSES"
    unfolding sum_in_rows by (rule sum_rows_mono [OF _ nonneg]) (auto simp: PENDING_STATUSES_def IN_FLIGHT_STATUSES_def)
  moreover have "(\<Sum>r \<in># filter_mset owed (mset (settlements d)). amount r) \<le> op" using b by (simp add: books_def)
  ultimately show ?thesis
    using pending_bounds(2) [OF b] books_available [OF b] by (simp add: available_of_def)
qed

text \<open>Reconciliation on an accounted world, whatever the node says of the balance.\<close>

lemma reconcile_accounted:
  assumes acc: "accounted funds past seen w" and funds: "funds < 100000000000000000000" and h: "honest seen e"
    and seen: "\<And>k h. getTransactionReceipt (rpc e k) h = Inr (seen h)"
    and bal: "\<And>k. balanceOf (rpc e k) = Inr raw" and raw: "0 \<le> raw" "raw < 100000000000000000000"
  shows "let (res, v) = reconcile e w in \<exists>run. res = Inr run \<and>
    (rr_status run = MATCHED \<longleftrightarrow> raw = chain_units seen funds (calls_of past w)) \<and>
    diff run = of_int (chain_units seen funds (calls_of past w) - raw) / 1000000 \<and>
    ledgerBalance run = operator_balance (db w) \<and> pendingAmount run = mined_pending seen (db w) \<and>
    chainBalance run = of_int raw / 1000000"
proof -
  let ?op = "of_int funds / 1000000 :: rat" and ?chain = "of_int raw / 1000000 :: rat"
  let ?L = "operator_balance (db w)" and ?P = "mined_pending seen (db w)"
  from acc have b: "books ?op seen (calls_of past w) (db w)" and six: "decimals w = 6" by (simp_all add: accounted_def)
  have e: "quiet e" "units_ok (lib e)" "dround_ok (lib e)" "\<And>xs. mset (scan e xs) = mset xs"
    using h by (simp_all add: honest_def)
  have small: "of_int x / 1000000 < (100000000000000 :: rat)" if "x < 100000000000000000000" for x
  proof -
    have "of_int x < (of_int 100000000000000000000 :: rat)" using that by (simp only: of_int_less_iff)
    then show ?thesis by simp
  qed
  note B = booksD [OF b] and X = books_exact [OF b e(3) small [OF funds]] and P = pending_bounds [OF b]
  have agree: "?L - ?P = of_int (chain_units seen funds (calls_of past w)) / 1000000" by (rule books_agree [OF b])
  have dec: "newDecimal (lib e) (formatUnits (lib e) raw (decimals w)) = Some ?chain"
    using e(2) by (simp add: units_ok_def six)
  have "0 \<le> ?chain" using raw(1) by simp
  then have close: "\<bar>?L - ?P\<bar> < 100000000000000" "\<bar>?L - ?P - ?chain\<bar> < 100000000000000"
    using X(4,5) P small [OF funds] small [OF raw(2)] pending_covered [OF b] by linarith+
  have "let (res, v) = reconcile e w in \<exists>run. res = Inr run \<and> (rr_status run = MATCHED \<longleftrightarrow> ?L - ?P = ?chain) \<and>
    ledgerBalance run = ?L \<and> pendingAmount run = ?P \<and> chainBalance run = ?chain \<and> diff run = ?L - ?P - ?chain \<and>
    db v = (db w)\<lparr>reconciliationRuns := reconciliationRuns (db w) @ [run]\<rparr>"
    by (rule quiet_reconcile [OF e(1) B(4) e(3) _ seen bal dec])
       (use X e B(7,8) P small [OF funds] close in \<open>auto simp: exact_available_def by_statuses_def row_ok_def\<close>)
  then show ?thesis unfolding agree by (auto simp: Let_def diff_divide_distrib split: prod.splits)
qed

lemma chain_units_bounds:
  assumes "accounted funds past seen w" "honest seen e" "funds < 100000000000000000000"
  shows "0 \<le> chain_units seen funds (calls_of past w)" "chain_units seen funds (calls_of past w) \<le> funds"
proof -
  let ?u = "chain_units seen funds (calls_of past w)"
  have b: "books (of_int funds / 1000000) seen (calls_of past w) (db w)" using assms(1) by (simp add: accounted_def)
  have "of_int funds < (of_int 100000000000000000000 :: rat)" using assms(3) by (simp only: of_int_less_iff)
  then have op: "of_int funds / 1000000 < (100000000000000 :: rat)" by simp
  have l: "dround_ok (lib e)" using assms(2) by (simp add: honest_def)
  have "0 \<le> (of_int ?u :: rat) / 1000000" "(of_int ?u :: rat) / 1000000 \<le> of_int funds / 1000000"
    unfolding books_agree [OF b, symmetric]
    using pending_covered [OF b] pending_bounds(1) [OF b] books_exact(5) [OF b l op] by linarith+
  then show "0 \<le> ?u" "?u \<le> funds" by (simp_all add: divide_le_cancel)
qed

text \<open>
  C1: Ledger and chain agree throughout. In every run of whole tasks (submissions, the worker, the sweep, chain
  events and polls, reconciliations, the relay, queries, restarts) on an honest node and a chain that keeps
  the transfers of FINAL settlements and pays no call the service gave up, reconciliation reports MATCHED
  with a difference of zero at every point, also while transfers are mined and not yet final: the ledger's
  balance less the mined pending amount is the balance of the operator on the chain.
\<close>

theorem reconciliation_matches:
  assumes "honest_run funds past seen w" "funds < 100000000000000000000" "honest seen e"
    and "\<And>k h. getTransactionReceipt (rpc e k) h = Inr (seen h)"
    and "\<And>k. balanceOf (rpc e k) = Inr (chain_units seen funds (calls_of past w))"
  shows "let (res, v) = reconcile e w in \<exists>run. res = Inr run \<and> rr_status run = MATCHED \<and> diff run = 0 \<and>
    ledgerBalance run = operator_balance (db w) \<and> pendingAmount run = mined_pending seen (db w) \<and>
    chainBalance run = of_int (chain_units seen funds (calls_of past w)) / 1000000"
proof -
  have acc: "accounted funds past seen w" by (rule run_accounted [OF assms(1,2)])
  have "0 \<le> chain_units seen funds (calls_of past w)" "chain_units seen funds (calls_of past w) < 100000000000000000000"
    using chain_units_bounds [OF acc assms(3,2)] assms(2) by simp_all
  from reconcile_accounted [OF acc assms(2-5) this] show ?thesis by (auto simp: Let_def split: prod.splits)
qed

lemma reconciliation_matches_witness:
  "let (res, v) = reconcile (run_env all_mined 60000000) run_sent in \<exists>run. res = Inr run \<and> rr_status run = MATCHED \<and>
     chainBalance run = 60"
proof -
  have "chain_units all_mined 100000000 (calls_of [] run_sent) = 60000000"
    by (simp add: chain_units_def run_sent_calls all_mined_def success_def demo_receipt_def)
  with reconciliation_matches [OF run_mid _ run_env_honest, of 60000000] show ?thesis
    by (auto split: prod.splits)
qed

text \<open>The successful calls are those of the mined rows, one for one.\<close>

lemma books_payments:
  assumes b: "books op seen calls d"
  shows "mset (filter (\<lambda>c. success seen (fst c)) calls) = mset (map call_of (filter (mined seen) (settlements d)))"
proof -
  from b obtain A where A: "mset calls = sent_calls (mset (settlements d)) + A"
    "\<And>c. c \<in># A \<Longrightarrow> \<not> success seen (fst c)" by (auto simp: books_def)
  have none: "filter_mset (\<lambda>c. success seen (fst c)) A = {#}" using A(2) by (induction A) auto
  have rows: "filter_mset (\<lambda>c. success seen (fst c)) (sent_calls R) = image_mset call_of (filter_mset (mined seen) R)"
    if "\<And>r. r \<in># R \<Longrightarrow> txHash r \<noteq> Some []" for R
    using that
  proof (induction R)
    case (add r R)
    then have "mined seen r \<longleftrightarrow> txHash r \<noteq> None \<and> success seen (the (txHash r))" by (auto simp: mined_success)
    with add show ?case by (auto simp: sent_calls_def call_of_def)
  qed (simp add: sent_calls_def)
  have "filter_mset (\<lambda>c. success seen (fst c)) (sent_calls (mset (settlements d))) =
      image_mset call_of (filter_mset (mined seen) (mset (settlements d)))"
    using booksD(7) [OF b] by (intro rows) (simp add: row_ok_def)
  then show ?thesis by (simp add: A(1) none)
qed

text \<open>
  The account in the other direction. In such a run, whose chain pays no call that no settlement outside
  FAILED holds any more (a premise of its steps), the transfers that succeeded are, one for one, those of
  the settlements whose stored transaction was mined, with their amounts; a settlement is in the ledger
  exactly when it is FINAL; and what is promised or paid never exceeds the opening balance.
\<close>

theorem payments_are_settlements:
  assumes "honest_run funds past seen w" "funds < 100000000000000000000"
  shows "mset (filter (\<lambda>c. success seen (fst c)) (calls_of past w)) =
      mset (map call_of (filter (mined seen) (settlements (db w)))) \<and>
    distinct (map fst (calls_of past w)) \<and>
    (\<forall>r \<in> set (settlements (db w)). instructionId r \<noteq> GENESIS_INSTRUCTION_ID \<longrightarrow>
      (booked (db w) (sid r) \<longleftrightarrow> status r = FINAL) \<and> (status r = FINAL \<longrightarrow> mined seen r) \<and>
      (status r = FAILED \<longrightarrow> \<not> mined seen r)) \<and>
    (\<Sum>r \<leftarrow> filter owed (settlements (db w)). amount r) \<le> of_int funds / 1000000"
proof -
  have b: "books (of_int funds / 1000000) seen (calls_of past w) (db w)"
    using run_accounted [OF assms] by (simp add: accounted_def)
  show ?thesis
    using books_payments [OF b] booksD(7) [OF b] b by (auto simp: row_ok_def books_def sum_filter_rows)
qed

lemma payments_are_settlements_witness:
  "mset (map call_of (filter (mined all_mined) (settlements (db run_sent)))) = {#(hash 29, 40000000)#}"
proof -
  have "filter (\<lambda>c. success all_mined (fst c)) (calls_of [] run_sent) = [(hash 29, 40000000)]"
    by (simp add: run_sent_calls all_mined_def success_def demo_receipt_def)
  with payments_are_settlements [OF run_mid] show ?thesis by simp
qed

section \<open>What the chain must not do\<close>

text \<open>
  A revert is taken at its first sight. The listener makes a settlement FAILED on a receipt of status 0 at
  any depth: when a reorganisation replaces that block and the transfer succeeds after all, the settlement
  stays FAILED, nothing looks at it again, and reconciliation reports a MISMATCH of its amount.
\<close>

definition reverting_node :: env where
  "reverting_node = demo_env (\<lambda>_. demo_rpc\<lparr>getTransactionReceipt := (\<lambda>_. Inr (Some (demo_receipt\<lparr>rc_status := 0\<rparr>)))\<rparr>)"

definition db_failed :: "string \<Rightarrow> int \<Rightarrow> string \<Rightarrow> database" where
  "db_failed why t ev = db_sent\<lparr>settlements := settlements db_open @ [sent_row\<lparr>status := FAILED,
       failureReason := Some why, updatedAt := t\<rparr>],
     statusTransitions := statusTransitions db_sent @ [trail_entry SUBMITTED FAILED (Some ''H'') t],
     outboxEvents := [sent_event, \<lparr>ob_id = ev, ob_settlementId = ''s'', ob_type = ''settlement.failed'',
       ob_payload = \<lparr>p_settlementId = ''s'', p_instructionId = ''i'', p_status = FAILED,
         p_amount = ''40'', p_toAddress = ''a'', p_txHash = Some ''H''\<rparr>,
       ob_createdAt = t, ob_publishedAt = None\<rparr>]\<rparr>"

lemma failed_mismatch:
  "let (res, v) = reconcile settled_node (boot_world ''op'' (db_failed why t ev)) in
     \<exists>run. res = Inr run \<and> rr_status run = MISMATCH \<and> diff run = 40"
  by (simp add: settled_node_def db_failed_def db_stages boot_world_def reconcile_def getChainBalance_def
      newDecimal_io_def computeMinedPending_def PENDING_STATUSES_def insert_run_def Let_def EPSILON_def
      demo_simps state_simps ledger_simps)

theorem early_failure_paid:
  "let d = db (snd (run_task Poll reverting_node w_sent)); (res, v) = reconcile settled_node (boot_world ''op'' d) in
     map status (settlements d) = [FINAL, FAILED] \<and> (\<exists>run. res = Inr run \<and> rr_status run = MISMATCH \<and> diff run = 40)"
proof -
  have "\<exists>t ev. db (snd (run_task Poll reverting_node w_sent)) = db_failed ''REVERTED_ONCHAIN'' t ev"
    by (simp add: reverting_node_def db_failed_def w_sent_def w_ready_def w_open_def boot_world_def
        db_stages pollConfirmations_def getCurrentBlock_def processReceipt_def Let_def demo_simps state_simps)
  then obtain t ev where d: "db (snd (run_task Poll reverting_node w_sent)) = db_failed ''REVERTED_ONCHAIN'' t ev" by blast
  show ?thesis
    unfolding d using failed_mismatch [of "''REVERTED_ONCHAIN''" t ev]
    by (simp add: db_failed_def db_open_def split: prod.splits)
qed

text \<open>
  A transfer given up may still be mined. When the resends of a settlement are used up the sweep makes it
  FAILED, but its last transaction is still in the node's pool; mined later, it is paid and FAILED, with
  the same mismatch.
\<close>

definition silent_node :: env where
  "silent_node = (demo_env (\<lambda>_. demo_rpc\<lparr>getTransactionReceipt := (\<lambda>_. Inr None)\<rparr>))\<lparr>
     cfg := demo_cfg\<lparr>maxRetries := 0\<rparr>, now := (\<lambda>n. int n + 100000)\<rparr>"

theorem abandoned_transfer_paid:
  "let d = db (snd (run_task Sweep silent_node w_sent)); (res, v) = reconcile settled_node (boot_world ''op'' d) in
     map failureReason (settlements d) = [None, Some ''STUCK_MAX_RETRIES''] \<and> map status (settlements d) = [FINAL, FAILED] \<and>
     (\<exists>run. res = Inr run \<and> rr_status run = MISMATCH \<and> diff run = 40)"
proof -
  have "\<exists>t ev. db (snd (run_task Sweep silent_node w_sent)) = db_failed ''STUCK_MAX_RETRIES'' t ev"
    by (simp add: silent_node_def db_failed_def w_sent_def w_ready_def w_open_def boot_world_def
        db_stages watcher_sweep_def sweepStuckTransactions_def sweep_one_def Let_def demo_simps state_simps relayer_simps quiet_def demo_env_def)
  then obtain t ev where d: "db (snd (run_task Sweep silent_node w_sent)) = db_failed ''STUCK_MAX_RETRIES'' t ev" by blast
  show ?thesis
    unfolding d using failed_mismatch [of "''STUCK_MAX_RETRIES''" t ev]
    by (simp add: db_failed_def db_stages split: prod.splits)
qed

end
