(* ===== verification/CatchUp.thy ===== *)
theory CatchUp
  imports ListenerSpec AccountSystem
begin

text \<open>What a whole poll of the listener brings about: every open settlement goes where its receipt says.\<close>

section \<open>One row\<close>

definition verdict :: "env \<Rightarrow> int \<Rightarrow> (string \<Rightarrow> receipt option) \<Rightarrow> settlement \<Rightarrow> settlement_status" where
  "verdict e block seen s = receipt_verdict (cfg e) s block (seen (the (txHash s)))"

lemma row_verdict:
  assumes h: "honest seen e" "plain_receipts seen" "\<And>k x. getTransactionReceipt (rpc e k) x = Inr (seen x)"
    and s: "open_status s" "F (sid s) = None" "row (db w) (sid s) = Some s" and a: "account e op seen past F w"
  shows "\<exists>v. processReceipt s block e w = (Inr (), v) \<and> account e op seen past F v \<and>
    (\<exists>r. row (db v) (sid s) = Some r \<and> status r = verdict e block seen s) \<and>
    (\<forall>j. j \<noteq> sid s \<longrightarrow> row (db v) j = row (db w) j)"
proof -
  note B = booksD [OF account_books [OF a]]
  have ok: "row_ok seen (booked (db w)) s" by (rule B(5) [OF s(3)])
  then obtain x where x: "txHash s = Some x" "x \<noteq> []" and nb: "\<not> booked (db w) (sid s)"
    using s(1) by (auto simp: row_ok_def open_status_def split: if_splits)
  have "brought s (seen x) (w\<lparr>tick := Suc (Suc (tick w))\<rparr>) (verdict e block seen s) (processReceipt s block e w)"
    unfolding verdict_def x(1) option.sel
    by (rule quiet_receipt) (use h s a x nb B(4) in \<open>auto simp: honest_def account_def open_status_def\<close>)
  then obtain v where v: "processReceipt s block e w = (Inr (), v)"
    "\<exists>r. row (db v) (sid s) = Some r \<and> status r = verdict e block seen s"
    "\<forall>j. j \<noteq> sid s \<longrightarrow> row (db v) j = row (db w) j"
    by (cases "processReceipt s block e w") (auto simp: brought_def)
  moreover have "account e op seen past F v"
    using runs_at [OF runs_processReceipt [where F = F and s = s and op = op and past = past and block = block, OF h(1,2) s(2,1)],
      where w = w] a s(3) v(1) by simp
  ultimately show ?thesis by blast
qed

section \<open>All rows\<close>

lemma rows_verdict:
  assumes h: "honest seen e" "plain_receipts seen" "\<And>k x. getTransactionReceipt (rpc e k) x = Inr (seen x)"
    and rows: "distinct (map sid rows)" "\<And>s. s \<in> set rows \<Longrightarrow> open_status s"
    and a: "account e op seen past (rows_map rows) w"
  shows "\<exists>v. for_each rows (\<lambda>s. processReceipt s block) e w = (Inr (), v) \<and> acct e op seen past v \<and>
    (\<forall>j. case rows_map rows j of Some s \<Rightarrow> \<exists>r. row (db v) j = Some r \<and> status r = verdict e block seen s
       | None \<Rightarrow> row (db v) j = row (db w) j)"
  using rows a
proof (induction rows arbitrary: w)
  case Nil
  then show ?case by (simp add: run_simps)
next
  case (Cons s rows)
  from Cons.prems(1) have new: "sid s \<notin> sid ` set rows" by simp
  note c = account_cons [OF new]
  have op: "open_status s" using Cons.prems(2) by simp
  obtain u where u: "processReceipt s block e w = (Inr (), u)" "account e op seen past (rows_map rows) u"
    "\<exists>r. row (db u) (sid s) = Some r \<and> status r = verdict e block seen s" "\<And>j. j \<noteq> sid s \<Longrightarrow> row (db u) j = row (db w) j"
    using row_verdict [where F = "rows_map rows" and s = s, OF h op c(2)] c(1) [OF Cons.prems(3)] by blast
  obtain v where v: "for_each rows (\<lambda>s. processReceipt s block) e u = (Inr (), v)" "acct e op seen past v"
    "\<And>j. case rows_map rows j of Some s \<Rightarrow> \<exists>r. row (db v) j = Some r \<and> status r = verdict e block seen s
       | None \<Rightarrow> row (db v) j = row (db u) j"
    using Cons.IH [OF _ _ u(2)] Cons.prems(1,2) by auto
  have "case rows_map (s # rows) j of Some s \<Rightarrow> \<exists>r. row (db v) j = Some r \<and> status r = verdict e block seen s
       | None \<Rightarrow> row (db v) j = row (db w) j" for j
    using v(3) [of j] u(3,4) c(2) by (cases "j = sid s") (auto simp: rows_map_def split: option.splits)
  with u(1) v(1,2) show ?case by (simp add: run_simps)
qed

lemma poll_verdict:
  assumes h: "honest seen e" "plain_receipts seen" "\<And>k x. getTransactionReceipt (rpc e k) x = Inr (seen x)"
    and block: "\<And>k. getBlockNumber (rpc e k) = Inr block" and idle: "\<not> polling w" and a: "acct e op seen past w"
  shows "\<exists>v. pollConfirmations e w = (Inr (), v) \<and> acct e op seen past v \<and>
    (\<forall>s \<in> set (settlements (db w)). if open_status s
       then \<exists>r. row (db v) (sid s) = Some r \<and> status r = verdict e block seen s else row (db v) (sid s) = Some s)"
proof -
  have q: "quiet e" using h(1) by (simp add: honest_def)
  let ?w1 = "w\<lparr>polling := True\<rparr>" and ?sts = "[SUBMITTED, CONFIRMED]"
  have dist: "distinct (map sid (settlements (db w)))" by (rule booksD(3) [OF account_books [OF a]])
  obtain rows k where find: "findByStatuses ?sts e ?w1 = (Inr rows, ?w1\<lparr>tick := k\<rparr>)"
    and F: "account e op seen past (rows_map rows) (?w1\<lparr>tick := k\<rparr>)" "distinct (map sid rows)"
    and rows: "set rows = set (by_statuses (db w) ?sts)"
  proof -
    have run: "findByStatuses ?sts e ?w1 = (Inr (scan e (by_statuses (db w) ?sts)), ?w1\<lparr>tick := Suc (Suc (tick w))\<rparr>)"
      by (simp add: findByStatuses_def quiet_db_read [OF q])
    moreover have "mset (scan e (by_statuses (db w) ?sts)) = mset (by_statuses (db w) ?sts)" using h(1) by (simp add: honest_def)
    ultimately show ?thesis
      using that [of "scan e (by_statuses (db w) ?sts)" "Suc (Suc (tick w))"] a
        runs_at [OF runs_findByStatuses [OF h(1), where sts = ?sts and op = op and past = past], of ?w1]
      by (auto dest: mset_eq_setD)
  qed
  have all: "open_status s \<longleftrightarrow> s \<in> set rows" if "s \<in> set (settlements (db w))" for s
    using that by (auto simp: rows by_statuses_def open_status_def)
  have in_db: "s \<in> set (settlements (db w))" if "s \<in> set rows" for s using that by (simp add: rows by_statuses_def)
  have none: "rows_map rows (sid s) = None" if "s \<in> set (settlements (db w))" "s \<notin> set rows" for s
  proof -
    have "sid s \<noteq> sid r" if "r \<in> set rows" for r
      using in_db [OF that] \<open>s \<in> set (settlements (db w))\<close> \<open>s \<notin> set rows\<close> that dist by (auto simp: distinct_map dest: inj_onD)
    then show ?thesis unfolding rows_map_def map_of_eq_None_iff by fastforce
  qed
  have some: "rows_map rows (sid s) = Some s" if "s \<in> set rows" for s
    using that F(2) by (auto simp: rows_map_def comp_def intro!: map_of_is_SomeI)
  let ?body = "\<lambda>open_rows. if open_rows = [] then ret () else await getCurrentBlock (\<lambda>b. for_each open_rows (\<lambda>s. processReceipt s b))"
  obtain v where v: "?body rows e (?w1\<lparr>tick := k\<rparr>) = (Inr (), v)" "acct e op seen past v"
    "\<And>j. case rows_map rows j of Some s \<Rightarrow> \<exists>r. row (db v) j = Some r \<and> status r = verdict e block seen s
       | None \<Rightarrow> row (db v) j = row (db w) j"
  proof (cases "rows = []")
    case True
    with F(1) show ?thesis by (intro that [of "?w1\<lparr>tick := k\<rparr>"]) (simp_all add: run_simps)
  next
    case False
    let ?w2 = "?w1\<lparr>tick := Suc (Suc k)\<rparr>"
    have "account e op seen past (rows_map rows) ?w2"
      using steadyD [OF steady_account F(1), of "Suc (Suc k)"] by simp
    from rows_verdict [OF h F(2) _ this, of block] all in_db obtain v where
      sent: "for_each rows (\<lambda>s. processReceipt s block) e ?w2 = (Inr (), v)" "acct e op seen past v"
      and after: "\<forall>j. case rows_map rows j of Some s \<Rightarrow> \<exists>r. row (db v) j = Some r \<and> status r = verdict e block seen s
       | None \<Rightarrow> row (db v) j = row (db ?w2) j" by auto
    have "case rows_map rows j of Some s \<Rightarrow> \<exists>r. row (db v) j = Some r \<and> status r = verdict e block seen s
       | None \<Rightarrow> row (db v) j = row (db w) j" for j
      using after [THEN spec, of j] by (simp split: option.splits)
    moreover have "?body rows e (?w1\<lparr>tick := k\<rparr>) = (Inr (), v)"
      using False sent(1) by (simp add: getCurrentBlock_def run_simps quiet_rpc_call [OF q] block)
    ultimately show ?thesis using that sent(2) by blast
  qed
  have "pollConfirmations e w = (Inr (), v\<lparr>polling := False\<rparr>)"
    using idle find v(1) by (simp add: pollConfirmations_def tryFinally_def run_simps del: for_each.simps split del: if_split)
  moreover have "if open_status s then \<exists>r. row (db v) (sid s) = Some r \<and> status r = verdict e block seen s
      else row (db v) (sid s) = Some s" if "s \<in> set (settlements (db w))" for s
    using v(3) [of "sid s"] all [OF that] some none [OF that] row_unique [OF dist that] by (cases "s \<in> set rows") simp_all
  ultimately show ?thesis using v(2) by (intro exI [of _ "v\<lparr>polling := False\<rparr>"]) simp
qed

end
