(* ===== verification/CatchUpClaims.thy ===== *)
theory CatchUpClaims
  imports CatchUp AccountClaims
begin

text \<open>The listener catches up with the chain in one poll.\<close>

text \<open>
  C5: One poll catches up. In every run of whole tasks on an honest node, whatever events were missed before, a
  poll whose node answers brings each open settlement to the status its receipt and the current block call
  for (FAILED, back to SUBMITTED, CONFIRMED, FINAL, or as it was), leaves every other settlement untouched, and
  a settlement is then booked exactly when it is FINAL.
\<close>

theorem poll_catches_up:
  assumes "honest_run funds past seen w" "funds < 100000000000000000000" "honest seen e"
    and "fresh_ids e w" "fresh_hashes e (tick w) (calls_of past w)" "\<not> polling w"
    and "\<And>k x. getTransactionReceipt (rpc e k) x = Inr (seen x)" "\<And>k. getBlockNumber (rpc e k) = Inr block"
  shows "let (res, v) = pollConfirmations e w in res = Inr () \<and>
    (\<forall>s \<in> set (settlements (db w)). \<exists>r. row (db v) (sid s) = Some r \<and>
      (if status s = SUBMITTED \<or> status s = CONFIRMED
       then status r = receipt_verdict (cfg e) s block (seen (the (txHash s))) else r = s) \<and>
      (instructionId r \<noteq> GENESIS_INSTRUCTION_ID \<longrightarrow> (booked (db v) (sid r) \<longleftrightarrow> status r = FINAL)))"
proof -
  have acc: "accounted funds past seen w" by (rule run_accounted [OF assms(1,2)])
  then have seen: "plain_receipts seen" by (simp add: accounted_def)
  obtain v where v: "pollConfirmations e w = (Inr (), v)" "acct e (of_int funds / 1000000) seen past v"
    "\<forall>s \<in> set (settlements (db w)). if open_status s
       then \<exists>r. row (db v) (sid s) = Some r \<and> status r = verdict e block seen s else row (db v) (sid s) = Some s"
    using poll_verdict [OF assms(3) seen assms(7,8,6) accounted_acct [OF acc assms(4,5)]] by blast
  have "booked (db v) (sid r) \<longleftrightarrow> status r = FINAL"
    if "row (db v) i = Some r" "instructionId r \<noteq> GENESIS_INSTRUCTION_ID" for i r
    using booksD(5) [OF account_books [OF v(2)] that(1)] that(2) by (simp add: row_ok_def)
  with v show ?thesis by (fastforce simp: open_status_def verdict_def split: if_splits)
qed

lemma poll_catches_up_witness:
  "let (res, v) = pollConfirmations (run_env all_mined 60000000) run_sent in
     \<exists>r. row (db v) (key 17) = Some r \<and> status r = FINAL"
proof -
  let ?e = "run_env all_mined 60000000"
  have new: "fresh_ids ?e run_sent" "fresh_hashes ?e (tick run_sent) (calls_of [] run_sent)"
    using run_sent_facts(4,5) run_sent_calls by (auto simp: fresh_ids_def fresh_hashes_def)
  have idle: "\<not> polling run_sent"
    by (simp add: run_sent_def run_posted_eq run_row_def opening_row_def run_db_def boot_world_def fresh_metrics_def
      discard_result_def runWorker_def Let_def demo_simps state_simps relayer_simps)
  let ?s = "run_row\<lparr>status := SUBMITTED, txHash := Some (hash 29), nonce := Some 0, updatedAt := 31\<rparr>"
  have s: "?s \<in> set (settlements (db run_sent))" "sid ?s = key 17" "status ?s = SUBMITTED"
    by (simp_all add: run_sent_facts(1)) (simp add: run_row_def)
  have verdict: "receipt_verdict (cfg ?e) ?s 14 (all_mined (the (txHash ?s))) = FINAL"
    by (simp add: receipt_verdict_def all_mined_def demo_receipt_def demo_cfg_def run_row_def)
  have "getBlockNumber (rpc ?e k) = Inr 14" "getTransactionReceipt (rpc ?e k) x = Inr (all_mined x)" for k x
    by (simp_all add: demo_rpc_def)
  from poll_catches_up [OF run_mid _ run_env_honest new idle this(2,1)] s verdict show ?thesis
    by (fastforce split: prod.splits)
qed

end
