(* ===== verification/EndToEnd.thy ===== *)
theory EndToEnd
  imports CatchUp AccountClaims
begin

text \<open>One settlement from the request to the ledger, through the submission service, the worker and the listener.\<close>

section \<open>The stages\<close>

lemma posted:
  assumes acc: "accounted funds past seen w" and f: "funds < 100000000000000000000" and h: "honest seen e"
    and new: "by_instruction (db w) (d_instructionId dto) = None" "uuid e (tick w + 11) \<notin> sid ` set (settlements (db w))"
    and a: "newDecimal (lib e) (d_amount dto) = Some a" "micro a" "a \<le> available_of (db w)"
    and ok: "approved (provider (d_toAddress dto))" "\<not> draining w"
  shows "\<exists>s v. run_task (Post provider dto) e w = (Inr (), v) \<and> row (db v) (sid s) = Some s \<and>
    queue v = queue w @ [sid s] \<and> status s = COMPLIANCE_APPROVED \<and> instructionId s = d_instructionId dto \<and>
    toAddress s = d_toAddress dto \<and> amount s = a \<and> confirmedBlockHash s = None \<and>
    workerRunning v = workerRunning w \<and> \<not> draining v \<and> polling v = polling w \<and> decimals v = decimals w"
proof -
  have q: "quiet e" and l: "dround_ok (lib e)" using h by (simp_all add: honest_def)
  have "of_int funds < (of_int 100000000000000000000 :: rat)" using f by (simp only: of_int_less_iff)
  then have op: "of_int funds / 1000000 < (100000000000000 :: rat)" by simp
  have b: "books (of_int funds / 1000000) seen (calls_of past w) (db w)" using acc by (simp add: accounted_def)
  let ?r = "received_row e (tick w + 11) dto a"
  note A = quiet_accepted [OF q new(1) a(1) books_exact(1) [OF b l op] a(3) new(2)]
  let ?v = "w\<lparr>db := (db w)\<lparr>settlements := settlements (db w) @ [?r]\<rparr>, tick := tick w + 12\<rparr>"
  obtain c v t where c: "screen provider dto ?r e ?v = (Inr c, v)" "queue v = queue w @ [sid ?r]"
    "row (db v) (sid ?r) = Some (apply_opts t COMPLIANCE_APPROVED no_opts ?r)"
    "workerRunning v = workerRunning w" "\<not> draining v" "polling v = polling w" "decimals v = decimals w"
    using ok A(2) quiet_screen [OF q A(2), of provider dto]
    by (simp add: Let_def enqueueId_def run_simps updateQueueDepth_def)
  have "run_task (Post provider dto) e w = (Inr (), v)"
    by (simp add: discard_result_def run_simps A(1) c(1))
  moreover have "apply_opts t COMPLIANCE_APPROVED no_opts ?r = ?r\<lparr>status := COMPLIANCE_APPROVED, updatedAt := t\<rparr>"
    by (simp add: apply_opts_def no_opts_def)
  ultimately show ?thesis
    using c(2-) a(2)
    by (intro exI [of _ "?r\<lparr>status := COMPLIANCE_APPROVED, updatedAt := t\<rparr>"] exI [of _ v])
       (simp add: received_row_def dec6_fix)
qed

lemma worked:
  assumes q: "quiet e" and up: "node_accepts e" and w: "queue w = [i]" "\<not> workerRunning w" "\<not> draining w" "fresh_ids e w"
    and s: "row (db w) i = Some s" "status s = COMPLIANCE_APPROVED"
  shows "\<exists>v rq h t n k. run_task (Worker 2) e w = (Inr (), v) \<and> broadcastLog v = broadcastLog w @ [(rq, Some h)] \<and>
    rq_to rq = toAddress s \<and> parseUnits (lib e) (decToString (lib e) (amount s)) (decimals w) = Inr (rq_units rq) \<and>
    row (db v) i = Some (apply_opts t SUBMITTED (sent_opts h n k) s) \<and> polling v = polling w"
proof -
  let ?w = "w\<lparr>workerRunning := True, queue := []\<rparr>"
  have "fresh_ids e ?w" using w(4) by (simp add: fresh_ids_def)
  then obtain v rq h t where v: "processJob i e ?w = (Inr (), v)" "broadcastLog v = broadcastLog w @ [(rq, Some h)]"
    "rq_to rq = toAddress s" "queue v = []" "polling v = polling w"
    "row (db v) i = Some (apply_opts t SUBMITTED (sent_opts h (localNonce w) (retryCount s)) s)"
    "parseUnits (lib e) (decToString (lib e) (amount s)) (decimals w) = Inr (rq_units rq)"
    using accepted_job [OF q up, of ?w i s] s by auto
  have "run_task (Worker 2) e w = (Inr (), (updateQueueDepth v)\<lparr>workerRunning := False\<rparr>)"
    using w(1-3) v(1,4) by (simp add: discard_result_def runWorker_def tryFinally_def run_simps numeral_2_eq_2 updateQueueDepth_def)
  with v show ?thesis by (fastforce simp: updateQueueDepth_def)
qed

text \<open>A task on its own only appends to the history, and keeps who is paid how much by which row.\<close>

lemma alone_evolves:
  assumes "honest seen e" "db_inv (db w)"
  shows "evolve (db w) (db (snd (run_task t e w)))"
proof -
  have "quiet e" and "\<And>xs. set (scan e xs) \<subseteq> set xs"
    using assms(1) unfolding honest_def by (blast, metis mset_eq_setD order_refl)
  moreover have "task_ok (\<lambda>_. True) t" by (cases t) simp_all
  ultimately have "reach (\<lambda>_. True) w (snd (run_task t e w))"
    by (intro reach.task reach.start) (auto simp: quiet_def intro: reach.start)
  with assms(2) show ?thesis
    using rail.reach_protocol [OF indifferent_db_only, of "\<lambda>_. True" w "snd (run_task t e w)"] db_inv_for_all [of "db w"]
    by (simp add: db_inv_for_def)
qed

lemma row_evolves:
  assumes "evolve d d'" "db_inv d'" "row d i = Some s" "row d' i = Some r"
  shows "skey r = skey s"
proof -
  have "known s d'" using assms(1,3) known_row known_evolve by blast
  then obtain x where x: "x \<in> set (settlements d')" "skey x = skey s" by (auto simp: known_def)
  have "distinct (map sid (settlements d'))" using assms(2) by (simp add: db_inv_def uniq_ok_def)
  from row_unique [OF this x(1)] x(2) assms(3,4) show ?thesis by (auto simp: skey_def dest: row_SomeD)
qed

lemma sent_verdict:
  assumes "confirmedBlockHash s = None" "seen h = Some r" "rc_status r = 1"
    and "confirmationsFinal (cfg e) \<le> block - rc_blockNumber r + 1"
  shows "verdict e block seen (apply_opts t SUBMITTED (sent_opts h n k) s) = FINAL"
  using assms by (simp add: verdict_def receipt_verdict_def apply_opts_def sent_opts_def no_opts_def)

lemma sent_units:
  assumes acc: "accounted funds past seen w" and f: "funds < 100000000000000000000" and h: "honest seen e"
    and a: "micro a" "0 \<le> a" "a \<le> available_of (db w)"
  shows "parseUnits (lib e) (decToString (lib e) a) 6 = Inr (units_of a)"
proof -
  have l: "dround_ok (lib e)" "units_ok (lib e)" using h by (simp_all add: honest_def)
  have "of_int funds < (of_int 100000000000000000000 :: rat)" using f by (simp only: of_int_less_iff)
  then have op: "of_int funds / 1000000 < (100000000000000 :: rat)" by simp
  have b: "books (of_int funds / 1000000) seen (calls_of past w) (db w)" using acc by (simp add: accounted_def)
  show ?thesis using units_exact [OF l(2) a(1,2)] books_exact(3) [OF b l(1) op] a(3) op by linarith
qed

section \<open>The whole way\<close>

text \<open>
  C2: A settlement goes through. From any state the rail reaches by whole tasks on an honest node, with nothing
  queued: a new request within the available balance, to an approved address, is posted; the worker runs on a
  node that takes the call; the chain mines the call deep enough; the listener polls. Then each of the
  three tasks returned, one call of exactly the amount went to the recipient, and the settlement is FINAL
  and booked, with the recipient and the amount of the request.
\<close>

theorem settlement_goes_through:
  assumes "honest_run funds past seen w" "funds < 100000000000000000000"
    and "queue w = []" "\<not> workerRunning w" "\<not> draining w" "\<not> polling w"
    and "honest seen e1" "fresh_ids e1 w" "fresh_hashes e1 (tick w) (calls_of past w)"
    and "by_instruction (db w) (d_instructionId dto) = None" "uuid e1 (tick w + 11) \<notin> sid ` set (settlements (db w))"
    and "newDecimal (lib e1) (d_amount dto) = Some a" "0 \<le> a" "micro a" "a \<le> available_of (db w)"
    and "approved (provider (d_toAddress dto))" "run_task (Post provider dto) e1 w = (res1, w1)"
    and "honest seen e2" "node_accepts e2" "fresh_ids e2 w1" "fresh_hashes e2 (tick w1) (calls_of past w1)"
    and "run_task (Worker 2) e2 w1 = (res2, w2)"
    and "plain_receipts seen'" "chain_step (db w2) (calls_of past w2) seen seen'"
    and "\<And>s h. s \<in> set (settlements (db w2)) \<Longrightarrow> instructionId s = d_instructionId dto \<Longrightarrow> txHash s = Some h \<Longrightarrow>
      \<exists>r. seen' h = Some r \<and> rc_status r = 1 \<and> confirmationsFinal (cfg e3) \<le> block - rc_blockNumber r + 1"
    and "honest seen' e3" "fresh_ids e3 w2" "fresh_hashes e3 (tick w2) (calls_of past w2)"
    and "\<And>k h. getTransactionReceipt (rpc e3 k) h = Inr (seen' h)" "\<And>k. getBlockNumber (rpc e3 k) = Inr block"
    and "run_task Poll e3 w2 = (res3, w3)"
  shows "res1 = Inr () \<and> res2 = Inr () \<and> res3 = Inr () \<and>
    (\<exists>rq h. broadcastLog w2 = broadcastLog w1 @ [(rq, Some h)] \<and> rq_to rq = d_toAddress dto \<and>
       of_int (rq_units rq) = a * 1000000 \<and> success seen' h) \<and>
    (\<exists>r. r \<in> set (settlements (db w3)) \<and> instructionId r = d_instructionId dto \<and> toAddress r = d_toAddress dto \<and>
       amount r = a \<and> status r = FINAL \<and> booked (db w3) (sid r))"
proof -
  have acc0: "accounted funds past seen w" by (rule run_accounted [OF assms(1,2)])
  obtain s where s: "res1 = Inr ()" "row (db w1) (sid s) = Some s" "queue w1 = [sid s]" "status s = COMPLIANCE_APPROVED"
    "instructionId s = d_instructionId dto" "toAddress s = d_toAddress dto" "amount s = a" "confirmedBlockHash s = None"
    "\<not> workerRunning w1" "\<not> draining w1" "\<not> polling w1" "decimals w1 = 6"
    using posted [where provider = provider, OF acc0 assms(2,7,10,11,12,14,15,16,5)] assms(3,4,6,17) acc0 by (auto simp: accounted_def)
  obtain rq h t n k where v: "res2 = Inr ()" "broadcastLog w2 = broadcastLog w1 @ [(rq, Some h)]" "rq_to rq = toAddress s"
    "parseUnits (lib e2) (decToString (lib e2) (amount s)) (decimals w1) = Inr (rq_units rq)"
    "row (db w2) (sid s) = Some (apply_opts t SUBMITTED (sent_opts h n k) s)" "polling w2 = polling w1"
    using worked [OF _ assms(19) s(3,9,10) assms(20) s(2,4)] assms(18,22) by (auto simp: honest_def)
  let ?s = "apply_opts t SUBMITTED (sent_opts h n k) s"
  have key: "skey ?s = skey s" "status ?s = SUBMITTED" "txHash ?s = Some h"
    by (simp_all add: skey_def apply_opts_def sent_opts_def)
  have run2: "honest_run funds past seen w2"
    using honest_run.task [OF honest_run.task [OF assms(1,7) _ assms(8,9), of "Post provider dto"] assms(18) _ _ _, of "Worker 2"]
      assms(12,13,14,17,20,21,22) by simp
  have acc2: "accounted funds past seen' w2"
    by (rule run_accounted [OF honest_run.chain [OF run2 assms(23,24)] assms(2)])
  have in2: "?s \<in> set (settlements (db w2))" using v(5) by (auto dest: row_SomeD)
  obtain r0 where r0: "seen' h = Some r0" "rc_status r0 = 1" "confirmationsFinal (cfg e3) \<le> block - rc_blockNumber r0 + 1"
    using assms(25) [OF in2] key s(5) by (auto simp: skey_def)
  have open_s: "open_status ?s" using key(2) by (simp add: open_status_def)
  obtain r where r: "res3 = Inr ()" "acct e3 (of_int funds / 1000000) seen' past w3" "row (db w3) (sid ?s) = Some r" "status r = FINAL"
    using poll_verdict [OF assms(26,23,29,30) _ accounted_acct [OF acc2 assms(27,28)]] v(6) s(11) assms(31) in2 open_s
      sent_verdict [where seen = seen', OF s(8) r0] by fastforce
  have inv: "db_inv (db w2)" "db_inv (db w3)"
    using acc2 booksD(1) [OF account_books [OF r(2)]] by (auto simp: accounted_def books_def)
  have "evolve (db w2) (db w3)" using alone_evolves [OF assms(26) inv(1), of Poll] unfolding assms(31) by simp
  from row_evolves [OF this inv(2) _ r(3)] v(5) key(1) have "skey r = skey s" by (simp add: skey_def)
  moreover have "booked (db w3) (sid r) \<longleftrightarrow> status r = FINAL"
  proof -
    have "row_ok seen' (booked (db w2)) ?s" using acc2 booksD(7) [OF _ in2] by (auto simp: accounted_def)
    then have "instructionId s \<noteq> GENESIS_INSTRUCTION_ID" using key by (auto simp: row_ok_def skey_def split: if_splits)
    with booksD(5) [OF account_books [OF r(2)] r(3)] \<open>skey r = skey s\<close> show ?thesis by (auto simp: row_ok_def skey_def)
  qed
  moreover have "of_int (rq_units rq) = a * 1000000"
    using sent_units [OF acc0 assms(2,18,14,13,15)] v(4) s(7,12) units_of_micro [OF assms(14)] by simp
  ultimately show ?thesis
    using s v r r0 by (auto simp: skey_def success_def dest: row_SomeD)
qed

lemma run_serves: "node_accepts (run_env seen bal)"
proof -
  have "inj (uuid (run_env seen bal))" by (rule injI) simp
  then show ?thesis by (simp add: node_accepts_def node_serves_def demo_rpc_def) (simp add: unary_lib_def)
qed

lemma settlement_goes_through_witness:
  "\<exists>r. r \<in> set (settlements (db run_final)) \<and> instructionId r = ''i'' \<and> toAddress r = ''a'' \<and> amount r = 40 \<and>
     status r = FINAL \<and> booked (db run_final) (sid r)"
proof -
  let ?e1 = "run_env no_receipts 100000000" and ?e3 = "run_env all_mined 60000000"
  have w: "queue run_open = []" "\<not> workerRunning run_open" "\<not> draining run_open" "\<not> polling run_open" "tick run_open = 6"
    by (simp_all add: run_open_eq boot_world_def)
  have new: "fresh_ids ?e1 run_open" "fresh_hashes ?e1 6 (calls_of [] run_open)"
    "by_instruction (db run_open) (d_instructionId demo_dto) = None" "uuid ?e1 (6 + 11) \<notin> sid ` set (settlements (db run_open))"
    by (simp_all add: fresh_ids_def fresh_hashes_def calls_of_def run_open_eq boot_world_def empty_db_def demo_dto_def
        by_instruction_def opening_row_def GENESIS_INSTRUCTION_ID_def)
  have dto: "newDecimal (lib ?e1) (d_amount demo_dto) = Some 40" "micro 40" "approved (compliance_check unary_lib (d_toAddress demo_dto))"
    using micro_of_int [of 40000000] by (simp_all add: demo_dto_def compliance_check_def blocklist_def)
  have avail: "40 \<le> available_of (db run_open)"
    by (simp add: available_of_def operator_balance_def opening_of_def genesis_entry_def bookings_def sum_in_def by_statuses_def
        sum_of_def IN_FLIGHT_STATUSES_def run_open_eq boot_world_def empty_db_def opening_row_def)
  have posted: "fresh_ids ?e1 run_posted" "fresh_hashes ?e1 (tick run_posted) (calls_of [] run_posted)"
    by (auto simp: fresh_ids_def fresh_hashes_def calls_of_def run_posted_eq boot_world_def run_db_def)
  have mined: "plain_receipts all_mined" "chain_step (db run_sent) (calls_of [] run_sent) no_receipts all_mined"
    by (auto simp: plain_receipts_def all_mined_def demo_receipt_def chain_step_def run_sent_facts(1) run_sent_calls
        opening_row_def run_row_def success_def mined_def)
  have sent: "fresh_ids ?e3 run_sent" "fresh_hashes ?e3 (tick run_sent) (calls_of [] run_sent)"
    using run_sent_facts(4,5) run_sent_calls by (auto simp: fresh_ids_def fresh_hashes_def)
  have deep: "\<exists>r. all_mined h = Some r \<and> rc_status r = 1 \<and> confirmationsFinal (cfg ?e3) \<le> 14 - rc_blockNumber r + 1" for h
    by (simp add: all_mined_def demo_receipt_def demo_cfg_def)
  have runs: "run_task (Post (compliance_check unary_lib) demo_dto) ?e1 run_open =
      (fst (run_task (Post (compliance_check unary_lib) demo_dto) ?e1 run_open), run_posted)"
    "run_task (Worker 2) ?e1 run_posted = (fst (run_task (Worker 2) ?e1 run_posted), run_sent)"
    "run_task Poll ?e3 run_sent = (fst (run_task Poll ?e3 run_sent), run_final)"
    by (simp_all add: run_posted_def run_sent_def run_final_def numeral_2_eq_2 del: run_task.simps)
  show ?thesis
    using settlement_goes_through [OF run_start _ w(1-4) run_env_honest new(1) _ new(3) _ dto(1) _ dto(2) avail dto(3) runs(1)
        run_env_honest run_serves posted runs(2) mined deep run_env_honest sent _ _ runs(3)] new(2,4)
    by (simp add: w(5) demo_dto_def demo_rpc_def)
qed

end
