(* ===== verification/JointAccount.thy ===== *)
theory JointAccount
  imports EscrowSystem AccountSystem
begin

text \<open>
  The rail and the DvP service on one account. The operator's USDC is its balance in the token of the chain's
  state: it pays the mined transfers of the rail, locks what the DvP service puts into deals, and receives
  what comes back from the escrow or from others. The invariant is the account of that balance.
\<close>

section \<open>What is in deals\<close>

definition dealt :: "'tok evm \<Rightarrow> string set" where
  "dealt s = {i. deal_state (deals s i) \<noteq> NoDeal}"

text \<open>What an account has put into a deal, less what it got out of it.\<close>

definition deal_flow :: "string \<Rightarrow> deal \<Rightarrow> int" where
  "deal_flow a d =
     (if depositor d = a \<and> (deal_state d = Funded \<or> deal_state d = Released) then uint (deal_amount d) else 0) -
     (if beneficiary d = a \<and> deal_state d = Released then uint (deal_amount d) else 0)"

definition escrow_flow :: "string \<Rightarrow> 'tok evm \<Rightarrow> int" where
  "escrow_flow a s = (\<Sum>i \<in> dealt s. deal_flow a (deals s i))"

lemma deal_flow_none [simp]: "deal_state d = NoDeal \<Longrightarrow> deal_flow a d = 0"
  by (simp add: deal_flow_def)

lemma escrow_flow_tok [simp]:
  "dealt (s\<lparr>tok := t\<rparr>) = dealt s" "escrow_flow a (s\<lparr>tok := t\<rparr>) = escrow_flow a s"
  "dealt (s\<lparr>events := es\<rparr>) = dealt s" "escrow_flow a (s\<lparr>events := es\<rparr>) = escrow_flow a s"
  by (simp_all add: dealt_def escrow_flow_def)

lemma flow_update:
  assumes "finite (dealt s)" "deals s' = (deals s)(i := d)"
  shows "finite (dealt s')" "escrow_flow a s' = escrow_flow a s - deal_flow a (deals s i) + deal_flow a d"
proof -
  let ?A = "insert i (dealt s)"
  have sub: "dealt s' \<subseteq> ?A" using assms(2) by (auto simp: dealt_def)
  then show "finite (dealt s')" using assms(1) by (auto intro: finite_subset)
  have "escrow_flow a s' = (\<Sum>j \<in> ?A. deal_flow a (deals s' j))"
    unfolding escrow_flow_def using assms(1) sub by (intro sum.mono_neutral_left) (auto simp: dealt_def)
  also have "\<dots> = deal_flow a d + (\<Sum>j \<in> dealt s - {i}. deal_flow a (deals s j))"
    using assms by (simp add: sum.insert_remove)
  also have "(\<Sum>j \<in> dealt s - {i}. deal_flow a (deals s j)) = escrow_flow a s - deal_flow a (deals s i)"
    unfolding escrow_flow_def using assms(1) by (cases "i \<in> dealt s") (auto simp: sum_diff1 dealt_def)
  finally show "escrow_flow a s' = escrow_flow a s - deal_flow a (deals s i) + deal_flow a d" by simp
qed

section \<open>The account in the token\<close>

text \<open>
  The balance is \<open>x\<close> less what is in deals; nobody but the escrow may spend it.
\<close>

definition held :: "escrow_site \<Rightarrow> string \<Rightarrow> int \<Rightarrow> mock_erc20 evm \<Rightarrow> bool" where
  "held c a x s \<longleftrightarrow> finite (dealt s) \<and> (\<forall>p. p \<noteq> self c \<longrightarrow> allowance_map (tok s) a p = 0) \<and>
     uint (balanceOf_map (tok s) a) = x - escrow_flow a s"

text \<open>What a call of the token moves into the account, or out of it.\<close>

fun inflow :: "string \<Rightarrow> string \<Rightarrow> evm_call \<Rightarrow> int" where
  "inflow a sender (evm_call.Transfer to n) = (if to = a then uint n else 0) - (if sender = a then uint n else 0)"
| "inflow a sender (TransferFrom frm to n) = (if to = a then uint n else 0)"
| "inflow a sender k = 0"

lemma moved_uint:
  fixes f g :: "string \<Rightarrow> uint256"
  assumes "unat n \<le> unat (f frm)" "(\<lambda>a. unat (g a)) = moved frm to (unat n) (\<lambda>a. unat (f a))"
  shows "uint (g a) = uint (f a) + (if to = a then uint n else 0) - (if frm = a then uint n else 0)"
proof -
  have "int (unat (g a)) = int (unat (f a)) + (if to = a then int (unat n) else 0) - (if frm = a then int (unat n) else 0)"
    using fun_cong [OF assms(2), of a] assms(1) by (auto simp: moved_def)
  then show ?thesis by simp
qed

lemma transfer_moves:
  assumes "mock_transfer frm to n t = Inr (ok, t')"
  shows "ok" "allowance_map t' = allowance_map t" "uint (balanceOf_map t' a) =
    uint (balanceOf_map t a) + (if to = a then uint n else 0) - (if frm = a then uint n else 0)"
proof -
  from assms have m: "mock_move frm to n t = Inr t'" and "ok" by (auto simp: mock_transfer_def split: sum.splits)
  note m' = mock_move_Inr [OF m]
  with \<open>ok\<close> show "ok" "allowance_map t' = allowance_map t" by simp_all
  show "uint (balanceOf_map t' a) =
    uint (balanceOf_map t a) + (if to = a then uint n else 0) - (if frm = a then uint n else 0)"
    using m' by (intro moved_uint) (auto simp: word_le_nat_alt)
qed

lemma transferFrom_moves:
  assumes "mock_transferFrom sender frm to n t = Inr (ok, t')"
  shows "ok" "n \<le> allowance_map t frm sender" "allowance_map t' x p \<le> allowance_map t x p" "uint (balanceOf_map t' a) =
    uint (balanceOf_map t a) + (if to = a then uint n else 0) - (if frm = a then uint n else 0)"
proof -
  have tf: "op_transferFrom mock_ops sender frm to n t = Inr (ok, t')" using assms by simp
  note law = mock.transferFrom_law [OF TrueI tf, simplified]
  show "ok" using assms by (auto simp: mock_transferFrom_def Let_def split: sum.splits if_splits)
  show "n \<le> allowance_map t frm sender" "allowance_map t' x p \<le> allowance_map t x p"
    using law by (simp_all add: word_le_nat_alt)
  show "uint (balanceOf_map t' a) =
    uint (balanceOf_map t a) + (if to = a then uint n else 0) - (if frm = a then uint n else 0)"
    using law \<open>ok\<close> by (intro moved_uint) simp_all
qed

section \<open>Calls\<close>

text \<open>A payment out of the escrow, which ends a deal.\<close>

lemma pay_held:
  assumes h: "held c a x s" and a: "a \<noteq> self c"
    and p: "pay mock_ops c to n ev (set_state i st s) = Inr s'"
    and f: "deal_flow a ((deals s i)\<lparr>deal_state := st\<rparr>) = deal_flow a (deals s i) - (if to = a then uint n else 0)"
  shows "held c a x s'"
proof -
  from p obtain t where t: "mock_transfer (self c) to n (tok s) = Inr (True, t)"
    and s': "s' = (set_state i st s)\<lparr>tok := t, events := events s @ [ev]\<rparr>"
    by (auto simp: pay_def set_state_def split: sum.splits if_splits)
  have d: "deals s' = (deals s)(i := (deals s i)\<lparr>deal_state := st\<rparr>)" by (simp add: s' set_state_def)
  have fin: "finite (dealt s)" using h by (simp add: held_def)
  have "finite (dealt s')" "escrow_flow a s' = escrow_flow a s - (if to = a then uint n else 0)"
    using flow_update(1) [OF fin d] flow_update(2) [OF fin d, of a] f by simp_all
  then show ?thesis using h a transfer_moves(2,3) [OF t] by (simp add: held_def s')
qed

text \<open>A new deal.\<close>

lemma fund_held:
  assumes h: "held c a x s" and a: "a \<noteq> self c" "sender \<noteq> self c"
    and e: "fund mock_ops c sender bt i ben n dl s = Inr s'"
  shows "held c a x s'"
proof -
  let ?d = "\<lparr>depositor = sender, beneficiary = ben, deal_amount = n, deadline = dl, deal_state = Funded\<rparr>"
  have new: "deal_state (deals s i) = NoDeal" using e by (auto simp: fund_def Let_def split: if_splits)
  with e obtain t where t: "mock_transferFrom (self c) sender (self c) n (tok s) = Inr (True, t)"
    and s': "s' = s\<lparr>tok := t, deals := (deals s)(i := ?d), events := events s @ [FundedEv i sender ben n dl]\<rparr>"
    by (auto simp: fund_def Let_def split: if_splits sum.splits)
  have fin: "finite (dealt s)" and d: "deals s' = (deals s)(i := ?d)" using h by (simp_all add: held_def s')
  have "finite (dealt s')" "escrow_flow a s' = escrow_flow a s + (if sender = a then uint n else 0)"
    using new flow_update(1) [OF fin d] flow_update(2) [OF fin d, of a] by (simp_all add: deal_flow_def)
  moreover have "allowance_map t a p = 0" if "p \<noteq> self c" for p
    using transferFrom_moves(3) [OF t, of a p] h that by (simp add: held_def)
  ultimately show ?thesis using h a transferFrom_moves(4) [OF t, of a] by (simp add: held_def s')
qed

text \<open>A call by others, or one of the service, or a transfer of the account itself.\<close>

lemma exec_held:
  assumes h: "held c a x s" and a: "a \<noteq> self c" "sender \<noteq> self c"
    and own: "sender = a \<Longrightarrow> dvp_call (self c) k \<or> (\<exists>to n. k = evm_call.Transfer to n)"
    and e: "exec mock_ops c sender bt k s = Inr s'"
  shows "held c a (x + inflow a sender k) s'"
proof (cases k)
  case (Fund i ben n dl)
  with e fund_held [OF h a] show ?thesis by simp
next
  case (Release i)
  with e h a show ?thesis
    by (auto simp: release_def Let_def deal_flow_def split: if_splits elim!: pay_held)
next
  case (Refund i)
  with e h a show ?thesis
    by (auto simp: refund_def Let_def deal_flow_def split: if_splits elim!: pay_held)
next
  case (Cancel i)
  with e h a show ?thesis
    by (auto simp: cancel_def Let_def deal_flow_def split: if_splits elim!: pay_held)
next
  case (Approve sp n)
  with e obtain t where "mock_approve sender sp n (tok s) = Inr (True, t)" "s' = s\<lparr>tok := t\<rparr>"
    by (auto simp: token_call_def mock_approve_def)
  with h own Approve show ?thesis by (auto simp: held_def mock_approve_def)
next
  case (Transfer to n)
  with e obtain ok t where "mock_transfer sender to n (tok s) = Inr (ok, t)" "s' = s\<lparr>tok := t\<rparr>"
    by (auto simp: token_call_def split: sum.splits)
  with h Transfer transfer_moves [of sender to n "tok s"] show ?thesis by (simp add: held_def)
next
  case (TransferFrom frm to n)
  with e obtain ok t where t: "mock_transferFrom sender frm to n (tok s) = Inr (ok, t)" "s' = s\<lparr>tok := t\<rparr>"
    by (auto simp: token_call_def split: sum.splits)
  note m = transferFrom_moves [OF t(1)]
  have "n = 0" if "frm = a" using m(2) that h a(2) by (simp add: held_def)
  moreover have "allowance_map t a p = 0" if "p \<noteq> self c" for p using m(3) [of a p] h that by (simp add: held_def)
  ultimately show ?thesis using h TransferFrom t(2) m(4) [of a] by (auto simp: held_def)
qed

end
