(* ===== verification/JointRuns.thy ===== *)
theory JointRuns
  imports JointAccount
begin

text \<open>
  Runs of the rail together with the DvP service on a chain that executes the calls: the token pays a
  transfer when its receipt appears, others use token and escrow meanwhile. Both accounts of such a run:
  that of the ledger and that of the operator's balance.
\<close>

section \<open>The DvP service keeps the accounts of the rail\<close>

lemma runs_dvp:
  assumes q: "quiet e" and st: "Quiet.steady P"
    and frame: "\<And>w m. P w \<Longrightarrow> P (w\<lparr>evm := m\<rparr>)" "\<And>w ps. P w \<Longrightarrow> P (w\<lparr>pool := ps\<rparr>)"
  shows "runs e P (dvp_fund dto) (\<lambda>_. P) P" "runs e P (dvp_release i) (\<lambda>_. P) P"
proof -
  note io = runs_seq_keep runs_yield_keep runs_rpc_keep runs_gets_keep runs_if_keep runs_ret_keep runs_throw_keep q st
  have read: "runs e P (eth_call f) (\<lambda>_. P) P" for f :: "env \<Rightarrow> mock_erc20 evm \<Rightarrow> 'a"
    unfolding eth_call_def by (intro io runs_local) (simp_all add: run_simps split: option.split)
  have est: "runs e P (estimate addr sender k) (\<lambda>_. P) P" for addr sender k
    unfolding estimate_def by (intro io runs_local) (simp_all add: run_simps split: option.split sum.split)
  have send: "runs e P (send_call addr k) (\<lambda>_. P) P" for addr k
    unfolding send_call_def by (intro io est runs_local) (simp_all add: frame split: sum.split)
  have wait: "runs e P (wait1 addr h) (\<lambda>_. P) P" for addr h
    unfolding wait1_def
    by (intro io runs_local) (auto simp: frame(2) frame [THEN frame(2)] split: option.split sum.split bool.split)
  have addr: "runs e P escrowAddress (\<lambda>_. P) P"
    unfolding escrowAddress_def by (intro io) (auto split: option.split list.split intro: runs_ret_keep runs_throw_keep)
  have word: "runs e P (encode x :: 'a::len word io) (\<lambda>_. P) P" for x
    unfolding encode_def by (intro io)
  show "runs e P (dvp_release i) (\<lambda>_. P) P"
    unfolding dvp_release_def dealId_def by (intro io addr send wait)
  show "runs e P (dvp_fund dto) (\<lambda>_. P) P"
    unfolding dvp_fund_def dealId_def base_time_def approve_if_needed_def Let_def
    by (intro io addr read word send wait runs_local) simp_all
qed

lemma account_chain [simp]:
  "account e op seen past F (w\<lparr>evm := m\<rparr>) = account e op seen past F w"
  "account e op seen past F (w\<lparr>pool := ps\<rparr>) = account e op seen past F w"
  "accounted funds past seen (w\<lparr>evm := m\<rparr>) = accounted funds past seen w"
  "accounted funds past seen (w\<lparr>pool := ps\<rparr>) = accounted funds past seen w"
  by (simp_all add: account_def accounted_def calls_of_def fresh_ids_def queue_ok_def)

text \<open>The tasks of a joint run: those of the rail and of the DvP service.\<close>

fun joint_task :: "env \<Rightarrow> task \<Rightarrow> bool" where
  "joint_task e (DvpFund dto) = True"
| "joint_task e (DvpRelease i) = True"
| "joint_task e t = rail_task e t"

lemma runs_joint_task:
  assumes h: "honest seen e" "plain_receipts seen" and op: "op < 100000000000000" and t: "joint_task e t"
  shows "runs e (acct e op seen past) (run_task t) (\<lambda>_. acct e op seen past) (acct e op seen past)"
proof -
  have q: "quiet e" using h by (simp add: honest_def)
  note dvp = runs_dvp [OF q steady_account [of e op seen past Map.empty]]
  show ?thesis
  proof (cases "rail_task e t")
    case True
    then show ?thesis by (rule runs_task [OF h op])
  next
    case False
    with t show ?thesis by (cases t) (auto intro!: runs_discard dvp)
  qed
qed

section \<open>The account of the operator\<close>

text \<open>
  Beside what the rail's mined transfers leave of the opening balance, the operator has received \<open>dep\<close>
  units from others.
\<close>

definition joint :: "escrow_site \<Rightarrow> string \<Rightarrow> int \<Rightarrow> (tx_request \<times> string option) list \<Rightarrow> (string \<Rightarrow> receipt option)
    \<Rightarrow> int \<Rightarrow> world \<Rightarrow> bool" where
  "joint c a funds past seen dep w \<longleftrightarrow> operatorAddress w = a \<and> a \<noteq> self c \<and>
     (\<forall>p \<in> set (pool w). pt_from p = a \<and> dvp_call (self c) (pt_call p)) \<and>
     held c a (chain_units seen funds (calls_of past w) + dep) (evm w)"

lemma mined_as_calls: "\<forall>p \<in> set ps. R (pt_from p) (pt_call p) \<Longrightarrow> \<forall>p \<in> set (mined_as ok h ps). R (pt_from p) (pt_call p)"
  by (induction ps) (auto simp: mined_as_def)

lemma dvp_call_inflow: "dvp_call addr k \<Longrightarrow> inflow a a k = 0"
  by (cases k) simp_all

lemma joint_mined:
  assumes j: "joint c a funds past seen dep w" and p: "p \<in> set (pool w)"
    and x: "exec mock_ops c (pt_from p) bt (pt_call p) (evm w) = Inr m"
  shows "joint c a funds past seen dep (w\<lparr>evm := m, pool := mined_as ok h (pool w)\<rparr>)"
proof -
  have k: "pt_from p = a" "dvp_call (self c) (pt_call p)" "a \<noteq> self c" using j p by (auto simp: joint_def)
  have "held c a (chain_units seen funds (calls_of past w) + dep) (evm w)" using j by (simp add: joint_def)
  from exec_held [OF this k(3) _ _ x] k dvp_call_inflow [OF k(2), of a]
  have "held c a (chain_units seen funds (calls_of past w) + dep) m" by simp
  moreover have "\<forall>q \<in> set (mined_as ok h (pool w)). pt_from q = a \<and> dvp_call (self c) (pt_call q)"
    by (rule mined_as_calls [of _ "\<lambda>f k. f = a \<and> dvp_call (self c) k"]) (use j in \<open>simp add: joint_def\<close>)
  moreover have "operatorAddress w = a" using j by (simp add: joint_def)
  moreover have "calls_of past (w\<lparr>evm := m, pool := mined_as ok h (pool w)\<rparr>) = calls_of past w" by (simp add: calls_of_def)
  ultimately show ?thesis unfolding joint_def using k(3) by (intro conjI) simp_all
qed

interpretation joint_rail: escrow_client "joint c a funds past seen dep" mock_ops c "dvp_call (self c)" for c a funds past seen dep
proof
  fix v w assume "chain_same v w" "joint c a funds past seen dep w"
  then show "joint c a funds past seen dep v" by (simp add: joint_def chain_same_def calls_of_def)
next
  fix u w :: world and p :: pending_tx
  assume "joint c a funds past seen dep u" "joint c a funds past seen dep w" "pt_from p = operatorAddress u"
    "dvp_call (self c) (pt_call p)"
  then show "joint c a funds past seen dep (w\<lparr>pool := pool w @ [p]\<rparr>)" by (auto simp: joint_def calls_of_def)
next
  fix w p t m h
  assume "joint c a funds past seen dep w" "p \<in> set (pool w)" "exec mock_ops c (pt_from p) t (pt_call p) (evm w) = Inr m"
  then show "joint c a funds past seen dep (w\<lparr>evm := m, pool := mined_as True h (pool w)\<rparr>)" by (rule joint_mined)
next
  fix w h assume j: "joint c a funds past seen dep w"
  have "\<forall>q \<in> set (mined_as False h (pool w)). pt_from q = a \<and> dvp_call (self c) (pt_call q)"
    by (rule mined_as_calls [of _ "\<lambda>f k. f = a \<and> dvp_call (self c) k"]) (use j in \<open>simp add: joint_def\<close>)
  with j show "joint c a funds past seen dep (w\<lparr>pool := mined_as False h (pool w)\<rparr>)"
    unfolding joint_def by (intro conjI) (simp_all add: calls_of_def)
qed

text \<open>A transaction the node has just taken is not mined yet.\<close>

definition unmined :: "(string \<Rightarrow> receipt option) \<Rightarrow> env \<Rightarrow> bool" where
  "unmined seen e \<longleftrightarrow> (\<forall>k rq h. rpc_transfer (rpc e k) rq = Inr h \<longrightarrow> \<not> success seen h)"

lemma joint_keeps:
  assumes q: "quiet e" and u: "unmined seen e" and l: "linked mock_ops c e" and j: "joint c a funds past seen dep w"
  shows "joint c a funds past seen dep (snd (run_task t e w))"
proof -
  have "EscrowSystem.steady (joint c a funds past seen dep) e"
    unfolding EscrowSystem.steady_def
  proof (intro conjI allI impI)
    fix w rq x k
    assume w: "joint c a funds past seen dep w" and x: "\<forall>h. x = Some h \<longrightarrow> rpc_transfer (rpc e k) rq = Inr h"
    have "\<not> success seen h" if "x = Some h" for h using x u that by (auto simp: unmined_def)
    then have "chain_units seen funds (accepted [(rq, x)]) = funds" by (cases x) (simp_all add: chain_units_def)
    then have "chain_units seen funds (calls_of past (w\<lparr>broadcastLog := broadcastLog w @ [(rq, x)]\<rparr>)) =
        chain_units seen funds (calls_of past w)"
      by (simp add: calls_of_def chain_units_def)
    with w show "joint c a funds past seen dep (w\<lparr>broadcastLog := broadcastLog w @ [(rq, x)]\<rparr>)"
      by (simp add: joint_def)
  qed (use q in \<open>simp_all add: quiet_def joint_def calls_of_def\<close>)
  from joint_rail.safe_task [OF this l task_calls_dvp] j show ?thesis by (auto simp: safe_def)
qed

end
