(* ===== verification/JointClaims.thy ===== *)
theory JointClaims
  imports JointRuns AccountClaims EscrowClaims
begin

text \<open>Reconciliation of a rail whose operator also funds deals, and is paid by others.\<close>

section \<open>Joint runs\<close>

text \<open>
  The chain's side of a run: a transfer of the rail is mined (\<open>paid\<close>) or taken back by a reorganisation
  (\<open>unpaid\<close>), receipts of other blocks come (\<open>receipts\<close>), other accounts call token and escrow (\<open>others\<close>),
  a transaction of the DvP service is mined after its request gave up (\<open>late\<close>) or vanishes (\<open>dropped\<close>).
\<close>

inductive joint_run :: "escrow_site \<Rightarrow> string \<Rightarrow> int \<Rightarrow> (tx_request \<times> string option) list \<Rightarrow> (string \<Rightarrow> receipt option)
    \<Rightarrow> int \<Rightarrow> world \<Rightarrow> bool" for c a funds where
  start: "honest (\<lambda>_. None) e \<Longrightarrow> (\<And>k. balanceOf (rpc e k) = Inr funds) \<Longrightarrow> funds = uint (balanceOf_map t a) \<Longrightarrow>
    (\<And>p. p \<noteq> self c \<Longrightarrow> allowance_map t a p = 0) \<Longrightarrow> a \<noteq> self c \<Longrightarrow>
    joint_run c a funds [] (\<lambda>_. None) 0 (snd (run_task Opening e
      ((boot_world a empty_db)\<lparr>evm := \<lparr>tok = t, deals = (\<lambda>_. zero_deal), events = []\<rparr>\<rparr>)))"
| task: "joint_run c a funds past seen dep w \<Longrightarrow> honest seen e \<Longrightarrow> unmined seen e \<Longrightarrow> linked mock_ops c e \<Longrightarrow>
    joint_task e t \<Longrightarrow> fresh_ids e w \<Longrightarrow> fresh_hashes e (tick w) (calls_of past w) \<Longrightarrow>
    joint_run c a funds past seen dep (snd (run_task t e w))"
| paid: "joint_run c a funds past seen dep w \<Longrightarrow> (rq, Some h) \<in> set (past @ broadcastLog w) \<Longrightarrow> \<not> success seen h \<Longrightarrow>
    rc_status r = 1 \<Longrightarrow> plain_receipts (seen(h \<mapsto> r)) \<Longrightarrow> chain_step (db w) (calls_of past w) seen (seen(h \<mapsto> r)) \<Longrightarrow>
    uint n = rq_units rq \<Longrightarrow> exec mock_ops c a bt (evm_call.Transfer (rq_to rq) n) (evm w) = Inr m \<Longrightarrow>
    joint_run c a funds past (seen(h \<mapsto> r)) (dep + (if rq_to rq = a then rq_units rq else 0)) (w\<lparr>evm := m\<rparr>)"
| unpaid: "joint_run c a funds past seen dep w \<Longrightarrow> (rq, Some h) \<in> set (past @ broadcastLog w) \<Longrightarrow> success seen h \<Longrightarrow>
    plain_receipts (seen(h := None)) \<Longrightarrow> chain_step (db w) (calls_of past w) seen (seen(h := None)) \<Longrightarrow>
    uint n = rq_units rq \<Longrightarrow> exec mock_ops c a bt (evm_call.Transfer (rq_to rq) n) m = Inr (evm w) \<Longrightarrow>
    joint_run c a funds past (seen(h := None)) (dep - (if rq_to rq = a then rq_units rq else 0)) (w\<lparr>evm := m\<rparr>)"
| receipts: "joint_run c a funds past seen dep w \<Longrightarrow> plain_receipts seen' \<Longrightarrow> chain_step (db w) (calls_of past w) seen seen' \<Longrightarrow>
    (\<And>h. h \<in> fst ` set (calls_of past w) \<Longrightarrow> success seen' h \<longleftrightarrow> success seen h) \<Longrightarrow> joint_run c a funds past seen' dep w"
| others: "joint_run c a funds past seen dep w \<Longrightarrow> sender \<noteq> a \<Longrightarrow> sender \<noteq> self c \<Longrightarrow>
    exec mock_ops c sender bt k (evm w) = Inr m \<Longrightarrow>
    joint_run c a funds past seen (dep + inflow a sender k) (w\<lparr>evm := m\<rparr>)"
| late: "joint_run c a funds past seen dep w \<Longrightarrow> p \<in> set (pool w) \<Longrightarrow>
    exec mock_ops c (pt_from p) bt (pt_call p) (evm w) = Inr m \<Longrightarrow>
    joint_run c a funds past seen dep (w\<lparr>evm := m, pool := mined_as True (pt_hash p) (pool w)\<rparr>)"
| dropped: "joint_run c a funds past seen dep w \<Longrightarrow> set ps \<subseteq> set (pool w) \<Longrightarrow>
    joint_run c a funds past seen dep (w\<lparr>pool := ps\<rparr>)"
| reboot: "joint_run c a funds past seen dep w \<Longrightarrow>
    joint_run c a funds (past @ broadcastLog w) seen dep (restart w)"

section \<open>The steps of the chain\<close>

lemma accepted_in: "(rq, Some h) \<in> set bl \<Longrightarrow> (h, rq_units rq) \<in> set (accepted bl)"
  by (force simp: accepted_def)

lemma chain_units_flip:
  assumes "distinct (map fst cs)" "(h, u) \<in> set cs" "success seen' h" "\<not> success seen h"
    and "\<And>x. x \<noteq> h \<Longrightarrow> success seen' x = success seen x"
  shows "chain_units seen' funds cs = chain_units seen funds cs - u"
proof -
  have same: "(\<Sum>(x, v) \<leftarrow> ds. if success seen' x then v else 0) = (\<Sum>(x, v) \<leftarrow> ds. if success seen x then v else 0)"
    if "h \<notin> fst ` set ds" for ds
    using that assms(5) by (induction ds) auto
  have "(\<Sum>(x, v) \<leftarrow> cs. if success seen' x then v else 0) = (\<Sum>(x, v) \<leftarrow> cs. if success seen x then v else 0) + u"
    using assms(1,2)
  proof (induction cs)
    case (Cons d cs)
    show ?case
    proof (cases "d = (h, u)")
      case True
      with Cons.prems(1) have "h \<notin> fst ` set cs" by simp
      with True same assms(3,4) show ?thesis by simp
    next
      case False
      with Cons.prems have "fst d \<noteq> h" by (auto simp: image_iff)
      with False Cons assms(5) show ?thesis by (auto simp: case_prod_unfold)
    qed
  qed simp
  then show ?thesis by (simp add: chain_units_def)
qed

lemma chain_units_cong:
  assumes "\<And>h. h \<in> fst ` set cs \<Longrightarrow> success seen' h \<longleftrightarrow> success seen h"
  shows "chain_units seen' funds cs = chain_units seen funds cs"
proof -
  have "map (\<lambda>(h, u). if success seen' h then u else 0) cs = map (\<lambda>(h, u). if success seen h then u else 0) cs"
    by (intro map_cong refl) (simp add: case_prod_unfold assms)
  then show ?thesis by (simp only: chain_units_def)
qed

lemma untransfer_held:
  assumes h: "held c a x s'" and e: "exec mock_ops c a bt (evm_call.Transfer to n) s = Inr s'"
  shows "held c a (x + uint n - (if to = a then uint n else 0)) s"
proof -
  from e obtain ok t where t: "mock_transfer a to n (tok s) = Inr (ok, t)" "s' = s\<lparr>tok := t\<rparr>"
    by (auto simp: token_call_def split: sum.splits)
  with h transfer_moves(2) [OF t(1)] transfer_moves(3) [OF t(1), of a] show ?thesis by (auto simp: held_def)
qed

lemma opening_evm:
  assumes h: "honest seen e" and b: "\<And>k. balanceOf (rpc e k) = Inr funds"
  shows "snd (run_task Opening e ((boot_world a empty_db)\<lparr>evm := s\<rparr>)) =
    (snd (run_task Opening e (boot_world a empty_db)))\<lparr>evm := s\<rparr>"
proof -
  have q: "quiet e" and u: "units_ok (lib e)" using h by (simp_all add: honest_def)
  have "newDecimal (lib e) (formatUnits (lib e) funds 6) = Some (of_int funds / 10 ^ 6)"
    using u by (simp add: units_ok_def)
  then show ?thesis
    by (simp add: ensureOpeningSnapshot_def getChainBalance_def newDecimal_io_def run_simps quiet_db_read [OF q]
        quiet_rpc_call [OF q] quiet_db_tx [OF q] b boot_world_def empty_db_def genesis_entry_def split: sum.split prod.split)
qed

section \<open>Both accounts\<close>

lemma opening_accounts:
  assumes "honest (\<lambda>_. None) e" "\<And>k. balanceOf (rpc e k) = Inr funds" "funds = uint (balanceOf_map t a)"
    and "\<And>p. p \<noteq> self c \<Longrightarrow> allowance_map t a p = 0" "a \<noteq> self c"
  defines "w \<equiv> snd (run_task Opening e ((boot_world a empty_db)\<lparr>evm := \<lparr>tok = t, deals = (\<lambda>_. zero_deal), events = []\<rparr>\<rparr>))"
  shows "accounted funds [] (\<lambda>_. None) w \<and> joint c a funds [] (\<lambda>_. None) 0 w"
proof -
  let ?s = "\<lparr>tok = t, deals = (\<lambda>_. zero_deal), events = []\<rparr>" and ?o = "snd (run_task Opening e (boot_world a empty_db))"
  have acc: "accounted funds [] (\<lambda>_. None) ?o" by (rule accounted_start) (use assms in simp_all)
  have "\<exists>k d. ?o = (boot_world a empty_db)\<lparr>tick := k, db := d\<rparr>" using opening_db [OF assms(1,2)] by blast
  then have o: "operatorAddress ?o = a" "pool ?o = []" "calls_of [] ?o = []" by (auto simp: boot_world_def calls_of_def)
  have "held c a funds ?s" using assms(3,4) by (simp add: held_def dealt_def escrow_flow_def zero_deal_def)
  with o assms(5) show ?thesis
    using acc by (simp add: w_def opening_evm [OF assms(1,2)] joint_def calls_of_def chain_units_def del: run_task.simps)
qed

text \<open>The rail's transfer \<open>rq\<close>, of hash \<open>h\<close>, among the calls.\<close>

lemma paid_units:
  assumes "accounted funds past seen w" "(rq, Some h) \<in> set (past @ broadcastLog w)"
    and "success s1 h" "\<not> success s0 h" "\<And>x. x \<noteq> h \<Longrightarrow> success s1 x = success s0 x"
  shows "chain_units s1 funds (calls_of past w) = chain_units s0 funds (calls_of past w) - rq_units rq"
proof (rule chain_units_flip [OF _ _ assms(3-5)])
  show "distinct (map fst (calls_of past w))" using assms(1) by (simp add: accounted_def books_def)
  show "(h, rq_units rq) \<in> set (calls_of past w)" using accepted_in [OF assms(2)] by (simp add: calls_of_def)
qed

lemma paid_accounts:
  assumes acc: "accounted funds past seen w" and j: "joint c a funds past seen dep w"
    and new: "(rq, Some h) \<in> set (past @ broadcastLog w)" "\<not> success seen h" "rc_status r = 1"
    and s: "plain_receipts (seen(h \<mapsto> r))" "chain_step (db w) (calls_of past w) seen (seen(h \<mapsto> r))"
    and x: "uint n = rq_units rq" "exec mock_ops c a bt (evm_call.Transfer (rq_to rq) n) (evm w) = Inr m"
  shows "accounted funds past (seen(h \<mapsto> r)) (w\<lparr>evm := m\<rparr>) \<and>
    joint c a funds past (seen(h \<mapsto> r)) (dep + (if rq_to rq = a then rq_units rq else 0)) (w\<lparr>evm := m\<rparr>)"
proof -
  let ?s = "seen(h \<mapsto> r)"
  have u: "chain_units ?s funds (calls_of past w) = chain_units seen funds (calls_of past w) - rq_units rq"
    by (rule paid_units [OF acc new(1)]) (use new(2,3) in \<open>simp_all add: success_def\<close>)
  have "held c a (chain_units seen funds (calls_of past w) + dep + inflow a a (evm_call.Transfer (rq_to rq) n)) m"
    by (rule exec_held [OF _ _ _ _ x(2)]) (use j in \<open>auto simp: joint_def\<close>)
  moreover have "chain_units seen funds (calls_of past w) + dep + inflow a a (evm_call.Transfer (rq_to rq) n) =
      chain_units ?s funds (calls_of past w) + (dep + (if rq_to rq = a then rq_units rq else 0))"
    using x(1) u by simp
  ultimately have "joint c a funds past ?s (dep + (if rq_to rq = a then rq_units rq else 0)) (w\<lparr>evm := m\<rparr>)"
    using j by (simp only: joint_def) (simp add: calls_of_def)
  moreover have "accounted funds past ?s w" using acc s(1) books_chain [OF _ s(2)] by (simp add: accounted_def)
  ultimately show ?thesis by (simp only: account_chain)
qed

lemma unpaid_accounts:
  assumes acc: "accounted funds past seen w" and j: "joint c a funds past seen dep w"
    and old: "(rq, Some h) \<in> set (past @ broadcastLog w)" "success seen h"
    and s: "plain_receipts (seen(h := None))" "chain_step (db w) (calls_of past w) seen (seen(h := None))"
    and x: "uint n = rq_units rq" "exec mock_ops c a bt (evm_call.Transfer (rq_to rq) n) m = Inr (evm w)"
  shows "accounted funds past (seen(h := None)) (w\<lparr>evm := m\<rparr>) \<and>
    joint c a funds past (seen(h := None)) (dep - (if rq_to rq = a then rq_units rq else 0)) (w\<lparr>evm := m\<rparr>)"
proof -
  let ?s = "seen(h := None)"
  have u: "chain_units seen funds (calls_of past w) = chain_units ?s funds (calls_of past w) - rq_units rq"
    by (rule paid_units [OF acc old(1,2)]) (simp_all add: success_def)
  have "held c a (chain_units seen funds (calls_of past w) + dep) (evm w)" using j by (simp add: joint_def)
  note untransfer_held [OF this x(2)]
  moreover have "chain_units seen funds (calls_of past w) + dep + uint n - (if rq_to rq = a then uint n else 0) =
      chain_units ?s funds (calls_of past w) + (dep - (if rq_to rq = a then rq_units rq else 0))"
    using x(1) u by simp
  ultimately have "joint c a funds past ?s (dep - (if rq_to rq = a then rq_units rq else 0)) (w\<lparr>evm := m\<rparr>)"
    using j by (simp only: joint_def) (simp add: calls_of_def)
  moreover have "accounted funds past ?s w" using acc s(1) books_chain [OF _ s(2)] by (simp add: accounted_def)
  ultimately show ?thesis by (simp only: account_chain)
qed

lemma joint_accounted:
  assumes "joint_run c a funds past seen dep w" "funds < 100000000000000000000"
  shows "accounted funds past seen w \<and> joint c a funds past seen dep w"
  using assms(1)
proof (induction rule: joint_run.induct)
  case (start e t)
  then show ?case by (rule opening_accounts)
next
  case (task past seen dep w e t)
  have op: "of_int funds / 1000000 < (100000000000000 :: rat)"
  proof -
    have "of_int funds < (of_int 100000000000000000000 :: rat)" using assms(2) by (simp only: of_int_less_iff)
    then show ?thesis by simp
  qed
  have acc: "accounted funds past seen w" and j: "joint c a funds past seen dep w" using task.IH by simp_all
  have seen: "plain_receipts seen" using acc by (simp add: accounted_def)
  have "acct e (of_int funds / 1000000) seen past (snd (run_task t e w))"
    by (rule runsD [OF runs_joint_task [OF task.hyps(2) seen op task.hyps(5)] accounted_acct [OF acc task.hyps(6,7)]])
  moreover have "quiet e" using task.hyps(2) by (simp add: honest_def)
  ultimately show ?case
    using acct_accounted [OF _ seen] joint_keeps [OF _ task.hyps(3,4) j] by blast
next
  case (paid past seen dep w rq h r n bt m)
  then show ?case using paid_accounts by blast
next
  case (unpaid past seen dep w rq h n bt m)
  then show ?case using unpaid_accounts by blast
next
  case (receipts past seen dep w seen')
  have "chain_units seen' funds (calls_of past w) = chain_units seen funds (calls_of past w)"
    by (rule chain_units_cong) (rule receipts)
  with receipts.IH receipts(2) books_chain [OF _ receipts(3)] show ?case by (simp add: accounted_def joint_def)
next
  case (others past seen dep w sender bt k m)
  have "held c a (chain_units seen funds (calls_of past w) + dep + inflow a sender k) m"
    by (rule exec_held [OF _ _ others(3) _ others(4)]) (use others in \<open>auto simp: joint_def\<close>)
  with others.IH show ?case by (simp add: joint_def calls_of_def add.assoc)
next
  case (late past seen dep w p bt m)
  then show ?case using joint_mined by simp
next
  case (dropped past seen dep w ps)
  then show ?case by (auto simp: joint_def calls_of_def)
next
  case (reboot past seen dep w)
  then show ?case
    by (simp add: accounted_def joint_def calls_of_def restart_def boot_world_def queue_ok_def)
qed

section \<open>A run\<close>

text \<open>The operator owns 100 USDC and locks 4 in a deal; \<open>x\<close> sends it 5.\<close>

definition shared_tok :: mock_erc20 where
  "shared_tok = \<lparr>balanceOf_map = (\<lambda>a. if a = ''op'' then 100000000 else if a = ''x'' then 5000000 else 0),
     allowance_map = (\<lambda>_ _. 0), totalSupply = 105000000\<rparr>"

definition shared_open :: world where
  "shared_open = run_open\<lparr>evm := \<lparr>tok = shared_tok, deals = (\<lambda>_. zero_deal), events = []\<rparr>\<rparr>"

definition four_dto :: dvp_dto where
  "four_dto = \<lparr>dv_instructionId = ''d'', dv_beneficiary = ''b'', dv_amount = ''+xxxxy'', dv_deadlineSeconds = Some 60\<rparr>"

definition shared_deal :: world where
  "shared_deal = snd (run_task (DvpFund four_dto) (run_env no_receipts 100000000) shared_open)"

definition four_deal :: deal where
  "four_deal = \<lparr>depositor = ''op'', beneficiary = ''b'', deal_amount = 4000000, deadline = 560, deal_state = Funded\<rparr>"

lemma four_units: "parseUnits unary_lib ''+xxxxy'' 6 = Inr 4000000" "keccakUtf8 unary_lib x = x"
  by (simp_all add: unary_lib_def unary_val_def)

lemma shared_deal_eq:
  "\<exists>ps k. shared_deal = shared_open\<lparr>evm := evm shared_deal, pool := ps, tick := k\<rparr> \<and>
     deals (evm shared_deal) = (\<lambda>_. zero_deal)(''d'' := four_deal) \<and>
     balanceOf_map (tok (evm shared_deal)) ''op'' = 96000000 \<and> balanceOf_map (tok (evm shared_deal)) ''x'' = 5000000"
  by (simp add: shared_deal_def discard_result_def dvp_fund_def escrowAddress_def dealId_def base_time_def
      approve_if_needed_def encode_def send_call_def estimate_def exec_now_def wait1_def mined_as_def fund_def token_call_def
      mock_approve_def mock_transferFrom_def mock_move_def checked_add_def time_of_def zero_deal_def
      shared_open_def shared_tok_def run_open_eq boot_world_def four_dto_def four_units four_deal_def Let_def demo_simps)

text \<open>The run: the opening snapshot, the deal, and the payment.\<close>

lemma shared_open_run: "joint_run demo_site ''op'' 100000000 [] no_receipts 0 shared_open"
proof -
  have h: "honest (\<lambda>_. None) (run_env no_receipts 100000000)"
    using run_env_honest [of no_receipts] by (simp add: no_receipts_def)
  have b: "\<And>k. balanceOf (rpc (run_env no_receipts 100000000) k) = Inr 100000000" by simp
  have "joint_run demo_site ''op'' 100000000 [] (\<lambda>_. None) 0 (snd (run_task Opening (run_env no_receipts 100000000)
    ((boot_world ''op'' empty_db)\<lparr>evm := \<lparr>tok = shared_tok, deals = (\<lambda>_. zero_deal), events = []\<rparr>\<rparr>)))"
    by (rule joint_run.start [OF h]) (simp_all add: shared_tok_def)
  then show ?thesis
    unfolding opening_evm [OF h b] run_open_def [symmetric] shared_open_def
      no_receipts_def [symmetric] .
qed

lemma shared_deal_run: "joint_run demo_site ''op'' 100000000 [] no_receipts 0 shared_deal"
  unfolding shared_deal_def
  by (rule joint_run.task [OF shared_open_run run_env_honest])
     (auto simp: unmined_def success_def no_receipts_def linked_def demo_cfg_def fresh_ids_def fresh_hashes_def calls_of_def
        shared_open_def run_open_eq boot_world_def empty_db_def)

section \<open>The verdict\<close>

text \<open>
  C4: What reconciliation's difference means. Take any run of whole tasks of the rail and of the DvP service on
  one account, one task after the other with restarts between them, on an honest node (it accepts calls
  and reports receipts as the chain has them), and on a chain that mines and takes back transfers, but keeps
  those of FINAL settlements and never pays a call of a FAILED settlement or one that was given up;
  between the tasks others call token and escrow. Then the difference that reconciliation reports is what the operator has
  locked in open deals or paid out through released ones, less what it was sent by others (or by itself,
  through the rail), and it reports MATCHED exactly when these cancel out. Where a transfer of a settlement
  in flight is replaced or given up and still mined, or a task dies half-way, the statement says nothing.
\<close>

theorem reconciliation_reports_drift:
  assumes "joint_run c a funds past seen dep w" "funds < 100000000000000000000" "honest seen e"
    and "\<And>k h. getTransactionReceipt (rpc e k) h = Inr (seen h)"
    and "\<And>k. balanceOf (rpc e k) = Inr (uint (balanceOf_map (tok (evm w)) a))"
    and "uint (balanceOf_map (tok (evm w)) a) < 100000000000000000000"
  shows "let (res, v) = reconcile e w; drift = escrow_flow a (evm w) - dep in \<exists>run. res = Inr run \<and>
    diff run = of_int drift / 1000000 \<and> (rr_status run = MATCHED \<longleftrightarrow> drift = 0)"
proof -
  have acc: "accounted funds past seen w" and j: "joint c a funds past seen dep w"
    using joint_accounted [OF assms(1,2)] by simp_all
  have "chain_units seen funds (calls_of past w) - uint (balanceOf_map (tok (evm w)) a) = escrow_flow a (evm w) - dep"
    using j by (simp add: joint_def held_def)
  with reconcile_accounted [OF acc assms(2-5) _ assms(6)] show ?thesis by (auto simp: Let_def split: prod.splits)
qed

lemma reconciliation_reports_drift_witness:
  "\<exists>v run. fst (reconcile (run_env no_receipts 101000000) v) = Inr run \<and> rr_status run = MISMATCH \<and> diff run = -1 \<and>
     deals (evm v) = deals (evm shared_deal)"
proof -
  obtain ps k where d: "shared_deal = shared_open\<lparr>evm := evm shared_deal, pool := ps, tick := k\<rparr>"
    "deals (evm shared_deal) = (\<lambda>_. zero_deal)(''d'' := four_deal)" "balanceOf_map (tok (evm shared_deal)) ''op'' = 96000000"
    "balanceOf_map (tok (evm shared_deal)) ''x'' = 5000000" using shared_deal_eq by blast
  obtain m where m: "exec mock_ops demo_site ''x'' 600 (evm_call.Transfer ''op'' 5000000) (evm shared_deal) = Inr m"
    "deals m = deals (evm shared_deal)" "balanceOf_map (tok m) ''op'' = 101000000"
    using d(3,4) by (simp add: token_call_def mock_transfer_def mock_move_def checked_add_def)
  let ?v = "shared_deal\<lparr>evm := m\<rparr>" and ?e = "run_env no_receipts 101000000"
  have run: "joint_run demo_site ''op'' 100000000 [] no_receipts 5000000 ?v"
    using joint_run.others [OF shared_deal_run _ _ m(1)] by simp
  have "dealt m = {''d''}" by (auto simp: dealt_def m(2) d(2) four_deal_def zero_deal_def)
  then have flow: "escrow_flow ''op'' m = 4000000"
    by (simp add: escrow_flow_def m(2) d(2)) (simp add: deal_flow_def four_deal_def)
  from reconciliation_reports_drift [OF run _ run_env_honest [of no_receipts 101000000]] m(3) flow
  obtain r where "fst (reconcile ?e ?v) = Inr r" "diff r = -1" "rr_status r \<noteq> MATCHED"
    by (auto split: prod.splits)
  moreover then have "rr_status r = MISMATCH" by (cases "rr_status r") simp_all
  ultimately show ?thesis using m(2) by (intro exI [of _ ?v]) simp
qed

end
