(* ===== verification/LiveVerify.thy ===== *)
theory LiveVerify
  imports Http
begin

text \<open>
  The end-to-end verification script \<open>scripts/live-verify.mjs\<close>, which an operator runs against a live
  API. It is a program of its own: its state are the results so far, the count of failures and the clock;
  the API, the node, the timers and the random numbers are what lies beyond it. A request or a timer takes
  time, never negative. The arrows and signs in the names of the checks are written in ASCII; the lines
  printed on the console are left out.
\<close>

section \<open>The state of the script\<close>

record check =
  ck_name :: string
  ck_pass :: bool
  ck_detail :: string

text \<open>\<open>asked\<close> is the trace of the requests, kept for the properties.\<close>

record 'v script =
  results :: "check list"
  failures :: nat
  clock :: nat
  asked :: "string list"
  beyond :: 'v

text \<open>What comes back from the API: a status with the body the API sends, or with a body that is no JSON.\<close>

datatype 'a reply = Json "'a answer" | NotJson int

text \<open>
  The world beyond: each operation gives its result, the milliseconds it took and the world after it.
  Requests that are sent together are answered together; no reply is a rejected \<open>fetch\<close>. There is no node
  when \<open>RPC_HTTP_URL\<close> is not set.
\<close>

record 'v backend =
  post_all_at :: "body list \<Rightarrow> 'v \<Rightarrow> (nat \<Rightarrow> settlement_response reply option) \<times> nat \<times> 'v"
  look_at :: "string \<Rightarrow> 'v \<Rightarrow> settlement_response reply option \<times> nat \<times> 'v"
  recon_at :: "'v \<Rightarrow> reconciliation_run reply option \<times> nat \<times> 'v"
  receipt_at :: "(string \<Rightarrow> 'v \<Rightarrow> receipt option option \<times> nat \<times> 'v) option"
  late :: "nat \<Rightarrow> 'v \<Rightarrow> nat \<times> 'v"
  random_at :: "'v \<Rightarrow> nat \<times> 'v"
  TEST_RECIPIENT :: "string option"
  EXPLORER :: string
  text_of_dec :: "rat \<Rightarrow> string"

text \<open>A step of the script: it throws a message or returns.\<close>

type_synonym ('a, 'v) act = "'v script \<Rightarrow> (string + 'a) \<times> 'v script"

definition done_with :: "'a \<Rightarrow> ('a, 'v) act" where
  "done_with a s = (Inr a, s)"

definition raise :: "string \<Rightarrow> ('a, 'v) act" where
  "raise x s = (Inl x, s)"

definition so :: "('a, 'v) act \<Rightarrow> ('a \<Rightarrow> ('b, 'v) act) \<Rightarrow> ('b, 'v) act" where
  "so m f s = (case m s of (Inl x, s') \<Rightarrow> (Inl x, s') | (Inr a, s') \<Rightarrow> f a s')"

text \<open>A use of the world beyond, noted in the trace.\<close>

definition use :: "string list \<Rightarrow> ('v \<Rightarrow> 'a \<times> nat \<times> 'v) \<Rightarrow> ('a, 'v) act" where
  "use paths f s = (case f (beyond s) of (a, t, v) \<Rightarrow>
     (Inr a, s\<lparr>clock := clock s + t, asked := asked s @ paths, beyond := v\<rparr>))"

section \<open>The helpers\<close>

definition BLOCKED :: string where
  "BLOCKED = ''0x000000000000000000000000000000000000dEaD''"

text \<open>A timer never fires early.\<close>

definition script_sleep :: "'v backend \<Rightarrow> nat \<Rightarrow> (unit, 'v) act" where
  "script_sleep L ms = use [] (\<lambda>v. case late L ms v of (extra, v') \<Rightarrow> ((), ms + extra, v'))"

text \<open>A POST gives the status and the parsed body, null when it is no JSON.\<close>

definition status_data :: "'a reply \<Rightarrow> int \<times> 'a answer option" where
  "status_data r = (case r of
     Json (Answer st a) \<Rightarrow> (st, Some (Answer st a))
   | Json (Failure b) \<Rightarrow> (statusCode b, Some (Failure b))
   | NotJson st \<Rightarrow> (st, None))"

text \<open>\<open>Promise.all\<close> over posts: the first that is rejected rejects them all.\<close>

definition post_batch :: "'v backend \<Rightarrow> body list \<Rightarrow> ((int \<times> settlement_response answer option) list, 'v) act" where
  "post_batch L bs = so (use (map (\<lambda>_. ''POST /settlements'') bs) (post_all_at L bs)) (\<lambda>f.
     let rs = map f [0..<length bs] in
     if None \<in> set rs then raise ''fetch failed'' else done_with (map (status_data \<circ> the) rs))"

definition script_post :: "'v backend \<Rightarrow> body \<Rightarrow> (int \<times> settlement_response answer option, 'v) act" where
  "script_post L b = so (post_batch L [b]) (\<lambda>rs. done_with (hd rs))"

text \<open>A GET rejects when the body is no JSON.\<close>

definition parsed :: "'a reply option \<Rightarrow> ('a answer, 'v) act" where
  "parsed r = (case r of
     None \<Rightarrow> raise ''fetch failed''
   | Some (NotJson st) \<Rightarrow> raise ''SyntaxError''
   | Some (Json a) \<Rightarrow> done_with a)"

definition get_one :: "'v backend \<Rightarrow> string \<Rightarrow> (settlement_response answer, 'v) act" where
  "get_one L i = so (use [''/settlements/'' @ i] (look_at L i)) parsed"

definition get_recon :: "'v backend \<Rightarrow> (reconciliation_run answer, 'v) act" where
  "get_recon L = so (use [''/reconciliation''] (recon_at L)) parsed"

text \<open>
  The fields the script reads of a body. An error body has none of them: they are undefined. Reading one
  of null is a TypeError.
\<close>

definition status_is :: "settlement_response answer \<Rightarrow> settlement_status \<Rightarrow> bool" where
  "status_is a st = (case a of Answer _ r \<Rightarrow> sr_status r = st | Failure _ \<Rightarrow> False)"

definition hash_of :: "settlement_response answer \<Rightarrow> string option" where
  "hash_of a = (case a of Answer _ r \<Rightarrow> sr_txHash r | Failure _ \<Rightarrow> None)"

definition nonce_of :: "settlement_response answer \<Rightarrow> nat option" where
  "nonce_of a = (case a of Answer _ r \<Rightarrow> sr_nonce r | Failure _ \<Rightarrow> None)"

definition id_of :: "settlement_response answer option \<Rightarrow> (string option, 'v) act" where
  "id_of d = (case d of
     None \<Rightarrow> raise ''TypeError''
   | Some (Answer _ r) \<Rightarrow> done_with (Some (sr_id r))
   | Some (Failure _) \<Rightarrow> done_with None)"

definition recon_matched :: "reconciliation_run answer \<Rightarrow> bool" where
  "recon_matched a = (case a of Answer _ r \<Rightarrow> rr_status r = MATCHED | Failure _ \<Rightarrow> False)"

text \<open>Text: numbers in a base, statuses, absent values.\<close>

function radix :: "nat \<Rightarrow> nat \<Rightarrow> string" where
  "radix b n = (let digit = ''0123456789abcdefghijklmnopqrstuvwxyz'' in
     if b < 2 \<or> n < b then [digit ! n] else radix b (n div b) @ [digit ! (n mod b)])"
  by pat_completeness auto
termination by (relation "measure snd") auto

declare radix.simps [simp del]

definition or_undefined :: "string option \<Rightarrow> string" where
  "or_undefined x = (case x of None \<Rightarrow> ''undefined'' | Some s \<Rightarrow> s)"

fun status_name :: "settlement_status \<Rightarrow> string" where
  "status_name RECEIVED = ''RECEIVED''"
| "status_name COMPLIANCE_APPROVED = ''COMPLIANCE_APPROVED''"
| "status_name SUBMITTED = ''SUBMITTED''"
| "status_name CONFIRMED = ''CONFIRMED''"
| "status_name FINAL = ''FINAL''"
| "status_name FAILED = ''FAILED''"
| "status_name REJECTED_COMPLIANCE = ''REJECTED_COMPLIANCE''"

definition shown_status :: "settlement_response answer \<Rightarrow> string" where
  "shown_status a = (case a of Answer _ r \<Rightarrow> status_name (sr_status r) | Failure _ \<Rightarrow> ''undefined'')"

fun joined :: "string list \<Rightarrow> string" where
  "joined [] = []"
| "joined [s] = s"
| "joined (s # ss) = s @ '','' @ joined ss"

definition rid :: "'v backend \<Rightarrow> string \<Rightarrow> (string, 'v) act" where
  "rid L p = so (use [] (\<lambda>v. case random_at L v of (n, v') \<Rightarrow> (n, 0, v'))) (\<lambda>n.
     done_with (p @ ''-'' @ radix 36 n))"

definition record_check :: "string \<Rightarrow> bool \<Rightarrow> string \<Rightarrow> (unit, 'v) act" where
  "record_check nm ok detail s = (Inr (), s\<lparr>results := results s @ [\<lparr>ck_name = nm, ck_pass = ok, ck_detail = detail\<rparr>],
     failures := (if ok then failures s else failures s + 1)\<rparr>)"

section \<open>Polling\<close>

text \<open>The loop of \<open>pollSettlement\<close>. It ends because the clock moves on by three seconds in each turn.\<close>

lemma use_clock: "use p f s = (r, s') \<Longrightarrow> clock s \<le> clock s'"
  by (auto simp: use_def split: prod.splits)

lemma parsed_state: "parsed r s = (x, s') \<Longrightarrow> s' = s"
  by (auto simp: parsed_def raise_def done_with_def split: option.splits reply.splits)

lemma get_one_clock: "get_one L i s = (r, s') \<Longrightarrow> clock s \<le> clock s'"
  by (auto simp: get_one_def so_def split: prod.splits sum.splits dest!: use_clock parsed_state)

lemma sleep_clock: "clock s + ms \<le> clock (snd (script_sleep L ms s))"
  by (simp add: script_sleep_def use_def split: prod.split)

lemma turn_less:
  assumes "(Inr a, s1) = m s" "\<And>r s1. m s = (r, s1) \<Longrightarrow> clock s \<le> clock s1" "clock s < t"
  shows "t - clock (snd (script_sleep L 3000 s1)) < t - clock s"
  using assms(2) [OF assms(1) [symmetric]] assms(3) sleep_clock [of s1 3000 L] by simp

function poll_loop :: "'v backend \<Rightarrow> string \<Rightarrow> (settlement_response answer \<Rightarrow> bool) \<Rightarrow> nat \<Rightarrow> nat \<Rightarrow> string
    \<Rightarrow> (settlement_response answer, 'v) act" where
  "poll_loop L i until start timeoutMs shown s =
     (if clock s < start + timeoutMs then
        (case get_one L i s of
           (Inl x, s1) \<Rightarrow> (Inl x, s1)
         | (Inr a, s1) \<Rightarrow>
             if until a then (Inr a, s1)
             else poll_loop L i until start timeoutMs (shown_status a) (snd (script_sleep L 3000 s1)))
      else (Inl (''timeout waiting on '' @ i @ '', last status='' @ shown), s))"
  by pat_completeness auto
termination
  by (relation "measure (\<lambda>(L, i, until, start, timeoutMs, shown, s). start + timeoutMs - clock s)")
     (auto intro: turn_less get_one_clock)

declare poll_loop.simps [simp del]

definition pollSettlement :: "'v backend \<Rightarrow> string option \<Rightarrow> (settlement_response answer \<Rightarrow> bool)
    \<Rightarrow> (settlement_response answer, 'v) act" where
  "pollSettlement L i until s = poll_loop L (or_undefined i) until (clock s) 240000 ''undefined'' s"

text \<open>
  \<open>Promise.all\<close> over polls: they started together and run in step, each with its request, then the pause of
  all. The first that throws rejects them all.
\<close>

datatype poll = Polling string string | Settled "settlement_response answer"

fun poll_round :: "'v backend \<Rightarrow> (settlement_response answer \<Rightarrow> bool) \<Rightarrow> nat \<Rightarrow> nat \<Rightarrow> poll list \<Rightarrow> (poll list, 'v) act" where
  "poll_round L until start timeoutMs [] = done_with []"
| "poll_round L until start timeoutMs (Settled a # ps) =
     so (poll_round L until start timeoutMs ps) (\<lambda>qs. done_with (Settled a # qs))"
| "poll_round L until start timeoutMs (Polling i shown # ps) = (\<lambda>s.
     if clock s < start + timeoutMs then
       so (get_one L i) (\<lambda>a. so (poll_round L until start timeoutMs ps) (\<lambda>qs.
         done_with ((if until a then Settled a else Polling i (shown_status a)) # qs))) s
     else raise (''timeout waiting on '' @ i @ '', last status='' @ shown) s)"

definition open_poll :: "poll \<Rightarrow> bool" where
  "open_poll p = (case p of Polling _ _ \<Rightarrow> True | Settled _ \<Rightarrow> False)"

definition answer_in :: "poll \<Rightarrow> settlement_response answer" where
  "answer_in p = (case p of Settled a \<Rightarrow> a | Polling _ _ \<Rightarrow> Failure \<lparr>statusCode = 0, error = [], message = One []\<rparr>)"

lemma soD: "so m f s = (r, s') \<Longrightarrow> (\<exists>x. m s = (Inl x, s') \<and> r = Inl x) \<or> (\<exists>a s1. m s = (Inr a, s1) \<and> f a s1 = (r, s'))"
  by (auto simp: so_def split: prod.splits sum.splits)

lemma so_clock:
  "so m f s = (r, s') \<Longrightarrow> (\<And>x t. m s = (x, t) \<Longrightarrow> clock s \<le> clock t) \<Longrightarrow>
    (\<And>a t x t'. f a t = (x, t') \<Longrightarrow> clock t \<le> clock t') \<Longrightarrow> clock s \<le> clock s'"
  by (auto simp: so_def split: prod.splits sum.splits) (metis order_trans)

lemma poll_round_clock: "poll_round L until start timeoutMs ps s = (r, s') \<Longrightarrow> clock s \<le> clock s'"
proof (induction L until start timeoutMs ps arbitrary: s s' r rule: poll_round.induct)
  case (3 L until start timeoutMs i shown ps)
  show ?case
  proof (cases "clock s < start + timeoutMs")
    case True
    with 3 show ?thesis by (fastforce elim!: so_clock get_one_clock simp: done_with_def)
  qed (use 3(2) in \<open>simp add: raise_def\<close>)
next
  case (2 L until start timeoutMs a ps)
  then show ?case by (fastforce elim!: so_clock simp: done_with_def)
qed (simp add: done_with_def)

lemma poll_round_open:
  "poll_round L until start timeoutMs ps s = (Inr qs, s') \<Longrightarrow> list_ex open_poll qs \<Longrightarrow> clock s < start + timeoutMs"
proof (induction L until start timeoutMs ps arbitrary: s s' qs rule: poll_round.induct)
  case (3 L until start timeoutMs i shown ps)
  then show ?case by (simp add: raise_def split: if_splits)
qed (auto simp: done_with_def open_poll_def dest!: soD)

function poll_together :: "'v backend \<Rightarrow> (settlement_response answer \<Rightarrow> bool) \<Rightarrow> nat \<Rightarrow> nat \<Rightarrow> poll list
    \<Rightarrow> (settlement_response answer list, 'v) act" where
  "poll_together L until start timeoutMs ps s = (case poll_round L until start timeoutMs ps s of
     (Inl x, s1) \<Rightarrow> (Inl x, s1)
   | (Inr qs, s1) \<Rightarrow>
       if list_ex open_poll qs then poll_together L until start timeoutMs qs (snd (script_sleep L 3000 s1))
       else (Inr (map answer_in qs), s1))"
  by pat_completeness auto
termination
  by (relation "measure (\<lambda>(L, until, start, timeoutMs, ps, s). start + timeoutMs - clock s)")
     (auto intro!: turn_less poll_round_clock intro: poll_round_open dest: sym)

declare poll_together.simps [simp del]

definition poll_all :: "'v backend \<Rightarrow> string option list \<Rightarrow> (settlement_response answer \<Rightarrow> bool)
    \<Rightarrow> (settlement_response answer list, 'v) act" where
  "poll_all L ids until s =
     poll_together L until (clock s) 240000 (map (\<lambda>i. Polling (or_undefined i) ''undefined'') ids) s"

section \<open>The checks\<close>

definition with_recipient :: "'v backend \<Rightarrow> string \<Rightarrow> string \<Rightarrow> body" where
  "with_recipient L i amt = (''instructionId'', JString i) #
     (case TEST_RECIPIENT L of Some r \<Rightarrow> [(''toAddress'', JString r)] | None \<Rightarrow> []) @ [(''amount'', JString amt)]"

definition preflight :: "'v backend \<Rightarrow> (unit, 'v) act" where
  "preflight L = so (get_recon L) (\<lambda>pre.
     record_check ''Pre-flight reconciliation MATCHED'' (recon_matched pre)
       (''diff='' @ (case pre of Answer _ r \<Rightarrow> text_of_dec L (diff r) | Failure _ \<Rightarrow> ''undefined'')))"

definition ended :: "settlement_response answer \<Rightarrow> bool" where
  "ended a \<longleftrightarrow> status_is a FINAL \<or> status_is a FAILED"

text \<open>The receipt is asked for when there is a node and the hash is not empty; a failed call throws.\<close>

definition onchain_ok :: "'v backend \<Rightarrow> string option \<Rightarrow> (bool, 'v) act" where
  "onchain_ok L h = (case (receipt_at L, h) of
     (Some f, Some (c # cs)) \<Rightarrow> so (use [''eth_getTransactionReceipt''] (f (c # cs))) (\<lambda>r. case r of
         None \<Rightarrow> raise ''provider error''
       | Some None \<Rightarrow> done_with False
       | Some (Some rcpt) \<Rightarrow> done_with (rc_status rcpt = 1))
   | _ \<Rightarrow> done_with False)"

definition t1_happy :: "'v backend \<Rightarrow> (unit, 'v) act" where
  "t1_happy L = so (rid L ''happy'') (\<lambda>i.
     so (script_post L (with_recipient L i ''0.5'')) (\<lambda>(st, dat).
     so (id_of dat) (\<lambda>j.
     so (pollSettlement L j ended) (\<lambda>fin.
     so (onchain_ok L (hash_of fin)) (\<lambda>ok.
       record_check ''T1 happy path reaches FINAL'' (st = 201 \<and> status_is fin FINAL \<and> ok)
         (EXPLORER L @ ''/tx/'' @ (case hash_of fin of Some h \<Rightarrow> h | None \<Rightarrow> ''null'')))))))"

fun ids_of :: "(int \<times> settlement_response answer option) list \<Rightarrow> (string option list, 'v) act" where
  "ids_of [] = done_with []"
| "ids_of ((st, dat) # rs) = so (id_of dat) (\<lambda>i. so (ids_of rs) (\<lambda>is. done_with (i # is)))"

text \<open>Statuses have three digits, so that sorting them as text is sorting them as numbers.\<close>

definition t2_race :: "'v backend \<Rightarrow> (unit, 'v) act" where
  "t2_race L = so (rid L ''idem'') (\<lambda>i.
     so (post_batch L (replicate 5 (with_recipient L i ''0.1''))) (\<lambda>responses.
     let codes = sort (map fst responses) in
     so (ids_of responses) (\<lambda>ids.
     let n = card (set ids); got201 = length (filter (\<lambda>c. c = 201) codes); got200 = length (filter (\<lambda>c. c = 200) codes) in
       record_check ''T2 idempotent race -> one row, 1x201 + 4x200'' (n = 1 \<and> got201 = 1 \<and> got200 = 4)
         (''ids='' @ radix 10 n @ '' codes='' @ joined (map (\<lambda>c. radix 10 (nat c)) codes)))))"

definition t3_blocked :: "'v backend \<Rightarrow> (unit, 'v) act" where
  "t3_blocked L = so (rid L ''blocked'') (\<lambda>i.
     so (script_post L [(''instructionId'', JString i), (''toAddress'', JString BLOCKED), (''amount'', JString ''0.1'')]) (\<lambda>(st, dat).
     so (script_sleep L 1500) (\<lambda>_.
     so (id_of dat) (\<lambda>j.
     so (get_one L (or_undefined j)) (\<lambda>a.
       record_check ''T3 blocklisted -> REJECTED_COMPLIANCE, no tx''
         (status_is a REJECTED_COMPLIANCE \<and> (hash_of a = None \<or> hash_of a = Some []))
         (''status='' @ shown_status a))))))"

text \<open>An error body with a numeric code, an error and a message; an array of messages counts as one.\<close>

definition clean_body :: "settlement_response answer option \<Rightarrow> bool" where
  "clean_body d = (case d of
     Some (Failure b) \<Rightarrow> error b \<noteq> [] \<and> message b \<noteq> One []
   | _ \<Rightarrow> False)"

fun run_cases :: "'v backend \<Rightarrow> (string \<times> body \<times> int) list \<Rightarrow> (unit, 'v) act" where
  "run_cases L [] = done_with ()"
| "run_cases L ((label, b, expected) # cs) = so (script_post L b) (\<lambda>(st, dat).
     so (record_check (''T4 '' @ label @ '' -> '' @ radix 10 (nat expected)) (st = expected \<and> clean_body dat)
           (''got '' @ radix 10 (nat st))) (\<lambda>_. run_cases L cs))"

definition t4_validation :: "'v backend \<Rightarrow> (unit, 'v) act" where
  "t4_validation L = so (rid L ''v'') (\<lambda>i1. so (rid L ''v'') (\<lambda>i2. so (rid L ''v'') (\<lambda>i3. so (rid L ''v'') (\<lambda>i4.
     run_cases L
       [(''bad address'', [(''instructionId'', JString i1), (''toAddress'', JString ''0x123''), (''amount'', JString ''0.1'')], 400),
        (''negative amount'', with_recipient L i2 ''-1'', 400),
        (''7 decimals'', with_recipient L i3 ''0.0000001'', 400),
        (''over balance'', with_recipient L i4 ''1000000'', 422)]))))"

definition on_its_way :: "settlement_response answer \<Rightarrow> bool" where
  "on_its_way a \<longleftrightarrow> status_is a SUBMITTED \<or> status_is a CONFIRMED \<or> status_is a FINAL"

definition t5_midflight :: "'v backend \<Rightarrow> (unit, 'v) act" where
  "t5_midflight L = so (rid L ''midflight'') (\<lambda>i.
     so (script_post L (with_recipient L i ''0.1'')) (\<lambda>(st, dat).
     so (id_of dat) (\<lambda>j.
     so (pollSettlement L j on_its_way) (\<lambda>_.
     so (get_recon L) (\<lambda>recon.
     so (record_check ''T5 reconciliation MATCHED mid-flight'' (recon_matched recon)
           (case recon of
              Answer _ r \<Rightarrow> ''pending='' @ text_of_dec L (pendingAmount r) @ '' diff='' @ text_of_dec L (diff r)
            | Failure _ \<Rightarrow> ''pending=undefined diff=undefined'')) (\<lambda>_.
     so (pollSettlement L j ended) (\<lambda>_. done_with ())))))))"

text \<open>
  The order of the nonces is that of \<open>(a, b) => a - b\<close>, where null counts as 0, as it does in \<open>nonces[i - 1] + 1\<close>;
  a null nonce equals no number. A nonce is undefined only in an error body, which no poll returns.
\<close>

definition nonce_num :: "nat option \<Rightarrow> nat" where
  "nonce_num n = (case n of None \<Rightarrow> 0 | Some k \<Rightarrow> k)"

fun follows :: "nat option \<Rightarrow> nat option list \<Rightarrow> bool" where
  "follows p [] = True"
| "follows p (n # ns) \<longleftrightarrow> n = Some (nonce_num p + 1) \<and> follows n ns"

definition sequential :: "nat option list \<Rightarrow> bool" where
  "sequential ns = (case sort_key nonce_num ns of [] \<Rightarrow> True | n # rest \<Rightarrow> follows n rest)"

fun rids :: "'v backend \<Rightarrow> string \<Rightarrow> nat \<Rightarrow> (string list, 'v) act" where
  "rids L p 0 = done_with []"
| "rids L p (Suc k) = so (rid L p) (\<lambda>i. so (rids L p k) (\<lambda>is. done_with (i # is)))"

definition t7_concurrency :: "'v backend \<Rightarrow> (unit, 'v) act" where
  "t7_concurrency L = so (rids L ''conc'' 5) (\<lambda>is.
     so (post_batch L (map (\<lambda>i. with_recipient L i ''0.1'') is)) (\<lambda>created.
     so (ids_of created) (\<lambda>ids.
     so (poll_all L ids ended) (\<lambda>finals.
     so (record_check ''T7 concurrency -> all FINAL'' (list_all (\<lambda>a. status_is a FINAL) finals)
           (''statuses='' @ joined (map shown_status finals))) (\<lambda>_.
       record_check ''T7 nonces strictly sequential'' (sequential (map nonce_of finals))
         (''nonces='' @ joined (map (\<lambda>n. case n of None \<Rightarrow> [] | Some k \<Rightarrow> radix 10 k)
            (sort_key nonce_num (map nonce_of finals)))))))))"

definition live_checks :: "'v backend \<Rightarrow> (unit, 'v) act" where
  "live_checks L = so (preflight L) (\<lambda>_. so (t1_happy L) (\<lambda>_. so (t2_race L) (\<lambda>_. so (t3_blocked L) (\<lambda>_.
     so (t4_validation L) (\<lambda>_. so (t5_midflight L) (\<lambda>_. t7_concurrency L))))))"

text \<open>The exit code of the process: 1 for a failed check and for anything thrown.\<close>

definition live_verify :: "'v backend \<Rightarrow> 'v \<Rightarrow> nat \<times> 'v script" where
  "live_verify L v = (case live_checks L \<lparr>results = [], failures = 0, clock = 0, asked = [], beyond = v\<rparr> of
     (Inl err, s) \<Rightarrow> (1, s)
   | (Inr _, s) \<Rightarrow> (if failures s = 0 then 0 else 1, s))"

end
