(* ===== verification/LiveClaims.thy ===== *)
theory LiveClaims
  imports LiveVerify
begin

text \<open>Properties of the verification script, and of its checks on the model of the rail.\<close>

section \<open>Polling\<close>

text \<open>The world and the time before the k-th request of a poll whose requests so far did not settle it.\<close>

fun before :: "'v backend \<Rightarrow> string \<Rightarrow> nat \<Rightarrow> 'v \<Rightarrow> nat \<Rightarrow> 'v \<times> nat" where
  "before L i 0 v t = (v, t)"
| "before L i (Suc k) v t = (case look_at L i v of (_, d, u) \<Rightarrow> (case late L 3000 u of (x, u') \<Rightarrow>
     before L i k u' (t + d + 3000 + x)))"

lemma get_one_eq: "look_at L i (beyond s) = (r, d, u) \<Longrightarrow> get_one L i s =
    parsed r (s\<lparr>clock := clock s + d, asked := asked s @ [''/settlements/'' @ i], beyond := u\<rparr>)"
  by (simp add: get_one_def so_def use_def)

lemma get_one_asked:
  "get_one L i s = (r, s') \<Longrightarrow> length (asked s') = Suc (length (asked s)) \<and> results s' = results s \<and> failures s' = failures s"
  by (auto simp: get_one_def so_def use_def split: prod.splits sum.splits dest!: parsed_state)

lemma sleep_eq: "late L ms (beyond s) = (x, u) \<Longrightarrow>
    script_sleep L ms s = (Inr (), s\<lparr>clock := clock s + (ms + x), beyond := u\<rparr>)"
  by (simp add: script_sleep_def use_def)

lemma sleep_keeps: "asked (snd (script_sleep L ms s)) = asked s" "results (snd (script_sleep L ms s)) = results s"
  "failures (snd (script_sleep L ms s)) = failures s"
  by (simp_all add: script_sleep_def use_def split: prod.split)

text \<open>At most one request per started three seconds that are left.\<close>

lemma poll_loop_bounds:
  "poll_loop L i until start timeoutMs shown s = (r, s') \<Longrightarrow>
    length (asked s') \<le> length (asked s) + (start + timeoutMs - clock s + 2999) div 3000 \<and>
    (\<forall>a. r = Inr a \<longrightarrow> until a) \<and> results s' = results s \<and> failures s' = failures s"
proof (induction L i until start timeoutMs shown s arbitrary: r s' rule: poll_loop.induct)
  case (1 L i until start timeoutMs shown s)
  show ?case
  proof (cases "clock s < start + timeoutMs")
    case False
    with "1.prems" show ?thesis by (auto simp: poll_loop.simps [of L i until start timeoutMs shown s])
  next
    case True
    then have pos: "1 \<le> (start + timeoutMs - clock s + 2999) div 3000" by simp
    obtain x s1 where g: "get_one L i s = (x, s1)" by fastforce
    note G = get_one_asked [OF g] get_one_clock [OF g]
    show ?thesis
    proof (cases x)
      case (Inl y)
      with "1.prems" True g G pos show ?thesis by (auto simp: poll_loop.simps [of L i until start timeoutMs shown s])
    next
      case (Inr a)
      show ?thesis
      proof (cases "until a")
        case True
        with "1.prems" \<open>clock s < start + timeoutMs\<close> g G pos Inr show ?thesis
          by (auto simp: poll_loop.simps [of L i until start timeoutMs shown s])
      next
        case False
        let ?s2 = "snd (script_sleep L 3000 s1)"
        have "poll_loop L i until start timeoutMs (shown_status a) ?s2 = (r, s')"
          using "1.prems" True g Inr False by (simp add: poll_loop.simps [of L i until start timeoutMs shown s])
        from "1.IH" [OF True g [symmetric] Inr False this]
        have ih: "length (asked s') \<le> length (asked ?s2) + (start + timeoutMs - clock ?s2 + 2999) div 3000"
          "\<forall>a. r = Inr a \<longrightarrow> until a" "results s' = results ?s2" "failures s' = failures ?s2" by simp_all
        have "start + timeoutMs - clock ?s2 + 2999 + 3000 \<le> start + timeoutMs - clock s + 2999 \<or> start + timeoutMs - clock ?s2 = 0"
          using sleep_clock [of s1 3000 L] G True by linarith
        then have "Suc ((start + timeoutMs - clock ?s2 + 2999) div 3000) \<le> (start + timeoutMs - clock s + 2999) div 3000"
          using pos by (auto dest: div_le_mono [of _ _ 3000])
        with ih G show ?thesis by (simp add: sleep_keeps)
      qed
    qed
  qed
qed

lemma poll_loop_finds:
  assumes "\<And>k. k < n \<Longrightarrow> snd (before L i k (beyond s) (clock s)) < start + timeoutMs \<and>
      (\<exists>a. fst (look_at L i (fst (before L i k (beyond s) (clock s)))) = Some (Json a) \<and> \<not> until a)"
    and "snd (before L i n (beyond s) (clock s)) < start + timeoutMs"
    and "fst (look_at L i (fst (before L i n (beyond s) (clock s)))) = Some (Json a)" "until a"
  shows "\<exists>s'. poll_loop L i until start timeoutMs shown s = (Inr a, s') \<and> length (asked s') = length (asked s) + n + 1"
  using assms
proof (induction n arbitrary: s shown)
  case 0
  obtain r d u where l: "look_at L i (beyond s) = (r, d, u)" by (metis prod_cases3)
  with 0 show ?case by (simp add: poll_loop.simps [of L i until start timeoutMs shown s] get_one_eq parsed_def done_with_def)
next
  case (Suc n)
  obtain r d u where l: "look_at L i (beyond s) = (r, d, u)" by (metis prod_cases3)
  obtain x u' where t: "late L 3000 u = (x, u')" by fastforce
  let ?s1 = "s\<lparr>clock := clock s + d, asked := asked s @ [''/settlements/'' @ i], beyond := u\<rparr>"
  let ?s2 = "?s1\<lparr>clock := clock ?s1 + (3000 + x), beyond := u'\<rparr>"
  from Suc.prems(1) [of 0] l obtain b where b: "r = Some (Json b)" "\<not> until b" "clock s < start + timeoutMs" by auto
  have sl: "script_sleep L 3000 ?s1 = (Inr (), ?s2)" by (rule sleep_eq) (simp add: t)
  have run: "poll_loop L i until start timeoutMs shown s = poll_loop L i until start timeoutMs (shown_status b) ?s2"
    using b l sl by (simp add: poll_loop.simps [of L i until start timeoutMs shown s] get_one_eq parsed_def done_with_def)
  have shift: "before L i k (beyond ?s2) (clock ?s2) = before L i (Suc k) (beyond s) (clock s)" for k
    using l t by (simp add: add.assoc)
  have "\<exists>s'. poll_loop L i until start timeoutMs (shown_status b) ?s2 = (Inr a, s') \<and>
      length (asked s') = length (asked ?s2) + n + 1"
    using Suc.prems(1) [of "Suc _"] Suc.prems(2-4) by (intro Suc.IH) (simp_all only: shift Suc_less_eq)
  then show ?case by (simp add: run)
qed

lemma before_shift: "before L i k v t = (fst (before L i k v 0), t + snd (before L i k v 0))"
proof (induction k arbitrary: v t)
  case (Suc k)
  obtain r d u where l: "look_at L i v = (r, d, u)" by (metis prod_cases3)
  obtain x u' where x: "late L 3000 u = (x, u')" by fastforce
  from Suc.IH [of u' "t + d + 3000 + x"] Suc.IH [of u' "d + 3000 + x"] show ?case by (simp add: l x)
qed simp

lemma before_mono: "k \<le> n \<Longrightarrow> snd (before L i k v 0) \<le> snd (before L i n v 0)"
proof (induction k arbitrary: n v)
  case (Suc k)
  then obtain m where m: "n = Suc m" "k \<le> m" by (cases n) auto
  obtain r d u where l: "look_at L i v = (r, d, u)" by (metis prod_cases3)
  obtain x u' where x: "late L 3000 u = (x, u')" by fastforce
  from Suc.IH [OF m(2), of u'] show ?case
    by (simp add: m l x before_shift [of L i k u' "d + 3000 + x"] before_shift [of L i m u' "d + 3000 + x"])
qed simp

text \<open>
  C37: A poll ends, and finds what it waits for. Whatever the API answers, \<open>pollSettlement\<close> returns or throws after
  at most 80 requests, records nothing, and returns only an answer that satisfies its condition; and when
  the n-th request, made within the 240 seconds, is the first whose answer satisfies the condition, it
  returns that answer with exactly n requests.
\<close>

theorem poll_decided:
  "let (r, s') = pollSettlement L i until s; j = or_undefined i; before_nth = (\<lambda>k. before L j k (beyond s) 0) in
     length (asked s') \<le> length (asked s) + 80 \<and> results s' = results s \<and> failures s' = failures s \<and>
     (\<forall>a. r = Inr a \<longrightarrow> until a) \<and>
     (\<forall>n a. (\<forall>k < n. \<exists>b. fst (look_at L j (fst (before_nth k))) = Some (Json b) \<and> \<not> until b) \<and>
        fst (look_at L j (fst (before_nth n))) = Some (Json a) \<and> until a \<and> snd (before_nth n) < 240000 \<longrightarrow>
        r = Inr a \<and> length (asked s') = length (asked s) + n + 1)"
proof -
  let ?j = "or_undefined i"
  obtain r s' where run: "pollSettlement L i until s = (r, s')" by fastforce
  then have loop: "poll_loop L ?j until (clock s) 240000 ''undefined'' s = (r, s')" by (simp add: pollSettlement_def)
  note shift = before_shift [of L ?j _ "beyond s" "clock s"]
  have found: "r = Inr a \<and> length (asked s') = length (asked s) + n + 1"
    if "\<forall>k < n. \<exists>b. fst (look_at L ?j (fst (before L ?j k (beyond s) 0))) = Some (Json b) \<and> \<not> until b"
      "fst (look_at L ?j (fst (before L ?j n (beyond s) 0))) = Some (Json a)" "until a"
      "snd (before L ?j n (beyond s) 0) < 240000" for n a
  proof -
    have in_time: "snd (before L ?j k (beyond s) 0) < 240000" if "k < n" for k
      using before_mono [of k n L ?j "beyond s"] that \<open>snd (before L ?j n (beyond s) 0) < 240000\<close> by simp
    have "\<exists>t. poll_loop L ?j until (clock s) 240000 ''undefined'' s = (Inr a, t) \<and> length (asked t) = length (asked s) + n + 1"
      using that in_time by (intro poll_loop_finds) (auto simp: shift)
    with loop show ?thesis by auto
  qed
  moreover have "length (asked s') \<le> length (asked s) + 80" "results s' = results s" "failures s' = failures s"
    "\<forall>a. r = Inr a \<longrightarrow> until a"
    using poll_loop_bounds [OF loop] by simp_all
  ultimately show ?thesis unfolding run Let_def prod.case by blast
qed


text \<open>An API whose settlement is FINAL from the third request on, seen by a counter.\<close>

definition view_of :: "settlement_status \<Rightarrow> settlement_response" where
  "view_of st = \<lparr>sr_id = ''s'', sr_instructionId = ''i'', sr_toAddress = ''a'', sr_amount = ''1'', sr_status = st,
     sr_txHash = None, sr_nonce = None, sr_failureReason = None, sr_retryCount = 0, sr_confirmations = None,
     sr_createdAt = 0, sr_updatedAt = 0\<rparr>"

definition counting :: "nat backend" where
  "counting = \<lparr>post_all_at = (\<lambda>bs n. (\<lambda>_. None, 0, n)),
     look_at = (\<lambda>_ n. (Some (Json (Answer 200 (view_of (if n < 2 then SUBMITTED else FINAL)))), 100, Suc n)),
     recon_at = (\<lambda>n. (None, 0, n)), receipt_at = None, late = (\<lambda>_ n. (0, n)), random_at = (\<lambda>n. (n, n)),
     TEST_RECIPIENT = None, EXPLORER = [], text_of_dec = (\<lambda>_. [])\<rparr>"

lemma poll_decided_witness:
  "let (r, s') = pollSettlement counting (Some ''s'') ended \<lparr>results = [], failures = 0, clock = 5, asked = [], beyond = 0\<rparr>
   in r = Inr (Answer 200 (view_of FINAL)) \<and> length (asked s') = 3"
proof -
  have two: "k < Suc (Suc 0) \<longleftrightarrow> k = 0 \<or> k = Suc 0" for k by auto
  have "2 = Suc (Suc 0)" by simp
  then show ?thesis
    using poll_decided [of counting "Some ''s''" ended "\<lparr>results = [], failures = 0, clock = 5, asked = [], beyond = 0\<rparr>"]
    by (auto simp: Let_def counting_def view_of_def ended_def status_is_def two or_undefined_def
        dest!: spec [of _ "Suc (Suc 0)"] spec [of _ "Answer 200 (view_of FINAL)"] split: prod.splits)
qed

section \<open>The exit code\<close>

text \<open>
  What a part of the script does to the results: it appends the checks named, in order, or throws with at
  least \<open>d\<close> of them missing; the count of failures follows.
\<close>

definition appends :: "nat \<Rightarrow> string list \<Rightarrow> ('a, 'v) act \<Rightarrow> bool" where
  "appends d names m \<longleftrightarrow> (\<forall>s r s'. m s = (r, s') \<longrightarrow> (\<exists>cs. results s' = results s @ cs \<and>
     failures s' = failures s + length (filter (\<lambda>c. \<not> ck_pass c) cs) \<and>
     (case r of Inl x \<Rightarrow> prefix (map ck_name cs) names \<and> length cs + d \<le> length names
      | Inr a \<Rightarrow> map ck_name cs = names)))"

lemma appends_so:
  assumes "appends d' ns m" "\<And>a. appends d ms (f a)" "d \<le> length ms"
  shows "appends d (ns @ ms) (so m f)"
  unfolding appends_def
proof (intro allI impI)
  fix s r s'
  assume "so m f s = (r, s')"
  then consider x where "m s = (Inl x, s')" "r = Inl x" | a s1 where "m s = (Inr a, s1)" "f a s1 = (r, s')"
    by (auto dest: soD)
  then show "\<exists>cs. results s' = results s @ cs \<and> failures s' = failures s + length (filter (\<lambda>c. \<not> ck_pass c) cs) \<and>
     (case r of Inl x \<Rightarrow> prefix (map ck_name cs) (ns @ ms) \<and> length cs + d \<le> length (ns @ ms)
      | Inr a \<Rightarrow> map ck_name cs = ns @ ms)"
  proof cases
    case 1
    with assms(1,3) show ?thesis unfolding appends_def by (fastforce intro: prefix_prefix)
  next
    case 2
    from assms(1) 2(1) obtain cs where cs: "results s1 = results s @ cs"
      "failures s1 = failures s + length (filter (\<lambda>c. \<not> ck_pass c) cs)" "map ck_name cs = ns"
      unfolding appends_def by fastforce
    from assms(2) 2(2) obtain ds where ds: "results s' = results s1 @ ds"
      "failures s' = failures s1 + length (filter (\<lambda>c. \<not> ck_pass c) ds)"
      "case r of Inl x \<Rightarrow> prefix (map ck_name ds) ms \<and> length ds + d \<le> length ms | Inr a \<Rightarrow> map ck_name ds = ms"
      unfolding appends_def by blast
    from cs ds show ?thesis by (intro exI [of _ "cs @ ds"]) (auto split: sum.splits)
  qed
qed

lemma appends_act [intro!, simp]:
  "appends 0 [] (done_with a)" "appends 0 [] (raise x)" "appends 0 [] (use p f)" "appends (Suc 0) [nm] (record_check nm ok detail)"
  by (auto simp: appends_def done_with_def raise_def use_def record_check_def split: prod.splits)

lemma appends_nil_so: "appends 0 [] m \<Longrightarrow> (\<And>a. appends d ms (f a)) \<Longrightarrow> d \<le> length ms \<Longrightarrow> appends d ms (so m f)"
  using appends_so [of 0 "[]" m d ms f] by simp

lemma appends_silent [simp]:
  "appends 0 [] (rid L p)" "appends 0 [] (parsed r)" "appends 0 [] (get_one L i)" "appends 0 [] (get_recon L)"
  "appends 0 [] (post_batch L bs)" "appends 0 [] (script_post L b)" "appends 0 [] (script_sleep L ms)"
  "appends 0 [] (id_of dat)" "appends 0 [] (onchain_ok L h)"
  by (auto simp: rid_def parsed_def get_one_def get_recon_def post_batch_def script_post_def script_sleep_def id_of_def
      onchain_ok_def Let_def intro!: appends_nil_so split: option.split reply.split answer.split list.split)

lemma appends_poll [simp]: "appends 0 [] (pollSettlement L i until)"
  unfolding appends_def pollSettlement_def by (auto dest!: poll_loop_bounds split: sum.splits)

lemma appends_round [simp]: "appends 0 [] (poll_round L until start timeoutMs ps)"
proof (induction ps)
  case (Cons p ps)
  then show ?case
  proof (cases p)
    case (Polling i shown)
    have "appends 0 [] (so (get_one L i) (\<lambda>a. so (poll_round L until start timeoutMs ps) (\<lambda>qs.
         done_with ((if until a then Settled a else Polling i (shown_status a)) # qs))))"
      using Cons by (auto intro!: appends_nil_so)
    with Polling show ?thesis by (simp add: appends_def raise_def)
  qed (auto intro!: appends_nil_so)
qed simp

lemma together_silent: "poll_together L until start timeoutMs ps s = (r, s') \<Longrightarrow> results s' = results s \<and> failures s' = failures s"
proof (induction L until start timeoutMs ps s arbitrary: r s' rule: poll_together.induct)
  case (1 L until start timeoutMs ps s)
  obtain x s1 where round: "poll_round L until start timeoutMs ps s = (x, s1)" by fastforce
  then have s1: "results s1 = results s" "failures s1 = failures s"
    using appends_round [of L until start timeoutMs ps] unfolding appends_def by (fastforce split: sum.splits)+
  note step = poll_together.simps [of L until start timeoutMs ps s]
  show ?case
  proof (cases x)
    case (Inl y)
    with 1(2) round s1 show ?thesis by (simp add: step)
  next
    case (Inr qs)
    show ?thesis
    proof (cases "list_ex open_poll qs")
      case True
      with 1(2) round Inr have "poll_together L until start timeoutMs qs (snd (script_sleep L 3000 s1)) = (r, s')"
        by (simp add: step)
      from 1(1) [OF round [symmetric] Inr True this] s1 show ?thesis by (simp add: sleep_keeps)
    next
      case False
      with 1(2) round Inr s1 show ?thesis by (simp add: step)
    qed
  qed
qed

lemma appends_together [simp]: "appends 0 [] (poll_all L ids until)"
  unfolding appends_def poll_all_def by (auto dest!: together_silent split: sum.splits)

lemma appends_ids [simp]: "appends 0 [] (ids_of rs)"
  by (induction rs rule: ids_of.induct) (auto intro!: appends_nil_so)

lemma appends_rids [simp]: "appends 0 [] (rids L p k)"
  by (induction k) (auto intro!: appends_nil_so)

lemma appends_weaken: "appends d ns m \<Longrightarrow> d' \<le> d \<Longrightarrow> appends d' ns m"
  unfolding appends_def by (fastforce split: sum.splits)

definition check_names :: "string list" where
  "check_names = [''Pre-flight reconciliation MATCHED'', ''T1 happy path reaches FINAL'',
     ''T2 idempotent race -> one row, 1x201 + 4x200'', ''T3 blocklisted -> REJECTED_COMPLIANCE, no tx'',
     ''T4 bad address -> 400'', ''T4 negative amount -> 400'', ''T4 7 decimals -> 400'', ''T4 over balance -> 422'',
     ''T5 reconciliation MATCHED mid-flight'', ''T7 concurrency -> all FINAL'', ''T7 nonces strictly sequential'']"

lemma appends_cases:
  "appends 0 (map (\<lambda>(label, b, expected). ''T4 '' @ label @ '' -> '' @ radix 10 (nat expected)) cs) (run_cases L cs)"
proof (induction cs)
  case (Cons c cs)
  obtain label b expected where c: "c = (label, b, expected)" by (metis prod_cases3)
  have "appends 0 ([''T4 '' @ label @ '' -> '' @ radix 10 (nat expected)] @
      map (\<lambda>(label, b, expected). ''T4 '' @ label @ '' -> '' @ radix 10 (nat expected)) cs) (run_cases L (c # cs))"
    unfolding c run_cases.simps
    by (intro appends_nil_so appends_silent, clarify, rule appends_so [where d' = 1]) (use Cons in auto)
  then show ?case by (simp add: c)
qed simp

lemma t_parts:
  "appends 0 [''Pre-flight reconciliation MATCHED''] (preflight L)"
  "appends 0 [''T1 happy path reaches FINAL''] (t1_happy L)"
  "appends 0 [''T2 idempotent race -> one row, 1x201 + 4x200''] (t2_race L)"
  "appends 0 [''T3 blocklisted -> REJECTED_COMPLIANCE, no tx''] (t3_blocked L)"
  by (auto simp: preflight_def t1_happy_def t2_race_def t3_blocked_def Let_def
      intro!: appends_nil_so appends_weaken [OF appends_act(4)])

lemma t4_part: "appends 0 [''T4 bad address -> 400'', ''T4 negative amount -> 400'', ''T4 7 decimals -> 400'',
    ''T4 over balance -> 422''] (t4_validation L)"
proof -
  have "radix 10 400 = ''400''" "radix 10 422 = ''422''" by (simp_all add: radix.simps Let_def)
  then have "appends 0 [''T4 bad address -> 400'', ''T4 negative amount -> 400'', ''T4 7 decimals -> 400'',
    ''T4 over balance -> 422''] (run_cases L [(''bad address'', b1, 400), (''negative amount'', b2, 400),
      (''7 decimals'', b3, 400), (''over balance'', b4, 422)])" for b1 b2 b3 b4
    using appends_cases [of "[(''bad address'', b1, 400), (''negative amount'', b2, 400), (''7 decimals'', b3, 400),
      (''over balance'', b4, 422)]" L] by simp
  then show ?thesis
    unfolding t4_validation_def by (intro appends_nil_so appends_silent) simp_all
qed

lemma appends_record_so: "(\<And>u. appends 0 [] (f u)) \<Longrightarrow> appends 0 [nm] (so (record_check nm ok d) f)"
  using appends_so [OF appends_act(4), of 0 "[]" f] by simp

lemma t5_part: "appends 0 [''T5 reconciliation MATCHED mid-flight''] (t5_midflight L)"
  by (auto simp: t5_midflight_def intro!: appends_record_so appends_nil_so)

lemma appends_two: "appends (Suc 0) [nm, nm'] (so (record_check nm ok d) (\<lambda>_. record_check nm' ok' d'))"
  using appends_so [OF appends_act(4), of "Suc 0" "[nm']" "\<lambda>_. record_check nm' ok' d'"] by simp

lemma t7_part: "appends 1 [''T7 concurrency -> all FINAL'', ''T7 nonces strictly sequential''] (t7_concurrency L)"
  by (auto simp: t7_concurrency_def intro!: appends_two appends_nil_so)

lemma live_appends: "appends 1 check_names (live_checks L)"
proof -
  have "appends 1 ([''Pre-flight reconciliation MATCHED''] @ [''T1 happy path reaches FINAL''] @
     [''T2 idempotent race -> one row, 1x201 + 4x200''] @ [''T3 blocklisted -> REJECTED_COMPLIANCE, no tx''] @
     [''T4 bad address -> 400'', ''T4 negative amount -> 400'', ''T4 7 decimals -> 400'', ''T4 over balance -> 422''] @
     [''T5 reconciliation MATCHED mid-flight''] @ [''T7 concurrency -> all FINAL'', ''T7 nonces strictly sequential''])
     (live_checks L)"
    unfolding live_checks_def
    by (intro appends_so [where d' = 0 and d = 1] t_parts t4_part t5_part t7_part) simp_all
  then show ?thesis by (simp add: check_names_def)
qed

text \<open>
  The exit code tells the truth. Whatever the API, the node and the clock do, the script ends with code 0
  exactly when all eleven checks were made, in their order, and every one passed; it ends with 1 when a check
  failed or anything was thrown. The checks it reports are always a beginning of that list, and the
  failures it counts are the failed ones among them.
\<close>

theorem exit_code_exact:
  "let (code, s) = live_verify L v in
     (code = 0 \<longleftrightarrow> map ck_name (results s) = check_names \<and> list_all ck_pass (results s)) \<and> code \<in> {0, 1} \<and>
     prefix (map ck_name (results s)) check_names \<and> failures s = length (filter (\<lambda>c. \<not> ck_pass c) (results s))"
proof -
  let ?s = "\<lparr>results = [], failures = 0, clock = 0, asked = [], beyond = v\<rparr>"
  obtain r s where run: "live_checks L ?s = (r, s)" by fastforce
  with live_appends [of L] obtain cs where cs: "results s = cs" "failures s = length (filter (\<lambda>c. \<not> ck_pass c) cs)"
    "case r of Inl x \<Rightarrow> prefix (map ck_name cs) check_names \<and> length cs + 1 \<le> length check_names
      | Inr a \<Rightarrow> map ck_name cs = check_names" unfolding appends_def by fastforce
  have none: "length (filter (\<lambda>c. \<not> ck_pass c) cs) = 0 \<longleftrightarrow> list_all ck_pass cs" by (auto simp: filter_empty_conv list_all_iff)
  have short: "map ck_name cs \<noteq> check_names" if "length cs + 1 \<le> length check_names"
  proof
    assume "map ck_name cs = check_names"
    then have "length cs = length check_names" by (metis length_map)
    with that show False by simp
  qed
  from cs none short show ?thesis by (auto simp: live_verify_def run split: sum.splits)
qed

section \<open>Nonces\<close>

definition nonces_from :: "nat \<Rightarrow> nat \<Rightarrow> nat option list" where
  "nonces_from k n = map Some [k ..< k + n]"

lemma nonces_from_simps [simp]:
  "nonces_from k 0 = []" "nonces_from k (Suc n) = Some k # nonces_from (Suc k) n" "length (nonces_from k n) = n"
  by (simp_all add: nonces_from_def upt_conv_Cons del: upt_Suc)

lemma follows_iff: "follows (Some k) ns \<longleftrightarrow> ns = nonces_from (Suc k) (length ns)"
  by (induction ns arbitrary: k) (auto simp: nonce_num_def)

lemma sequential_sorted: "sort_key nonce_num ns = nonces_from k n \<Longrightarrow> sequential ns"
  by (cases n) (simp_all add: sequential_def follows_iff)

text \<open>
  The nonce check is exact. When every settlement of the concurrent batch has a nonce, T7 calls them
  strictly sequential exactly when they are, in some order, a run of consecutive numbers.
\<close>

theorem sequential_exact:
  assumes "None \<notin> set ns"
  shows "sequential ns \<longleftrightarrow> (\<exists>k. mset ns = mset (map Some [k ..< k + length ns]))"
  unfolding nonces_from_def [symmetric]
proof
  assume s: "sequential ns"
  show "\<exists>k. mset ns = mset (nonces_from k (length ns))"
  proof (cases "sort_key nonce_num ns")
    case Nil
    then have "ns = []" by (metis length_sort length_0_conv)
    then show ?thesis by simp
  next
    case (Cons n rest)
    then have "n \<in> set ns" by (metis list.set_intros(1) set_sort)
    with assms obtain k where k: "n = Some k" by (cases n) auto
    have len: "length ns = Suc (length rest)" using Cons by (metis length_sort length_Cons)
    have "rest = nonces_from (Suc k) (length rest)" using s Cons k by (simp add: sequential_def follows_iff)
    then have "sort_key nonce_num ns = nonces_from k (length ns)" using Cons k len by simp
    then show ?thesis by (metis mset_sort)
  qed
next
  assume "\<exists>k. mset ns = mset (nonces_from k (length ns))"
  then obtain k where m: "mset ns = mset (nonces_from k (length ns))" by blast
  have "sorted (map nonce_num (nonces_from k (length ns)))" by (simp add: nonces_from_def nonce_num_def comp_def)
  moreover have "inj_on nonce_num (set ns)"
    using assms by (auto simp: inj_on_def nonce_num_def split: option.splits)
  ultimately have "sort_key nonce_num ns = nonces_from k (length ns)"
    using m by (metis sort_key_inj_key_eq)
  then show "sequential ns" by (rule sequential_sorted)
qed

lemma sequential_exact_witness: "sequential [Some 7, Some 5, Some 6]"
proof -
  have "mset [Some 7, Some 5, Some 6] = mset (map Some [(5::nat) ..< 5 + length [Some 7, Some 5, Some (6::nat)]])"
    by (simp add: upt_conv_Cons)
  with sequential_exact [of "[Some 7, Some 5, Some 6]"] show ?thesis by fastforce
qed

end
