(* ===== verification/LiveRail.thy ===== *)
theory LiveRail
  imports LiveClaims SubmissionClaims HttpClaims AmountClaims
begin

text \<open>
  The checks of the verification script run against the model of the rail: the API is the controllers, the
  node the one of the environment.
\<close>

section \<open>The rail as the world beyond the script\<close>

text \<open>The world of the service and a counter for the random numbers; requests sent together run one after the other.\<close>

fun posts :: "(string \<Rightarrow> compliance_result) \<Rightarrow> (body \<Rightarrow> string list) \<Rightarrow> env \<Rightarrow> body list \<Rightarrow> world
    \<Rightarrow> settlement_response reply option list \<times> world" where
  "posts provider msgs e [] w = ([], w)"
| "posts provider msgs e (b # bs) w = (case post_settlements provider msgs b e w of (a, w1) \<Rightarrow>
     (case posts provider msgs e bs w1 of (rs, w2) \<Rightarrow> (map_option Json a # rs, w2)))"

definition rail_live :: "(string \<Rightarrow> compliance_result) \<Rightarrow> (body \<Rightarrow> string list) \<Rightarrow> env \<Rightarrow> (nat \<Rightarrow> nat) \<Rightarrow> string option
    \<Rightarrow> (world \<times> nat) backend" where
  "rail_live provider msgs e draw recipient = \<lparr>
     post_all_at = (\<lambda>bs (w, n). case posts provider msgs e bs w of (rs, w') \<Rightarrow> (\<lambda>i. rs ! i, 0, (w', n))),
     look_at = (\<lambda>i (w, n). case serve (get_settlement i) (\<lambda>_. 200) e w of (a, w') \<Rightarrow> (map_option Json a, 0, (w', n))),
     recon_at = (\<lambda>(w, n). case serve get_reconciliation (\<lambda>_. 200) e w of (a, w') \<Rightarrow> (map_option Json a, 0, (w', n))),
     receipt_at = Some (\<lambda>h (w, n). (case getTransactionReceipt (rpc e (tick w)) h of
         Inl _ \<Rightarrow> None | Inr r \<Rightarrow> Some r, 0, (w, n))),
     late = (\<lambda>_ v. (0, v)), random_at = (\<lambda>(w, n). (draw n, (w, Suc n))),
     TEST_RECIPIENT = recipient, EXPLORER = [], text_of_dec = decToString (lib e)\<rparr>"

lemma rail_live_sel [simp]:
  "random_at (rail_live provider msgs e draw recipient) (w, n) = (draw n, (w, Suc n))"
  "late (rail_live provider msgs e draw recipient) ms v = (0, v)"
  "TEST_RECIPIENT (rail_live provider msgs e draw recipient) = recipient"
  by (simp_all add: rail_live_def)

lemma rail_rid: "beyond s = (w, n) \<Longrightarrow>
    rid (rail_live provider msgs e draw recipient) p s = (Inr (p @ ''-'' @ radix 36 (draw n)), s\<lparr>beyond := (w, Suc n)\<rparr>)"
  by (simp add: rid_def so_def use_def done_with_def)

lemma rail_post:
  assumes "beyond s = (w, n)" "post_settlements provider msgs b e w = (Some a, w')"
  shows "script_post (rail_live provider msgs e draw recipient) b s =
    (Inr (status_data (Json a)), s\<lparr>asked := asked s @ [''POST /settlements''], beyond := (w', n)\<rparr>)"
  using assms by (simp add: script_post_def post_batch_def so_def use_def done_with_def rail_live_def)

lemma rail_get:
  assumes "beyond s = (w, n)" "serve (get_settlement i) (\<lambda>_. 200) e w = (Some a, w')"
  shows "get_one (rail_live provider msgs e draw recipient) i s =
    (Inr a, s\<lparr>asked := asked s @ [''/settlements/'' @ i], beyond := (w', n)\<rparr>)"
  using assms by (simp add: get_one_def so_def use_def parsed_def done_with_def rail_live_def)

text \<open>The instruction ids the script makes are valid.\<close>

lemma length_radix: "1 < b \<Longrightarrow> n < b ^ Suc k \<Longrightarrow> length (radix b n) \<le> Suc k"
proof (induction k arbitrary: n)
  case 0
  then show ?case by (simp add: radix.simps [of b n] Let_def)
next
  case (Suc k)
  then have "n div b < b ^ Suc k" by (simp add: div_less_iff_less_mult mult.commute)
  from Suc.IH [OF Suc.prems(1) this] show ?case using Suc.prems(1) by (simp add: radix.simps [of b n] Let_def)
qed

lemma rid_valid: "n < 1000000000 \<Longrightarrow> length p \<le> 57 \<Longrightarrow> isInstructionId (JString (p @ ''-'' @ radix 36 n))"
  using length_radix [of 36 n 5] by (simp add: isInstructionId_def)

section \<open>Invalid bodies\<close>

lemma numerals_read:
  assumes "parses_numerals l"
  shows "newDecimal l ''0.1'' = Some (1 / 10)" "newDecimal l ''1000000'' = Some 1000000"
proof -
  have "newDecimal l (numeral_text ''0'' ''1'') = Some (decimal_val ''0'' ''1'')"
    "newDecimal l (numeral_text ''1000000'' []) = Some (decimal_val ''1000000'' [])"
    using assms by (simp_all add: parses_numerals_def digits_def is_digit_def)
  then show "newDecimal l ''0.1'' = Some (1 / 10)" "newDecimal l ''1000000'' = Some 1000000"
    by (simp_all add: numeral_text_def decimal_val_def digits_val_def digit_val_def)
qed

lemma refused_answer:
  assumes "validate_create (lib e) b = None"
  shows "post_settlements provider msgs b e w =
    (Some (Failure \<lparr>statusCode = 400, error = ''Bad Request'', message = Many (msgs b)\<rparr>), w)"
  using assms by (simp add: post_settlements_def refused_bodies)

lemma status_data_failure: "status_data (Json (Failure b)) = (statusCode b, Some (Failure b))"
  by (simp add: status_data_def)

lemma bad_cases:
  "getAddress l ''0x123'' \<noteq> Some ''0x123'' \<Longrightarrow>
     validate_create l [(''instructionId'', JString i), (''toAddress'', JString ''0x123''), (''amount'', JString a)] = None"
  "validate_create l (with_recipient L i ''-1'') = None"
  "validate_create l (with_recipient L i ''0.0000001'') = None"
  by (auto simp: validate_create_def holds_at_def isChecksummedAddress_def isPositiveDecimal_def matches_decimal_def
      is_digit_def with_recipient_def split: option.splits)

lemma over_balance:
  assumes "quiet e" "parses_numerals (lib e)" "exact_available (lib e) (db w)" "available_of (db w) < 1000000"
    and "getAddress (lib e) r = Some r" "isInstructionId (JString i)" "by_instruction (db w) i = None"
  shows "\<exists>m. post_settlements provider msgs [(''instructionId'', JString i), (''toAddress'', JString r), (''amount'', JString ''1000000'')] e w =
    (Some (Failure \<lparr>statusCode = 422, error = ''InsufficientBalance'', message = One (CHR ''a'' # m)\<rparr>), w\<lparr>tick := tick w + 10\<rparr>)"
proof -
  let ?b = "[(''instructionId'', JString i), (''toAddress'', JString r), (''amount'', JString ''1000000'')]"
  let ?dto = "\<lparr>d_instructionId = i, d_toAddress = r, d_amount = ''1000000''\<rparr>"
  note num = numerals_read [OF assms(2)]
  have v: "validate_create (lib e) ?b = Some ?dto" using assms(5,6) num(2)
    by (simp add: validate_create_def holds_at_def isChecksummedAddress_def isPositiveDecimal_def matches_decimal_def is_digit_def str_at_def)
  have c: "create provider ?dto e w = (Inl (insufficient (lib e) 1000000 (available_of (db w))), w\<lparr>tick := tick w + 10\<rparr>)"
    using quiet_create_prefix [OF assms(1), of w ?dto 1000000] assms(3,4,7) num(2) by simp
  show ?thesis by (simp add: post_settlements_def v serve_def run_simps c refused_bodies) (simp add: insufficient_def)
qed

text \<open>A body that is refused with a clean error, at whatever count of steps the world is.\<close>

definition refused :: "(string \<Rightarrow> compliance_result) \<Rightarrow> (body \<Rightarrow> string list) \<Rightarrow> env \<Rightarrow> world \<Rightarrow> body \<Rightarrow> int \<Rightarrow> bool" where
  "refused provider msgs e w b st \<longleftrightarrow> (\<forall>k. \<exists>f k'. post_settlements provider msgs b e (w\<lparr>tick := k\<rparr>) =
     (Some (Failure f), w\<lparr>tick := k'\<rparr>) \<and> statusCode f = st \<and> error f \<noteq> [] \<and> message f \<noteq> One [])"

lemma refused_invalid: "validate_create (lib e) b = None \<Longrightarrow> refused provider msgs e w b 400"
proof -
  assume "validate_create (lib e) b = None"
  note answer = refused_answer [OF this, of provider msgs]
  show ?thesis unfolding refused_def answer by (intro allI exI conjI, rule refl) simp_all
qed

lemma run_refused:
  assumes "list_all (\<lambda>(label, b, st). refused provider msgs e w b st) cs" "beyond s = (w\<lparr>tick := k\<rparr>, n)"
  shows "\<exists>s' ps. run_cases (rail_live provider msgs e draw recipient) cs s = (Inr (), s') \<and> failures s' = failures s \<and>
    results s' = results s @ ps \<and> map ck_pass ps = replicate (length cs) True \<and> (\<exists>k'. beyond s' = (w\<lparr>tick := k'\<rparr>, n))"
  using assms
proof (induction cs arbitrary: s k)
  case Nil
  then show ?case by (intro exI [of _ s] exI [of _ "[]"] conjI exI [of _ k]) (simp_all add: done_with_def)
next
  case (Cons c cs)
  obtain label b st where c: "c = (label, b, st)" by (metis prod_cases3)
  from Cons.prems(1) c obtain f k' where f: "post_settlements provider msgs b e (w\<lparr>tick := k\<rparr>) =
     (Some (Failure f), w\<lparr>tick := k'\<rparr>)" "statusCode f = st" "error f \<noteq> []" "message f \<noteq> One []"
    by (fastforce simp: refused_def)
  let ?ck = "\<lparr>ck_name = ''T4 '' @ label @ '' -> '' @ radix 10 (nat st), ck_pass = True, ck_detail = ''got '' @ radix 10 (nat st)\<rparr>"
  let ?s = "s\<lparr>asked := asked s @ [''POST /settlements''], beyond := (w\<lparr>tick := k'\<rparr>, n), results := results s @ [?ck]\<rparr>"
  have step: "run_cases (rail_live provider msgs e draw recipient) (c # cs) s =
      run_cases (rail_live provider msgs e draw recipient) cs ?s"
    using rail_post [OF Cons.prems(2) f(1)] f(2-4)
    by (simp add: c so_def record_check_def status_data_failure clean_body_def)
  have "\<exists>s' ps. run_cases (rail_live provider msgs e draw recipient) cs ?s = (Inr (), s') \<and> failures s' = failures ?s \<and>
    results s' = results ?s @ ps \<and> map ck_pass ps = replicate (length cs) True \<and> (\<exists>k'. beyond s' = (w\<lparr>tick := k'\<rparr>, n))"
    using Cons.prems(1) by (intro Cons.IH [where k = k']) auto
  then obtain s' ps k' where "run_cases (rail_live provider msgs e draw recipient) cs ?s = (Inr (), s')"
    "failures s' = failures s" "results s' = results s @ ?ck # ps" "map ck_pass ps = replicate (length cs) True"
    "beyond s' = (w\<lparr>tick := k'\<rparr>, n)" by auto
  then show ?case unfolding step by (intro exI [of _ s'] exI [of _ "?ck # ps"]) auto
qed

text \<open>
  C36: The validation checks of the live script pass on the rail. Run against the model of the API by a client
  that is alone with it, with a recipient in checksum spelling, less than a million available (as exact
  decimals), a decimal library that reads numerals as written and an instruction id for the fourth case that
  no settlement has yet, T4 gets 400, 400, 400 and 422, each with a clean body: it records four passes, and
  of the whole world only the time has changed, so nothing is stored or queued.
\<close>

theorem validation_checks_pass:
  assumes "quiet e" "parses_numerals (lib e)" "exact_available (lib e) (db w)" "available_of (db w) < 1000000"
    and "getAddress (lib e) ''0x123'' \<noteq> Some ''0x123''" "getAddress (lib e) r = Some r"
    and "draw (n + 3) < 1000000000" "by_instruction (db w) (''v-'' @ radix 36 (draw (n + 3))) = None"
    and "beyond s = (w, n)"
  shows "let (res, s') = t4_validation (rail_live provider msgs e draw (Some r)) s in
    res = Inr () \<and> failures s' = failures s \<and> (\<exists>cs. results s' = results s @ cs \<and> map ck_pass cs = replicate 4 True) \<and>
    (\<exists>k m. beyond s' = (w\<lparr>tick := k\<rparr>, m))"
proof -
  let ?L = "rail_live provider msgs e draw (Some r)"
  define j where "j k = ''v-'' @ radix 36 (draw k)" for k
  let ?n1 = "Suc n" and ?n2 = "Suc (Suc n)" and ?n3 = "Suc (Suc (Suc n))" and ?n4 = "Suc (Suc (Suc (Suc n)))"
  let ?s = "s\<lparr>beyond := (w, ?n4)\<rparr>"
  have n3: "n + 3 = ?n3" by simp
  have rid: "rid ?L ''v'' t = (Inr (j m), t\<lparr>beyond := (w, Suc m)\<rparr>)" if "beyond t = (w, m)" for t m
    using rail_rid [OF that] by (simp add: j_def)
  have new: "isInstructionId (JString (j ?n3))" "by_instruction (db w) (j ?n3) = None"
    using rid_valid [OF assms(7), of "''v''"] assms(8) unfolding n3 by (simp_all add: j_def)
  have over: "refused provider msgs e w (with_recipient ?L (j ?n3) ''1000000'') 422"
    unfolding refused_def
  proof
    fix k
    show "\<exists>f k'. post_settlements provider msgs (with_recipient ?L (j ?n3) ''1000000'') e (w\<lparr>tick := k\<rparr>) =
      (Some (Failure f), w\<lparr>tick := k'\<rparr>) \<and> statusCode f = 422 \<and> error f \<noteq> [] \<and> message f \<noteq> One []"
      using over_balance [OF assms(1,2), of "w\<lparr>tick := k\<rparr>" r "j ?n3" provider msgs] assms(3,4,6) new
      by (auto simp: with_recipient_def)
  qed
  let ?cases = "[(''bad address'', [(''instructionId'', JString (j n)), (''toAddress'', JString ''0x123''), (''amount'', JString ''0.1'')], 400),
        (''negative amount'', with_recipient ?L (j ?n1) ''-1'', 400),
        (''7 decimals'', with_recipient ?L (j ?n2) ''0.0000001'', 400),
        (''over balance'', with_recipient ?L (j ?n3) ''1000000'', 422 :: int)]"
  have start: "t4_validation ?L s = run_cases ?L ?cases ?s"
    using assms(9) by (simp add: t4_validation_def so_def rid del: run_cases.simps)
  have all: "list_all (\<lambda>(label, b, st). refused provider msgs e w b st) ?cases"
    using over refused_invalid [OF bad_cases(1) [OF assms(5)]] refused_invalid [OF bad_cases(2) [where L = ?L]]
      refused_invalid [OF bad_cases(3) [where L = ?L]] by simp
  from run_refused [where cs = ?cases and s = ?s and k = "tick w" and n = ?n4 and draw = draw and recipient = "Some r", OF all]
  obtain s' ps k where "run_cases ?L ?cases ?s = (Inr (), s')" "failures s' = failures s" "results s' = results s @ ps"
    "map ck_pass ps = replicate (length ?cases) True" "beyond s' = (w\<lparr>tick := k\<rparr>, ?n4)"
    by (auto simp del: run_cases.simps)
  moreover have "replicate (length ?cases) True = replicate 4 True" by (simp add: numeral_eq_Suc)
  ultimately show ?thesis unfolding start by (auto simp del: run_cases.simps)
qed

text \<open>Two recipients, one spelled in upper case; the checksum of a short text is refused.\<close>

definition live_lib :: lib where
  "live_lib = unary_lib\<lparr>getAddress := (\<lambda>s. if length s < 7 then None
     else if s = ''0x000000000000000000000000000000000000dead'' then Some BLOCKED else Some s)\<rparr>"

definition live_env :: env where
  "live_env = calm_env\<lparr>lib := live_lib, uuid := (\<lambda>k. replicate k CHR ''k'')\<rparr>"

lemma live_env_sel [simp]: "lib live_env = live_lib" "quiet live_env" "uuid live_env k = replicate k CHR ''k''"
  by (simp_all add: live_env_def quiet_def demo_env_def)

lemma live_lib_ok: "parses_numerals live_lib" "exact_available live_lib db_open" "available_of db_open = 100"
  "getAddress live_lib ''0x123'' = None" "getAddress live_lib ''0xabcde'' = Some ''0xabcde''"
proof -
  show "parses_numerals live_lib"
    using unary_lib_numerals by (simp add: live_lib_def parses_numerals_def)
  have "ledger_wf db_open" by (rule inv_ledger) simp
  then show "exact_available live_lib db_open"
    by (simp add: exact_available_def exact_ledger_def live_lib_def unary_lib_def)
qed (simp_all add: available_of_def operator_balance_def opening_of_def genesis_entry_def bookings_def sum_in_def
        by_statuses_def sum_of_def IN_FLIGHT_STATUSES_def db_stages live_lib_def)

definition live_start :: "(world \<times> nat) script" where
  "live_start = \<lparr>results = [], failures = 0, clock = 0, asked = [], beyond = (w_open, 0)\<rparr>"

lemma validation_checks_pass_witness:
  "let (res, s') = t4_validation (rail_live (compliance_check live_lib) (\<lambda>_. []) live_env (\<lambda>n. n) (Some ''0xabcde'')) live_start
   in res = Inr () \<and> map ck_pass (results s') = replicate 4 True"
proof -
  have "by_instruction (db w_open) (''v-'' @ radix 36 3) = None"
    by (simp add: by_instruction_def db_stages GENESIS_INSTRUCTION_ID_def w_open_def boot_world_def)
  with validation_checks_pass [of live_env w_open "''0xabcde''" "\<lambda>n. n" 0 live_start "compliance_check live_lib" "\<lambda>_. []"]
  show ?thesis by (auto simp: live_lib_ok w_open_def live_start_def split: prod.splits)
qed

section \<open>Accepted submissions\<close>

lemma present_resting:
  assumes "status s \<notin> IN_FLIGHT"
  shows "present s e w = (Inr (shape (decToString (lib e)) [] s), w)"
  using assms by (simp add: present_def presentMany_def needs_confirmations_def run_simps)

lemma post_run:
  assumes "validate_create (lib e) b = Some dto" "create provider dto e w = (Inr \<lparr>cr_settlement = s, cr_created = c\<rparr>, v)"
    and "status s \<notin> IN_FLIGHT"
  shows "post_settlements provider msgs b e w =
    (Some (Answer (if c then 201 else 200) (shape (decToString (lib e)) [] s)), v)"
  using assms(1,2) present_resting [OF assms(3)] by (simp add: post_settlements_def serve_def run_simps create_status_def)

lemma post_accepted:
  assumes "quiet e" "validate_create (lib e) b = Some dto" "by_instruction (db w) (d_instructionId dto) = None"
    and "newDecimal (lib e) (d_amount dto) = Some a" "exact_available (lib e) (db w)" "a \<le> available_of (db w)"
    and "uuid e (tick w + 11) \<notin> sid ` set (settlements (db w))"
  obtains s v where "post_settlements provider msgs b e w = (Some (Answer 201 (shape (decToString (lib e)) [] s)), v)"
    "settlements (db v) = settlements (db w) @ [s]" "sid s = uuid e (tick w + 11)" "instructionId s = d_instructionId dto"
    "txHash s = None" "status s = (if approved (provider (d_toAddress dto)) then COMPLIANCE_APPROVED else REJECTED_COMPLIANCE)"
proof -
  let ?r = "received_row e (tick w + 11) dto a" and ?c = "approved (provider (d_toAddress dto))"
  note A = quiet_accepted [OF assms(1,3-7)]
  let ?v = "w\<lparr>db := (db w)\<lparr>settlements := settlements (db w) @ [?r]\<rparr>, tick := tick w + 12\<rparr>"
  let ?to = "if ?c then COMPLIANCE_APPROVED else REJECTED_COMPLIANCE"
  let ?opts = "if ?c then no_opts else reject_opts (provider (d_toAddress dto))"
  let ?s = "apply_opts (now e (tick ?v + 2)) ?to ?opts ?r"
  obtain v where run: "screen provider dto ?r e ?v = (Inr \<lparr>cr_settlement = ?s, cr_created = True\<rparr>, v)"
    and v: "settlements (db v) = upd_where (\<lambda>x. sid x = sid ?r) (apply_opts (now e (tick ?v + 2)) ?to ?opts) (settlements (db ?v))"
    using quiet_screen [OF assms(1) A(2), of provider dto]
    by (simp add: Let_def write_transition_def enqueueId_def run_simps updateQueueDepth_def)
  have s: "sid ?s = uuid e (tick w + 11)" "instructionId ?s = d_instructionId dto" "txHash ?s = None" "status ?s = ?to"
    by (simp_all add: apply_opts_def no_opts_def reject_opts_def received_row_def)
  have "post_settlements provider msgs b e w = (Some (Answer 201 (shape (decToString (lib e)) [] ?s)), v)"
    using post_run [OF assms(2), of provider w ?s True v msgs] run A(1) s(4) by (simp add: IN_FLIGHT_def)
  moreover have "settlements (db v) = settlements (db w) @ [?s]" unfolding v by (rule A(3))
  ultimately show ?thesis using s by (intro that [of ?s v])
qed

lemma post_hit:
  assumes "quiet e" "validate_create (lib e) b = Some dto" "by_instruction (db w) (d_instructionId dto) = Some s"
    and "status s \<notin> IN_FLIGHT"
  shows "post_settlements provider msgs b e w = (Some (Answer 200 (shape (decToString (lib e)) [] s)), w\<lparr>tick := tick w + 2\<rparr>)"
proof -
  have "create provider dto e w = (Inr \<lparr>cr_settlement = s, cr_created = False\<rparr>, w\<lparr>tick := tick w + 2\<rparr>)"
    using assms(1,3) by (simp add: create_def findByInstructionId_def run_simps quiet_simps)
  from post_run [OF assms(2) this assms(4)] show ?thesis by simp
qed

lemma get_resting:
  assumes "quiet e" "row (db w) i = Some s" "status s \<notin> IN_FLIGHT"
  shows "\<exists>k. serve (get_settlement i) (\<lambda>_. 200) e w = (Some (Answer 200 (shape (decToString (lib e)) [] s)), w\<lparr>tick := k\<rparr>)"
  using assms present_resting [OF assms(3)]
  by (auto simp: serve_def get_settlement_def getById_def findById_def run_simps quiet_simps)

lemma row_last: "i \<notin> sid ` set (settlements d) \<Longrightarrow> settlements d' = settlements d @ [s] \<Longrightarrow> sid s = i \<Longrightarrow> row d' i = Some s"
  by (auto simp: row_def find_append split: option.split dest!: find_SomeD) (metis imageI)

lemma instruction_last:
  "by_instruction d i = None \<Longrightarrow> settlements d' = settlements d @ [s] \<Longrightarrow> instructionId s = i \<Longrightarrow> by_instruction d' i = Some s"
  by (auto simp: by_instruction_def find_append split: option.split)

lemma valid_tenth:
  assumes "parses_numerals l" "getAddress l r = Some r" "isInstructionId (JString i)"
  shows "validate_create l [(''instructionId'', JString i), (''toAddress'', JString r), (''amount'', JString ''0.1'')] =
    Some \<lparr>d_instructionId = i, d_toAddress = r, d_amount = ''0.1''\<rparr>"
  using assms(2,3) numerals_read(1) [OF assms(1)]
  by (simp add: validate_create_def holds_at_def isChecksummedAddress_def isPositiveDecimal_def matches_decimal_def is_digit_def str_at_def)

text \<open>
  The screening check of the live script passes on the rail. When the blocked address is in checksum
  spelling, the provider rejects it, and 0.1 is available, T3 posts a settlement to it, finds it
  REJECTED_COMPLIANCE without a transaction, and records a pass.
\<close>

theorem screening_check_passes:
  assumes "quiet e" "parses_numerals (lib e)" "exact_available (lib e) (db w)" "1 / 10 \<le> available_of (db w)"
    and "getAddress (lib e) BLOCKED = Some BLOCKED" "\<not> approved (provider BLOCKED)" "draw n < 1000000000"
    and "by_instruction (db w) (''blocked-'' @ radix 36 (draw n)) = None"
    and "uuid e (tick w + 11) \<notin> sid ` set (settlements (db w))" "beyond s = (w, n)"
  shows "let (res, s') = t3_blocked (rail_live provider msgs e draw recipient) s in
    res = Inr () \<and> (\<exists>c. results s' = results s @ [c] \<and> ck_pass c) \<and>
    (\<exists>x. settlements (db (fst (beyond s'))) = settlements (db w) @ [x] \<and> status x = REJECTED_COMPLIANCE \<and> txHash x = None)"
proof -
  let ?L = "rail_live provider msgs e draw recipient"
  define i where "i = ''blocked-'' @ radix 36 (draw n)"
  let ?b = "[(''instructionId'', JString i), (''toAddress'', JString BLOCKED), (''amount'', JString ''0.1'')]"
  have "isInstructionId (JString i)" using rid_valid [OF assms(7), of "''blocked''"] by (simp add: i_def)
  note valid = valid_tenth [OF assms(2,5) this]
  obtain x v where post: "post_settlements provider msgs ?b e w = (Some (Answer 201 (shape (decToString (lib e)) [] x)), v)"
    and x: "settlements (db v) = settlements (db w) @ [x]" "sid x = uuid e (tick w + 11)" "txHash x = None"
      "status x = REJECTED_COMPLIANCE"
    by (rule post_accepted [OF assms(1) valid _ _ assms(3,4,9), where provider = provider and msgs = msgs])
       (use assms(6,8) numerals_read(1) [OF assms(2)] in \<open>simp_all add: i_def\<close>)
  let ?s1 = "s\<lparr>beyond := (w, Suc n)\<rparr>"
  let ?s2 = "?s1\<lparr>asked := asked ?s1 @ [''POST /settlements''], beyond := (v, Suc n)\<rparr>"
  let ?s3 = "?s2\<lparr>clock := clock ?s2 + 1500\<rparr>"
  obtain k where get: "serve (get_settlement (sid x)) (\<lambda>_. 200) e v = (Some (Answer 200 (shape (decToString (lib e)) [] x)), v\<lparr>tick := k\<rparr>)"
    using get_resting [OF assms(1) row_last [OF assms(9) x(1,2)]] x by (auto simp: IN_FLIGHT_def)
  have "rid ?L ''blocked'' s = (Inr i, ?s1)" using rail_rid [OF assms(10)] by (simp add: i_def)
  moreover have "script_post ?L ?b ?s1 = (Inr (201, Some (Answer 201 (shape (decToString (lib e)) [] x))), ?s2)"
    using rail_post [OF _ post, of ?s1 "Suc n" draw recipient] by (simp add: status_data_def)
  moreover have "script_sleep ?L 1500 ?s2 = (Inr (), ?s3)" by (simp add: script_sleep_def use_def)
  moreover have "get_one ?L (sid x) ?s3 = (Inr (Answer 200 (shape (decToString (lib e)) [] x)),
      ?s3\<lparr>asked := asked ?s3 @ [''/settlements/'' @ sid x], beyond := (v\<lparr>tick := k\<rparr>, Suc n)\<rparr>)"
    by (rule rail_get [OF _ get]) simp
  ultimately show ?thesis using x
    by (simp add: t3_blocked_def so_def id_of_def done_with_def record_check_def or_undefined_def shape_def
        status_is_def hash_of_def)
qed

lemma posts_hits:
  assumes "quiet e" "validate_create (lib e) b = Some dto" "by_instruction (db w) (d_instructionId dto) = Some s"
    and "status s \<notin> IN_FLIGHT"
  shows "\<exists>k. posts provider msgs e (replicate m b) w =
    (replicate m (Some (Json (Answer 200 (shape (decToString (lib e)) [] s)))), w\<lparr>tick := k\<rparr>)"
  using assms(3)
proof (induction m arbitrary: w)
  case (Suc m)
  from Suc.IH [of "w\<lparr>tick := tick w + 2\<rparr>"] Suc.prems post_hit [OF assms(1,2) Suc.prems assms(4), of provider msgs]
  show ?case by auto
next
  case 0
  show ?case by (rule exI [of _ "tick w"]) simp
qed

lemma rail_batch:
  assumes "beyond s = (w, n)" "posts provider msgs e bs w = (map (Some \<circ> Json) answers, w')" "length answers = length bs"
  shows "post_batch (rail_live provider msgs e draw recipient) bs s = (Inr (map (status_data \<circ> Json) answers),
    s\<lparr>asked := asked s @ map (\<lambda>_. ''POST /settlements'') bs, beyond := (w', n)\<rparr>)"
proof -
  have "map ((!) (map (Some \<circ> Json) answers)) [0..<length bs] = map (Some \<circ> Json) answers"
    using map_nth [of "map (Some \<circ> Json) answers"] assms(3) by simp
  moreover have "None \<notin> set (map (Some \<circ> Json) answers)" by auto
  ultimately show ?thesis using assms(1,2)
    by (simp add: post_batch_def so_def use_def done_with_def rail_live_def Let_def del: set_map map_map) simp
qed

text \<open>
  The race check of the live script passes on the rail. Five posts of one new instruction, answered in any
  order, store one settlement: T2 sees one id, a single 201 and four 200, and records a pass.
\<close>

theorem race_check_passes:
  assumes "quiet e" "parses_numerals (lib e)" "exact_available (lib e) (db w)" "1 / 10 \<le> available_of (db w)"
    and "getAddress (lib e) r = Some r" "draw n < 1000000000"
    and "by_instruction (db w) (''idem-'' @ radix 36 (draw n)) = None"
    and "uuid e (tick w + 11) \<notin> sid ` set (settlements (db w))" "beyond s = (w, n)"
  shows "let (res, s') = t2_race (rail_live provider msgs e draw (Some r)) s in
    res = Inr () \<and> (\<exists>c. results s' = results s @ [c] \<and> ck_pass c) \<and>
    (\<exists>x. settlements (db (fst (beyond s'))) = settlements (db w) @ [x])"
proof -
  let ?L = "rail_live provider msgs e draw (Some r)"
  define i where "i = ''idem-'' @ radix 36 (draw n)"
  let ?b = "with_recipient ?L i ''0.1''"
  have b: "?b = [(''instructionId'', JString i), (''toAddress'', JString r), (''amount'', JString ''0.1'')]"
    by (simp add: with_recipient_def)
  have "isInstructionId (JString i)" using rid_valid [OF assms(6), of "''idem''"] by (simp add: i_def)
  note valid = valid_tenth [OF assms(2,5) this, folded b]
  obtain x v where post: "post_settlements provider msgs ?b e w = (Some (Answer 201 (shape (decToString (lib e)) [] x)), v)"
    and x: "settlements (db v) = settlements (db w) @ [x]" "instructionId x = i" "status x \<notin> IN_FLIGHT"
    by (rule post_accepted [OF assms(1) valid _ _ assms(3,4,8), where provider = provider and msgs = msgs])
       (use assms(7) numerals_read(1) [OF assms(2)] in \<open>simp_all add: i_def IN_FLIGHT_def split: if_splits\<close>)
  have hit: "by_instruction (db v) i = Some x" using instruction_last [OF _ x(1,2)] assms(7) by (simp add: i_def)
  let ?X = "shape (decToString (lib e)) [] x"
  obtain k where hits: "posts provider msgs e (replicate 4 ?b) v = (replicate 4 (Some (Json (Answer 200 ?X))), v\<lparr>tick := k\<rparr>)"
    using posts_hits [OF assms(1) valid _ x(3), of v provider msgs 4] hit by auto
  have five: "replicate 5 ?b = ?b # replicate 4 ?b" by (simp add: numeral_eq_Suc)
  let ?as = "Answer 201 ?X # replicate 4 (Answer 200 ?X)"
  have all: "posts provider msgs e (replicate 5 ?b) w = (map (Some \<circ> Json) ?as, v\<lparr>tick := k\<rparr>)"
    unfolding five using hits post by (simp del: replicate.simps)
  let ?s1 = "s\<lparr>beyond := (w, Suc n)\<rparr>"
  have "post_batch ?L (replicate 5 ?b) ?s1 = (Inr (map (status_data \<circ> Json) ?as),
      ?s1\<lparr>asked := asked ?s1 @ map (\<lambda>_. ''POST /settlements'') (replicate 5 ?b), beyond := (v\<lparr>tick := k\<rparr>, Suc n)\<rparr>)"
    by (rule rail_batch [OF _ all]) simp_all
  moreover have "rid ?L ''idem'' s = (Inr i, ?s1)" using rail_rid [OF assms(9)] by (simp add: i_def)
  moreover have "map (status_data \<circ> Json) ?as = (201, Some (Answer 201 ?X)) # replicate 4 (200, Some (Answer 200 ?X))"
    by (simp add: status_data_def)
  moreover have "ids_of ((201, Some (Answer 201 ?X)) # replicate 4 (200, Some (Answer 200 ?X))) t =
      (Inr (replicate 5 (Some (sid x))), t)" for t :: "(world \<times> nat) script"
    by (simp add: numeral_eq_Suc so_def id_of_def done_with_def shape_def)
  moreover have "insort (201 :: int) (replicate 4 200) = [200, 200, 200, 200, 201]" by (simp add: numeral_eq_Suc)
  ultimately show ?thesis using x
    by (simp add: t2_race_def so_def record_check_def Let_def)
qed

lemma live_fresh:
  "replicate (tick w_open + 11) CHR ''k'' \<notin> sid ` set (settlements (db w_open))"
  "by_instruction (db w_open) (p # ''locked-'' @ x) = None" "by_instruction (db w_open) (p # ''dem-'' @ x) = None"
proof -
  have "replicate 17 CHR ''k'' \<noteq> ''g''" by (simp add: numeral_eq_Suc)
  then show "replicate (tick w_open + 11) CHR ''k'' \<notin> sid ` set (settlements (db w_open))"
    by (simp add: db_stages w_open_def boot_world_def)
qed (simp_all add: by_instruction_def db_stages GENESIS_INSTRUCTION_ID_def w_open_def boot_world_def)

lemma live_blocked: "getAddress live_lib BLOCKED = Some BLOCKED" "\<not> approved (compliance_check live_lib BLOCKED)"
  by (simp_all add: live_lib_def BLOCKED_def compliance_check_def blocklist_def)

lemma screening_check_passes_witness:
  "let (res, s') = t3_blocked (rail_live (compliance_check live_lib) (\<lambda>_. []) live_env (\<lambda>n. n) None) live_start
   in res = Inr () \<and> list_all ck_pass (results s')"
  using screening_check_passes [of live_env w_open "compliance_check live_lib" "\<lambda>n. n" 0 live_start "\<lambda>_. []" None]
    live_fresh live_blocked live_lib_ok
  by (auto simp: w_open_def boot_world_def live_start_def split: prod.splits)

lemma race_check_passes_witness:
  "let (res, s') = t2_race (rail_live (compliance_check live_lib) (\<lambda>_. []) live_env (\<lambda>n. n) (Some ''0xabcde'')) live_start
   in res = Inr () \<and> list_all ck_pass (results s')"
  using race_check_passes [of live_env w_open "''0xabcde''" "\<lambda>n. n" 0 live_start "compliance_check live_lib" "\<lambda>_. []"]
    live_fresh live_lib_ok
  by (auto simp: w_open_def boot_world_def live_start_def split: prod.splits)

end
