(* ===== verification/Api.thy ===== *)
theory Api
  imports Http Observability EnvConfig
begin

text \<open>
  The HTTP API as a whole: the routes of the controllers, in the order in which \<open>AppModule\<close>
  (\<open>src/app.module.ts\<close>) brings their modules, the guard, the handlers of \<open>Http\<close> and \<open>Observability\<close>, and the
  filter. The router tries the routes in that order and takes the first whose method and path match.
\<close>

section \<open>Routes\<close>

datatype http_method = GET | POST

datatype endpoint =
    Metrics
  | CreateSettlement
  | ListSettlements
  | GetSettlement string
  | GetTransitions string
  | Balance
  | RunReconciliation
  | Ready
  | Live
  | FundDvp
  | ReleaseDvp string
  | GetDvp string

text \<open>A path pattern: its segments are fixed or take what is there.\<close>

datatype segment = Lit string | Arg

fun captures :: "segment list \<Rightarrow> string list \<Rightarrow> string list option" where
  "captures [] [] = Some []"
| "captures (Lit s # ps) (x # xs) = (if x = s then captures ps xs else None)"
| "captures (Arg # ps) (x # xs) = (if x = [] then None else map_option ((#) x) (captures ps xs))"
| "captures _ _ = None"

record route =
  rt_method :: http_method
  rt_path :: "segment list"
  rt_throttled :: bool
  rt_endpoint :: "string list \<Rightarrow> endpoint"

definition metrics_routes :: "route list" where
  "metrics_routes = [\<lparr>rt_method = GET, rt_path = [Lit ''metrics''], rt_throttled = False, rt_endpoint = (\<lambda>_. Metrics)\<rparr>]"

definition settlements_routes :: "route list" where
  "settlements_routes =
     [\<lparr>rt_method = POST, rt_path = [Lit ''settlements''], rt_throttled = True, rt_endpoint = (\<lambda>_. CreateSettlement)\<rparr>,
      \<lparr>rt_method = GET, rt_path = [Lit ''settlements''], rt_throttled = False, rt_endpoint = (\<lambda>_. ListSettlements)\<rparr>,
      \<lparr>rt_method = GET, rt_path = [Lit ''settlements'', Arg], rt_throttled = False, rt_endpoint = (\<lambda>as. GetSettlement (hd as))\<rparr>,
      \<lparr>rt_method = GET, rt_path = [Lit ''settlements'', Arg, Lit ''transitions''], rt_throttled = False,
        rt_endpoint = (\<lambda>as. GetTransitions (hd as))\<rparr>]"

definition ledger_routes :: "route list" where
  "ledger_routes = [\<lparr>rt_method = GET, rt_path = [Lit ''ledger'', Lit ''balance''], rt_throttled = False, rt_endpoint = (\<lambda>_. Balance)\<rparr>]"

definition reconciliation_routes :: "route list" where
  "reconciliation_routes =
     [\<lparr>rt_method = GET, rt_path = [Lit ''reconciliation''], rt_throttled = False, rt_endpoint = (\<lambda>_. RunReconciliation)\<rparr>]"

definition health_routes :: "route list" where
  "health_routes =
     [\<lparr>rt_method = GET, rt_path = [Lit ''health''], rt_throttled = False, rt_endpoint = (\<lambda>_. Ready)\<rparr>,
      \<lparr>rt_method = GET, rt_path = [Lit ''health'', Lit ''live''], rt_throttled = False, rt_endpoint = (\<lambda>_. Live)\<rparr>]"

definition dvp_routes :: "route list" where
  "dvp_routes =
     [\<lparr>rt_method = POST, rt_path = [Lit ''settlements'', Lit ''dvp''], rt_throttled = True, rt_endpoint = (\<lambda>_. FundDvp)\<rparr>,
      \<lparr>rt_method = POST, rt_path = [Lit ''settlements'', Lit ''dvp'', Arg, Lit ''release''], rt_throttled = True,
        rt_endpoint = (\<lambda>as. ReleaseDvp (hd as))\<rparr>,
      \<lparr>rt_method = GET, rt_path = [Lit ''settlements'', Lit ''dvp'', Arg], rt_throttled = False,
        rt_endpoint = (\<lambda>as. GetDvp (hd as))\<rparr>]"

definition routes :: "route list" where
  "routes = metrics_routes @ settlements_routes @ ledger_routes @ reconciliation_routes @ health_routes @ dvp_routes"

fun first_match :: "route list \<Rightarrow> http_method \<Rightarrow> string list \<Rightarrow> (bool \<times> endpoint) option" where
  "first_match [] m p = None"
| "first_match (r # rs) m p = (case if rt_method r = m then captures (rt_path r) p else None of
     Some as \<Rightarrow> Some (rt_throttled r, rt_endpoint r as)
   | None \<Rightarrow> first_match rs m p)"

definition dispatch :: "http_method \<Rightarrow> string list \<Rightarrow> (bool \<times> endpoint) option" where
  "dispatch = first_match routes"

section \<open>Requests\<close>

record request =
  rq_method :: http_method
  rq_path :: "string list"
  rq_body :: body

text \<open>
  What the framework and the injected providers bring: the verdict of the rate limiter, the exception for a path
  without a route, the messages of failed rules, the compliance provider, the timers of the probes and
  the rendering of the metrics.
\<close>

record framework =
  limiter :: "int \<times> int \<Rightarrow> request \<Rightarrow> thrown_value option"
  no_route :: "request \<Rightarrow> thrown_value"
  rule_messages :: "body \<Rightarrow> string list"
  provider_of :: "string \<Rightarrow> compliance_result"
  probe_late :: "nat \<Rightarrow> bool"
  render :: "metrics \<Rightarrow> string"

datatype payload =
    OneSettlement settlement_response
  | AllSettlements "settlement_response list"
  | Trail "status_transition list"
  | Balances balance_view
  | Run reconciliation_run
  | Funded_deal dvp_funded
  | Released_deal dvp_released
  | Deal_view dvp_view
  | Health health_report
  | Alive string
  | Scrape string

definition scrape :: "framework \<Rightarrow> string io" where
  "scrape fw = gets (\<lambda>e w. render fw (metrics w))"

definition as_payload :: "('a \<Rightarrow> payload) \<Rightarrow> 'a answer option \<times> world \<Rightarrow> payload answer option \<times> world" where
  "as_payload f r = (map_option (map_answer f) (fst r), snd r)"

fun handle :: "framework \<Rightarrow> endpoint \<Rightarrow> body \<Rightarrow> env \<Rightarrow> world \<Rightarrow> payload answer option \<times> world" where
  "handle fw Metrics b e w = as_payload Scrape (serve (scrape fw) (\<lambda>_. 200) e w)"
| "handle fw CreateSettlement b e w = as_payload OneSettlement (post_settlements (provider_of fw) (rule_messages fw) b e w)"
| "handle fw ListSettlements b e w = as_payload AllSettlements (serve list_settlements (\<lambda>_. 200) e w)"
| "handle fw (GetSettlement i) b e w = as_payload OneSettlement (serve (get_settlement i) (\<lambda>_. 200) e w)"
| "handle fw (GetTransitions i) b e w = as_payload Trail (serve (get_transitions i) (\<lambda>_. 200) e w)"
| "handle fw Balance b e w = as_payload Balances (serve get_balance (\<lambda>_. 200) e w)"
| "handle fw RunReconciliation b e w = as_payload Run (serve get_reconciliation (\<lambda>_. 200) e w)"
| "handle fw Ready b e w = as_payload Health (serve (health_ready (probe_late fw)) hr_code e w)"
| "handle fw Live b e w = as_payload Alive (serve health_live (\<lambda>_. 200) e w)"
| "handle fw FundDvp b e w = as_payload Funded_deal (post_dvp (rule_messages fw) b e w)"
| "handle fw (ReleaseDvp i) b e w = as_payload Released_deal (serve (post_dvp_release i) (\<lambda>_. 201) e w)"
| "handle fw (GetDvp i) b e w = as_payload Deal_view (serve (get_dvp i) (\<lambda>_. 200) e w)"

text \<open>What the rate limiter is set up with: the window in milliseconds and the requests it admits.\<close>

definition throttler_options :: "settings \<Rightarrow> int \<times> int" where
  "throttler_options s = (throttleTtlSeconds s * 1000, throttleLimit s)"

text \<open>The guard comes before the validation of the body.\<close>

definition respond :: "framework \<Rightarrow> settings \<Rightarrow> request \<Rightarrow> env \<Rightarrow> world \<Rightarrow> payload answer option \<times> world" where
  "respond fw s rq e w = (case dispatch (rq_method rq) (rq_path rq) of
     None \<Rightarrow> (Some (Failure (filter_catch (no_route fw rq))), w)
   | Some (throttled, ep) \<Rightarrow>
       (case if throttled then limiter fw (throttler_options s) rq else None of
          Some x \<Rightarrow> (Some (Failure (filter_catch x)), w)
        | None \<Rightarrow> handle fw ep (rq_body rq) e w))"

end
