(* ===== verification/ApiClaims.thy ===== *)
theory ApiClaims
  imports Api QuietReads Scenario
begin

text \<open>Properties of the API as a whole.\<close>

section \<open>Routing\<close>

text \<open>The reference: where each endpoint is documented to be.\<close>

fun path_of :: "endpoint \<Rightarrow> http_method \<times> string list" where
  "path_of Metrics = (GET, [''metrics''])"
| "path_of CreateSettlement = (POST, [''settlements''])"
| "path_of ListSettlements = (GET, [''settlements''])"
| "path_of (GetSettlement i) = (GET, [''settlements'', i])"
| "path_of (GetTransitions i) = (GET, [''settlements'', i, ''transitions''])"
| "path_of Balance = (GET, [''ledger'', ''balance''])"
| "path_of RunReconciliation = (GET, [''reconciliation''])"
| "path_of Ready = (GET, [''health''])"
| "path_of Live = (GET, [''health'', ''live''])"
| "path_of FundDvp = (POST, [''settlements'', ''dvp''])"
| "path_of (ReleaseDvp i) = (POST, [''settlements'', ''dvp'', i, ''release''])"
| "path_of (GetDvp i) = (GET, [''settlements'', ''dvp'', i])"

definition arg_of :: "endpoint \<Rightarrow> string option" where
  "arg_of ep = (case ep of GetSettlement i \<Rightarrow> Some i | GetTransitions i \<Rightarrow> Some i | ReleaseDvp i \<Rightarrow> Some i
     | GetDvp i \<Rightarrow> Some i | _ \<Rightarrow> None)"

lemmas routes_defs = routes_def metrics_routes_def settlements_routes_def ledger_routes_def
  reconciliation_routes_def health_routes_def dvp_routes_def

lemma captures_length: "captures ps xs = Some as \<Longrightarrow> length xs = length ps"
  by (induction ps xs arbitrary: as rule: captures.induct) (auto split: if_splits)

text \<open>Each route serves only its documented place, and is throttled when it is a POST.\<close>

definition sound_route :: "route \<Rightarrow> bool" where
  "sound_route r \<longleftrightarrow> (\<forall>xs as. captures (rt_path r) xs = Some as \<longrightarrow> path_of (rt_endpoint r as) = (rt_method r, xs)) \<and>
     rt_throttled r = (rt_method r = POST)"

lemma captures_iff:
  "captures [] xs = Some as \<longleftrightarrow> xs = [] \<and> as = []"
  "captures (Lit s # ps) xs = Some as \<longleftrightarrow> (\<exists>ys. xs = s # ys \<and> captures ps ys = Some as)"
  "captures (Arg # ps) xs = Some as \<longleftrightarrow> (\<exists>y ys bs. xs = y # ys \<and> y \<noteq> [] \<and> captures ps ys = Some bs \<and> as = y # bs)"
  by (cases xs; auto)+

lemma routes_sound: "list_all sound_route routes"
  by (auto simp: routes_defs sound_route_def captures_iff)

lemma first_match_sound:
  "first_match rs m p = Some (t, ep) \<Longrightarrow> list_all sound_route rs \<Longrightarrow> path_of ep = (m, p) \<and> t = (m = POST)"
  by (induction rs) (auto simp: sound_route_def split: if_splits option.splits)

text \<open>
  C39: Routing is the documented table. Whatever the router finds for a method and a path is the endpoint
  documented there, rate-limited exactly when the method is POST; and every endpoint is reached at its
  documented place when its argument is not empty, except the DvP deal named transitions, whose place is
  taken by the trail of a settlement with the id dvp.
\<close>

theorem routes_roundtrip:
  "(dispatch m p = Some (t, ep) \<longrightarrow> path_of ep = (m, p) \<and> t = (m = POST)) \<and>
   (arg_of ep' \<noteq> Some [] \<longrightarrow> dispatch (fst (path_of ep')) (snd (path_of ep')) =
     Some (fst (path_of ep') = POST, if ep' = GetDvp ''transitions'' then GetTransitions ''dvp'' else ep'))"
proof
  show "dispatch m p = Some (t, ep) \<longrightarrow> path_of ep = (m, p) \<and> t = (m = POST)"
    using first_match_sound routes_sound by (auto simp: dispatch_def)
  show "arg_of ep' \<noteq> Some [] \<longrightarrow> dispatch (fst (path_of ep')) (snd (path_of ep')) =
     Some (fst (path_of ep') = POST, if ep' = GetDvp ''transitions'' then GetTransitions ''dvp'' else ep')"
    by (cases ep') (auto simp: dispatch_def routes_defs arg_of_def)
qed

lemma routes_roundtrip_witness:
  "dispatch GET [''settlements'', ''dvp'', ''transitions''] = Some (False, GetTransitions ''dvp'')"
  using routes_roundtrip [of GET "[]" False Live "GetDvp ''transitions''"] by (simp add: arg_of_def)

section \<open>Reads\<close>

text \<open>Only time has passed.\<close>

definition only_time :: "world \<Rightarrow> world \<Rightarrow> bool" where
  "only_time w v \<longleftrightarrow> (\<exists>k. v = w\<lparr>tick := k\<rparr>)"

lemma steady_only_time [simp, intro]: "steady (only_time w)"
  by (auto simp: steady_def only_time_def)

lemma only_time_refl [simp]: "only_time w w"
  unfolding only_time_def by (rule exI [of _ "tick w"]) simp

lemma served: "runs e P m (\<lambda>_. Q) Q \<Longrightarrow> P w \<Longrightarrow> Q (snd (serve m st e w))"
  by (erule (1) runs_out) (simp_all add: serve_def)

text \<open>A reconciliation adds its run and counts it.\<close>

definition only_run :: "world \<Rightarrow> world \<Rightarrow> bool" where
  "only_run w v \<longleftrightarrow> only_time w v \<or> (\<exists>r k ms. v = w\<lparr>db := (db w)\<lparr>reconciliationRuns := reconciliationRuns (db w) @ [r]\<rparr>,
     tick := k, metrics := ms\<rparr>)"

lemma runs_reconcile_only:
  assumes "quiet e"
  shows "runs e (only_time w) reconcile (\<lambda>_. only_run w) (only_run w)"
proof -
  let ?R = "\<lambda>v. \<exists>r k. v = w\<lparr>db := (db w)\<lparr>reconciliationRuns := reconciliationRuns (db w) @ [r]\<rparr>, tick := k\<rparr>"
  have weak: "runs e (only_time w) m Q (only_run w)" if "runs e (only_time w) m Q (only_time w)" for m :: "'a io" and Q
    using that by (rule runs_conseq) (simp_all add: only_run_def)
  note reads = runs_recon_reads [OF assms steady_only_time [of w], THEN weak]
  have save: "runs e (only_time w) (db_tx (\<lambda>e n. insert_run (r e n))) (\<lambda>_. ?R) (only_run w)" for r
    by (rule runs_db_tx [OF assms steady_only_time])
       (auto simp: only_time_def insert_run_def Let_def only_run_def, intro exI, rule refl)
  have count: "runs e ?R (andThen (modify (count_run b)) (ret x)) (\<lambda>_. only_run w) (only_run w)" for b x
  proof (rule runs_andThen [OF runs_modify runs_ret])
    fix v
    assume "?R v"
    then obtain r k where v: "v = w\<lparr>db := (db w)\<lparr>reconciliationRuns := reconciliationRuns (db w) @ [r]\<rparr>, tick := k\<rparr>" by blast
    have "\<exists>ms. count_run b v = v\<lparr>metrics := ms\<rparr>" by (auto simp: count_run_def Let_def)
    with v show "only_run w (count_run b v)" by (auto simp: only_run_def)
  qed
  show ?thesis
    unfolding reconcile_def Let_def
    by (intro runs_await [OF reads(1)] runs_await [OF reads(2)] runs_await [OF reads(3)]
        runs_await [OF weak [OF runs_gets_keep]] runs_await [OF save] count)
qed

text \<open>
  C38: A GET changes nothing. Without interference the answer to any GET, of whatever path, leaves database,
  memory, metrics, chain and all outputs as they were; only the on-demand reconciliation adds one row to
  its own table and counts it.
\<close>

theorem get_changes_nothing:
  assumes "quiet e" "rq_method rq = GET" "respond fw s rq e w = (a, v)"
  shows "if dispatch GET (rq_path rq) = Some (False, RunReconciliation) then only_run w v else only_time w v"
proof (cases "dispatch GET (rq_path rq)")
  case None
  with assms(2,3) show ?thesis by (auto simp: respond_def)
next
  case (Some te)
  then obtain t ep where te: "dispatch GET (rq_path rq) = Some (t, ep)" by (cases te) auto
  then have t: "\<not> t" "fst (path_of ep) = GET"
    using first_match_sound [OF _ routes_sound] by (fastforce simp: dispatch_def)+
  have v: "v = snd (handle fw ep (rq_body rq) e w)" using assms(2,3) te t(1) by (simp add: respond_def)
  note reads = runs_queries [OF assms(1) steady_only_time] runs_getDeal [OF assms(1) steady_only_time, folded get_dvp_def]
    runs_health [OF assms(1) steady_only_time]
  show ?thesis
    unfolding te v using t reads [THEN served, OF only_time_refl] served [OF runs_reconcile_only [OF assms(1)] only_time_refl]
    by (cases ep) (auto simp: as_payload_def scrape_def serve_def run_simps health_live_def get_reconciliation_def)
qed

definition demo_settings :: settings where
  "demo_settings = \<lparr>operatorPrivateKey = ''k'', rpcHttpUrl = ''h'', rpcWssUrl = ''w'', usdcContractAddress = ''u'', databaseUrl = ''d'',
     sConfirmationsConfirmed = 1, sConfirmationsFinal = 5, sStuckTxSeconds = 60, sMaxRetries = 3, reconCron = ''*/5 * * * *'',
     allowedOrigin = ''o'', throttleTtlSeconds = 60, throttleLimit = 10, redisUrl = None, sDvpEscrowAddress = None, port = 3000\<rparr>"

definition demo_framework :: framework where
  "demo_framework = \<lparr>limiter = (\<lambda>_ _. None), no_route = (\<lambda>_. bad_request []), rule_messages = (\<lambda>_. []),
     provider_of = compliance_check demo_lib, probe_late = (\<lambda>_. False), render = (\<lambda>_. [])\<rparr>"

lemma get_changes_nothing_witness:
  "let rq = \<lparr>rq_method = GET, rq_path = [''settlements'', ''s''], rq_body = []\<rparr>;
     (a, v) = respond demo_framework demo_settings rq calm_env w_sent in only_time w_sent v"
proof -
  let ?rq = "\<lparr>rq_method = GET, rq_path = [''settlements'', ''s''], rq_body = []\<rparr>"
  obtain a v where r: "respond demo_framework demo_settings ?rq calm_env w_sent = (a, v)" by fastforce
  have "dispatch GET [''settlements'', ''s''] = Some (False, GetSettlement ''s'')"
    by (simp add: dispatch_def routes_defs)
  with get_changes_nothing [OF demo_quiet _ r] show ?thesis by (simp add: r)
qed

end
