(* ===== verification/ApiDocs.thy ===== *)
theory ApiDocs
  imports Api LiveVerify
begin

text \<open>
  The documented contract of the API: the response schemas (\<open>src/settlements/dto/\<close>,
  \<open>src/reconciliation/dto/\<close>), the response decorators of the controllers, and the JSON that the framework
  makes of a handler's result. Examples and descriptions are left out of the schemas.
\<close>

section \<open>JSON bodies\<close>

datatype json_value =
    JsText string
  | JsNumber int
  | JsBool bool
  | JsNull
  | JsObject "(string \<times> json_value) list"
  | JsArray "json_value list"

definition nullable_of :: "('a \<Rightarrow> json_value) \<Rightarrow> 'a option \<Rightarrow> json_value" where
  "nullable_of f x = (case x of None \<Rightarrow> JsNull | Some a \<Rightarrow> f a)"

fun recon_name :: "reconciliation_status \<Rightarrow> string" where
  "recon_name MATCHED = ''MATCHED''"
| "recon_name MISMATCH = ''MISMATCH''"

text \<open>
  What \<open>JSON.stringify\<close> takes from the run-time: \<open>Date.toJSON\<close> (\<open>iso\<close>), \<open>Decimal.toJSON\<close>, and the keys of audit rows
  and runs, which the tables of the model leave out.
\<close>

record rendering =
  iso :: "int \<Rightarrow> string"
  decJson :: "rat \<Rightarrow> string"
  trail_key :: "status_transition \<Rightarrow> string"
  run_key :: "reconciliation_run \<Rightarrow> string"

definition settlement_json :: "rendering \<Rightarrow> settlement_response \<Rightarrow> json_value" where
  "settlement_json R r = JsObject
     [(''id'', JsText (sr_id r)), (''instructionId'', JsText (sr_instructionId r)),
      (''toAddress'', JsText (sr_toAddress r)), (''amount'', JsText (sr_amount r)),
      (''status'', JsText (status_name (sr_status r))), (''txHash'', nullable_of JsText (sr_txHash r)),
      (''nonce'', nullable_of (\<lambda>n. JsNumber (int n)) (sr_nonce r)),
      (''failureReason'', nullable_of JsText (sr_failureReason r)),
      (''retryCount'', JsNumber (int (sr_retryCount r))),
      (''confirmations'', nullable_of JsNumber (sr_confirmations r)),
      (''createdAt'', JsText (iso R (sr_createdAt r))), (''updatedAt'', JsText (iso R (sr_updatedAt r)))]"

definition transition_json :: "rendering \<Rightarrow> status_transition \<Rightarrow> json_value" where
  "transition_json R t = JsObject
     [(''id'', JsText (trail_key R t)), (''settlementId'', JsText (st_settlementId t)),
      (''fromStatus'', JsText (status_name (fromStatus t))), (''toStatus'', JsText (status_name (toStatus t))),
      (''txHash'', nullable_of JsText (st_txHash t)), (''createdAt'', JsText (iso R (st_createdAt t)))]"

definition balance_json :: "balance_view \<Rightarrow> json_value" where
  "balance_json b = JsObject
     [(''operatorBalance'', JsText (bv_operatorBalance b)), (''inFlightAmount'', JsText (bv_inFlightAmount b)),
      (''availableBalance'', JsText (bv_availableBalance b))]"

definition run_json :: "rendering \<Rightarrow> reconciliation_run \<Rightarrow> json_value" where
  "run_json R r = JsObject
     [(''id'', JsText (run_key R r)), (''ledgerBalance'', JsText (decJson R (ledgerBalance r))),
      (''chainBalance'', JsText (decJson R (chainBalance r))), (''pendingAmount'', JsText (decJson R (pendingAmount r))),
      (''diff'', JsText (decJson R (diff r))), (''status'', JsText (recon_name (rr_status r))),
      (''createdAt'', JsText (iso R (rr_createdAt r)))]"

definition health_json :: "health_report \<Rightarrow> json_value" where
  "health_json h = JsObject [(''status'', JsText (hr_status h)),
     (''checks'', JsObject [(''db'', JsBool (hr_db h)), (''rpc'', JsBool (hr_rpc h))])]"

text \<open>The bodies of the routes whose responses are documented; the scrape is plain text.\<close>

fun payload_json :: "rendering \<Rightarrow> payload \<Rightarrow> json_value option" where
  "payload_json R (OneSettlement r) = Some (settlement_json R r)"
| "payload_json R (AllSettlements rs) = Some (JsArray (map (settlement_json R) rs))"
| "payload_json R (Trail ts) = Some (JsArray (map (transition_json R) ts))"
| "payload_json R (Balances b) = Some (balance_json b)"
| "payload_json R (Run r) = Some (run_json R r)"
| "payload_json R (Health h) = Some (health_json h)"
| "payload_json R _ = None"

section \<open>Schemas\<close>

text \<open>
  A property of a DTO is a string, with a format that only annotates it, a number, or one of an enum's
  values; \<open>nullable\<close> lets it be null. Every property is required.
\<close>

datatype field_type =
    AString "string option"
  | ANumber
  | OneOf "string list"
  | OrNull field_type

type_synonym schema = "(string \<times> field_type) list"

definition STATUSES :: field_type where
  "STATUSES = OneOf (map status_name status_values)"

definition settlement_response_dto :: schema where
  "settlement_response_dto =
     [(''id'', AString (Some ''uuid'')),
      (''instructionId'', AString None),
      (''toAddress'', AString None),
      (''amount'', AString None),
      (''status'', STATUSES),
      (''txHash'', OrNull (AString None)),
      (''nonce'', OrNull ANumber),
      (''failureReason'', OrNull (AString None)),
      (''retryCount'', ANumber),
      (''confirmations'', OrNull ANumber),
      (''createdAt'', AString (Some ''date-time'')),
      (''updatedAt'', AString (Some ''date-time''))]"

definition status_transition_dto :: schema where
  "status_transition_dto =
     [(''id'', AString (Some ''uuid'')),
      (''settlementId'', AString (Some ''uuid'')),
      (''fromStatus'', STATUSES),
      (''toStatus'', STATUSES),
      (''txHash'', OrNull (AString None)),
      (''createdAt'', AString (Some ''date-time''))]"

definition balance_view_dto :: schema where
  "balance_view_dto =
     [(''operatorBalance'', AString None),
      (''inFlightAmount'', AString None),
      (''availableBalance'', AString None)]"

definition reconciliation_run_dto :: schema where
  "reconciliation_run_dto =
     [(''id'', AString (Some ''uuid'')),
      (''ledgerBalance'', AString None),
      (''chainBalance'', AString None),
      (''pendingAmount'', AString None),
      (''diff'', AString None),
      (''status'', OneOf [''MATCHED'', ''MISMATCH'']),
      (''createdAt'', AString (Some ''date-time''))]"

text \<open>Conformance: exactly the documented fields, each of its type.\<close>

fun has_type :: "field_type \<Rightarrow> json_value \<Rightarrow> bool" where
  "has_type (AString f) (JsText s) = True"
| "has_type ANumber (JsNumber n) = True"
| "has_type (OneOf vs) (JsText s) = (s \<in> set vs)"
| "has_type (OrNull t) v = (v = JsNull \<or> has_type t v)"
| "has_type _ _ = False"

definition fits :: "schema \<Rightarrow> json_value \<Rightarrow> bool" where
  "fits sch v = (case v of
     JsObject kvs \<Rightarrow> distinct (map fst kvs) \<and> set (map fst kvs) = set (map fst sch) \<and>
       (\<forall>(k, t) \<in> set sch. case map_of kvs k of Some x \<Rightarrow> has_type t x | None \<Rightarrow> False)
   | _ \<Rightarrow> False)"

section \<open>The decorators of the controllers\<close>

text \<open>A documented response has a schema, or only a description.\<close>

datatype response_doc = OneOfType schema | ArrayOfType schema | Described

type_synonym response_docs = "(int \<times> response_doc) list"

definition create_docs :: response_docs where
  "create_docs =
     [(201, OneOfType settlement_response_dto),
      (200, OneOfType settlement_response_dto),
      (400, Described),
      (422, Described),
      (429, Described)]"

definition list_docs :: response_docs where
  "list_docs = [(200, ArrayOfType settlement_response_dto)]"

definition get_docs :: response_docs where
  "get_docs = [(200, OneOfType settlement_response_dto)]"

definition transitions_docs :: response_docs where
  "transitions_docs = [(200, ArrayOfType status_transition_dto)]"

definition balance_docs :: response_docs where
  "balance_docs = [(200, OneOfType balance_view_dto)]"

definition reconciliation_docs :: response_docs where
  "reconciliation_docs = [(200, OneOfType reconciliation_run_dto)]"

definition ready_docs :: response_docs where
  "ready_docs = [(200, Described), (503, Described)]"

text \<open>The other routes have no response decorator.\<close>

fun documented :: "endpoint \<Rightarrow> response_docs" where
  "documented CreateSettlement = create_docs"
| "documented ListSettlements = list_docs"
| "documented (GetSettlement i) = get_docs"
| "documented (GetTransitions i) = transitions_docs"
| "documented Balance = balance_docs"
| "documented RunReconciliation = reconciliation_docs"
| "documented Ready = ready_docs"
| "documented _ = []"

fun body_fits :: "response_doc \<Rightarrow> json_value option \<Rightarrow> bool" where
  "body_fits (OneOfType sch) (Some v) = fits sch v"
| "body_fits (ArrayOfType sch) (Some (JsArray vs)) = list_all (fits sch) vs"
| "body_fits Described (Some v) = True"
| "body_fits _ _ = False"

definition conforms :: "endpoint \<Rightarrow> int \<Rightarrow> json_value option \<Rightarrow> bool" where
  "conforms ep st v = list_ex (\<lambda>(st', d). st' = st \<and> body_fits d v) (documented ep)"

end
