(* ===== verification/DocsClaims.thy ===== *)
theory DocsClaims
  imports ApiDocs ApiClaims HttpClaims
begin

text \<open>
  The API keeps its documentation: which responses each documented route gives, with which bodies, and what
  the descriptions of the schemas say about them.
\<close>

section \<open>Bodies and schemas\<close>

lemma status_listed: "status_name s \<in> set (map status_name status_values)"
  by (cases s) (simp_all add: status_values_def)

lemmas schema_defs = fits_def nullable_of_def STATUSES_def status_listed [simplified]

lemma settlement_fits: "fits settlement_response_dto (settlement_json R r)"
  by (cases "sr_txHash r"; cases "sr_nonce r"; cases "sr_failureReason r"; cases "sr_confirmations r")
     (simp_all add: settlement_json_def settlement_response_dto_def schema_defs)

lemma transition_fits: "fits status_transition_dto (transition_json R t)"
  by (cases "st_txHash t") (simp_all add: transition_json_def status_transition_dto_def schema_defs)

lemma balance_fits: "fits balance_view_dto (balance_json b)"
  by (simp add: balance_json_def balance_view_dto_def schema_defs)

lemma run_fits: "fits reconciliation_run_dto (run_json R r)"
  by (cases "rr_status r") (simp_all add: run_json_def reconciliation_run_dto_def schema_defs)

lemmas docs_defs = conforms_def create_docs_def list_docs_def get_docs_def transitions_docs_def balance_docs_def
  reconciliation_docs_def ready_docs_def

lemmas body_facts = docs_defs settlement_fits transition_fits balance_fits run_fits list.pred_set

section \<open>What a handler returns\<close>

text \<open>\<open>gives Q e m\<close>: whatever \<open>m\<close> returns satisfies \<open>Q\<close>, under any interference.\<close>

named_theorems gives_rules

definition gives :: "('a \<Rightarrow> bool) \<Rightarrow> env \<Rightarrow> 'a io \<Rightarrow> bool" where
  "gives Q e m \<longleftrightarrow> (\<forall>w a v. m e w = (Inr a, v) \<longrightarrow> Q a)"

lemma givesD: "gives Q e m \<Longrightarrow> m e w = (Inr a, v) \<Longrightarrow> Q a"
  by (auto simp: gives_def)

lemma gives_ret: "Q a \<Longrightarrow> gives Q e (ret a)"
  by (simp add: gives_def run_simps)

lemma gives_gets: "(\<And>w. Q (f e w)) \<Longrightarrow> gives Q e (gets f)"
  by (auto simp: gives_def run_simps)

lemma gives_throw [gives_rules]: "gives Q e (throw x)"
  by (simp add: gives_def run_simps)

lemma gives_seq:
  assumes "gives P e m" "\<And>a. P a \<Longrightarrow> gives Q e (k a)"
  shows "gives Q e (await m k)"
  using assms by (fastforce simp: gives_def run_simps split: prod.splits sum.splits)

lemma gives_await [gives_rules]: "(\<And>a. gives Q e (k a)) \<Longrightarrow> gives Q e (await m k)"
  by (rule gives_seq [where P = "\<lambda>_. True"]) (simp_all add: gives_def)

lemma gives_andThen [gives_rules]: "gives Q e k \<Longrightarrow> gives Q e (andThen m k)"
  by (simp add: andThen_def gives_await)

lemma gives_db_tx:
  assumes "\<And>n d a d'. f e n d = Inr (a, d') \<Longrightarrow> Q a"
  shows "gives Q e (db_tx f)"
proof -
  have "gives Q e (run_tx f)"
    using assms by (auto simp: gives_def run_tx_def split: option.splits sum.splits prod.splits)
  then show ?thesis
    unfolding db_tx_def by (rule gives_andThen [OF gives_seq]) (rule gives_andThen [OF gives_ret])
qed

lemma gives_db_read: "(\<And>d. Q (f e d)) \<Longrightarrow> gives Q e (db_read f)"
  unfolding db_read_def by (rule gives_db_tx) auto

section \<open>What the descriptions say\<close>

text \<open>Confirmations for a settlement in flight, null otherwise.\<close>

definition confirmations_documented :: "settlement_response \<Rightarrow> bool" where
  "confirmations_documented r \<longleftrightarrow> (sr_confirmations r \<noteq> None) = (sr_status r \<in> {SUBMITTED, CONFIRMED})"

definition newest_first :: "settlement_response list \<Rightarrow> bool" where
  "newest_first rs \<longleftrightarrow> sorted_wrt (\<lambda>a b. sr_createdAt b \<le> sr_createdAt a) rs"

text \<open>Available is operator balance less the amount in flight.\<close>

definition balances_documented :: "lib \<Rightarrow> balance_view \<Rightarrow> bool" where
  "balances_documented l b \<longleftrightarrow> (\<exists>operator inFlight.
     b = \<lparr>bv_operatorBalance = decToString l operator, bv_inFlightAmount = decToString l inFlight,
       bv_availableBalance = decToString l (dround l (operator - inFlight))\<rparr>)"

text \<open>The difference is ledger less pending less chain, and a match is a difference below epsilon.\<close>

definition run_documented :: "lib \<Rightarrow> reconciliation_run \<Rightarrow> bool" where
  "run_documented l r \<longleftrightarrow> (\<exists>ledgerB pendingA chainB.
     ledgerBalance r = dec6 ledgerB \<and> pendingAmount r = dec6 pendingA \<and> chainBalance r = dec6 chainB \<and>
     diff r = dec6 (dround l (dround l (ledgerB - pendingA) - chainB)) \<and>
     (rr_status r = MATCHED) = (\<bar>dround l (dround l (ledgerB - pendingA) - chainB)\<bar> < EPSILON))"

text \<open>What a success of status \<open>st\<close> with the payload \<open>p\<close> says; the readiness answer is 503 exactly when it reports a dependency down.\<close>

definition means :: "lib \<Rightarrow> endpoint \<Rightarrow> int \<Rightarrow> payload \<Rightarrow> bool" where
  "means l ep st p \<longleftrightarrow> (case ep of
     CreateSettlement \<Rightarrow> (case p of OneSettlement r \<Rightarrow> confirmations_documented r | _ \<Rightarrow> False)
   | ListSettlements \<Rightarrow> (case p of AllSettlements rs \<Rightarrow> list_all confirmations_documented rs \<and> newest_first rs | _ \<Rightarrow> False)
   | GetSettlement i \<Rightarrow> (case p of OneSettlement r \<Rightarrow> sr_id r = i \<and> confirmations_documented r | _ \<Rightarrow> False)
   | GetTransitions i \<Rightarrow> (case p of Trail ts \<Rightarrow> list_all (\<lambda>t. st_settlementId t = i) ts \<and> sorted (map st_createdAt ts) | _ \<Rightarrow> False)
   | Balance \<Rightarrow> (case p of Balances b \<Rightarrow> balances_documented l b | _ \<Rightarrow> False)
   | RunReconciliation \<Rightarrow> (case p of Run r \<Rightarrow> run_documented l r | _ \<Rightarrow> False)
   | Ready \<Rightarrow> (case p of Health h \<Rightarrow> st = (if hr_db h \<and> hr_rpc h then 200 else 503) | _ \<Rightarrow> False)
   | _ \<Rightarrow> False)"

lemma means_simps [simp]:
  "means l CreateSettlement st (OneSettlement r) = confirmations_documented r"
  "means l ListSettlements st (AllSettlements rs) = (list_all confirmations_documented rs \<and> newest_first rs)"
  "means l (GetSettlement i) st (OneSettlement r) = (sr_id r = i \<and> confirmations_documented r)"
  "means l (GetTransitions i) st (Trail ts) = (list_all (\<lambda>t. st_settlementId t = i) ts \<and> sorted (map st_createdAt ts))"
  "means l Balance st (Balances b) = balances_documented l b"
  "means l RunReconciliation st (Run u) = run_documented l u"
  "means l Ready st (Health h) = (st = (if hr_db h \<and> hr_rpc h then 200 else 503))"
  by (simp_all add: means_def)

lemma shape_documented: "confirmations_documented (shape str m s)"
  by (simp add: confirmations_documented_def shape_def IN_FLIGHT_def)

lemma gives_presentMany: "gives (\<lambda>rs. \<exists>str m. rs = map (shape str m) ss) e (presentMany ss)"
  unfolding presentMany_def Let_def by (intro gives_rules gives_gets) blast

lemma gives_present: "gives (\<lambda>r. sr_id r = sid s \<and> confirmations_documented r) e (present s)"
  unfolding present_def
  by (rule gives_seq [OF gives_presentMany]) (auto intro!: gives_ret simp: shape_documented, simp add: shape_def)

lemma gives_list: "gives (\<lambda>rs. means l ListSettlements st (AllSettlements rs)) e list_settlements"
proof -
  have rows: "gives (\<lambda>ss. sorted_wrt (\<lambda>a b. createdAt b \<le> createdAt a) ss) e listRecent"
    unfolding listRecent_def
    by (intro gives_db_read) (metis (no_types, lifting) neg_le_iff_le sorted_map sorted_sort_key sorted_wrt_mono_rel)
  show ?thesis
    unfolding list_settlements_def
  proof (rule gives_seq [OF rows])
    fix ss :: "settlement list"
    assume s: "sorted_wrt (\<lambda>a b. createdAt b \<le> createdAt a) ss"
    have "means l ListSettlements st (AllSettlements (map (shape str m) ss))" for str m
      using s by (simp add: newest_first_def sorted_wrt_map list.pred_set shape_documented) (simp add: shape_def)
    with gives_presentMany [of ss e] show "gives (\<lambda>rs. means l ListSettlements st (AllSettlements rs)) e (presentMany ss)"
      by (auto simp: gives_def)
  qed
qed

lemma gives_getById: "gives (\<lambda>s. sid s = i) e (getById i)"
proof -
  have "gives (\<lambda>found. \<forall>s. found = Some s \<longrightarrow> sid s = i) e (findById i)"
    unfolding findById_def by (rule gives_db_read) (auto dest: row_SomeD)
  then show ?thesis
    unfolding getById_def by (rule gives_seq) (auto split: option.split intro: gives_ret gives_throw)
qed

lemma gives_get: "gives (\<lambda>r. means l (GetSettlement i) st (OneSettlement r)) e (get_settlement i)"
  unfolding get_settlement_def means_simps
  by (rule gives_seq [OF gives_getById]) (use gives_present in fastforce)

lemma gives_trail: "gives (\<lambda>ts. means l (GetTransitions i) st (Trail ts)) e (get_transitions i)"
  unfolding get_transitions_def getTransitions_def state_getTransitions_def
  by (intro gives_rules gives_db_read) (auto simp: transitions_of_def list.pred_set)

lemma gives_balance: "gives (\<lambda>b. means (lib e) Balance st (Balances b)) e get_balance"
  unfolding get_balance_def balanceView_def
  by (intro gives_rules gives_gets) (auto simp: balances_documented_def)

lemma gives_run: "gives (\<lambda>r. means (lib e) RunReconciliation st (Run r)) e get_reconciliation"
proof -
  have save: "gives (run_documented (lib e)) e (await (db_tx (\<lambda>e n. insert_run \<lparr>ledgerBalance = ledgerB, chainBalance = chainB,
      pendingAmount = pendingA, diff = dif, rr_status = (if \<bar>dif\<bar> < EPSILON then MATCHED else MISMATCH),
      rr_createdAt = now e n\<rparr>)) (\<lambda>saved. andThen (modify c) (ret saved)))"
    if "dif = dround (lib e) (dround (lib e) (ledgerB - pendingA) - chainB)" for ledgerB chainB pendingA dif c
  proof (rule gives_seq [where P = "run_documented (lib e)"])
    show "gives (run_documented (lib e)) e (db_tx (\<lambda>e n. insert_run \<lparr>ledgerBalance = ledgerB, chainBalance = chainB,
        pendingAmount = pendingA, diff = dif, rr_status = (if \<bar>dif\<bar> < EPSILON then MATCHED else MISMATCH),
        rr_createdAt = now e n\<rparr>))"
      unfolding run_documented_def
      by (rule gives_db_tx, rule exI [of _ ledgerB], rule exI [of _ pendingA], rule exI [of _ chainB])
         (auto simp: insert_run_def Let_def that)
  qed (simp add: gives_andThen gives_ret)
  have dif: "gives (\<lambda>d. d = dround (lib e) (dround (lib e) (a - p) - c)) e (gets (\<lambda>e w. dround (lib e) (dround (lib e) (a - p) - c)))"
    for a p c by (rule gives_gets) simp
  show ?thesis
    unfolding get_reconciliation_def reconcile_def Let_def means_simps
    by (intro gives_await gives_seq [OF dif] save)
qed

lemma gives_health: "gives (\<lambda>h. means l Ready (hr_code h) (Health h)) e (health_ready slow)"
  unfolding health_ready_def Let_def by (intro gives_rules gives_ret) simp

section \<open>What a handler throws\<close>

text \<open>The node answers the call for the balance as the other calls, with plain exceptions.\<close>

definition plain_node :: "env \<Rightarrow> bool" where
  "plain_node e \<longleftrightarrow> plain_env e \<and> (\<forall>n x. balanceOf (rpc e n) = Inl x \<longrightarrow> plain x)"

context exceptions
begin

lemma throws_list [throws_rules]: "plain_env e \<Longrightarrow> throws P e list_settlements"
  unfolding list_settlements_def listRecent_def by (intro throws_rules)

lemma throws_getById:
  assumes "plain_env e" "\<And>m. P (HttpExn 404 ''Not Found'' m)"
  shows "throws P e (getById i)"
  unfolding getById_def
  by (intro throws_rules assms) (use assms in \<open>auto intro: throws_ret throws_throw split: option.split\<close>)

lemma throws_balance [throws_rules]: "plain_env e \<Longrightarrow> throws P e get_balance"
  unfolding get_balance_def balanceView_def getOperatorBalance_def getOpeningBalance_def sumByStatuses_def
  by (intro throws_rules)

lemma throws_sum_mined: "plain_env e \<Longrightarrow> throws P e (sum_mined ss acc)"
  by (induction ss arbitrary: acc)
     (auto intro!: throws_rules throws_rpc_call simp: plain_env_def split: option.split)

lemma throws_reconcile: "plain_node e \<Longrightarrow> throws P e get_reconciliation"
  unfolding get_reconciliation_def reconcile_def getOperatorBalance_def getOpeningBalance_def getChainBalance_def
    computeMinedPending_def findByStatuses_def Let_def plain_node_def
  by (auto intro!: throws_rules throws_rpc_call throws_sum_mined throws_db_tx simp: insert_run_def Let_def)

lemma throws_reachable: "throws P e p \<Longrightarrow> throws P e (reachable p)"
  unfolding reachable_def by (intro throws_tryCatch throws_rules)

lemma throws_withTimeout:
  fixes p :: "'a io"
  assumes "throws P e p"
  shows "throws P e (withTimeout slow p)"
proof -
  have "throws P e (andThen yield (throw (Thrown None ''timeout'')) :: 'a io)"
    by (intro throws_rules throws_throw) (simp add: plain_ok)
  with assms show ?thesis by (auto simp: withTimeout_def throws_def)
qed

lemma throws_health: "plain_env e \<Longrightarrow> throws P e (health_ready slow)"
  unfolding health_ready_def checkDb_def checkRpc_def Let_def
  by (intro throws_rules throws_reachable throws_withTimeout throws_rpc_call) (simp_all add: plain_env_def)

end

text \<open>A lookup may also end with 404.\<close>

definition lookup_exn :: "exn \<Rightarrow> bool" where
  "lookup_exn x \<longleftrightarrow> plain x \<or> (\<exists>m. x = HttpExn 404 ''Not Found'' m)"

interpretation plain_exceptions: exceptions plain
  by unfold_locales

interpretation lookup_exceptions: exceptions lookup_exn
  by unfold_locales (simp add: lookup_exn_def)

lemma lookup_throws:
  assumes "plain_env e"
  shows "throws lookup_exn e (get_settlement i)" "throws lookup_exn e (get_transitions i)"
  using assms unfolding get_settlement_def get_transitions_def getTransitions_def state_getTransitions_def
  by (intro throws_rules lookup_exceptions.throws_getById; simp add: lookup_exn_def)+

section \<open>The answers of the documented routes\<close>

text \<open>The documented behaviour of the rate limiter: it refuses with 429.\<close>

definition limiter_refuses :: "framework \<Rightarrow> bool" where
  "limiter_refuses fw \<longleftrightarrow> (\<forall>opts rq x. limiter fw opts rq = Some x \<longrightarrow> statusCode (filter_catch x) = 429)"

text \<open>
  An answer as documented: a success has a documented status, a body of its schema, and says what the
  descriptions say; a failure has a documented status, or is the generic 500, or the 404 of a lookup.
\<close>

definition documented_answer :: "rendering \<Rightarrow> lib \<Rightarrow> endpoint \<Rightarrow> payload answer \<Rightarrow> bool" where
  "documented_answer R l ep ans \<longleftrightarrow> (case ans of
     Answer st p \<Rightarrow> conforms ep st (payload_json R p) \<and> means l ep st p
   | Failure f \<Rightarrow> (statusCode f, Described) \<in> set (documented ep) \<or> f = generic_500 500 \<or>
       statusCode f = 404 \<and> (\<exists>i. ep = GetSettlement i \<or> ep = GetTransitions i))"

lemma not_found_body: "statusCode (filter_catch (thrown_of (HttpExn 404 er m))) = 404"
  by (simp add: filter_catch_def thrown_of_def)

text \<open>From what a handler returns and throws to its answer.\<close>

lemma served_documented:
  assumes "as_payload g (serve m st e w) = (Some ans, v)"
    and "gives (\<lambda>a. means l ep (st a) (g a)) e m" "\<And>a. means l ep (st a) (g a) \<Longrightarrow> conforms ep (st a) (payload_json R (g a))"
    and "throws P e m" "\<And>x. P x \<Longrightarrow> plain x \<or> (\<exists>m. x = HttpExn 404 ''Not Found'' m) \<and> (\<exists>i. ep = GetSettlement i \<or> ep = GetTransitions i)"
  shows "documented_answer R l ep ans"
proof (cases "m e w")
  case (Pair r w')
  show ?thesis
  proof (cases r)
    case (Inr a)
    with Pair assms(1) have "ans = Answer (st a) (g a)" by (simp add: as_payload_def serve_def)
    with givesD [OF assms(2)] assms(3) Pair Inr show ?thesis by (auto simp: documented_answer_def)
  next
    case (Inl x)
    with Pair assms(1) have a: "ans = Failure (filter_catch (thrown_of x))"
      by (auto simp: as_payload_def serve_def split: if_splits)
    from throwsD [OF assms(4)] Pair Inl assms(5) consider "plain x"
      | m i where "x = HttpExn 404 ''Not Found'' m" "ep = GetSettlement i \<or> ep = GetTransitions i" by blast
    then show ?thesis
      by cases (auto simp: a documented_answer_def plain_body not_found_body)
  qed
qed

lemma post_documented:
  assumes "plain_env e" "as_payload OneSettlement (post_settlements provider msgs b e w) = (Some ans, v)"
  shows "documented_answer R l CreateSettlement ans"
proof -
  obtain a where a: "post_settlements provider msgs b e w = (Some a, v)" "ans = map_answer OneSettlement a"
    using assms(2) by (cases "post_settlements provider msgs b e w") (auto simp: as_payload_def)
  have word: "confirmations_documented p" if "a = Answer st p" for st p
  proof -
    have "gives (\<lambda>(r, p). confirmations_documented p) e
        (await (create provider dto) (\<lambda>r. await (present (cr_settlement r)) (\<lambda>p. ret (r, p))))" for dto
      by (rule gives_await, rule gives_seq [OF gives_present], rule gives_ret) simp
    with a(1) that show ?thesis
      by (fastforce simp: post_settlements_def serve_def dest: givesD split: option.splits prod.splits sum.splits if_splits answer.splits)
  qed
  show ?thesis
    using post_answers [OF assms(1) a(1)] word
    by (auto simp: a(2) documented_answer_def body_facts split: answer.splits if_splits)
qed

text \<open>
  C35: The API keeps its documentation. When the limiter refuses with 429 and the node and the database throw no HTTP exceptions, every
  answer of a route with documented responses, under any interference, is as documented: a success has a
  documented status and a JSON body of exactly the fields of its schema with their types, enums and nulls,
  and what the descriptions say of it holds (confirmations exactly in flight, newest first, the
  settlement asked for, available as operator less in flight, the difference of the run and its verdict;
  the status of the readiness answer is 503 when it reports a dependency down and 200 otherwise); a failure has a documented status, or is the generic 500, or the
  404 of a lookup, which the decorators leave out.
\<close>

theorem answers_documented:
  assumes "plain_node e" "limiter_refuses fw" "dispatch (rq_method rq) (rq_path rq) = Some (t, ep)" "documented ep \<noteq> []"
    and "respond fw s rq e w = (Some ans, v)"
  shows "documented_answer R (lib e) ep ans"
proof (cases "if t then limiter fw (throttler_options s) rq else None")
  case (Some x)
  then have t: "t" "statusCode (filter_catch x) = 429" using assms(2) by (auto simp: limiter_refuses_def throttler_options_def split: if_splits)
  then have "rq_method rq = POST" "fst (path_of ep) = rq_method rq"
    using first_match_sound [OF _ routes_sound] assms(3) by (fastforce simp: dispatch_def)+
  with assms(4) have "ep = CreateSettlement" by (cases ep) auto
  with assms(3,5) Some t(2) show ?thesis by (auto simp: respond_def documented_answer_def docs_defs)
next
  case None
  have e: "plain_env e" using assms(1) by (simp add: plain_node_def)
  from assms(3,5) None have h: "handle fw ep (rq_body rq) e w = (Some ans, v)" by (simp add: respond_def)
  note sd = served_documented [where P = plain] served_documented [where P = lookup_exn]
  show ?thesis
  proof (cases ep)
    case CreateSettlement
    with h e show ?thesis by (simp add: post_documented)
  next
    case ListSettlements
    with h show ?thesis
      by (auto intro!: sd(1) [OF _ gives_list] simp: body_facts plain_exceptions.throws_list e)
  next
    case (GetSettlement i)
    with h show ?thesis
      by (auto intro!: sd(2) [OF _ gives_get] simp: body_facts lookup_throws e lookup_exn_def)
  next
    case (GetTransitions i)
    with h show ?thesis
      by (auto intro!: sd(2) [OF _ gives_trail] simp: body_facts lookup_throws e lookup_exn_def)
  next
    case Balance
    with h show ?thesis
      by (auto intro!: sd(1) [OF _ gives_balance] simp: body_facts plain_exceptions.throws_balance e)
  next
    case RunReconciliation
    with h show ?thesis
      by (auto intro!: sd(1) [OF _ gives_run] simp: body_facts plain_exceptions.throws_reconcile assms(1))
  next
    case Ready
    with h show ?thesis
      by (auto intro!: sd(1) [OF _ gives_health] simp: body_facts plain_exceptions.throws_health e)
  qed (use assms(4) in simp_all)
qed

lemma answers_documented_witness:
  "documented_answer \<lparr>iso = (\<lambda>_. ''t''), decJson = (\<lambda>_. ''40''), trail_key = (\<lambda>_. ''k''), run_key = (\<lambda>_. ''k'')\<rparr> demo_lib
     (GetTransitions ''s'') (Answer 200 (Trail (statusTransitions db_sent)))"
proof -
  let ?rq = "\<lparr>rq_method = GET, rq_path = [''settlements'', ''s'', ''transitions''], rq_body = []\<rparr>"
  have node: "plain_node calm_env" "limiter_refuses demo_framework"
    by (simp_all add: plain_node_def plain_env_def demo_rpc_def limiter_refuses_def demo_framework_def)
  have route: "dispatch (rq_method ?rq) (rq_path ?rq) = Some (False, GetTransitions ''s'')"
    by (simp add: dispatch_def routes_defs)
  have run: "fst (respond demo_framework demo_settings ?rq calm_env w_sent) = Some (Answer 200 (Trail (statusTransitions db_sent)))"
    using route by (simp add: respond_def as_payload_def serve_def get_transitions_def getTransitions_def getById_def
        findById_def state_getTransitions_def transitions_of_def row_def db_stages io_defs quiet_simps w_sent_def)
  obtain v where "respond demo_framework demo_settings ?rq calm_env w_sent = (Some (Answer 200 (Trail (statusTransitions db_sent))), v)"
    using run by (metis prod.collapse)
  from answers_documented [OF node route _ this] show ?thesis by (simp add: docs_defs)
qed

end
