(* ===== verification/Boot.thy ===== *)
theory Boot
  imports System Wss EnvConfig
begin

text \<open>
  Boot and shutdown: \<open>src/main.ts\<close>, the modules of \<open>src/app.module.ts\<close> and their lifecycle hooks, the signer
  (\<open>src/signer/\<close>) and the database connection (\<open>src/prisma/prisma.service.ts\<close>). The framework runs the hooks
  of a phase in an order of its own, which is an argument here; it runs all \<open>onModuleInit\<close> hooks before the
  first \<open>onApplicationBootstrap\<close> hook, and all hooks before the server listens. A hook that throws rejects
  the boot, and the process ends.
\<close>

section \<open>The process\<close>

record process =
  pr_world :: world
  pr_wss :: wss
  pr_connected :: bool \<comment> \<open>the database pool\<close>
  pr_cron :: "string option" \<comment> \<open>the schedule of the reconciliation job\<close>
  pr_origins :: "string list"
  pr_shutdownHooks :: bool
  pr_port :: "int option" \<comment> \<open>listening\<close>

definition no_wss :: wss where
  "no_wss = \<lparr>sockets = [], subscribed = [], reconnectAttempts = 0, shuttingDown = False, timers = [], closing = 0,
     handlers = 0, backfills = 0\<rparr>"

definition new_process :: "database \<Rightarrow> process" where
  "new_process d = \<lparr>pr_world = boot_world [] d, pr_wss = no_wss, pr_connected = False, pr_cron = None, pr_origins = [],
     pr_shutdownHooks = False, pr_port = None\<rparr>"

text \<open>What ethers, Prisma, cron and the server answer.\<close>

record platform =
  walletAddress :: "string \<Rightarrow> exn + string" \<comment> \<open>\<open>new Wallet(key).address\<close>\<close>
  connectError :: "exn option"
  cronError :: "string \<Rightarrow> exn option" \<comment> \<open>\<open>new CronJob(expression, ...)\<close>\<close>
  listenError :: "int \<Rightarrow> exn option"

section \<open>The signer\<close>

text \<open>\<open>EnvKeySigner\<close> is made once, by the factory of its module; it holds the key and gives the address.\<close>

record env_key_signer =
  signer_address :: string

definition make_signer :: "platform \<Rightarrow> settings \<Rightarrow> exn + env_key_signer" where
  "make_signer pf s = (case walletAddress pf (operatorPrivateKey s) of
     Inl x \<Rightarrow> Inl x | Inr a \<Rightarrow> Inr \<lparr>signer_address = a\<rparr>)"

section \<open>Hooks\<close>

datatype hook = ConnectDb | InitChain | ScheduleRecon | OpenLedger | RecoverRelayer | StartListener

definition init_hooks :: "hook list" where
  "init_hooks = [ConnectDb, InitChain, ScheduleRecon]"

definition bootstrap_hooks :: "hook list" where
  "bootstrap_hooks = [OpenLedger, RecoverRelayer, StartListener]"

text \<open>A handler of the service as a hook.\<close>

definition on_world :: "unit io \<Rightarrow> env \<Rightarrow> process \<Rightarrow> exn option \<times> process" where
  "on_world m e p = (case m e (pr_world p) of
     (Inl x, w) \<Rightarrow> (Some x, p\<lparr>pr_world := w\<rparr>) | (Inr _, w) \<Rightarrow> (None, p\<lparr>pr_world := w\<rparr>))"

text \<open>\<open>ChainService.onModuleInit\<close>: the address, the decimals, the first socket.\<close>

definition init_chain :: "env_key_signer \<Rightarrow> env \<Rightarrow> process \<Rightarrow> exn option \<times> process" where
  "init_chain sg e p = (case on_world (andThen (modify (\<lambda>w. w\<lparr>operatorAddress := signer_address sg\<rparr>)) chain_onModuleInit) e p of
     (None, p') \<Rightarrow> (None, p'\<lparr>pr_wss := connectWss (pr_wss p')\<rparr>)
   | (Some x, p') \<Rightarrow> (Some x, p'))"

text \<open>\<open>ReconciliationService.onModuleInit\<close>: the job is made, registered and started.\<close>

definition schedule_recon :: "platform \<Rightarrow> settings \<Rightarrow> process \<Rightarrow> exn option \<times> process" where
  "schedule_recon pf s p = (case cronError pf (reconCron s) of
     Some x \<Rightarrow> (Some x, p) | None \<Rightarrow> (None, p\<lparr>pr_cron := Some (reconCron s)\<rparr>))"

definition connect_db :: "platform \<Rightarrow> process \<Rightarrow> exn option \<times> process" where
  "connect_db pf p = (case connectError pf of Some x \<Rightarrow> (Some x, p) | None \<Rightarrow> (None, p\<lparr>pr_connected := True\<rparr>))"

fun run_hook :: "platform \<Rightarrow> settings \<Rightarrow> env_key_signer \<Rightarrow> env \<Rightarrow> hook \<Rightarrow> process \<Rightarrow> exn option \<times> process" where
  "run_hook pf s sg e ConnectDb p = connect_db pf p"
| "run_hook pf s sg e InitChain p = init_chain sg e p"
| "run_hook pf s sg e ScheduleRecon p = schedule_recon pf s p"
| "run_hook pf s sg e OpenLedger p = on_world ensureOpeningSnapshot e p"
| "run_hook pf s sg e RecoverRelayer p = on_world relayer_onApplicationBootstrap e p"
| "run_hook pf s sg e StartListener p = on_world pollConfirmations e (p\<lparr>pr_wss := listener_boot (pr_wss p)\<rparr>)"

text \<open>
  What the network does to the event socket while a hook waits: it opens, it closes, a reconnection timer
  fires, a \<open>closeWss\<close> ends. An event that cannot happen in the state at hand is none.
\<close>

fun network_event :: "wss_event \<Rightarrow> bool" where
  "network_event ListenerBoot = False"
| "network_event ModuleDestroy = False"
| "network_event _ = True"

definition socket_step :: "wss_event \<Rightarrow> wss \<Rightarrow> wss" where
  "socket_step ev s = (if network_event ev then (case wss_step ev s of Some s' \<Rightarrow> s' | None \<Rightarrow> s) else s)"

text \<open>The hooks one after the other; \<open>net h\<close> is what happens to the socket before the hook after \<open>h\<close>.\<close>

fun run_hooks :: "platform \<Rightarrow> settings \<Rightarrow> env_key_signer \<Rightarrow> env \<Rightarrow> (hook \<Rightarrow> wss_event list) \<Rightarrow> hook list \<Rightarrow> process
    \<Rightarrow> exn option \<times> process" where
  "run_hooks pf s sg e net [] p = (None, p)"
| "run_hooks pf s sg e net (h # hs) p = (case run_hook pf s sg e h p of
     (Some x, p') \<Rightarrow> (Some x, p')
   | (None, p') \<Rightarrow> run_hooks pf s sg e net hs (p'\<lparr>pr_wss := fold socket_step (net h) (pr_wss p')\<rparr>))"

section \<open>Boot\<close>

text \<open>The origins of the CORS rule.\<close>

definition enable_cors :: "settings \<Rightarrow> process \<Rightarrow> process" where
  "enable_cors s p = p\<lparr>pr_origins := allowedOrigins s\<rparr>"

text \<open>\<open>enableShutdownHooks\<close> and \<open>listen\<close>, which runs the hooks first.\<close>

definition listen :: "platform \<Rightarrow> settings \<Rightarrow> env_key_signer \<Rightarrow> hook list \<Rightarrow> env \<Rightarrow> (hook \<Rightarrow> wss_event list) \<Rightarrow> process
    \<Rightarrow> exn option \<times> process" where
  "listen pf s sg hooks e net p = (case run_hooks pf s sg e net hooks (p\<lparr>pr_shutdownHooks := True\<rparr>) of
     (Some x, p2) \<Rightarrow> (Some x, p2)
   | (None, p2) \<Rightarrow> (case listenError pf (port s) of
       Some x \<Rightarrow> (Some x, p2) | None \<Rightarrow> (None, p2\<lparr>pr_port := Some (port s)\<rparr>)))"

text \<open>\<open>bootstrap\<close>: the application is created, with the providers of its modules, configured, and listens.\<close>

definition bootstrap :: "platform \<Rightarrow> settings \<Rightarrow> hook list \<Rightarrow> hook list \<Rightarrow> env \<Rightarrow> (hook \<Rightarrow> wss_event list) \<Rightarrow> process
    \<Rightarrow> exn option \<times> process" where
  "bootstrap pf s inits boots e net p = (case make_signer pf s of
     Inl x \<Rightarrow> (Some x, p)
   | Inr sg \<Rightarrow> listen pf s sg (inits @ boots) e net (enable_cors s p))"

section \<open>Shutdown\<close>

text \<open>The \<open>onModuleDestroy\<close> hooks: the relayer drains, the event socket closes, the pool disconnects.\<close>

datatype destroy_hook = DrainRelayer | CloseChain | DisconnectDb

fun run_destroy :: "env \<Rightarrow> destroy_hook \<Rightarrow> process \<Rightarrow> process" where
  "run_destroy e DrainRelayer p = p\<lparr>pr_world := snd (relayer_onModuleDestroy e (pr_world p))\<rparr>"
| "run_destroy e CloseChain p = p\<lparr>pr_wss := chain_onModuleDestroy (pr_wss p)\<rparr>"
| "run_destroy e DisconnectDb p = p\<lparr>pr_connected := False\<rparr>"

definition shutdown :: "destroy_hook list \<Rightarrow> env \<Rightarrow> process \<Rightarrow> process" where
  "shutdown hs e p = fold (run_destroy e) hs p"

end
