(* ===== verification/BootClaims.thy ===== *)
theory BootClaims
  imports Boot ApiClaims
begin

text \<open>Properties of boot and shutdown.\<close>

section \<open>The opening balance is there before the service listens\<close>

lemma stable_genesis [simp, intro]: "stable (\<lambda>d. genesis_entry d \<noteq> None)"
  by (auto simp: stable_def evolve_def genesis_entry_def prefix_def find_append split: option.splits)

lemma snapshot_genesis: "snapshot_tx t k oper a d = Inr (u, d') \<Longrightarrow> genesis_entry d' \<noteq> None"
  by (auto simp: snapshot_tx_def insert_entry_eq genesis_entry_def find_append split: option.splits sum.splits if_splits)

lemma genesis_evolve: "evolve d d' \<Longrightarrow> genesis_entry d = Some y \<Longrightarrow> genesis_entry d' \<noteq> None"
  using stable_genesis unfolding stable_def by blast

lemma hoare_opening: "hoare (db_only db_inv) (\<lambda>_. True) ensureOpeningSnapshot (\<lambda>_ d. genesis_entry d \<noteq> None)"
  unfolding ensureOpeningSnapshot_def
proof (rule hoare_await)
  show "hoare (db_only db_inv) (\<lambda>_. True) (db_read (\<lambda>e d. genesis_entry d)) (\<lambda>x d. x \<noteq> None \<longrightarrow> genesis_entry d \<noteq> None)"
    by (rule hoare_db_read) (auto simp: stable_def dest: genesis_evolve)
  fix x
  let ?P = "\<lambda>d. True \<and> (x \<noteq> None \<longrightarrow> genesis_entry d \<noteq> None)"
  have P: "stable ?P" by (auto simp: stable_def dest: genesis_evolve)
  have tx: "hoare (db_only db_inv) (\<lambda>d. (?P d \<and> True) \<and> True) (db_tx (\<lambda>e n. snapshot_tx (now e n) (uuid e n) oper a)) (\<lambda>_ d. genesis_entry d \<noteq> None)"
    for oper a
  proof (rule hoare_db_tx)
    show "stable (\<lambda>d. (?P d \<and> True) \<and> True)" using P by simp
  qed (auto dest: snapshot_genesis intro: inv_snapshot evolve_snapshot simp del: not_None_eq)
  have first: "hoare (db_only db_inv) ?P (await getChainBalance (\<lambda>opening. await (gets (\<lambda>e. operatorAddress)) (\<lambda>operator.
        db_tx (\<lambda>e n. snapshot_tx (now e n) (uuid e n) operator opening)))) (\<lambda>_ d. genesis_entry d \<noteq> None)"
    by (rule hoare_await [OF guar_chainBalance [OF P, unfolded guar_def]], rule hoare_await [OF guar_gets [unfolded guar_def] tx])
       (use P in auto)
  show "hoare (db_only db_inv) ?P
     (if x \<noteq> None then ret () else await getChainBalance (\<lambda>opening. await (gets (\<lambda>e. operatorAddress)) (\<lambda>operator.
        db_tx (\<lambda>e n. snapshot_tx (now e n) (uuid e n) operator opening)))) (\<lambda>_ d. genesis_entry d \<noteq> None)"
    using first by (cases x) (auto intro: hoare_ret)
qed simp

section \<open>The hooks\<close>

text \<open>
  The event socket during boot: none before the chain service has made it; then, whatever the network does,
  in a state of the machine, with the listener's handler once the listener has booted.
\<close>

definition socket_done :: "bool \<Rightarrow> bool \<Rightarrow> wss \<Rightarrow> bool" where
  "socket_done made started s \<longleftrightarrow> (if made then wss_inv s \<and> \<not> shuttingDown s \<and> handlers s = (if started then 1 else 0)
     else s = no_wss)"

lemma socket_step_frame: "shuttingDown (socket_step ev s) = shuttingDown s" "handlers (socket_step ev s) = handlers s"
  by (auto simp: socket_step_def wss_step_def onopen_def onclose_def scheduleReconnect_def fire_timer_def
      unsubscribe_def reconnect_def connectWss_def runResubscribeHandlers_def subscribe_def Let_def
      split: wss_event.splits)

lemma socket_step_none: "socket_step ev no_wss = no_wss"
  by (simp add: socket_step_def wss_step_def no_wss_def split: wss_event.split)

lemma socket_done_step: "socket_done m k s \<Longrightarrow> socket_done m k (socket_step ev s)"
  using wss_inv_step [of s ev]
  by (auto simp: socket_done_def socket_step_frame socket_step_none)
     (auto simp: socket_step_def split: option.split)

lemma socket_done_net: "socket_done m k s \<Longrightarrow> socket_done m k (fold socket_step evs s)"
  by (induction evs arbitrary: s) (auto intro: socket_done_step)

lemma socket_done_made: "socket_done False False s \<Longrightarrow> socket_done True False (connectWss s)"
  by (simp add: socket_done_def no_wss_def connectWss_def wss_inv_def live_def)

lemma socket_done_started: "socket_done True False s \<Longrightarrow> socket_done True True (listener_boot s)"
  by (auto simp: socket_done_def listener_boot_def subscribe_def wss_inv_def live_def)

text \<open>What the hooks run so far have brought about.\<close>

definition hooks_done :: "settings \<Rightarrow> database \<Rightarrow> hook set \<Rightarrow> process \<Rightarrow> bool" where
  "hooks_done s d S p \<longleftrightarrow> db_inv (db (pr_world p)) \<and> evolve d (db (pr_world p)) \<and>
     (ConnectDb \<in> S \<longrightarrow> pr_connected p) \<and> (ScheduleRecon \<in> S \<longrightarrow> pr_cron p = Some (reconCron s)) \<and>
     (OpenLedger \<in> S \<longrightarrow> genesis_entry (db (pr_world p)) \<noteq> None) \<and>
     socket_done (InitChain \<in> S) (StartListener \<in> S) (pr_wss p)"

lemma on_world_guar:
  assumes "env_ok (db_only db_inv) e" "guar (db_only db_inv) (\<lambda>_. True) m" "db_inv (db (pr_world p))" "on_world m e p = (x, p')"
  shows "db_inv (db (pr_world p'))" "evolve (db (pr_world p)) (db (pr_world p'))"
    "pr_wss p' = pr_wss p" "pr_connected p' = pr_connected p" "pr_cron p' = pr_cron p" "pr_port p' = pr_port p"
    "pr_origins p' = pr_origins p"
  using guarD [OF assms(2,1,3) TrueI] assms(4) by (auto simp: on_world_def split: prod.splits sum.splits)

lemma inv_for_any: "db_inv_for (\<lambda>_. True) = db_inv"
  by (rule ext) (use db_inv_for_all in \<open>auto simp: db_inv_for_def\<close>)

lemma hook_guar:
  "guar (db_only db_inv) (\<lambda>_. True) ensureOpeningSnapshot" "guar (db_only db_inv) (\<lambda>_. True) relayer_onApplicationBootstrap"
  "guar (db_only db_inv) (\<lambda>_. True) pollConfirmations"
  "guar (db_only db_inv) (\<lambda>_. True) (andThen (modify (\<lambda>w. w\<lparr>operatorAddress := a\<rparr>)) chain_onModuleInit)"
  using rail.guar_snapshot [of "\<lambda>_. True"] rail.guar_bootstrap [of "\<lambda>_. True"] rail.guar_poll [of "\<lambda>_. True"]
  by (simp_all add: inv_for_any guar_andThen guar_modify guar_chain_init)

lemma run_hook_safe:
  assumes "env_ok (db_only db_inv) e" "db_inv (db (pr_world p))" "run_hook pf s sg e h p = (x, p')"
  shows "db_inv (db (pr_world p')) \<and> evolve (db (pr_world p)) (db (pr_world p')) \<and> pr_port p' = pr_port p \<and>
    pr_origins p' = pr_origins p"
proof (cases h)
  case InitChain
  with assms(3) obtain x1 p1 where "on_world (andThen (modify (\<lambda>w. w\<lparr>operatorAddress := signer_address sg\<rparr>)) chain_onModuleInit) e p = (x1, p1)"
    "p' = p1 \<or> p' = p1\<lparr>pr_wss := connectWss (pr_wss p1)\<rparr>"
    by (auto simp: init_chain_def split: prod.splits option.splits)
  with on_world_guar [OF assms(1) hook_guar(4) assms(2)] show ?thesis by auto
next
  case StartListener
  with assms(3) on_world_guar [OF assms(1) hook_guar(3), of "p\<lparr>pr_wss := listener_boot (pr_wss p)\<rparr>" x p'] assms(2)
  show ?thesis by simp
qed (use assms on_world_guar [OF assms(1) hook_guar(1) assms(2), of x p'] on_world_guar [OF assms(1) hook_guar(2) assms(2), of x p']
     in \<open>auto simp: connect_db_def schedule_recon_def split: option.splits\<close>)

lemma run_hooks_safe:
  assumes "env_ok (db_only db_inv) e" "db_inv (db (pr_world p))" "run_hooks pf s sg e net hs p = (x, p')"
  shows "db_inv (db (pr_world p')) \<and> evolve (db (pr_world p)) (db (pr_world p')) \<and> pr_port p' = pr_port p \<and>
    pr_origins p' = pr_origins p"
  using assms(2,3)
proof (induction hs arbitrary: p)
  case (Cons h hs)
  obtain x1 p1 where one: "run_hook pf s sg e h p = (x1, p1)" by fastforce
  note safe = run_hook_safe [OF assms(1) Cons.prems(1) one]
  show ?case
  proof (cases x1)
    case None
    with Cons.IH [of "p1\<lparr>pr_wss := fold socket_step (net h) (pr_wss p1)\<rparr>"] safe Cons.prems(2) one
    show ?thesis by (auto intro: evolve_trans)
  qed (use Cons.prems(2) one safe in simp)
qed simp

text \<open>Each hook that returns adds its part, when the event socket is opened before the listener subscribes to it.\<close>

lemma run_hook_done:
  assumes "env_ok (db_only db_inv) e" "hooks_done s d S p" "run_hook pf s sg e h p = (None, p')" "h \<notin> S"
    and "h = InitChain \<Longrightarrow> StartListener \<notin> S" "h = StartListener \<Longrightarrow> InitChain \<in> S"
  shows "hooks_done s d (insert h S) p'"
proof -
  have inv: "db_inv (db (pr_world p))" and ev: "evolve d (db (pr_world p))" using assms(2) by (simp_all add: hooks_done_def)
  note safe = run_hook_safe [OF assms(1) inv assms(3)]
  then have new: "db_inv (db (pr_world p'))" "evolve d (db (pr_world p'))" using ev by (auto intro: evolve_trans)
  have old: "genesis_entry (db (pr_world p)) \<noteq> None \<Longrightarrow> genesis_entry (db (pr_world p')) \<noteq> None"
    using safe by (auto dest: genesis_evolve)
  show ?thesis
  proof (cases h)
    case OpenLedger
    with assms(3) have run: "on_world ensureOpeningSnapshot e p = (None, p')" by simp
    then have "genesis_entry (db (pr_world p')) \<noteq> None"
      using hoare_opening assms(1) inv by (auto simp: on_world_def hoare_def split: prod.splits sum.splits) (metis fst_conv snd_conv)
    with assms(2,4) new OpenLedger on_world_guar [OF assms(1) hook_guar(1) inv run] show ?thesis by (simp add: hooks_done_def)
  next
    case RecoverRelayer
    with assms(3) have run: "on_world relayer_onApplicationBootstrap e p = (None, p')" by simp
    with assms(2,4) new old RecoverRelayer on_world_guar [OF assms(1) hook_guar(2) inv run] show ?thesis
      by (simp add: hooks_done_def)
  next
    case StartListener
    with assms(3) have run: "on_world pollConfirmations e (p\<lparr>pr_wss := listener_boot (pr_wss p)\<rparr>) = (None, p')" by simp
    have "socket_done True True (listener_boot (pr_wss p))"
      using assms(2,4,6) StartListener by (intro socket_done_started) (simp add: hooks_done_def)
    with assms(2,4,6) new old StartListener inv on_world_guar [OF assms(1) hook_guar(3) _ run] show ?thesis
      by (simp add: hooks_done_def)
  next
    case InitChain
    with assms(3) obtain p1 where run: "on_world (andThen (modify (\<lambda>w. w\<lparr>operatorAddress := signer_address sg\<rparr>)) chain_onModuleInit) e p = (None, p1)"
      "p' = p1\<lparr>pr_wss := connectWss (pr_wss p1)\<rparr>"
      by (auto simp: init_chain_def split: prod.splits option.splits)
    have "socket_done True False (connectWss (pr_wss p))"
      using assms(2,4,5) InitChain by (intro socket_done_made) (simp add: hooks_done_def)
    with assms(2,4,5) new old InitChain on_world_guar [OF assms(1) hook_guar(4) inv run(1)] run(2) show ?thesis
      by (simp add: hooks_done_def)
  qed (use assms(2-4) in \<open>auto simp: hooks_done_def connect_db_def schedule_recon_def Let_def split: option.splits\<close>)
qed

lemma run_hooks_done:
  assumes "env_ok (db_only db_inv) e" "hooks_done s d S p" "run_hooks pf s sg e net hs p = (None, p')" "distinct hs" "set hs \<inter> S = {}"
    and "InitChain \<in> set hs \<Longrightarrow> StartListener \<notin> S \<union> set hs" "StartListener \<in> set hs \<Longrightarrow> InitChain \<in> S"
  shows "hooks_done s d (S \<union> set hs) p'"
  using assms(2-7)
proof (induction hs arbitrary: p S)
  case (Cons h hs)
  obtain x1 p1 where one: "run_hook pf s sg e h p = (x1, p1)" by fastforce
  with Cons.prems(2) have x1: "x1 = None" and rest: "run_hooks pf s sg e net hs (p1\<lparr>pr_wss := fold socket_step (net h) (pr_wss p1)\<rparr>) = (None, p')"
    by (auto split: option.splits)
  have "hooks_done s d (insert h S) p1"
    using one x1 Cons.prems by (intro run_hook_done [OF assms(1) Cons.prems(1)]) auto
  then have "hooks_done s d (insert h S) (p1\<lparr>pr_wss := fold socket_step (net h) (pr_wss p1)\<rparr>)"
    by (simp add: hooks_done_def socket_done_net)
  from Cons.IH [OF this rest] Cons.prems show ?case by auto
qed simp

lemma run_hooks_append: "run_hooks pf s sg e net (hs @ ks) p =
    (case run_hooks pf s sg e net hs p of (Some x, p') \<Rightarrow> (Some x, p') | (None, p') \<Rightarrow> run_hooks pf s sg e net ks p')"
  by (induction hs arbitrary: p) (auto split: prod.splits option.splits)

text \<open>
  C40: The service listens only when it is ready. In whatever order the framework runs the hooks of a phase,
  and whatever the node, the database, other processes and the event socket do meanwhile, boot keeps the
  database's invariant and its history; when any step throws the service does not listen; and when it
  listens, the opening balance is booked, the pool is connected, the reconciliation job is scheduled as
  configured, and only the configured origins are allowed. The event socket is made by then, with the
  listener's one handler; boot does not wait for it to open, so it may be connecting, open or lost, but
  either the current connection is not closed and has its Transfer subscription, or one timer or one
  reconnection, and not both, is under way to the next.
\<close>

theorem boot_ready:
  assumes "mset inits = mset init_hooks" "mset boots = mset bootstrap_hooks" "db_inv d" "env_ok (db_only db_inv) e"
  shows "let (x, p) = bootstrap pf s inits boots e net (new_process d); k = pr_wss p in
    db_inv (db (pr_world p)) \<and> evolve d (db (pr_world p)) \<and>
    (case x of Some err \<Rightarrow> pr_port p = None
     | None \<Rightarrow> pr_port p = Some (port s) \<and> genesis_entry (db (pr_world p)) \<noteq> None \<and> pr_connected p \<and>
         pr_cron p = Some (reconCron s) \<and> pr_origins p = allowedOrigins s \<and>
         handlers k = 1 \<and> \<not> shuttingDown k \<and>
         (if live k then last (subscribed k) \<and> timers k = [] \<and> closing k = 0
          else length (timers k) + closing k = 1))"
proof -
  let ?p1 = "(new_process d)\<lparr>pr_origins := allowedOrigins s, pr_shutdownHooks := True\<rparr>"
  have sets: "set inits = {ConnectDb, InitChain, ScheduleRecon}" "set boots = {OpenLedger, RecoverRelayer, StartListener}"
    using mset_eq_setD [OF assms(1)] mset_eq_setD [OF assms(2)] by (simp_all add: init_hooks_def bootstrap_hooks_def)
  have dist: "distinct inits" "distinct boots"
    using mset_eq_imp_distinct_iff [OF assms(1)] mset_eq_imp_distinct_iff [OF assms(2)]
    by (simp_all add: init_hooks_def bootstrap_hooks_def)
  have d: "db (pr_world ?p1) = d" "pr_port ?p1 = None" by (simp_all add: new_process_def boot_world_def)
  have start: "hooks_done s d {} ?p1" using assms(3) d by (simp add: hooks_done_def new_process_def socket_done_def)
  have ready: "hooks_done s d (set inits \<union> set boots) p" if "run_hooks pf s sg e net (inits @ boots) ?p1 = (None, p)" for sg p
  proof -
    from that obtain p' where p': "run_hooks pf s sg e net inits ?p1 = (None, p')" "run_hooks pf s sg e net boots p' = (None, p)"
      by (auto simp: run_hooks_append split: prod.splits option.splits)
    have "hooks_done s d ({} \<union> set inits) p'" by (rule run_hooks_done [OF assms(4) start p'(1)]) (simp_all add: dist sets)
    from run_hooks_done [OF assms(4) this p'(2)] show ?thesis by (simp add: dist sets)
  qed
  show ?thesis
  proof (cases "make_signer pf s")
    case (Inl x)
    then show ?thesis using assms(3) by (simp add: bootstrap_def new_process_def boot_world_def)
  next
    case (Inr sg)
    obtain x p where run: "run_hooks pf s sg e net (inits @ boots) ?p1 = (x, p)" by fastforce
    have safe: "db_inv (db (pr_world p))" "evolve d (db (pr_world p))" "pr_port p = None" "pr_origins p = allowedOrigins s"
      using run_hooks_safe [OF assms(4) _ run] assms(3) d by simp_all
    show ?thesis
    proof (cases x)
      case None
      with ready run have "hooks_done s d (set inits \<union> set boots) p" by simp
      moreover from this have "socket_done True True (pr_wss p)" by (simp add: hooks_done_def sets)
      then have "handlers (pr_wss p) = 1 \<and> \<not> shuttingDown (pr_wss p) \<and> (if live (pr_wss p)
          then last (subscribed (pr_wss p)) \<and> timers (pr_wss p) = [] \<and> closing (pr_wss p) = 0
          else length (timers (pr_wss p)) + closing (pr_wss p) = 1)"
        by (auto simp: socket_done_def wss_inv_def split: if_splits)
      ultimately show ?thesis using safe None run Inr
        by (auto simp: bootstrap_def listen_def enable_cors_def hooks_done_def Let_def sets split: option.splits)
    qed (use safe run Inr in \<open>simp add: bootstrap_def listen_def enable_cors_def\<close>)
  qed
qed

text \<open>A first boot on an empty database.\<close>

definition boot_platform :: platform where
  "boot_platform = \<lparr>walletAddress = (\<lambda>_. Inr ''op''), connectError = None, cronError = (\<lambda>_. None), listenError = (\<lambda>_. None)\<rparr>"

text \<open>The socket opens and is lost after the listener has subscribed and before the service listens.\<close>

definition boot_net :: "hook \<Rightarrow> wss_event list" where
  "boot_net h = (if h = StartListener then [SocketOpen 0, SocketClose 0] else [])"

lemma boot_returns: "fst (bootstrap boot_platform demo_settings [ScheduleRecon, InitChain, ConnectDb]
    [StartListener, OpenLedger, RecoverRelayer] calm_env boot_net (new_process empty_db)) = None"
  by (simp add: bootstrap_def listen_def enable_cors_def make_signer_def boot_platform_def schedule_recon_def init_chain_def connect_db_def on_world_def
      chain_onModuleInit_def demo_settings_def new_process_def boot_world_def empty_db_def ensureOpeningSnapshot_def
      getChainBalance_def newDecimal_io_def pollConfirmations_def relayer_onApplicationBootstrap_def recoverInFlight_def
      Let_def demo_simps state_simps ledger_simps)

lemma boot_ready_witness:
  "let (x, p) = bootstrap boot_platform demo_settings [ScheduleRecon, InitChain, ConnectDb]
      [StartListener, OpenLedger, RecoverRelayer] calm_env boot_net (new_process empty_db)
   in x = None \<and> db_inv (db (pr_world p)) \<and> pr_port p = Some 3000 \<and> genesis_entry (db (pr_world p)) \<noteq> None \<and>
     handlers (pr_wss p) = 1"
proof -
  have "env_ok (db_only db_inv) calm_env" by (simp add: env_ok_def demo_env_def)
  then show ?thesis
    using boot_ready [of "[ScheduleRecon, InitChain, ConnectDb]" "[StartListener, OpenLedger, RecoverRelayer]" empty_db calm_env
        boot_platform demo_settings boot_net] db_inv_empty boot_returns
    by (auto simp: init_hooks_def bootstrap_hooks_def demo_settings_def Let_def split: prod.splits option.splits)
qed

section \<open>Shutdown\<close>

text \<open>
  Shutdown is complete in any order of its hooks: the relayer drains, the event socket does not come back,
  the pool is closed, and the database is as it was.
\<close>

theorem shutdown_complete:
  assumes "mset hs = mset [DrainRelayer, CloseChain, DisconnectDb]"
  shows "let q = shutdown hs e p in draining (pr_world q) \<and> shuttingDown (pr_wss q) \<and> \<not> pr_connected q \<and>
    db (pr_world q) = db (pr_world p)"
proof -
  have "(draining (pr_world (shutdown hs e p)) \<longleftrightarrow> draining (pr_world p) \<or> DrainRelayer \<in> set hs) \<and>
      (shuttingDown (pr_wss (shutdown hs e p)) \<longleftrightarrow> shuttingDown (pr_wss p) \<or> CloseChain \<in> set hs) \<and>
      (pr_connected (shutdown hs e p) \<longleftrightarrow> pr_connected p \<and> DisconnectDb \<notin> set hs) \<and>
      db (pr_world (shutdown hs e p)) = db (pr_world p)" for hs
  proof (induction hs arbitrary: p)
    case (Cons h hs)
    from Cons [of "run_destroy e h p"] show ?case
      by (cases h) (auto simp: shutdown_def relayer_onModuleDestroy_def run_simps chain_onModuleDestroy_def unsubscribe_def)
  qed (simp add: shutdown_def)
  moreover have "set hs = {DrainRelayer, CloseChain, DisconnectDb}" using mset_eq_setD [OF assms] by simp
  ultimately show ?thesis by (simp add: Let_def)
qed

end
