(* ===== verification/Spec2Isabelle.thy ===== *)
theory Spec2Isabelle
  imports Safety LedgerClaims SubmissionClaims RelayerClaims RecoveryClaims HazardClaims
    ListenerClaims TerminalClaims ReconClaims OutboxClaims MutexClaims WssClaims
    EscrowClaims DvpClaims EscrowSystemClaims AmountClaims HttpClaims OperationsClaims
    AccountClaims CatchUpClaims EndToEnd JointClaims LiveRail ApiClaims DocsClaims BootClaims
begin

text \<open>
  A model of the USDC settlement rail (a NestJS service in TypeScript, \<open>src/\<close>), translated handler by
  handler, with the properties that make it correct.

  THE PROGRAM. A client posts a settlement instruction (\<open>settlements/\<close>); it is checked against the
  available balance, stored as RECEIVED, screened (\<open>compliance/\<close>) and, when approved, queued. The
  relayer (\<open>relayer/\<close>) sends one USDC transfer per job from the operator's wallet, with a local nonce,
  retries and a sweep that resends stuck transactions. The chain listener (\<open>chain-listener/\<close>) follows
  the receipts: CONFIRMED, FINAL, FAILED, or back to SUBMITTED after a reorg; FINAL books the
  double-entry ledger (\<open>ledger/\<close>). Every status change goes through \<open>settlement-state/\<close>, which writes
  the audit row and the outbox event in the same transaction; \<open>outbox/\<close> ships the events;
  \<open>reconciliation/\<close> compares ledger and chain. Beside the rail, \<open>dvp/\<close> locks USDC in an escrow contract
  (\<open>contracts/\<close>) and releases it on request. \<open>chain/\<close> keeps the connections, \<open>observability/\<close> and \<open>health/\<close>
  show the state, \<open>config/\<close> validates the environment, \<open>app.module.ts\<close>, \<open>main.ts\<close> and the controllers put the parts
  together and on the air. The handlers share the database and the process's memory, and interleave at their
  awaits. \<open>scripts/live-verify.mjs\<close> checks a deployment from outside, by requests.

  THE MODEL. \<open>Prelude\<close> has generic lemmas. \<open>Schema\<close> is \<open>prisma/schema.prisma\<close>: one datatype per enum,
  one record per table, the database as the record of the tables (lists in order of insertion).
  \<open>Io\<close> has the effects: a handler is a function from an environment and a world (database, memory,
  metrics, traces of the outputs) to a result or an exception and a new world. At each await
  (\<open>yield\<close>) the environment may end the process or change the world, as the other tasks do. One query or
  transaction runs atomically between two awaits. One theory per service follows, with the names of the
  code: \<open>SettlementState\<close>, \<open>Chain\<close>, \<open>Ledger\<close>, \<open>Compliance\<close>, \<open>TxError\<close>, \<open>Relayer\<close>, \<open>ChainListener\<close>,
  \<open>Settlements\<close>, \<open>Reconciliation\<close>, \<open>Outbox\<close>; a transaction is a function on the database (suffix \<open>_tx\<close>),
  the handler wraps it in its awaits. \<open>Erc20\<close> and \<open>Escrow\<close> are the contracts: functions on their storage
  over 256-bit words that revert or change it, the token behind the interface \<open>erc20\<close>; \<open>Dvp\<close> is the service
  over them. \<open>Validation\<close> and \<open>Http\<close> are the validators, the presenter, the exception filter and the
  controllers, \<open>Observability\<close> the metrics collector and the probes, \<open>EnvConfig\<close> the configuration;
  \<open>Outbox\<close> also has the publishers it can be bound to. \<open>Mutex\<close> and \<open>Wss\<close> are machines of their own: the promise chain of
  the broadcast mutex, and the hooks of the event socket. \<open>System\<close> has the tasks the framework starts,
  restarts, and the worlds they can reach in any interleaving. \<open>Api\<close> has the routes with their guards, and the way of a
  request through throttler, prefix, controller and filter to its answer; \<open>Boot\<close> the choice of the signer, the hooks of start
  and shutdown in the framework's order, what the network does to the event socket between them, CORS and the port. \<open>LiveVerify\<close> is the script: its tests with the lines they
  print, over a deployment that answers requests and moves on while the script sleeps. \<open>ApiDocs\<close> is the documented contract:
  the response schemas of the DTO classes, the response decorators of the controllers, and the JSON bodies.

  THE PROOFS. \<open>Rely\<close> is a rely-guarantee logic: \<open>guar I P m\<close> says that \<open>m\<close> keeps the invariant \<open>I\<close> (of the database and
  of the transfer calls the process has made) and only appends to the database, under any interference that does the same, any outage and any crash. Because the
  environment may end a handler at each await, the guarantee holds at each await, so that the tasks keep
  the invariant together. \<open>Protocol\<close> proves it for every handler from the laws of the transactions (the
  locale \<open>db_protocol\<close>), \<open>Invariants\<close> proves these laws for the database invariant (the interpretation
  \<open>rail\<close>) and for that invariant with the calls backed by approved settlements (the interpretation \<open>paid\<close>).
  \<open>Safety\<close> draws the properties of all runs from it: money, calls, trail, events, screening.
  \<open>TerminalClaims\<close> uses the same logic for the statuses that must not change. \<open>LedgerSpec\<close>,
  \<open>SubmissionSpec\<close>, \<open>RelayerSpec\<close> give each operation's exact effect when nothing interferes and the
  abstract views (a booking ledger, the available balance, the decided job), \<open>ListenerSpec\<close> and
  \<open>ReconSpec\<close> those of the listener and of reconciliation; \<open>LedgerClaims\<close>,
  \<open>SubmissionClaims\<close>, \<open>RelayerClaims\<close>, \<open>RecoveryClaims\<close>, \<open>ListenerClaims\<close>, \<open>ReconClaims\<close> and
  \<open>OutboxClaims\<close> the properties of the handlers on every branch, the relay without a broker included.
  \<open>Quiet\<close> is a logic of runs without interference: \<open>runs e P m Q X\<close> gives the post-condition for a return and for
  an exception, one rule per combinator. With it the account of the rail against the chain is followed through every
  task: \<open>Accounting\<close> has the relation \<open>books\<close> between rows, ledger and the transfers sent, kept by each transaction;
  \<open>AccountRuns\<close>, \<open>AccountTasks\<close>, \<open>AccountSends\<close>, \<open>AccountRest\<close> and \<open>AccountService\<close> prove it for the listener, the polls,
  the worker, sweep and recovery, and the services; \<open>AccountSystem\<close> has the runs of whole tasks on an honest node
  (\<open>honest_run\<close>), and \<open>AccountClaims\<close> the agreement of ledger and chain in all of them, with the runs on a less kind
  chain in which it is lost. \<open>CatchUp\<close> and \<open>CatchUpClaims\<close> add progress: one poll brings every open row to the status its
  receipt calls for; \<open>EndToEnd\<close> follows one settlement through request, worker, chain and poll.
  \<open>JointAccount\<close>, \<open>JointRuns\<close> and \<open>JointClaims\<close> put rail and DvP service on one account: the token of the
  contracts executes the rail's mined transfers beside the deals and the calls of others (\<open>joint_run\<close>), and the
  difference that reconciliation reports is shown to be what the deals and the others moved. \<open>Surface\<close> adds the requests and probes that
  only read to the tasks that keep the invariant. \<open>EscrowClaims\<close> rests on an invariant of the contract
  over all calls of all accounts (locale \<open>erc20\<close>, interpreted by the repository's token), \<open>DvpClaims\<close> on the
  service's runs over it; \<open>EscrowSystem\<close> shows for any invariant of the chain's part of the world that every task of the rail keeps it (locales
  \<open>world_inv\<close> and \<open>escrow_client\<close>), and with it that in all interleavings the deals are those that were asked for (\<open>dvp_run\<close>)
  and the contract stays solvent (\<open>rail_reach\<close>; \<open>EscrowSystemClaims\<close>); \<open>MutexClaims\<close> and \<open>WssClaims\<close> on invariants of the two machines. \<open>Throws\<close> is a logic of
  the exceptions a handler can end with (locale \<open>exceptions\<close>), from which \<open>HttpClaims\<close> gets the answers of the
  API; \<open>AmountClaims\<close> follows amounts from the request to base units, \<open>OperationsClaims\<close> has gauges, probes and
  configuration. \<open>QuietReads\<close> has the handlers
  that leave the world as it is; \<open>ApiClaims\<close> draws from it what a GET can change, and that each route is reached;
  \<open>DocsClaims\<close> has a logic of what a handler can return, and with it that answers keep to the documented statuses, schemas
  and descriptions.
  \<open>BootClaims\<close> shows that a service which listens has its opening snapshot and its connections, and that the shutdown
  hooks leave nothing running. \<open>LiveClaims\<close> has the script's polls and its exit code, \<open>LiveRail\<close> the script
  against the model of the service: which of its checks pass. \<open>HazardClaims\<close>, and the last sections of
  \<open>DvpClaims\<close> and \<open>WssClaims\<close>, have the runs in which the code does not do what it means to. \<open>Scenario\<close> is a concrete run evaluated in the kernel, from which
  the instances are taken.

  BOUNDS. The send loop ends because the retry count grows to \<open>maxRetries\<close>; its recursion is total. The worker's loop runs
  over a queue that other tasks extend, and takes fuel: one unit more than the jobs it meets is enough
  (\<open>worker_consecutive_nonces\<close> shows that the loop ends by its condition).

  ASSUMPTIONS. Third-party code is a parameter: ethers and decimal.js functions (\<open>lib\<close>), the RPC node
  (\<open>rpc\<close>), the compliance provider and the broker. What is relied on is stated where it is used, e.g.
  that \<open>Decimal\<close> is exact for six places below 10^14 (\<open>dround_ok\<close>). Amounts are rationals, rounded to
  six places where a Decimal(38, 6) column stores them (\<open>dec6\<close>); the transactions do not model the bound of 38 digits, from
  which on the column refuses an amount (\<open>numeric_38_6\<close> of \<open>AmountClaims\<close>). A
  transaction sees and changes one state of the database: anomalies of weaker isolation are left out. The database refuses
  a transaction before it runs; a commit whose answer is lost is left out. Queries without an order return the rows in any
  order (\<open>scan\<close>); where a query orders by time, rows of equal time come in the order of insertion, which Postgres does not promise.
  Where the code runs reads with \<open>Promise.all\<close>, the model runs them in order. Contract state is reached through
  calls: a transaction is estimated on the current state, sent with the pending nonce, and has been
  mined when its wait returns; the ABI refuses numbers out of range, the token does not call back
  into the escrow, events of the token, gas, and the public mint of the test token are left out. The node's USDC balance (\<open>balanceOf\<close> of \<open>rpc\<close>) is tied to
  the token of the DvP model only where a theorem says so (\<open>joint_run\<close>). Joi's reading of numbers and URIs, the
  broker's \<open>XADD\<close> and the messages of failed validation rules are parameters. A task started with
  \<open>void\<close> is recorded in \<open>spawned\<close> and runs as a task of its own, from its first line on: the worker that a
  submission starts takes its first job before the submission goes on, where the model leaves the job in the queue. Logging is omitted, messages are
  lower-cased in ASCII, the gas counter is exact where JavaScript has a double. Routes are tried in the order of the
  modules, the first match wins; segments are compared letter by letter, and the trailing slashes, other letter cases and HEAD requests that the
  framework's router also takes are left out. The order of the hooks within one phase is an argument. The
  compliance provider is a function of the address: that it was called leaves no trace. A timer of the script does not fire early, and its clock does not go back. The
  posts the script sends together are answered together, its polls of one batch run in step, and its names
  are written in ASCII.

  NOT MODELLED. Dependency injection and the rate limiter itself (a parameter; which routes it guards, and with which numbers, is
  modelled), security headers, the document and pages that OpenAPI makes of the decorators, the formats of its strings, the rendering of metrics by prom-client, the inside
  of ethers' wallet, the Redis connection, logging: library calls and glue without state of the rail.

  LEFT OPEN. The mutex is a machine of its own; in the handlers it is a wait for the turn, during which anything may
  happen. The event socket is one too; the polls it starts are tasks that may start at any time. A
  reorganisation of a joint run takes back transfers of the rail one at a time, not deals.
\<close>

end
